(* ===== verification/Prelude.thy ===== *)
theory Prelude
  imports Main "HOL-Library.Sublist"
begin

text \<open>
  The prelude of the development: the sum type as Python's "value or exception", Python strings
  as UTF-8 byte strings with the operations the code uses (\<open>strip\<close>, \<open>split\<close>, slices, \<open>in\<close>), and
  the generic lemmas the components share.
\<close>

section \<open>Collections of facts\<close>

named_theorems result_simps \<open>inverting a computation that may raise\<close>
named_theorems frame_simps \<open>what an operation leaves unchanged\<close>

section \<open>Results: a value or a raised exception\<close>

text \<open>
  A computation that may raise is a value of \<open>'e + 'a\<close>: \<open>Inl\<close> is the exception that leaves the
  function, \<open>Inr\<close> its result. \<open>and_then\<close> is the sequencing of Python statements.
\<close>

definition and_then :: "'e + 'a \<Rightarrow> ('a \<Rightarrow> 'e + 'b) \<Rightarrow> 'e + 'b" where
  "and_then r f = (case r of Inl e \<Rightarrow> Inl e | Inr x \<Rightarrow> f x)"

lemma and_then_simps [simp]:
  "and_then (Inl e) f = Inl e"
  "and_then (Inr x) f = f x"
  by (simp_all add: and_then_def)

lemma and_then_eq_Inr [result_simps]:
  "and_then r f = Inr y \<longleftrightarrow> (\<exists>x. r = Inr x \<and> f x = Inr y)"
  by (cases r) auto

lemma and_then_eq_Inl [result_simps]:
  "and_then r f = Inl e \<longleftrightarrow> r = Inl e \<or> (\<exists>x. r = Inr x \<and> f x = Inl e)"
  by (cases r) auto

lemma and_then_assoc: "and_then (and_then r f) g = and_then r (\<lambda>x. and_then (f x) g)"
  by (cases r) auto

text \<open>\<open>raise_if b e k\<close> is \<^verbatim>\<open>if b: raise e\<close> followed by the rest \<open>k\<close> of the function.\<close>

definition raise_if :: "bool \<Rightarrow> 'e \<Rightarrow> 'e + 'a \<Rightarrow> 'e + 'a" where
  "raise_if b e k = (if b then Inl e else k)"

lemma raise_if_simps [simp]:
  "raise_if True e k = Inl e"
  "raise_if False e k = k"
  by (simp_all add: raise_if_def)

lemma raise_if_eq_Inr [result_simps]: "raise_if b e k = Inr y \<longleftrightarrow> \<not> b \<and> k = Inr y"
  by (simp add: raise_if_def)

lemma raise_if_eq_Inl [result_simps]:
  "raise_if b e k = Inl e' \<longleftrightarrow> (b \<and> e' = e) \<or> (\<not> b \<and> k = Inl e')"
  by (auto simp: raise_if_def)

section \<open>Computations over a state\<close>

text \<open>
  A computation over a state returns its result or the exception, and the state it leaves in either case.
  \<open>then_with\<close> is the sequencing of statements: what was changed before an exception stays changed.
\<close>

definition then_with :: "('s \<Rightarrow> ('e + 'a) \<times> 's) \<Rightarrow> ('a \<Rightarrow> 's \<Rightarrow> ('e + 'b) \<times> 's) \<Rightarrow> 's \<Rightarrow> ('e + 'b) \<times> 's" where
  "then_with m f s = (case m s of (Inl e, s') \<Rightarrow> (Inl e, s') | (Inr x, s') \<Rightarrow> f x s')"

lemma then_with_Inr [result_simps]:
  "then_with m f s = (Inr y, s') \<longleftrightarrow> (\<exists>x s1. m s = (Inr x, s1) \<and> f x s1 = (Inr y, s'))"
  by (auto simp: then_with_def split: prod.splits sum.splits)

lemma then_with_Inl:
  "then_with m f s = (Inl e, s') \<longleftrightarrow> m s = (Inl e, s') \<or> (\<exists>x s1. m s = (Inr x, s1) \<and> f x s1 = (Inl e, s'))"
  by (auto simp: then_with_def split: prod.splits sum.splits)

section \<open>Python strings\<close>

text \<open>
  A Python string is modelled by its UTF-8 encoding: a \<open>char\<close> is one byte of it. Equality,
  concatenation, \<open>in\<close> and the code-point order agree with the same operations on the bytes;
  lengths and slices count code points, so they skip continuation bytes.
\<close>

abbreviation byte_of :: "char \<Rightarrow> nat" where
  "byte_of c \<equiv> of_char c"

lemma char_of_byte: "byte_of c = n \<Longrightarrow> char_of n = c"
  by auto

definition bytes :: "nat list \<Rightarrow> string" where
  "bytes ns = map char_of ns"

definition is_ascii :: "string \<Rightarrow> bool" where
  "is_ascii s = list_all (\<lambda>c. byte_of c < 128) s"

definition is_continuation :: "char \<Rightarrow> bool" where
  "is_continuation c = (128 \<le> byte_of c \<and> byte_of c < 192)"

text \<open>\<^verbatim>\<open>len(s)\<close> and \<^verbatim>\<open>s[:n]\<close> count code points.\<close>

definition py_len :: "string \<Rightarrow> nat" where
  "py_len s = length (filter (\<lambda>c. \<not> is_continuation c) s)"

fun py_take :: "nat \<Rightarrow> string \<Rightarrow> string" where
  "py_take n [] = []"
| "py_take n (c # cs) =
     (if is_continuation c then c # py_take n cs
      else case n of 0 \<Rightarrow> [] | Suc m \<Rightarrow> c # py_take m cs)"

lemma is_ascii_simps [simp]:
  "is_ascii []"
  "is_ascii (c # s) \<longleftrightarrow> byte_of c < 128 \<and> is_ascii s"
  "is_ascii (s @ t) \<longleftrightarrow> is_ascii s \<and> is_ascii t"
  by (simp_all add: is_ascii_def)

lemma py_len_take_le: "py_len (py_take n s) \<le> n"
  by (induction n s rule: py_take.induct) (auto simp: py_len_def split: nat.splits)

lemma py_take_prefix: "prefix (py_take n s) s"
  by (induction n s rule: py_take.induct) (auto split: nat.splits)

lemma py_take_all: "py_len s \<le> n \<Longrightarrow> py_take n s = s"
  by (induction n s rule: py_take.induct) (auto simp: py_len_def split: nat.splits if_splits)

text \<open>\<^verbatim>\<open>needle in s\<close>.\<close>

fun contains :: "string \<Rightarrow> string \<Rightarrow> bool" where
  "contains needle [] = (needle = [])"
| "contains needle (c # s) = (prefix needle (c # s) \<or> contains needle s)"

lemma contains_iff: "contains needle s \<longleftrightarrow> (\<exists>a b. s = a @ needle @ b)"
proof -
  have "contains needle s \<longleftrightarrow> sublist needle s"
    by (induction s) (simp_all add: sublist_Cons_right)
  then show ?thesis by (simp add: sublist_def)
qed

text \<open>
  \<^verbatim>\<open>lower()\<close> and \<^verbatim>\<open>upper()\<close> on the ASCII letters, which is all the code relies on: it lowers error
  messages, adapter names and currency codes.
\<close>

definition ascii_lower :: "char \<Rightarrow> char" where
  "ascii_lower c = (if 65 \<le> byte_of c \<and> byte_of c \<le> 90 then char_of (byte_of c + 32) else c)"

definition ascii_upper :: "char \<Rightarrow> char" where
  "ascii_upper c = (if 97 \<le> byte_of c \<and> byte_of c \<le> 122 then char_of (byte_of c - 32) else c)"

subsection \<open>\<open>strip\<close>\<close>

text \<open>
  The characters \<^verbatim>\<open>str.strip()\<close> removes, each by its UTF-8 bytes: the ASCII ones, then U+0085,
  U+00A0, U+1680, U+2000 to U+200A, U+2028, U+2029, U+202F, U+205F and U+3000.
\<close>

definition whitespace_chars :: "string list" where
  "whitespace_chars =
     map (\<lambda>n. bytes [n]) ([9, 10, 11, 12, 13] @ [28, 29, 30, 31, 32])
     @ [bytes [194, 133], bytes [194, 160], bytes [225, 154, 128]]
     @ map (\<lambda>n. bytes [226, 128, n]) ([128, 129, 130, 131, 132, 133, 134, 135, 136, 137, 138]
         @ [168, 169, 175])
     @ [bytes [226, 129, 159], bytes [227, 128, 128]]"

definition leading_space :: "string \<Rightarrow> nat" where
  "leading_space s =
     (case find (\<lambda>w. prefix w s) whitespace_chars of None \<Rightarrow> 0 | Some w \<Rightarrow> length w)"

definition trailing_space :: "string \<Rightarrow> nat" where
  "trailing_space s =
     (case find (\<lambda>w. suffix w s) whitespace_chars of None \<Rightarrow> 0 | Some w \<Rightarrow> length w)"

lemma leading_space_le: "leading_space s \<le> length s"
  by (auto simp: leading_space_def find_Some_iff split: option.splits dest: prefix_length_le)

lemma trailing_space_le: "trailing_space s \<le> length s"
  by (auto simp: trailing_space_def find_Some_iff split: option.splits dest: suffix_length_le)

function lstrip :: "string \<Rightarrow> string" where
  "lstrip s = (if leading_space s = 0 then s else lstrip (drop (leading_space s) s))"
  by pat_completeness auto
termination
proof (relation "measure length", simp)
  fix s assume "leading_space s \<noteq> 0"
  with leading_space_le [of s] show "(drop (leading_space s) s, s) \<in> measure length"
    by simp
qed

function rstrip :: "string \<Rightarrow> string" where
  "rstrip s = (if trailing_space s = 0 then s
               else rstrip (take (length s - trailing_space s) s))"
  by pat_completeness auto
termination
proof (relation "measure length", simp)
  fix s assume "trailing_space s \<noteq> 0"
  with trailing_space_le [of s]
  show "(take (length s - trailing_space s) s, s) \<in> measure length"
    by simp
qed

declare lstrip.simps [simp del] rstrip.simps [simp del]

definition strip :: "string \<Rightarrow> string" where
  "strip s = rstrip (lstrip s)"

text \<open>\<^verbatim>\<open>not s or not s.strip()\<close>: the string is blank.\<close>

definition blank :: "string \<Rightarrow> bool" where
  "blank s = (strip s = [])"

lemma whitespace_head:
  "list_all (\<lambda>u. u \<noteq> [] \<and> byte_of (hd u) \<in> {9, 10, 11, 12, 13, 28, 29, 30, 31, 32, 194, 225, 226, 227}
     \<and> byte_of (last u) \<in> {9, 10, 11, 12, 13, 28, 29, 30, 31, 32} \<union> {128..<192}) whitespace_chars"
  by (simp add: whitespace_chars_def bytes_def)

text \<open>A string that starts and ends with a printable ASCII character is its own \<open>strip\<close>.\<close>

definition printable :: "char \<Rightarrow> bool" where
  "printable c = (32 < byte_of c \<and> byte_of c < 128)"

lemma find_NoneI: "(\<And>x. x \<in> set xs \<Longrightarrow> \<not> P x) \<Longrightarrow> find P xs = None"
  by (simp add: find_None_iff)

lemma strip_id:
  assumes "s \<noteq> []" and "printable (hd s)" and "printable (last s)"
  shows "strip s = s"
proof -
  have "find (\<lambda>u. prefix u s) whitespace_chars = None"
  proof (rule find_NoneI)
    fix u assume "u \<in> set whitespace_chars"
    with whitespace_head have "u \<noteq> []" "byte_of (hd u) \<in> {9, 10, 11, 12, 13, 28, 29, 30, 31, 32, 194, 225, 226, 227}"
      by (auto simp: list_all_iff)
    with assms(1,2) show "\<not> prefix u s" by (cases u; cases s) (auto simp: printable_def)
  qed
  then have "lstrip s = s" by (subst lstrip.simps) (simp add: leading_space_def)
  moreover have "find (\<lambda>u. suffix u s) whitespace_chars = None"
  proof (rule find_NoneI)
    fix u assume "u \<in> set whitespace_chars"
    with whitespace_head have "u \<noteq> []" "byte_of (last u) \<in> {9, 10, 11, 12, 13, 28, 29, 30, 31, 32} \<union> {128..<192}"
      by (auto simp: list_all_iff)
    with assms(1,3) show "\<not> suffix u s" by (auto simp: printable_def suffix_def)
  qed
  then have "rstrip s = s" by (subst rstrip.simps) (simp add: trailing_space_def)
  ultimately show ?thesis by (simp add: strip_def)
qed

lemma strip_Nil [simp]: "strip [] = []"
  by (simp add: strip_def lstrip.simps [of "[]"] rstrip.simps [of "[]"] le_antisym leading_space_le [of "[]", simplified] trailing_space_le [of "[]", simplified])

subsection \<open>\<open>split\<close>\<close>

text \<open>\<^verbatim>\<open>s.split(d)\<close> for a one-character separator: always at least one part.\<close>

fun split_on :: "char \<Rightarrow> string \<Rightarrow> string list" where
  "split_on d [] = [[]]"
| "split_on d (c # cs) =
     (if c = d then [] # split_on d cs
      else case split_on d cs of [] \<Rightarrow> [[c]] | p # ps \<Rightarrow> (c # p) # ps)"

lemma split_on_nonempty [simp]: "split_on d s \<noteq> []"
  by (induction s) (auto split: list.splits)

lemma split_on_none: "d \<notin> set s \<Longrightarrow> split_on d s = [s]"
  by (induction s) auto

lemma split_on_append: "d \<notin> set s \<Longrightarrow> split_on d (s @ d # t) = s # split_on d t"
  by (induction s) auto

lemma split_on_two:
  assumes "split_on d s = [a, b]"
  shows "s = a @ d # b \<and> d \<notin> set a \<and> d \<notin> set b"
proof -
  have one: "split_on d t = [x] \<Longrightarrow> t = x \<and> d \<notin> set t" for t x
  proof (induction t arbitrary: x)
    case Nil
    then show ?case by simp
  next
    case (Cons c t)
    then show ?case
      by (cases "split_on d t") (auto split: if_splits)
  qed
  show ?thesis using assms
  proof (induction s arbitrary: a)
    case Nil
    then show ?case by simp
  next
    case (Cons c s)
    show ?case
    proof (cases "c = d")
      case True
      with Cons.prems have "a = []" and "split_on d s = [b]" by auto
      moreover from this(2) have "s = b \<and> d \<notin> set s" by (rule one)
      ultimately show ?thesis using True by auto
    next
      case False
      then obtain p where "split_on d s = [p, b]" and "a = c # p"
        using Cons.prems by (cases "split_on d s") auto
      with Cons.IH [of p] False show ?thesis by auto
    qed
  qed
qed

section \<open>Tables\<close>

text \<open>
  A database table is the list of its rows in insertion order. \<open>lookup_by\<close> is
  \<^verbatim>\<open>session.get(Model, key)\<close>; \<open>update_by\<close> is an assignment to the fields of the loaded row.
\<close>

definition lookup_by :: "('r \<Rightarrow> 'k) \<Rightarrow> 'k \<Rightarrow> 'r list \<Rightarrow> 'r option" where
  "lookup_by key k rows = find (\<lambda>r. key r = k) rows"

definition update_by :: "('r \<Rightarrow> 'k) \<Rightarrow> 'k \<Rightarrow> ('r \<Rightarrow> 'r) \<Rightarrow> 'r list \<Rightarrow> 'r list" where
  "update_by key k f rows = map (\<lambda>r. if key r = k then f r else r) rows"

text \<open>\<open>last_by f rows\<close> is \<^verbatim>\<open>ORDER BY f DESC LIMIT 1\<close> on a key without duplicates.\<close>

fun last_by :: "('r \<Rightarrow> 'k::linorder) \<Rightarrow> 'r list \<Rightarrow> 'r option" where
  "last_by f [] = None"
| "last_by f (r # rs) =
     (case last_by f rs of None \<Rightarrow> Some r | Some m \<Rightarrow> if f m < f r then Some r else Some m)"

lemma lookup_by_simps [simp]:
  "lookup_by key k [] = None"
  "lookup_by key k (r # rs) = (if key r = k then Some r else lookup_by key k rs)"
  by (simp_all add: lookup_by_def)

lemma lookup_by_Some: "lookup_by key k rows = Some r \<Longrightarrow> r \<in> set rows \<and> key r = k"
  by (induction rows) (auto split: if_splits)

lemma lookup_by_None: "lookup_by key k rows = None \<longleftrightarrow> k \<notin> key ` set rows"
  by (induction rows) auto

lemma lookup_by_append:
  "lookup_by key k (xs @ ys) = (case lookup_by key k xs of None \<Rightarrow> lookup_by key k ys | Some r \<Rightarrow> Some r)"
  by (induction xs) auto

lemma update_by_simps [simp]:
  "update_by key k f [] = []"
  "update_by key k f (r # rs) = (if key r = k then f r else r) # update_by key k f rs"
  "length (update_by key k f rows) = length rows"
  by (simp_all add: update_by_def)

lemma lookup_update_same:
  "lookup_by key k rows = Some r \<Longrightarrow> key (f r) = k \<Longrightarrow>
   (\<And>r. key r = k \<Longrightarrow> key (f r) = k) \<Longrightarrow> lookup_by key k (update_by key k f rows) = Some (f r)"
  by (induction rows) (auto split: if_splits)

lemma lookup_update_other:
  "k \<noteq> k' \<Longrightarrow> (\<And>r. key r = k \<Longrightarrow> key (f r) = k) \<Longrightarrow>
   lookup_by key k' (update_by key k f rows) = lookup_by key k' rows"
  by (induction rows) auto

lemma keys_update_by:
  "(\<And>r. key r = k \<Longrightarrow> key' (f r) = key' r) \<Longrightarrow> map key' (update_by key k f rows) = map key' rows"
  by (induction rows) auto

lemma last_by_None [simp]: "last_by f rows = None \<longleftrightarrow> rows = []"
  by (cases rows) (auto split: option.splits if_splits)

lemma last_by_Some:
  "last_by f rows = Some m \<Longrightarrow> m \<in> set rows \<and> (\<forall>r \<in> set rows. f r \<le> f m)"
proof (induction rows arbitrary: m)
  case Nil
  then show ?case by simp
next
  case (Cons r rs)
  show ?case
  proof (cases "last_by f rs")
    case None
    with Cons.prems show ?thesis by simp
  next
    case (Some m')
    note IH = Cons.IH [OF Some]
    from Cons.prems Some have "m = (if f m' < f r then r else m')" by (auto split: if_splits)
    with IH show ?thesis by (fastforce split: if_splits)
  qed
qed

lemma last_by_snoc:
  "(\<And>r. r \<in> set rows \<Longrightarrow> f r < f m) \<Longrightarrow> last_by f (rows @ [m]) = Some m"
  by (induction rows) (auto simp: less_not_sym)

text \<open>\<open>group_counts\<close> is \<^verbatim>\<open>SELECT k, count(*) ... GROUP BY k\<close>.\<close>

definition group_counts :: "'k list \<Rightarrow> ('k \<times> nat) list" where
  "group_counts ks = map (\<lambda>k. (k, count_list ks k)) (remdups ks)"

lemma group_counts_total: "(\<Sum>(k, n) \<leftarrow> group_counts ks. n) = length ks"
proof -
  have "(\<Sum>(k, n) \<leftarrow> group_counts ks. n) = (\<Sum>k \<leftarrow> remdups ks. count_list ks k)"
    by (simp add: group_counts_def comp_def)
  also have "\<dots> = (\<Sum>k \<in> set ks. count_list ks k)"
    by (simp add: sum_list_distinct_conv_sum_set)
  also have "\<dots> = length ks"
    by (rule sum_count_set) simp_all
  finally show ?thesis .
qed

end
