(* ===== verification/Clock.thy ===== *)
theory Clock
  imports Prelude
begin

text \<open>
  \<^verbatim>\<open>shared/clock.py\<close> and \<^verbatim>\<open>shared/types.py\<close>: datetimes, the epoch, the day boundary of the
  counters, and the one canonical string form of an instant, which is also the form the audit
  chain hashes. The lemmas show that the string form reads back to the instant it came from.
\<close>

section \<open>Datetimes\<close>

text \<open>
  A \<^verbatim>\<open>datetime\<close>: its wall-clock reading in microseconds since 1970-01-01T00:00:00, and its UTC
  offset in microseconds when it is timezone-aware. Past \<open>as_utc\<close> every datetime is an instant,
  an \<open>int\<close> of microseconds, which is how the other components hold it.
\<close>

datatype datetime = Naive int | Aware int int

fun as_utc :: "datetime \<Rightarrow> datetime" where
  "as_utc (Naive w) = Aware w 0"
| "as_utc (Aware w off) = Aware (w - off) 0"

fun instant_of :: "datetime \<Rightarrow> int" where
  "instant_of (Naive w) = w"
| "instant_of (Aware w off) = w - off"

lemma as_utc_idem: "as_utc (as_utc d) = as_utc d"
  by (cases d) simp_all

lemma as_utc_instant: "as_utc d = Aware (instant_of d) 0"
  by (cases d) simp_all

definition second_us :: int where "second_us = 1000000"
definition day_us :: int where "day_us = 86400 * 1000000"

text \<open>\<^verbatim>\<open>int(at.timestamp())\<close> truncates towards zero.\<close>

definition to_epoch :: "int \<Rightarrow> int" where
  "to_epoch t = (if 0 \<le> t then t div second_us else - ((- t) div second_us))"

definition from_epoch :: "int \<Rightarrow> int" where
  "from_epoch e = e * second_us"

text \<open>\<^verbatim>\<open>now_utc() + timedelta(...)\<close>, from the reading of the clock.\<close>

definition hours_from :: "int \<Rightarrow> int \<Rightarrow> int" where
  "hours_from now h = now + h * 3600 * second_us"

definition seconds_from :: "int \<Rightarrow> int \<Rightarrow> int" where
  "seconds_from now s = now + s * second_us"

definition start_of_utc_day :: "int \<Rightarrow> int" where
  "start_of_utc_day t = (t div day_us) * day_us"

lemma to_from_epoch: "to_epoch (from_epoch e) = e"
proof -
  have "- (e * second_us) div second_us = - e"
    unfolding minus_mult_left by (rule nonzero_mult_div_cancel_right) (simp add: second_us_def)
  moreover have "e * second_us div second_us = e"
    by (rule nonzero_mult_div_cancel_right) (simp add: second_us_def)
  ultimately show ?thesis by (simp add: to_epoch_def from_epoch_def)
qed

lemma to_epoch_mono: "s \<le> t \<Longrightarrow> to_epoch s \<le> to_epoch t"
proof -
  have pos: "0 < second_us" by (simp add: second_us_def)
  have "0 \<le> x div second_us \<longleftrightarrow> 0 \<le> x" for x using pos by (rule pos_imp_zdiv_nonneg_iff)
  moreover have "x \<le> y \<Longrightarrow> x div second_us \<le> y div second_us" for x y
    using pos by (simp add: zdiv_mono1)
  moreover assume "s \<le> t"
  ultimately show ?thesis by (smt (verit, best) to_epoch_def)
qed

lemma start_of_utc_day_bounds: "start_of_utc_day t \<le> t \<and> t < start_of_utc_day t + day_us"
proof -
  have "t = t div day_us * day_us + t mod day_us" by simp
  moreover have "0 \<le> t mod day_us" and "t mod day_us < day_us" by (simp_all add: day_us_def)
  ultimately show ?thesis unfolding start_of_utc_day_def by linarith
qed

lemma start_of_utc_day_idem: "start_of_utc_day (start_of_utc_day t) = start_of_utc_day t"
  by (simp add: start_of_utc_day_def day_us_def)

section \<open>The calendar\<close>

text \<open>
  The proleptic Gregorian calendar that \<^verbatim>\<open>strftime\<close> and \<^verbatim>\<open>date.isoformat\<close> print and \<^verbatim>\<open>strptime\<close>
  reads, for days since 1970-01-01. Years are counted off one at a time, then months.
\<close>

definition leap :: "nat \<Rightarrow> bool" where
  "leap y = (y mod 4 = 0 \<and> (y mod 100 \<noteq> 0 \<or> y mod 400 = 0))"

definition days_in_year :: "nat \<Rightarrow> nat" where
  "days_in_year y = (if leap y then 366 else 365)"

definition month_lengths :: "nat \<Rightarrow> nat list" where
  "month_lengths y = [31, if leap y then 29 else 28, 31, 30, 31, 30, 31, 31, 30, 31, 30, 31]"

function year_of_days :: "nat \<Rightarrow> nat \<Rightarrow> nat \<times> nat" where
  "year_of_days y n =
     (if n < days_in_year y then (y, n) else year_of_days (Suc y) (n - days_in_year y))"
  by pat_completeness auto
termination
  by (relation "measure snd") (auto simp: days_in_year_def)

declare year_of_days.simps [simp del]

fun month_of_days :: "nat list \<Rightarrow> nat \<Rightarrow> nat \<Rightarrow> nat \<times> nat" where
  "month_of_days [] m n = (m, n)"
| "month_of_days (l # ls) m n = (if n < l then (m, n) else month_of_days ls (Suc m) (n - l))"

definition civil_of_days :: "nat \<Rightarrow> nat \<times> nat \<times> nat" where
  "civil_of_days n =
     (let (y, r) = year_of_days 1970 n; (m, d) = month_of_days (month_lengths y) 1 r
      in (y, m, Suc d))"

fun days_before_month :: "nat list \<Rightarrow> nat \<Rightarrow> nat" where
  "days_before_month ls 0 = 0"
| "days_before_month ls (Suc 0) = 0"
| "days_before_month [] (Suc (Suc m)) = 0"
| "days_before_month (l # ls) (Suc (Suc m)) = l + days_before_month ls (Suc m)"

definition days_before_year :: "nat \<Rightarrow> nat" where
  "days_before_year y = sum_list (map days_in_year [1970..<y])"

definition days_of_civil :: "nat \<times> nat \<times> nat \<Rightarrow> nat" where
  "days_of_civil c =
     (case c of (y, m, d) \<Rightarrow> days_before_year y + days_before_month (month_lengths y) m + (d - 1))"

lemma year_of_days_ge: "y \<le> fst (year_of_days y n)"
  by (induction y n rule: year_of_days.induct) (subst year_of_days.simps, auto)

lemma year_of_days_sum:
  "year_of_days y n = (y', r) \<Longrightarrow> sum_list (map days_in_year [y..<y']) + r = n \<and> r < days_in_year y'"
proof (induction y n rule: year_of_days.induct)
  case (1 y n)
  show ?case
  proof (cases "n < days_in_year y")
    case True
    with "1.prems" show ?thesis by (simp add: year_of_days.simps [of y n])
  next
    case False
    with "1.prems" have rest: "year_of_days (Suc y) (n - days_in_year y) = (y', r)"
      by (simp add: year_of_days.simps [of y n])
    moreover have "Suc y \<le> y'"
      using year_of_days_ge [of "Suc y" "n - days_in_year y"] rest by simp
    moreover have "sum_list (map days_in_year [Suc y..<y']) + r = n - days_in_year y"
      and "r < days_in_year y'"
      using "1.IH" [OF False rest] by simp_all
    ultimately show ?thesis using False by (simp add: upt_conv_Cons)
  qed
qed

lemma month_of_days_sum:
  "month_of_days ls m n = (m', d) \<Longrightarrow> n < sum_list ls \<Longrightarrow>
   m \<le> m' \<and> m' < m + length ls \<and> d < ls ! (m' - m) \<and> n = sum_list (take (m' - m) ls) + d"
proof (induction ls m n rule: month_of_days.induct)
  case (1 m n)
  then show ?case by simp
next
  case (2 l ls m n)
  show ?case
  proof (cases "n < l")
    case True
    with "2.prems" show ?thesis by simp
  next
    case False
    with "2.prems" "2.IH" [OF False]
    have ih: "Suc m \<le> m'" "m' < Suc m + length ls" "d < ls ! (m' - Suc m)"
      "n - l = sum_list (take (m' - Suc m) ls) + d"
      by auto
    from ih(1) have "m' - m = Suc (m' - Suc m)" by simp
    with ih False show ?thesis by simp
  qed
qed

lemma days_before_month_take: "days_before_month ls (Suc k) = sum_list (take k ls)"
proof (induction ls arbitrary: k)
  case Nil
  then show ?case by (cases k) simp_all
next
  case (Cons l ls)
  then show ?case by (cases k) simp_all
qed

lemma sum_month_lengths: "sum_list (month_lengths y) = days_in_year y"
  by (simp add: month_lengths_def days_in_year_def)

lemma civil_roundtrip: "days_of_civil (civil_of_days n) = n"
proof -
  obtain y r where yr: "year_of_days 1970 n = (y, r)" by (cases "year_of_days 1970 n")
  obtain m d where md: "month_of_days (month_lengths y) 1 r = (m, d)"
    by (cases "month_of_days (month_lengths y) 1 r")
  from year_of_days_sum [OF yr] have n: "n = days_before_year y + r" and r: "r < days_in_year y"
    by (simp_all add: days_before_year_def)
  from month_of_days_sum [OF md] r
  have "1 \<le> m" and "r = sum_list (take (m - 1) (month_lengths y)) + d"
    by (simp_all add: sum_month_lengths)
  then have "r = days_before_month (month_lengths y) m + d"
    using days_before_month_take [of "month_lengths y" "m - 1"] by simp
  moreover have "civil_of_days n = (y, m, Suc d)" by (simp add: civil_of_days_def yr md [simplified])
  ultimately show ?thesis using n by (simp add: days_of_civil_def)
qed

lemma civil_month_day:
  assumes "civil_of_days n = (y, m, d)"
  shows "1970 \<le> y \<and> 1 \<le> m \<and> m \<le> 12 \<and> 1 \<le> d \<and> d \<le> 31"
proof -
  obtain y' r where yr: "year_of_days 1970 n = (y', r)" by (cases "year_of_days 1970 n")
  obtain m' d' where md: "month_of_days (month_lengths y') 1 r = (m', d')"
    by (cases "month_of_days (month_lengths y') 1 r")
  from assms yr md have eqs: "y = y'" "m = m'" "d = Suc d'" by (simp_all add: civil_of_days_def)
  have "1970 \<le> y'" using year_of_days_ge [of 1970 n] yr by simp
  moreover from month_of_days_sum [OF md] year_of_days_sum [OF yr]
  have b: "1 \<le> m'" "m' < 1 + 12" "d' < month_lengths y' ! (m' - 1)"
    by (simp_all add: sum_month_lengths) (simp_all add: month_lengths_def)
  moreover have "month_lengths y' ! (m' - 1) \<le> 31"
  proof -
    have "\<forall>l \<in> set (month_lengths y'). l \<le> 31" by (simp add: month_lengths_def)
    moreover have "m' - 1 < length (month_lengths y')" using b by (simp add: month_lengths_def)
    ultimately show ?thesis by (metis nth_mem)
  qed
  ultimately show ?thesis using eqs by simp
qed

section \<open>The canonical string form\<close>

text \<open>
  \<^verbatim>\<open>format_utc\<close> is \<^verbatim>\<open>strftime("%Y-%m-%dT%H:%M:%S.%fZ")\<close>: fixed-width decimal fields.
  \<^verbatim>\<open>parse_utc\<close> reads that layout back; \<^verbatim>\<open>strptime\<close> would also accept unpadded fields, which no
  value of the column has.
\<close>

definition digit_char :: "nat \<Rightarrow> char" where
  "digit_char n = char_of (48 + n mod 10)"

definition is_digit :: "char \<Rightarrow> bool" where
  "is_digit c = (48 \<le> byte_of c \<and> byte_of c \<le> 57)"

definition digit_val :: "char \<Rightarrow> nat" where
  "digit_val c = byte_of c - 48"

fun pad_digits :: "nat \<Rightarrow> nat \<Rightarrow> string" where
  "pad_digits 0 n = []"
| "pad_digits (Suc w) n = pad_digits w (n div 10) @ [digit_char n]"

definition read_digits :: "string \<Rightarrow> nat" where
  "read_digits s = foldl (\<lambda>acc c. acc * 10 + digit_val c) 0 s"

lemma digit_char_val [simp]: "digit_val (digit_char n) = n mod 10"
  by (simp add: digit_val_def digit_char_def)

lemma digit_char_is_digit [simp]: "is_digit (digit_char n)"
  by (simp add: is_digit_def digit_char_def)

lemma length_pad_digits [simp]: "length (pad_digits w n) = w"
  by (induction w arbitrary: n) simp_all

lemma pad_digits_all_digits: "list_all is_digit (pad_digits w n)"
  by (induction w arbitrary: n) simp_all

lemma read_pad_digits: "read_digits (pad_digits w n) = n mod 10 ^ w"
proof (induction w arbitrary: n)
  case 0
  then show ?case by (simp add: read_digits_def)
next
  case (Suc w)
  have "read_digits (pad_digits (Suc w) n) = read_digits (pad_digits w (n div 10)) * 10 + n mod 10"
    by (simp add: read_digits_def)
  also have "\<dots> = ((n div 10) mod 10 ^ w) * 10 + n mod 10" by (simp only: Suc.IH)
  also have "\<dots> = n mod 10 ^ Suc w"
    by (metis mod_mult2_eq mult.commute power_Suc)
  finally show ?case .
qed

definition format_date :: "nat \<times> nat \<times> nat \<Rightarrow> string" where
  "format_date c =
     (case c of (y, m, d) \<Rightarrow> pad_digits 4 y @ ''-'' @ pad_digits 2 m @ ''-'' @ pad_digits 2 d)"

definition format_utc :: "int \<Rightarrow> string" where
  "format_utc t =
     (let days = nat (t div day_us); us = nat (t mod day_us); s = us div 1000000
      in format_date (civil_of_days days) @ ''T'' @ pad_digits 2 (s div 3600) @ '':''
         @ pad_digits 2 (s div 60 mod 60) @ '':'' @ pad_digits 2 (s mod 60) @ ''.''
         @ pad_digits 6 (us mod 1000000) @ ''Z'')"

definition iso_date :: "int \<Rightarrow> string" where
  "iso_date t = format_date (civil_of_days (nat (t div day_us)))"

text \<open>\<open>field w sep s\<close> reads \<open>w\<close> digits and the separator that follows them.\<close>

definition field :: "nat \<Rightarrow> string \<Rightarrow> string \<Rightarrow> (nat \<times> string) option" where
  "field w sep s =
     (let d = take w s; r = drop w s
      in if length d = w \<and> list_all is_digit d \<and> prefix sep r
         then Some (read_digits d, drop (length sep) r) else None)"

lemma field_pad: "field w sep (pad_digits w n @ sep @ rest) = Some (n mod 10 ^ w, rest)"
  by (simp add: field_def Let_def pad_digits_all_digits read_pad_digits)

definition parse_utc :: "string \<Rightarrow> int option" where
  "parse_utc s =
     Option.bind (field 4 ''-'' s) (\<lambda>(y, s1).
     Option.bind (field 2 ''-'' s1) (\<lambda>(m, s2).
     Option.bind (field 2 ''T'' s2) (\<lambda>(d, s3).
     Option.bind (field 2 '':'' s3) (\<lambda>(hh, s4).
     Option.bind (field 2 '':'' s4) (\<lambda>(mi, s5).
     Option.bind (field 2 ''.'' s5) (\<lambda>(ss, s6).
     Option.bind (field 6 ''Z'' s6) (\<lambda>(us, s7).
       if s7 \<noteq> [] then None
       else Some (int (days_of_civil (y, m, d)) * day_us
                  + int (((hh * 60 + mi) * 60 + ss) * 1000000 + us)))))))))"

text \<open>The instants the column can hold: from the epoch to the end of the year 9999.\<close>

definition instant_ok :: "int \<Rightarrow> bool" where
  "instant_ok t = (0 \<le> t \<and> fst (civil_of_days (nat (t div day_us))) \<le> 9999)"

lemma time_of_day: "(s div 3600 * 60 + s div 60 mod 60) * 60 + s mod 60 = (s :: nat)"
proof -
  have "s div 3600 = s div 60 div 60" by (simp flip: div_mult2_eq)
  then have "s div 3600 * 60 + s div 60 mod 60 = s div 60" by simp
  then show ?thesis by simp
qed

lemma parse_format_utc:
  assumes "instant_ok t"
  shows "parse_utc (format_utc t) = Some t"
proof -
  define days where "days = nat (t div day_us)"
  define us where "us = nat (t mod day_us)"
  define s where "s = us div 1000000"
  obtain y m d where c: "civil_of_days days = (y, m, d)" by (cases "civil_of_days days")
  have b: "y mod 10 ^ 4 = y" "m mod 10 ^ 2 = m" "d mod 10 ^ 2 = d"
    using assms civil_month_day [OF c] c by (simp_all add: instant_ok_def days_def)
  have "us < 86400000000" by (simp add: us_def day_us_def nat_less_iff)
  then have "s < 86400" by (simp add: s_def less_mult_imp_div_less)
  then have hh: "s div 3600 mod 10 ^ 2 = s div 3600" by (simp add: less_mult_imp_div_less)
  have lo: "s div 60 mod 60 mod 10 ^ 2 = s div 60 mod 60" "s mod 60 mod 10 ^ 2 = s mod 60"
    "us mod 1000000 mod 10 ^ 6 = us mod 1000000"
    by simp_all
  have t: "int days * day_us + int (s * 1000000 + us mod 1000000) = t"
    using assms by (simp add: days_def us_def s_def instant_ok_def day_us_def)
  have f: "format_utc t = pad_digits 4 y @ ''-'' @ pad_digits 2 m @ ''-'' @ pad_digits 2 d @ ''T''
      @ pad_digits 2 (s div 3600) @ '':'' @ pad_digits 2 (s div 60 mod 60) @ '':''
      @ pad_digits 2 (s mod 60) @ ''.'' @ pad_digits 6 (us mod 1000000) @ ''Z'' @ []"
    by (simp add: format_utc_def Let_def format_date_def c flip: days_def us_def s_def)
  have "days_of_civil (y, m, d) = days" using civil_roundtrip [of days] c by simp
  then show ?thesis
    unfolding f parse_utc_def
    by (simp only: field_pad Option.bind.simps prod.case b hh lo time_of_day t simp_thms if_False)
qed

corollary format_utc_inj:
  "instant_ok s \<Longrightarrow> instant_ok t \<Longrightarrow> format_utc s = format_utc t \<Longrightarrow> s = t"
  by (metis parse_format_utc option.inject)

end
