(* ===== verification/JsonRoundtrip.thy ===== *)
theory JsonRoundtrip
  imports Json
begin

text \<open>
  What \<^verbatim>\<open>json.loads\<close> reads back from what the two writers wrote. The locale \<open>json_strings\<close> is the
  writers' contract with their string escape; it is interpreted on both escapes. The consequence
  the hashes rest on: two values have the same canonical JSON exactly when they are equal up to
  the order of their keys.
\<close>

section \<open>Values up to the order of their keys\<close>

function sort_keys :: "pyval \<Rightarrow> pyval" where
  "sort_keys PNone = PNone"
| "sort_keys (PBool b) = PBool b"
| "sort_keys (PInt i) = PInt i"
| "sort_keys (PStr s) = PStr s"
| "sort_keys (PList xs) = PList (map sort_keys xs)"
| "sort_keys (PDict d) = PDict (map (\<lambda>kv. (fst kv, sort_keys (snd kv))) (sort_key fst d))"
  by pat_completeness auto
termination
  by (relation "measure size")
     (auto simp: less_Suc_eq_le intro: size_list_estimation' order_trans [OF _ size_list_estimation'])

fun all_strings :: "(string \<Rightarrow> bool) \<Rightarrow> pyval \<Rightarrow> bool" where
  "all_strings P (PStr s) = P s"
| "all_strings P (PList xs) = (\<forall>x \<in> set xs. all_strings P x)"
| "all_strings P (PDict d) = (\<forall>kv \<in> set d. P (fst kv) \<and> all_strings P (snd kv))"
| "all_strings P _ = True"

lemma all_strings_True: "all_strings (\<lambda>_. True) v"
  by (induction v) auto

lemma dict_set_new: "k \<notin> fst ` set d \<Longrightarrow> dict_set k v d = d @ [(k, v)]"
  by (induction d) auto

lemma dict_update_distinct:
  "distinct (map fst (d @ e)) \<Longrightarrow> dict_update d e = d @ e"
proof (induction e arbitrary: d)
  case Nil
  then show ?case by (simp add: dict_update_def)
next
  case (Cons kv e)
  obtain k v where kv: "kv = (k, v)" by (cases kv)
  from Cons.prems kv have "dict_set k v d = d @ [kv]" by (simp add: dict_set_new)
  with Cons.IH [of "d @ [kv]"] Cons.prems kv show ?case
    by (simp add: dict_update_def)
qed

section \<open>Numbers\<close>

lemma digit_char_zero: "digit_char n = CHR ''0'' \<longleftrightarrow> n mod 10 = 0"
proof
  assume "digit_char n = CHR ''0''"
  then have "digit_val (digit_char n) = digit_val (CHR ''0'')" by simp
  moreover have "digit_val (CHR ''0'') = 0" by (simp add: digit_val_def)
  ultimately show "n mod 10 = 0" by (simp del: One_nat_def)
next
  assume "n mod 10 = 0"
  then show "digit_char n = CHR ''0''" by (simp add: digit_char_def char_of_byte)
qed

lemma nat_str_nonempty [simp]: "nat_str n \<noteq> []"
  by (subst nat_str.simps) simp

lemma nat_str_digits: "list_all is_digit (nat_str n)"
  by (induction n rule: nat_str.induct) (subst nat_str.simps, simp)

lemma read_digits_nat_str: "read_digits (nat_str n) = n"
proof (induction n rule: nat_str.induct)
  case (1 n)
  show ?case
  proof (cases "n < 10")
    case True
    then show ?thesis by (simp add: nat_str.simps [of n] read_digits_def)
  next
    case False
    with "1.IH" have "read_digits (nat_str (n div 10)) = n div 10" by simp
    with False show ?thesis by (simp add: nat_str.simps [of n] read_digits_def)
  qed
qed

lemma hd_nat_str: "hd (nat_str n) = CHR ''0'' \<longleftrightarrow> n = 0"
proof (induction n rule: nat_str.induct)
  case (1 n)
  show ?case
  proof (cases "n < 10")
    case True
    then show ?thesis by (simp add: nat_str.simps [of n] digit_char_zero)
  next
    case False
    with 1 show ?thesis by (simp add: nat_str.simps [of n] div_eq_0_iff)
  qed
qed

text \<open>What may follow a number: nothing that would continue it.\<close>

definition ends_number :: "string \<Rightarrow> bool" where
  "ends_number r = (\<not> starts_float r \<and> (r = [] \<or> \<not> is_digit (hd r)))"

lemma ends_number_sep [simp]:
  "ends_number []" "ends_number (CHR '','' # r)" "ends_number (CHR '']'' # r)"
  "ends_number (CHR ''}'' # r)"
  by (simp_all add: ends_number_def starts_float_def is_digit_def)

lemma takeWhile_digits:
  "list_all is_digit d \<Longrightarrow> ends_number r \<Longrightarrow> takeWhile is_digit (d @ r) = d"
  "list_all is_digit d \<Longrightarrow> ends_number r \<Longrightarrow> dropWhile is_digit (d @ r) = r"
  by (induction d; cases r; simp add: ends_number_def)+

lemma read_nat_str:
  assumes r: "ends_number r"
  shows "read_nat (nat_str n @ r) = Some (n, r)"
proof -
  note tw = takeWhile_digits [OF nat_str_digits r, of n]
  have "\<not> starts_float r" using r by (simp add: ends_number_def)
  moreover have "hd (nat_str n) = CHR ''0'' \<Longrightarrow> length (nat_str n) = 1"
    by (simp only: hd_nat_str) (simp add: nat_str.simps [of 0])
  ultimately show ?thesis
    unfolding read_nat_def Let_def tw read_digits_nat_str by (auto simp del: One_nat_def)
qed

lemma minus_not_digit: "list_all is_digit s \<Longrightarrow> s \<noteq> [] \<Longrightarrow> hd s \<noteq> CHR ''-''"
  by (cases s) (auto simp: is_digit_def)

lemma read_int_str:
  assumes r: "ends_number r"
  shows "read_int (int_str i @ r) = Some (i, r)"
proof (cases "i < 0")
  case True
  with r show ?thesis by (simp add: int_str_def read_int_def read_nat_str)
next
  case False
  obtain c s where cs: "nat_str (nat i) = c # s" by (cases "nat_str (nat i)") auto
  then have "c \<noteq> CHR ''-''" using minus_not_digit [OF nat_str_digits [of "nat i"]] by simp
  moreover have "int_str i @ r = c # (s @ r)" using False cs by (simp add: int_str_def)
  moreover have "read_nat (c # (s @ r)) = Some (nat i, r)"
    using read_nat_str [OF r, of "nat i"] cs by simp
  ultimately show ?thesis using False unfolding read_int_def by simp
qed

section \<open>Strings\<close>

lemma hex_val_char: "hex_val (hex_char n) = Some (n mod 16)"
proof -
  have "n mod 16 < 16" by simp
  then show ?thesis by (auto simp: hex_val_def hex_char_def Let_def)
qed

lemma hex4_digits:
  "(n :: nat) < 65536 \<Longrightarrow>
   (((n div 4096 mod 16) * 16 + n div 256 mod 16) * 16 + n div 16 mod 16) * 16 + n mod 16 = n"
proof -
  assume "n < 65536"
  then have "n div 4096 mod 16 = n div 4096" by (simp add: less_mult_imp_div_less)
  moreover have "n div 4096 = n div 256 div 16" and "n div 256 = n div 16 div 16"
    by (simp_all flip: div_mult2_eq)
  ultimately show ?thesis by (metis div_mod_decomp)
qed

lemma read_hex4_hex4: "n < 65536 \<Longrightarrow> read_hex4 (hex4 n @ r) = Some (n, r)"
  by (simp only: hex4_def append.simps read_hex4.simps hex_val_char hex4_digits option.case prod.case)

lemma read_unit_hex4:
  "n < 55296 \<Longrightarrow> read_unit (hex4 n @ r) = Some (utf8_encode n, r)"
  by (simp add: read_unit_def read_hex4_hex4)

lemma simple_escapes:
  "simple_escape (CHR ''b'') = Some (char_of (8::nat))"
  "simple_escape (CHR ''f'') = Some (char_of (12::nat))"
  "simple_escape (CHR ''n'') = Some (char_of (10::nat))"
  "simple_escape (CHR ''r'') = Some (char_of (13::nat))"
  "simple_escape (CHR ''t'') = Some (char_of (9::nat))"
  "simple_escape quote_char = Some quote_char"
  "simple_escape backslash = Some backslash"
  by (simp_all add: simple_escape_def Let_def)

lemma special_codes: "char_of (34 :: nat) = quote_char" "char_of (92 :: nat) = backslash"
  by (simp_all add: char_of_byte)

lemma read_chars_control:
  "read_chars (escape_control c @ s) =
   (case read_chars s of None \<Rightarrow> None | Some (t, q) \<Rightarrow> Some (c # t, q))"
proof -
  have c: "char_of (byte_of c) = c" by simp
  have special: "byte_of c = n \<Longrightarrow> c = char_of n" for n using c by metis
  have u: "byte_of c < 32 \<Longrightarrow> utf8_encode (byte_of c) = [c]" by (simp add: utf8_encode_def bytes_def)
  consider "byte_of c = 34" | "byte_of c = 92" | "byte_of c = 8" | "byte_of c = 12"
    | "byte_of c = 10" | "byte_of c = 13" | "byte_of c = 9"
    | "byte_of c < 32 \<and> byte_of c \<notin> {8, 9, 10, 12, 13}"
    | "32 \<le> byte_of c \<and> byte_of c \<noteq> 34 \<and> byte_of c \<noteq> 92"
    by fastforce
  then show ?thesis
  proof cases
    case 8
    then have "read_unit (hex4 (byte_of c) @ s) = Some ([c], s)" by (simp add: read_unit_hex4 u)
    with 8 show ?thesis
      by (simp add: escape_control_def Let_def read_chars.simps [of "backslash # _"] split: option.split)
  next
    case 9
    then show ?thesis
      by (auto simp: escape_control_def Let_def read_chars.simps [of "c # _"])
  qed (auto simp: escape_control_def Let_def read_chars.simps [of "backslash # _"] simple_escapes
      special_codes dest!: special split: option.split)
qed

lemma read_chars_quote: "read_chars (quote_char # r) = Some ([], r)"
  by (subst read_chars.simps) simp

lemma read_escape_utf8: "read_chars (escape_utf8 s @ quote_char # r) = Some (s, r)"
  by (induction s) (simp_all add: escape_utf8_def read_chars_quote read_chars_control)

lemma codepoints_ascii: "is_ascii s \<Longrightarrow> codepoints s = map byte_of s"
  by (induction s rule: codepoints.induct) auto

lemma read_chars_codepoint:
  "byte_of c < 128 \<Longrightarrow> read_chars (escape_codepoint (byte_of c) @ s) =
   (case read_chars s of None \<Rightarrow> None | Some (t, q) \<Rightarrow> Some (c # t, q))"
proof (cases "byte_of c < 127")
  case True
  then show ?thesis by (simp add: escape_codepoint_def read_chars_control)
next
  case False
  assume "byte_of c < 128"
  with False have n: "byte_of c = 127" by simp
  then have c: "c = char_of (127 :: nat)" by (metis char_of_char)
  have "read_unit (hex4 127 @ s) = Some ([c], s)"
    by (simp add: read_unit_hex4 utf8_encode_def bytes_def c)
  then show ?thesis
    by (simp add: n escape_codepoint_def unicode_escape_def read_chars.simps [of "backslash # _"]
        split: option.split)
qed

lemma read_escape_ascii:
  assumes "is_ascii s"
  shows "read_chars (escape_ascii s @ quote_char # r) = Some (s, r)"
proof -
  have "is_ascii s \<Longrightarrow>
    read_chars (concat (map escape_codepoint (map byte_of s)) @ quote_char # r) = Some (s, r)"
  proof (induction s)
    case Nil
    then show ?case by (simp add: read_chars_quote)
  next
    case (Cons c s)
    then show ?case using read_chars_codepoint [of c] by simp
  qed
  with assms show ?thesis by (simp add: escape_ascii_def codepoints_ascii)
qed

lemma skip_ws_nonspace: "\<not> json_space c \<Longrightarrow> skip_ws (c # s) = c # s"
  by (simp add: skip_ws_def)

lemma skip_ws_sep [simp]:
  "skip_ws (CHR '','' # s) = CHR '','' # s" "skip_ws (CHR '']'' # s) = CHR '']'' # s"
  "skip_ws (CHR ''}'' # s) = CHR ''}'' # s" "skip_ws (CHR '':'' # s) = CHR '':'' # s"
  "skip_ws (quote_char # s) = quote_char # s"
  by (simp_all add: skip_ws_def json_space_def)

lemma skip_ws_int: "skip_ws (int_str i @ t) = int_str i @ t"
proof (cases "i < 0")
  case True
  then show ?thesis by (simp add: int_str_def skip_ws_def json_space_def)
next
  case False
  obtain c s where cs: "nat_str (nat i) = c # s" by (cases "nat_str (nat i)") auto
  then have "is_digit c" using nat_str_digits [of "nat i"] by simp
  then have "\<not> json_space c" by (auto simp: is_digit_def json_space_def)
  then show ?thesis using False cs by (simp add: int_str_def skip_ws_nonspace)
qed

lemma int_str_head:
  "hd (int_str i) \<notin> set [quote_char, CHR ''['', CHR ''{'', CHR ''n'', CHR ''t'', CHR ''f'']"
  "hd (int_str i) \<noteq> CHR '']''"
  "int_str i \<noteq> []"
proof -
  obtain c s where cs: "nat_str (nat i) = c # s" by (cases "nat_str (nat i)") auto
  then have "is_digit c" using nat_str_digits [of "nat i"] by simp
  then show "hd (int_str i) \<notin> set [quote_char, CHR ''['', CHR ''{'', CHR ''n'', CHR ''t'', CHR ''f'']"
    "hd (int_str i) \<noteq> CHR '']''" "int_str i \<noteq> []"
    using cs by (auto simp: int_str_def is_digit_def)
qed

lemma render_head: "render esc v \<noteq> [] \<and> hd (render esc v) \<noteq> CHR '']''"
  by (cases v) (simp_all add: int_str_head json_string_def)

lemma skip_ws_render: "skip_ws (render esc v @ t) = render esc v @ t"
proof (cases v)
  case (PInt i)
  then show ?thesis by (simp add: skip_ws_int)
qed (simp_all add: json_string_def skip_ws_def json_space_def)

section \<open>The writers' contract with their escape\<close>

locale json_strings =
  fixes esc :: "string \<Rightarrow> string" and ok :: "string \<Rightarrow> bool"
  assumes read_esc: "ok s \<Longrightarrow> read_chars (esc s @ quote_char # r) = Some (s, r)"
begin

lemma read_string_value:
  "ok s \<Longrightarrow> read_value (Suc f) (json_string esc s @ r) = Some (PStr s, r)"
  by (simp add: json_string_def read_esc)

text \<open>A value is read back in front of any text that does not continue a number.\<close>

definition reads_back :: "pyval \<Rightarrow> bool" where
  "reads_back v \<longleftrightarrow>
     (\<forall>f r. length (render esc v) \<le> f \<longrightarrow> ends_number r \<longrightarrow>
        read_value f (render esc v @ r) = Some (sort_keys v, r))"

lemma reads_backD:
  "reads_back v \<Longrightarrow> length (render esc v) \<le> f \<Longrightarrow> ends_number r \<Longrightarrow>
   read_value f (render esc v @ r) = Some (sort_keys v, r)"
  by (simp add: reads_back_def)

lemma read_rendered_items:
  "xs \<noteq> [] \<Longrightarrow> (\<And>x. x \<in> set xs \<Longrightarrow> reads_back x) \<Longrightarrow>
   length (join '','' (map (render esc) xs)) < f \<Longrightarrow>
   read_items f (join '','' (map (render esc) xs) @ CHR '']'' # r) = Some (map sort_keys xs, r)"
proof (induction xs arbitrary: f)
  case Nil
  then show ?case by simp
next
  case (Cons x xs)
  from Cons.prems(3) obtain f' where f: "f = Suc f'" by (cases f) auto
  show ?case
  proof (cases xs)
    case Nil
    have "read_value f' (render esc x @ CHR '']'' # r) = Some (sort_keys x, CHR '']'' # r)"
      using Cons.prems Nil f by (intro reads_backD) auto
    then show ?thesis by (simp add: Nil f)
  next
    case (Cons y ys)
    let ?rest = "join '','' (map (render esc) xs) @ CHR '']'' # r"
    have "read_value f' (render esc x @ CHR '','' # ?rest) = Some (sort_keys x, CHR '','' # ?rest)"
      using Cons.prems f Cons by (intro reads_backD) auto
    moreover have "skip_ws ?rest = ?rest"
    proof -
      obtain t where "join '','' (map (render esc) xs) = render esc y @ t"
        using Cons by (cases ys) auto
      then show ?thesis by (simp add: skip_ws_render)
    qed
    moreover have "read_items f' ?rest = Some (map sort_keys xs, r)"
      using Cons.prems f Cons by (intro Cons.IH) auto
    ultimately show ?thesis using Cons by (simp add: f)
  qed
qed


abbreviation member_text :: "string \<times> pyval \<Rightarrow> string" where
  "member_text kv \<equiv> json_string esc (fst kv) @ '':'' @ render esc (snd kv)"

lemma read_rendered_members:
  "d \<noteq> [] \<Longrightarrow> (\<And>kv. kv \<in> set d \<Longrightarrow> ok (fst kv) \<and> reads_back (snd kv)) \<Longrightarrow>
   length (join '','' (map member_text d)) < f \<Longrightarrow>
   read_members f (join '','' (map member_text d) @ CHR ''}'' # r)
     = Some (map (\<lambda>kv. (fst kv, sort_keys (snd kv))) d, r)"
proof (induction d arbitrary: f)
  case Nil
  then show ?case by simp
next
  case (Cons kv d)
  from Cons.prems(3) obtain f' where f: "f = Suc f'" by (cases f) auto
  obtain k v where kv: "kv = (k, v)" by (cases kv)
  have ok: "ok k" and rb: "reads_back v" using Cons.prems(2) [of kv] kv by auto
  have key: "read_chars (esc k @ quote_char # t) = Some (k, t)" for t using ok by (rule read_esc)
  show ?case
  proof (cases d)
    case Nil
    have "read_value f' (render esc v @ CHR ''}'' # r) = Some (sort_keys v, CHR ''}'' # r)"
      using Cons.prems(3) Nil f kv by (intro reads_backD rb) auto
    then show ?thesis by (simp add: Nil f kv json_string_def key skip_ws_render)
  next
    case (Cons y ys)
    let ?rest = "join '','' (map member_text d) @ CHR ''}'' # r"
    have "read_value f' (render esc v @ CHR '','' # ?rest) = Some (sort_keys v, CHR '','' # ?rest)"
      using Cons.prems(3) f Cons kv by (intro reads_backD rb) auto
    moreover have "skip_ws ?rest = ?rest"
    proof -
      obtain t where "join '','' (map member_text d) = quote_char # t"
        using Cons by (cases ys) (auto simp: json_string_def)
      then show ?thesis by simp
    qed
    moreover have "read_members f' ?rest = Some (map (\<lambda>kv. (fst kv, sort_keys (snd kv))) d, r)"
      using Cons.prems f Cons by (intro Cons.IH) auto
    ultimately show ?thesis using Cons
      by (simp add: f kv json_string_def key skip_ws_render)
  qed
qed

lemma reads_back_list: "(\<And>x. x \<in> set xs \<Longrightarrow> reads_back x) \<Longrightarrow> reads_back (PList xs)"
  unfolding reads_back_def [of "PList xs"]
proof (intro allI impI)
  fix f r assume rb: "\<And>x. x \<in> set xs \<Longrightarrow> reads_back x" and len: "length (render esc (PList xs)) \<le> f"
  then obtain f' where f: "f = Suc f'" by (cases f) auto
  show "read_value f (render esc (PList xs) @ r) = Some (sort_keys (PList xs), r)"
  proof (cases xs)
    case Nil
    then show ?thesis by (simp add: f)
  next
    case (Cons x ys)
    obtain t where t: "join '','' (map (render esc) xs) = render esc x @ t"
      using Cons by (cases ys) auto
    let ?s = "join '','' (map (render esc) xs) @ CHR '']'' # r"
    have items: "read_items f' ?s = Some (map sort_keys xs, r)"
      using Cons rb len f by (intro read_rendered_items) auto
    have ws: "skip_ws ?s = ?s" by (simp add: t skip_ws_render)
    have "render esc x \<noteq> [] \<and> hd (render esc x) \<noteq> CHR '']''"
      by (rule render_head)
    then obtain c s where "?s = c # s" "c \<noteq> CHR '']''"
      using t by (cases "render esc x") auto
    then show ?thesis using items ws by (simp add: f)
  qed
qed

lemma reads_back_dict:
  assumes "dict_ok d" and rb: "\<And>kv. kv \<in> set d \<Longrightarrow> ok (fst kv) \<and> reads_back (snd kv)"
  shows "reads_back (PDict d)"
  unfolding reads_back_def
proof (intro allI impI)
  fix f r assume len: "length (render esc (PDict d)) \<le> f"
  then obtain f' where f: "f = Suc f'" by (cases f) auto
  let ?d = "sort_key fst d"
  let ?d' = "map (\<lambda>kv. (fst kv, sort_keys (snd kv))) ?d"
  show "read_value f (render esc (PDict d) @ r) = Some (sort_keys (PDict d), r)"
  proof (cases "?d = []")
    case True
    then have "d = []" by (metis set_empty set_sort)
    then show ?thesis by (simp add: f)
  next
    case False
    let ?s = "join '','' (map member_text ?d) @ CHR ''}'' # r"
    have items: "read_members f' ?s = Some (?d', r)"
      using False rb len f by (intro read_rendered_members) auto
    have "dict_update [] ?d' = ?d'"
    proof -
      have "distinct (map fst ?d)" using assms(1)
        by (metis distinct_sort distinct_map inj_on_def set_sort)
      then show ?thesis by (simp add: dict_update_distinct [of "[]", simplified] comp_def)
    qed
    moreover obtain s where "?s = quote_char # s"
      using False by (cases ?d; cases "tl ?d") (auto simp: json_string_def)
    ultimately show ?thesis using items by (simp add: f)
  qed
qed

theorem read_render:
  "wf_pyval v \<Longrightarrow> all_strings ok v \<Longrightarrow> reads_back v"
proof (induction v)
  case (PInt i)
  show ?case unfolding reads_back_def
  proof (intro allI impI)
    fix f r assume "length (render esc (PInt i)) \<le> f" and r: "ends_number r"
    moreover have "int_str i \<noteq> []" by (simp add: int_str_def)
    ultimately obtain f' where f: "f = Suc f'" by (cases f) auto
    have "hd (int_str i) \<notin> set [quote_char, CHR ''['', CHR ''{'', CHR ''n'', CHR ''t'', CHR ''f'']"
      by (rule int_str_head)
    with \<open>int_str i \<noteq> []\<close> read_int_str [OF r, of i]
    show "read_value f (render esc (PInt i) @ r) = Some (sort_keys (PInt i), r)"
      by (cases "int_str i") (auto simp: f read_literal_def)
  qed
next
  case (PStr s)
  show ?case unfolding reads_back_def
  proof (intro allI impI)
    fix f r assume "length (render esc (PStr s)) \<le> f"
    then obtain f' where "f = Suc f'" by (cases f) (auto simp: json_string_def)
    with PStr show "read_value f (render esc (PStr s) @ r) = Some (sort_keys (PStr s), r)"
      by (simp del: read_value.simps add: read_string_value)
  qed
next
  case (PList xs)
  then show ?case by (intro reads_back_list) auto
next
  case (PDict d)
  have "dict_ok d" using PDict.prems by simp
  then show ?case
  proof (rule reads_back_dict)
    fix kv assume kv: "kv \<in> set d"
    moreover have "snd kv \<in> Basic_BNFs.snds kv" by (cases kv) simp
    ultimately show "ok (fst kv) \<and> reads_back (snd kv)"
      using PDict.IH [of kv "snd kv"] PDict.prems by simp
  qed
next
  case PNone
  show ?case unfolding reads_back_def
  proof (intro allI impI)
    fix f r assume "length (render esc PNone) \<le> f"
    then obtain f' where "f = Suc f'" by (cases f) auto
    then show "read_value f (render esc PNone @ r) = Some (sort_keys PNone, r)"
      by (simp add: read_literal_def)
  qed
next
  case (PBool b)
  show ?case unfolding reads_back_def
  proof (intro allI impI)
    fix f r assume "length (render esc (PBool b)) \<le> f"
    then obtain f' where "f = Suc f'" by (cases f) (auto split: if_splits)
    then show "read_value f (render esc (PBool b) @ r) = Some (sort_keys (PBool b), r)"
      by (simp add: read_literal_def)
  qed
qed

corollary loads_render:
  assumes "wf_pyval v" and "all_strings ok v"
  shows "json_loads (render esc v) = Some (sort_keys v)"
proof -
  have "read_value (length (render esc v)) (render esc v @ []) = Some (sort_keys v, [])"
    by (rule reads_backD [OF read_render [OF assms]]) simp_all
  moreover have "skip_ws (render esc v) = render esc v" using skip_ws_render [of esc v "[]"] by simp
  ultimately show ?thesis by (simp add: json_loads_def skip_ws_def)
qed

corollary render_inj:
  "wf_pyval v \<Longrightarrow> all_strings ok v \<Longrightarrow> wf_pyval w \<Longrightarrow> all_strings ok w \<Longrightarrow>
   render esc v = render esc w \<Longrightarrow> sort_keys v = sort_keys w"
  by (metis loads_render option.inject)

end

interpretation utf8_json: json_strings escape_utf8 "\<lambda>_. True"
  by unfold_locales (rule read_escape_utf8)

interpretation ascii_json: json_strings escape_ascii is_ascii
  by unfold_locales (rule read_escape_ascii)

end
