(* ===== verification/Errors.thy ===== *)
theory Errors
  imports PyValues
begin

text \<open>
  What a function of the program can raise. \<open>api_error\<close> is \<^verbatim>\<open>shared/errors.py\<close>: an error that knows
  its HTTP status and its JSON shape. The other constructors of \<open>exn\<close> are the Python, SQLAlchemy
  and domain exceptions the code raises, catches or lets through.
\<close>

section \<open>The error codes\<close>

datatype error_code =
    InvalidSignatureCode | TokenExpiredCode | TokenReplayedCode | NotApprovedCode
  | ApprovalMismatchCode | PayloadModifiedCode | MalformedTokenCode | MissingIdempotencyKeyCode
  | ExecutionFailedCode | ProposalNotFoundCode | ProposalNotPendingCode | RunNotFoundCode
  | DuplicatePendingProposalCode | AgentNotConfiguredCode | ValidationFailedCode

fun code_str :: "error_code \<Rightarrow> string" where
  "code_str InvalidSignatureCode = ''invalid_signature''"
| "code_str TokenExpiredCode = ''token_expired''"
| "code_str TokenReplayedCode = ''token_replayed''"
| "code_str NotApprovedCode = ''not_approved''"
| "code_str ApprovalMismatchCode = ''approval_mismatch''"
| "code_str PayloadModifiedCode = ''payload_modified''"
| "code_str MalformedTokenCode = ''malformed_token''"
| "code_str MissingIdempotencyKeyCode = ''missing_idempotency_key''"
| "code_str ExecutionFailedCode = ''execution_failed''"
| "code_str ProposalNotFoundCode = ''proposal_not_found''"
| "code_str ProposalNotPendingCode = ''proposal_not_pending''"
| "code_str RunNotFoundCode = ''run_not_found''"
| "code_str DuplicatePendingProposalCode = ''duplicate_pending_proposal''"
| "code_str AgentNotConfiguredCode = ''agent_not_configured''"
| "code_str ValidationFailedCode = ''validation_failed''"

lemma code_str_inj: "code_str a = code_str b \<Longrightarrow> a = b"
  by (cases a; cases b) simp_all

section \<open>\<open>ApiError\<close>\<close>

record api_error =
  ae_code :: string
  ae_message :: string
  ae_status :: nat
  ae_extra :: pydict

text \<open>The constructor drops the extra fields that are \<^verbatim>\<open>None\<close>.\<close>

definition drop_none :: "pydict \<Rightarrow> pydict" where
  "drop_none extra = filter (\<lambda>kv. snd kv \<noteq> PNone) extra"

definition api_err :: "string \<Rightarrow> string \<Rightarrow> nat \<Rightarrow> pydict \<Rightarrow> api_error" where
  "api_err code message status extra =
     \<lparr>ae_code = code, ae_message = message, ae_status = status, ae_extra = drop_none extra\<rparr>"

definition error_envelope :: "api_error \<Rightarrow> pyval" where
  "error_envelope e =
     PDict [(''error'',
       PDict (dict_update [(''code'', PStr (ae_code e)), (''message'', PStr (ae_message e))] (ae_extra e)))]"

text \<open>The module-level \<^verbatim>\<open>envelope\<close> of the exception handlers.\<close>

definition envelope :: "error_code \<Rightarrow> string \<Rightarrow> pydict \<Rightarrow> pyval" where
  "envelope code message extra =
     PDict [(''error'',
       PDict (dict_update [(''code'', PStr (code_str code)), (''message'', PStr message)]
                (drop_none extra)))]"

lemma envelope_api_err:
  "error_envelope (api_err (code_str code) message status extra) = envelope code message extra"
  by (simp add: error_envelope_def api_err_def envelope_def)

section \<open>Everything a function can raise\<close>

datatype exn =
    ApiError api_error
  | InvalidSignature string
  | MalformedToken string
  | DuplicatePendingProposal string
  | IntegrityError string
  | OperationalError string
  | DeliveryError string string pydict
  | LookupError string
  | KeyError string
  | ValueError string
  | TypeError string
  | UnicodeEncodeError string
  | UnicodeDecodeError
  | RuntimeError string
  | AssertionError
  | PayloadHashDrift string
  | ProbeNotPermitted string
  | OtherError string string

text \<open>
  \<open>OtherError name text\<close> is an exception of a library the program calls, by the name of its class and
  its text. \<open>exn_name\<close> and \<open>exn_text\<close> are \<^verbatim>\<open>type(exc).__name__\<close> and \<^verbatim>\<open>str(exc)\<close>.
\<close>

fun exn_name :: "exn \<Rightarrow> string" where
  "exn_name (ApiError e) = ''ApiError''"
| "exn_name (InvalidSignature m) = ''InvalidSignature''"
| "exn_name (MalformedToken m) = ''MalformedToken''"
| "exn_name (DuplicatePendingProposal i) = ''DuplicatePendingProposal''"
| "exn_name (IntegrityError m) = ''IntegrityError''"
| "exn_name (OperationalError m) = ''OperationalError''"
| "exn_name (DeliveryError m a d) = ''DeliveryError''"
| "exn_name (LookupError m) = ''LookupError''"
| "exn_name (KeyError k) = ''KeyError''"
| "exn_name (ValueError m) = ''ValueError''"
| "exn_name (TypeError m) = ''TypeError''"
| "exn_name (UnicodeEncodeError s) = ''UnicodeEncodeError''"
| "exn_name UnicodeDecodeError = ''UnicodeDecodeError''"
| "exn_name (RuntimeError m) = ''RuntimeError''"
| "exn_name AssertionError = ''AssertionError''"
| "exn_name (PayloadHashDrift m) = ''PayloadHashDrift''"
| "exn_name (ProbeNotPermitted m) = ''ProbeNotPermitted''"
| "exn_name (OtherError n m) = n"

fun exn_text :: "exn \<Rightarrow> string" where
  "exn_text (ApiError e) = ae_message e"
| "exn_text (InvalidSignature m) = m"
| "exn_text (MalformedToken m) = m"
| "exn_text (DuplicatePendingProposal i) =
     ''A pending proposal already exists for invoice '' @ i
     @ ''. Do not propose a second letter for the same invoice in this run.''"
| "exn_text (IntegrityError m) = m"
| "exn_text (OperationalError m) = m"
| "exn_text (DeliveryError m a d) = m"
| "exn_text (LookupError m) = m"
| "exn_text (KeyError k) = [CHR 0x27] @ k @ [CHR 0x27]"
| "exn_text (ValueError m) = m"
| "exn_text (TypeError m) = m"
| "exn_text (UnicodeEncodeError s) = ''ordinal not in range(128)''"
| "exn_text UnicodeDecodeError = ''invalid start byte''"
| "exn_text (RuntimeError m) = m"
| "exn_text AssertionError = []"
| "exn_text (PayloadHashDrift m) = m"
| "exn_text (ProbeNotPermitted m) = m"
| "exn_text (OtherError n m) = m"

lemma api_err_sel [simp]:
  "ae_code (api_err c m s x) = c" "ae_message (api_err c m s x) = m"
  "ae_status (api_err c m s x) = s" "ae_extra (api_err c m s x) = drop_none x"
  by (simp_all add: api_err_def)

end
