(* ===== verification/Hashing.thy ===== *)
theory Hashing
  imports Errors JsonRoundtrip
begin

text \<open>
  \<^verbatim>\<open>shared/hashing.py\<close>: the canonical serialisation and its SHA-256, over the surroundings of the
  program. SHA-256, the clock, \<^verbatim>\<open>uuid4\<close> and pydantic's integer coercion are not code of the
  repository: they are the fields of \<open>env\<close>, and a statement that needs a law of one names it.
\<close>

section \<open>The surroundings\<close>

record env =
  sha256 :: "string \<Rightarrow> string"
  time_at :: "nat \<Rightarrow> int"
  uuid_at :: "nat \<Rightarrow> string"
  coerce_int :: "pyval \<Rightarrow> int option"
  validation_text :: "pydict \<Rightarrow> string"

text \<open>Pydantic accepts an integer for an \<^verbatim>\<open>int\<close> field as it is.\<close>

definition ints_accepted :: "env \<Rightarrow> bool" where
  "ints_accepted env = (\<forall>i. coerce_int env (PInt i) = Some i)"

section \<open>Hashing\<close>

definition hex_digest :: "string \<Rightarrow> string" where
  "hex_digest s = concat (map (\<lambda>c. [hex_char (byte_of c div 16), hex_char (byte_of c)]) s)"

definition hash_prefix :: string where
  "hash_prefix = ''sha256:''"

definition genesis_hash :: string where
  "genesis_hash = hash_prefix @ replicate 64 (CHR ''0'')"

definition sha256_hex :: "env \<Rightarrow> string \<Rightarrow> string" where
  "sha256_hex env data = hex_digest (sha256 env data)"

definition hash_payload :: "env \<Rightarrow> pyval \<Rightarrow> string" where
  "hash_payload env payload = hash_prefix @ sha256_hex env (canonical_json payload)"

text \<open>
  \<^verbatim>\<open>hmac.compare_digest\<close> on two strings raises \<^verbatim>\<open>TypeError\<close> when either has a non-ASCII character.
\<close>

definition compare_digest :: "string \<Rightarrow> string \<Rightarrow> exn + bool" where
  "compare_digest a b =
     (if \<not> is_ascii a \<or> \<not> is_ascii b
      then Inl (TypeError ''comparing strings with non-ASCII characters is not supported'')
      else Inr (a = b))"

definition hashes_equal :: "string option \<Rightarrow> string option \<Rightarrow> exn + bool" where
  "hashes_equal left right =
     (case (left, right) of
        (Some l, Some r) \<Rightarrow> if l = [] \<or> r = [] then Inr False else compare_digest l r
      | _ \<Rightarrow> Inr False)"

section \<open>What the hash commits to\<close>

lemma hex_char_ascii [simp]: "byte_of (hex_char n) < 128"
proof -
  have "n mod 16 < 16" by simp
  then have "n mod 16 < 41" by linarith
  then show ?thesis unfolding hex_char_def by simp
qed

lemma hex_char_inj: "m < 16 \<Longrightarrow> n < 16 \<Longrightarrow> hex_char m = hex_char n \<Longrightarrow> m = n"
proof -
  assume "m < 16" "n < 16" and "hex_char m = hex_char n"
  moreover from this(3) have "byte_of (hex_char m) = byte_of (hex_char n)" by simp
  ultimately show ?thesis by (auto simp: hex_char_def split: if_splits)
qed

lemma hex_char_mod: "hex_char (n mod 16) = hex_char n"
  by (simp add: hex_char_def)

lemma hex_byte_inj:
  assumes "hex_char (byte_of c div 16) = hex_char (byte_of d div 16)"
    and "hex_char (byte_of c) = hex_char (byte_of d)"
  shows "c = d"
proof -
  have b: "byte_of x < 256" for x :: char using nat_of_char_less_256 by simp
  have "byte_of c div 16 = byte_of d div 16"
    using assms(1) b by (intro hex_char_inj) (auto simp: less_mult_imp_div_less)
  moreover have "byte_of c mod 16 = byte_of d mod 16"
    using assms(2) by (intro hex_char_inj) (simp_all add: hex_char_mod)
  ultimately have "byte_of c = byte_of d" by (metis mult_div_mod_eq)
  then show ?thesis by simp
qed

lemma hex_digest_inj: "hex_digest s = hex_digest t \<Longrightarrow> s = t"
proof (induction s arbitrary: t)
  case Nil
  then show ?case by (cases t) (simp_all add: hex_digest_def)
next
  case (Cons c s)
  then obtain d t' where t: "t = d # t'" by (cases t) (auto simp: hex_digest_def)
  with Cons.prems have "hex_digest s = hex_digest t'" and "c = d"
    by (auto simp: hex_digest_def intro: hex_byte_inj)
  with Cons.IH t show ?case by simp
qed

lemma hex_digest_ascii [simp]: "is_ascii (hex_digest s)"
  by (induction s) (simp_all add: hex_digest_def)

lemma hash_payload_ascii [simp]: "is_ascii (hash_payload env v)"
  by (simp add: hash_payload_def hash_prefix_def sha256_hex_def)

lemma hash_payload_nonempty [simp]: "hash_payload env v \<noteq> []"
  by (simp add: hash_payload_def hash_prefix_def)

lemma genesis_hash_ascii [simp]: "is_ascii genesis_hash"
  by (simp add: genesis_hash_def hash_prefix_def is_ascii_def list_all_iff)

lemma hash_payload_eq_iff:
  "hash_payload env v = hash_payload env w \<longleftrightarrow>
   sha256 env (canonical_json v) = sha256 env (canonical_json w)"
  by (auto simp: hash_payload_def sha256_hex_def dest: hex_digest_inj)

text \<open>
  Two different texts with the same digest. A finite digest always has some; what the statements
  below exhibit are two concrete texts, built from the two values compared.
\<close>

definition collide :: "env \<Rightarrow> pyval \<Rightarrow> pyval \<Rightarrow> bool" where
  "collide env v w =
     (canonical_json v \<noteq> canonical_json w \<and>
      sha256 env (canonical_json v) = sha256 env (canonical_json w))"

text \<open>Two dicts with the same entries in another order are the same Python dict.\<close>

definition same_value :: "pyval \<Rightarrow> pyval \<Rightarrow> bool" where
  "same_value v w = (sort_keys v = sort_keys w)"

lemma canonical_json_inj:
  assumes "wf_pyval v" "wf_pyval w" "canonical_json v = canonical_json w"
  shows "same_value v w"
  using assms utf8_json.render_inj [of v w]
  by (simp add: same_value_def canonical_json_def all_strings_True)

lemma hash_commits:
  assumes "wf_pyval v" "wf_pyval w" "hash_payload env v = hash_payload env w"
  shows "same_value v w \<or> collide env v w"
  using assms canonical_json_inj [OF assms(1,2)]
  by (auto simp: collide_def hash_payload_eq_iff)

lemma hashes_equal_Some:
  "l \<noteq> [] \<Longrightarrow> r \<noteq> [] \<Longrightarrow> is_ascii l \<Longrightarrow> is_ascii r \<Longrightarrow>
   hashes_equal (Some l) (Some r) = Inr (l = r)"
  by (simp add: hashes_equal_def compare_digest_def)

lemma hashes_equal_TrueD:
  "hashes_equal a b = Inr True \<Longrightarrow> \<exists>s. a = Some s \<and> b = Some s \<and> s \<noteq> []"
  by (auto simp: hashes_equal_def compare_digest_def split: option.splits if_splits)

lemma compare_digest_TrueD: "compare_digest a b = Inr True \<Longrightarrow> a = b \<and> is_ascii a"
  by (auto simp: compare_digest_def split: if_splits)

end
