(* ===== verification/Models.thy ===== *)
theory Models
  imports Hashing
begin

text \<open>
  \<^verbatim>\<open>shared/models.py\<close>: the tables both services map, the constraints the database enforces on an
  INSERT, and the state of the database as one record. A status column with a CHECK constraint is a
  datatype. An INSERT that violates a constraint raises \<open>IntegrityError\<close> with SQLite's message, which
  the code inspects.
\<close>

section \<open>Lifecycle enums\<close>

datatype run_status = RunQueued | RunRunning | RunAwaiting | RunCompleted | RunFailed

fun run_status_str :: "run_status \<Rightarrow> string" where
  "run_status_str RunQueued = ''queued''"
| "run_status_str RunRunning = ''running''"
| "run_status_str RunAwaiting = ''awaiting_approval''"
| "run_status_str RunCompleted = ''completed''"
| "run_status_str RunFailed = ''failed''"

datatype step_type = Thought | ToolCall | ToolResult | Message

fun step_type_str :: "step_type \<Rightarrow> string" where
  "step_type_str Thought = ''thought''"
| "step_type_str ToolCall = ''tool_call''"
| "step_type_str ToolResult = ''tool_result''"
| "step_type_str Message = ''message''"

datatype proposal_status = Pending | Approved | Rejected | Executed | Failed | Expired

fun proposal_status_str :: "proposal_status \<Rightarrow> string" where
  "proposal_status_str Pending = ''pending''"
| "proposal_status_str Approved = ''approved''"
| "proposal_status_str Rejected = ''rejected''"
| "proposal_status_str Executed = ''executed''"
| "proposal_status_str Failed = ''failed''"
| "proposal_status_str Expired = ''expired''"

definition terminal_proposal :: "proposal_status \<Rightarrow> bool" where
  "terminal_proposal s = (s \<in> {Rejected, Executed, Failed, Expired})"

datatype decision = Approve | Reject

datatype execution_status = ExPending | ExSucceeded | ExFailed

datatype actor = Agent | Operator | Gateway | System

fun actor_str :: "actor \<Rightarrow> string" where
  "actor_str Agent = ''agent''"
| "actor_str Operator = ''operator''"
| "actor_str Gateway = ''gateway''"
| "actor_str System = ''system''"

definition action_types :: "string list" where
  "action_types = [''send_collection_letter'']"

definition tones :: "string list" where
  "tones = [''friendly'', ''firm'', ''final'']"

section \<open>Rows\<close>

record run_row =
  rn_id :: string
  rn_goal :: string
  rn_status :: run_status
  rn_started_at :: int
  rn_ended_at :: "int option"
  rn_operator_id :: string
  rn_error :: "string option"
  rn_params :: pydict

record step_row =
  st_id :: nat
  st_run_id :: string
  st_seq :: nat
  st_type :: step_type
  st_tool_name :: "string option"
  st_payload :: pydict
  st_created_at :: int

record proposal_row =
  pr_id :: string
  pr_run_id :: string
  pr_action_type :: string
  pr_status :: proposal_status
  pr_payload :: pydict
  pr_payload_hash :: string
  pr_rationale :: string
  pr_invoice_id :: string
  pr_customer_email :: string
  pr_amount_due :: int
  pr_currency :: string
  pr_days_overdue :: int
  pr_created_at :: int
  pr_expires_at :: int

record approval_row =
  ap_id :: nat
  ap_proposal_id :: string
  ap_decision :: decision
  ap_actor :: string
  ap_note :: "string option"
  ap_edited_body :: "string option"
  ap_decided_at :: int
  ap_token_nonce :: "string option"

record execution_row =
  ex_id :: nat
  ex_proposal_id :: string
  ex_key :: string
  ex_result :: "pydict option"
  ex_status :: execution_status
  ex_executed_at :: int
  ex_error :: "string option"

record nonce_row =
  nc_nonce :: string
  nc_proposal_id :: string
  nc_key :: string
  nc_consumed_at :: int

record outbox_row =
  ob_id :: string
  ob_proposal_id :: string
  ob_to_email :: string
  ob_subject :: string
  ob_body :: string
  ob_meta :: pydict
  ob_adapter :: string
  ob_file_path :: "string option"
  ob_created_at :: int

record audit_row =
  au_id :: int
  au_ts :: int
  au_actor :: actor
  au_event :: string
  au_subject_type :: string
  au_subject_id :: string
  au_detail :: pydict
  au_prev_hash :: string
  au_hash :: string

text \<open>A call of an email adapter: what was handed to it, and for which execution.\<close>

record mail =
  ml_to :: string
  ml_subject :: string
  ml_body :: string
  ml_meta :: pydict

section \<open>The database\<close>

text \<open>
  \<open>ticks\<close> counts the readings of the clock and the uuids drawn; \<open>mails\<close> is the log of the adapter's
  calls, which no code reads: it exists to state what left the system.
\<close>

record world =
  runs :: "run_row list"
  steps :: "step_row list"
  proposals :: "proposal_row list"
  approvals :: "approval_row list"
  executions :: "execution_row list"
  nonces :: "nonce_row list"
  outbox :: "outbox_row list"
  events :: "audit_row list"
  ticks :: nat
  mails :: "mail list"

definition empty_world :: world where
  "empty_world = \<lparr>runs = [], steps = [], proposals = [], approvals = [], executions = [],
     nonces = [], outbox = [], events = [], ticks = 0, mails = []\<rparr>"

definition tick :: "world \<Rightarrow> world" where
  "tick w = w\<lparr>ticks := Suc (ticks w)\<rparr>"

definition now_utc :: "env \<Rightarrow> world \<Rightarrow> int" where
  "now_utc env w = time_at env (ticks w)"

definition new_uuid :: "env \<Rightarrow> world \<Rightarrow> string" where
  "new_uuid env w = uuid_at env (ticks w)"

section \<open>Reading\<close>

abbreviation find_run :: "string \<Rightarrow> world \<Rightarrow> run_row option" where
  "find_run i w \<equiv> lookup_by rn_id i (runs w)"

abbreviation find_proposal :: "string \<Rightarrow> world \<Rightarrow> proposal_row option" where
  "find_proposal i w \<equiv> lookup_by pr_id i (proposals w)"

abbreviation find_execution :: "nat \<Rightarrow> world \<Rightarrow> execution_row option" where
  "find_execution i w \<equiv> lookup_by ex_id i (executions w)"

abbreviation find_key :: "string \<Rightarrow> world \<Rightarrow> execution_row option" where
  "find_key k w \<equiv> lookup_by ex_key k (executions w)"

abbreviation find_nonce :: "string \<Rightarrow> world \<Rightarrow> nonce_row option" where
  "find_nonce n w \<equiv> lookup_by nc_nonce n (nonces w)"

section \<open>Inserting\<close>

text \<open>SQLite gives an autoincremented row the id after the largest one.\<close>

definition next_rowid :: "('r \<Rightarrow> nat) \<Rightarrow> 'r list \<Rightarrow> nat" where
  "next_rowid key rows = (case last_by key rows of None \<Rightarrow> 1 | Some r \<Rightarrow> Suc (key r))"

definition has_key :: "('r \<Rightarrow> 'k) \<Rightarrow> 'k \<Rightarrow> 'r list \<Rightarrow> bool" where
  "has_key key k rows = list_ex (\<lambda>r. key r = k) rows"

lemma has_key_iff [simp]: "has_key key k rows \<longleftrightarrow> k \<in> key ` set rows"
  by (auto simp: has_key_def list_ex_iff)

definition unique_failed :: "string \<Rightarrow> exn" where
  "unique_failed column = IntegrityError (''UNIQUE constraint failed: '' @ column)"

definition foreign_key_failed :: exn where
  "foreign_key_failed = IntegrityError ''FOREIGN KEY constraint failed''"

definition insert_run :: "run_row \<Rightarrow> world \<Rightarrow> exn + world" where
  "insert_run r w =
     raise_if (has_key rn_id (rn_id r) (runs w)) (unique_failed ''runs.id'')
       (Inr (w\<lparr>runs := runs w @ [r]\<rparr>))"

definition insert_step :: "step_row \<Rightarrow> world \<Rightarrow> exn + world" where
  "insert_step s w =
     raise_if (has_key (\<lambda>s. (st_run_id s, st_seq s)) (st_run_id s, st_seq s) (steps w))
       (unique_failed ''run_steps.run_id, run_steps.seq'')
    (raise_if (\<not> has_key rn_id (st_run_id s) (runs w)) foreign_key_failed
       (Inr (w\<lparr>steps := steps w @ [s\<lparr>st_id := next_rowid st_id (steps w)\<rparr>]\<rparr>)))"

text \<open>One pending proposal per invoice: the partial unique index.\<close>

definition pending_for :: "string \<Rightarrow> proposal_row \<Rightarrow> bool" where
  "pending_for invoice p = (pr_status p = Pending \<and> pr_invoice_id p = invoice)"

definition insert_proposal :: "proposal_row \<Rightarrow> world \<Rightarrow> exn + world" where
  "insert_proposal p w =
     raise_if (pr_action_type p \<notin> set action_types)
       (IntegrityError ''CHECK constraint failed: ck_action_type'')
    (raise_if (has_key pr_id (pr_id p) (proposals w)) (unique_failed ''proposals.id'')
    (raise_if (pr_status p = Pending \<and> list_ex (pending_for (pr_invoice_id p)) (proposals w))
       (unique_failed ''proposals.stripe_invoice_id'')
    (raise_if (\<not> has_key rn_id (pr_run_id p) (runs w)) foreign_key_failed
       (Inr (w\<lparr>proposals := proposals w @ [p]\<rparr>)))))"

definition insert_approval :: "approval_row \<Rightarrow> world \<Rightarrow> exn + world" where
  "insert_approval a w =
     raise_if (\<not> has_key pr_id (ap_proposal_id a) (proposals w)) foreign_key_failed
       (Inr (w\<lparr>approvals := approvals w @ [a\<lparr>ap_id := next_rowid ap_id (approvals w)\<rparr>]\<rparr>))"

definition insert_execution :: "execution_row \<Rightarrow> world \<Rightarrow> exn + world" where
  "insert_execution e w =
     raise_if (has_key ex_key (ex_key e) (executions w)) (unique_failed ''executions.idempotency_key'')
    (raise_if (\<not> has_key pr_id (ex_proposal_id e) (proposals w)) foreign_key_failed
       (Inr (w\<lparr>executions := executions w @ [e\<lparr>ex_id := next_rowid ex_id (executions w)\<rparr>]\<rparr>)))"

definition insert_nonce :: "nonce_row \<Rightarrow> world \<Rightarrow> exn + world" where
  "insert_nonce n w =
     raise_if (has_key nc_nonce (nc_nonce n) (nonces w)) (unique_failed ''token_nonces.nonce'')
       (Inr (w\<lparr>nonces := nonces w @ [n]\<rparr>))"

definition insert_outbox :: "outbox_row \<Rightarrow> world \<Rightarrow> exn + world" where
  "insert_outbox m w =
     raise_if (has_key ob_id (ob_id m) (outbox w)) (unique_failed ''outbox_messages.id'')
       (Inr (w\<lparr>outbox := outbox w @ [m]\<rparr>))"

definition insert_event :: "audit_row \<Rightarrow> world \<Rightarrow> exn + world" where
  "insert_event e w =
     raise_if (has_key au_id (au_id e) (events w)) (unique_failed ''audit_events.id'')
    (raise_if (has_key au_prev_hash (au_prev_hash e) (events w)) (unique_failed ''audit_events.prev_hash'')
    (raise_if (has_key au_hash (au_hash e) (events w)) (unique_failed ''audit_events.hash'')
       (Inr (w\<lparr>events := events w @ [e]\<rparr>))))"

section \<open>Updating\<close>

definition update_run :: "string \<Rightarrow> (run_row \<Rightarrow> run_row) \<Rightarrow> world \<Rightarrow> world" where
  "update_run i f w = w\<lparr>runs := update_by rn_id i f (runs w)\<rparr>"

definition update_proposal :: "string \<Rightarrow> (proposal_row \<Rightarrow> proposal_row) \<Rightarrow> world \<Rightarrow> world" where
  "update_proposal i f w = w\<lparr>proposals := update_by pr_id i f (proposals w)\<rparr>"

definition update_execution :: "nat \<Rightarrow> (execution_row \<Rightarrow> execution_row) \<Rightarrow> world \<Rightarrow> world" where
  "update_execution i f w = w\<lparr>executions := update_by ex_id i f (executions w)\<rparr>"

section \<open>The constraints as an invariant\<close>

definition one_pending_per_invoice :: "proposal_row list \<Rightarrow> bool" where
  "one_pending_per_invoice ps =
     distinct (map pr_invoice_id (filter (\<lambda>p. pr_status p = Pending) ps))"

definition wf_world :: "world \<Rightarrow> bool" where
  "wf_world w =
     (distinct (map rn_id (runs w))
      \<and> distinct (map st_id (steps w))
      \<and> distinct (map (\<lambda>s. (st_run_id s, st_seq s)) (steps w))
      \<and> (\<forall>s \<in> set (steps w). st_run_id s \<in> rn_id ` set (runs w))
      \<and> distinct (map pr_id (proposals w))
      \<and> one_pending_per_invoice (proposals w)
      \<and> (\<forall>p \<in> set (proposals w). pr_run_id p \<in> rn_id ` set (runs w) \<and> pr_action_type p \<in> set action_types)
      \<and> distinct (map ap_id (approvals w))
      \<and> (\<forall>a \<in> set (approvals w). ap_proposal_id a \<in> pr_id ` set (proposals w))
      \<and> distinct (map ex_id (executions w))
      \<and> distinct (map ex_key (executions w))
      \<and> (\<forall>e \<in> set (executions w). ex_proposal_id e \<in> pr_id ` set (proposals w))
      \<and> distinct (map nc_nonce (nonces w))
      \<and> distinct (map ob_id (outbox w))
      \<and> distinct (map au_id (events w))
      \<and> distinct (map au_prev_hash (events w))
      \<and> distinct (map au_hash (events w)))"

lemma wf_empty_world: "wf_world empty_world"
  by (simp add: wf_world_def empty_world_def one_pending_per_invoice_def)

lemma next_rowid_fresh: "next_rowid key rows \<notin> key ` set rows"
proof (cases "last_by key rows")
  case None
  then show ?thesis by (simp add: next_rowid_def)
next
  case (Some m)
  then have "\<forall>r \<in> set rows. key r \<le> key m" using last_by_Some [of key rows m] by simp
  then show ?thesis using Some by (force simp: next_rowid_def)
qed

lemma wf_tick [simp]: "wf_world (tick w) = wf_world w"
  by (simp add: wf_world_def tick_def)

lemma wf_insert_run: "wf_world w \<Longrightarrow> insert_run r w = Inr w' \<Longrightarrow> wf_world w'"
  by (auto simp: insert_run_def result_simps wf_world_def)

lemma wf_insert_step: "wf_world w \<Longrightarrow> insert_step s w = Inr w' \<Longrightarrow> wf_world w'"
  using next_rowid_fresh [of st_id "steps w"]
  by (auto simp: insert_step_def result_simps wf_world_def)

lemma wf_insert_proposal: "wf_world w \<Longrightarrow> insert_proposal p w = Inr w' \<Longrightarrow> wf_world w'"
  by (auto simp: insert_proposal_def result_simps wf_world_def one_pending_per_invoice_def
      list_ex_iff pending_for_def) metis

lemma wf_insert_approval: "wf_world w \<Longrightarrow> insert_approval a w = Inr w' \<Longrightarrow> wf_world w'"
  using next_rowid_fresh [of ap_id "approvals w"]
  by (auto simp: insert_approval_def result_simps wf_world_def)

lemma wf_insert_execution: "wf_world w \<Longrightarrow> insert_execution e w = Inr w' \<Longrightarrow> wf_world w'"
  using next_rowid_fresh [of ex_id "executions w"]
  by (auto simp: insert_execution_def result_simps wf_world_def)

lemma wf_insert_nonce: "wf_world w \<Longrightarrow> insert_nonce n w = Inr w' \<Longrightarrow> wf_world w'"
  by (auto simp: insert_nonce_def result_simps wf_world_def)

lemma wf_insert_outbox: "wf_world w \<Longrightarrow> insert_outbox m w = Inr w' \<Longrightarrow> wf_world w'"
  by (auto simp: insert_outbox_def result_simps wf_world_def)

lemma wf_insert_event: "wf_world w \<Longrightarrow> insert_event e w = Inr w' \<Longrightarrow> wf_world w'"
  by (auto simp: insert_event_def result_simps wf_world_def)

text \<open>An update that keeps the keys, and makes no proposal pending, keeps the constraints.\<close>

lemma update_by_keys:
  "(\<And>r. key' (f r) = key' r) \<Longrightarrow> map key' (update_by key k f rows) = map key' rows"
  by (rule keys_update_by) simp

lemma update_by_image:
  "(\<And>r. key' (f r) = key' r) \<Longrightarrow> key' ` set (update_by key k f rows) = key' ` set rows"
  using update_by_keys [of key' f key k rows] by (metis list.set_map)

lemma update_by_mem: "r \<in> set (update_by key k f rows) \<Longrightarrow> \<exists>q \<in> set rows. r = q \<or> r = f q"
  by (auto simp: update_by_def)

lemma wf_update_run:
  assumes "\<And>r. rn_id (f r) = rn_id r" and "wf_world w"
  shows "wf_world (update_run i f w)"
  using assms by (simp add: wf_world_def update_run_def update_by_keys update_by_image)

lemma one_pending_update:
  assumes "\<And>p. pr_invoice_id (f p) = pr_invoice_id p"
    and "\<And>p. pr_status (f p) = Pending \<Longrightarrow> pr_status p = Pending"
    and "one_pending_per_invoice ps"
  shows "one_pending_per_invoice (update_by pr_id i f ps)"
  using assms(3)
proof (induction ps)
  case Nil
  then show ?case by (simp add: one_pending_per_invoice_def)
next
  case (Cons p ps)
  have "pr_invoice_id ` {q \<in> set (update_by pr_id i f ps). pr_status q = Pending}
      \<subseteq> pr_invoice_id ` {q \<in> set ps. pr_status q = Pending}"
    using assms(1,2) by (fastforce dest: update_by_mem)
  with Cons assms(1,2) show ?case
    by (auto simp: one_pending_per_invoice_def split: if_splits)
qed

lemma wf_update_proposal:
  assumes "\<And>p. pr_id (f p) = pr_id p \<and> pr_run_id (f p) = pr_run_id p
      \<and> pr_action_type (f p) = pr_action_type p \<and> pr_invoice_id (f p) = pr_invoice_id p"
    and "\<And>p. pr_status (f p) = Pending \<Longrightarrow> pr_status p = Pending"
    and "wf_world w"
  shows "wf_world (update_proposal i f w)"
proof -
  have "one_pending_per_invoice (update_by pr_id i f (proposals w))"
    using assms by (intro one_pending_update) (simp_all add: wf_world_def)
  moreover have "\<forall>p \<in> set (update_by pr_id i f (proposals w)).
      pr_run_id p \<in> rn_id ` set (runs w) \<and> pr_action_type p \<in> set action_types"
  proof
    fix p assume "p \<in> set (update_by pr_id i f (proposals w))"
    then obtain q where "q \<in> set (proposals w)" "p = q \<or> p = f q" by (blast dest: update_by_mem)
    with assms(1,3) show "pr_run_id p \<in> rn_id ` set (runs w) \<and> pr_action_type p \<in> set action_types"
      by (auto simp: wf_world_def)
  qed
  moreover have "map pr_id (update_by pr_id i f (proposals w)) = map pr_id (proposals w)"
    and "pr_id ` set (update_by pr_id i f (proposals w)) = pr_id ` set (proposals w)"
    using assms(1) by (simp_all add: update_by_keys update_by_image)
  ultimately show ?thesis using assms(3) by (simp add: wf_world_def update_proposal_def)
qed

lemma wf_update_execution:
  assumes "\<And>e. ex_id (f e) = ex_id e \<and> ex_key (f e) = ex_key e \<and> ex_proposal_id (f e) = ex_proposal_id e"
    and "wf_world w"
  shows "wf_world (update_execution i f w)"
proof -
  have "\<forall>e \<in> set (update_by ex_id i f (executions w)). ex_proposal_id e \<in> pr_id ` set (proposals w)"
    using assms by (fastforce simp: wf_world_def dest: update_by_mem)
  with assms show ?thesis by (simp add: wf_world_def update_execution_def update_by_keys)
qed

lemmas wf_inserts =
  wf_insert_run wf_insert_step wf_insert_proposal wf_insert_approval wf_insert_execution
  wf_insert_nonce wf_insert_outbox wf_insert_event

end
