(* ===== verification/Token.thy ===== *)
theory Token
  imports Hashing "HOL-Library.Word"
begin

text \<open>
  \<^verbatim>\<open>shared/approval_token.py\<close>: base64url as Python's \<^verbatim>\<open>base64\<close> writes it and (leniently) reads it,
  HMAC-SHA256 over the environment's SHA-256, minting and decoding. The lemmas show that decoding
  inverts minting, that an accepted token carries the signature of its own first segment, and which
  exceptions leave \<open>decode\<close>.
\<close>

section \<open>base64url\<close>

definition b64_char :: "nat \<Rightarrow> char" where
  "b64_char v =
     (if v < 26 then char_of (65 + v)
      else if v < 52 then char_of (71 + v)
      else if v < 62 then char_of (v - 4)
      else if v = 62 then CHR ''-'' else CHR ''_'')"

definition b64_val :: "char \<Rightarrow> nat option" where
  "b64_val c =
     (let n = byte_of c in
      if 65 \<le> n \<and> n \<le> 90 then Some (n - 65)
      else if 97 \<le> n \<and> n \<le> 122 then Some (n - 71)
      else if 48 \<le> n \<and> n \<le> 57 then Some (n + 4)
      else if c = CHR ''-'' \<or> c = CHR ''+'' then Some 62
      else if c = CHR ''_'' \<or> c = CHR ''/'' then Some 63
      else None)"

fun urlsafe_b64encode :: "string \<Rightarrow> string" where
  "urlsafe_b64encode [] = []"
| "urlsafe_b64encode [a] =
     [b64_char (byte_of a div 4), b64_char (byte_of a mod 4 * 16), CHR ''='', CHR ''='']"
| "urlsafe_b64encode [a, b] =
     [b64_char (byte_of a div 4), b64_char (byte_of a mod 4 * 16 + byte_of b div 16),
      b64_char (byte_of b mod 16 * 4), CHR ''='']"
| "urlsafe_b64encode (a # b # c # s) =
     b64_char (byte_of a div 4) # b64_char (byte_of a mod 4 * 16 + byte_of b div 16)
     # b64_char (byte_of b mod 16 * 4 + byte_of c div 64) # b64_char (byte_of c mod 64)
     # urlsafe_b64encode s"

definition rstrip_padding :: "string \<Rightarrow> string" where
  "rstrip_padding s = rev (dropWhile (\<lambda>c. c = CHR ''='') (rev s))"

definition b64encode :: "string \<Rightarrow> string" where
  "b64encode raw = rstrip_padding (urlsafe_b64encode raw)"

text \<open>
  \<^verbatim>\<open>binascii.a2b_base64\<close> in its non-strict mode: characters outside the alphabet are skipped, a
  complete pad sequence ends the input, and an incomplete quad is an error (\<open>None\<close>). The
  arguments are the position in the quad, the bits left over and the pads seen.
\<close>

fun a2b :: "nat \<Rightarrow> nat \<Rightarrow> nat \<Rightarrow> string \<Rightarrow> string option" where
  "a2b q l p [] = (if q = 0 then Some [] else None)"
| "a2b q l p (c # s) =
     (if c = CHR ''='' then
        if 2 \<le> q then if 4 \<le> q + Suc p then Some [] else a2b q l (Suc p) s
        else a2b q l p s
      else case b64_val c of
        None \<Rightarrow> a2b q l p s
      | Some v \<Rightarrow>
          if q = 0 then a2b 1 v 0 s
          else if q = 1 then map_option (Cons (char_of (l * 4 + v div 16))) (a2b 2 (v mod 16) 0 s)
          else if q = 2 then map_option (Cons (char_of (l * 16 + v div 4))) (a2b 3 (v mod 4) 0 s)
          else map_option (Cons (char_of (l * 64 + v))) (a2b 0 0 0 s))"

definition b64_padding :: "string \<Rightarrow> string" where
  "b64_padding segment = replicate (nat ((- int (length segment)) mod 4)) (CHR ''='')"

definition b64decode :: "string \<Rightarrow> exn + string" where
  "b64decode segment =
     (case a2b 0 0 0 (segment @ b64_padding segment) of
        None \<Rightarrow> Inl (MalformedToken ''token segment is not valid base64url'')
      | Some raw \<Rightarrow> Inr raw)"

section \<open>HMAC-SHA256\<close>

definition xor_pad :: "8 word \<Rightarrow> string \<Rightarrow> string" where
  "xor_pad pad key = map (\<lambda>c. char_of (unat (xor (word_of_nat (byte_of c)) pad))) key"

definition hmac_key :: "env \<Rightarrow> string \<Rightarrow> string" where
  "hmac_key env secret =
     (let k = (if 64 < length secret then sha256 env secret else secret)
      in k @ replicate (64 - length k) (char_of (0 :: nat)))"

definition hmac_sha256 :: "env \<Rightarrow> string \<Rightarrow> string \<Rightarrow> string" where
  "hmac_sha256 env secret msg =
     sha256 env (xor_pad 0x5C (hmac_key env secret)
       @ sha256 env (xor_pad 0x36 (hmac_key env secret) @ msg))"

definition sign :: "env \<Rightarrow> string \<Rightarrow> string \<Rightarrow> exn + string" where
  "sign env segment secret =
     raise_if (\<not> is_ascii segment) (UnicodeEncodeError segment)
       (Inr (b64encode (hmac_sha256 env secret segment)))"

section \<open>Claims\<close>

record claims =
  cl_proposal_id :: string
  cl_payload_hash :: string
  cl_action_type :: string
  cl_approver :: string
  cl_nonce :: string
  cl_iat :: int
  cl_exp :: int

definition is_expired :: "claims \<Rightarrow> int \<Rightarrow> bool" where
  "is_expired c at = (cl_exp c \<le> at)"

definition claims_dump :: "claims \<Rightarrow> pydict" where
  "claims_dump c =
     [(''proposal_id'', PStr (cl_proposal_id c)), (''payload_hash'', PStr (cl_payload_hash c)),
      (''action_type'', PStr (cl_action_type c)), (''approver'', PStr (cl_approver c)),
      (''nonce'', PStr (cl_nonce c)), (''iat'', PInt (cl_iat c)), (''exp'', PInt (cl_exp c))]"

definition str_field :: "string \<Rightarrow> pydict \<Rightarrow> string option" where
  "str_field k d = (case map_of d k of Some (PStr s) \<Rightarrow> Some s | _ \<Rightarrow> None)"

definition int_field :: "env \<Rightarrow> string \<Rightarrow> pydict \<Rightarrow> int option" where
  "int_field env k d = Option.bind (map_of d k) (coerce_int env)"

definition claim_fields :: "string list" where
  "claim_fields =
     [''proposal_id'', ''payload_hash'', ''action_type'', ''approver'', ''nonce'', ''iat'', ''exp'']"

text \<open>
  \<^verbatim>\<open>ApprovalTokenClaims.model_validate\<close>: no field beyond the seven, each present with its type; an
  absent nonce takes its default, the fresh uuid \<open>fresh\<close>.
\<close>

definition claims_validate :: "env \<Rightarrow> string \<Rightarrow> pydict \<Rightarrow> claims option" where
  "claims_validate env fresh d =
     (if \<not> list_all (\<lambda>kv. fst kv \<in> set claim_fields) d then None
      else case (str_field ''proposal_id'' d, str_field ''payload_hash'' d, str_field ''action_type'' d,
                 str_field ''approver'' d,
                 if dict_has ''nonce'' d then str_field ''nonce'' d else Some fresh,
                 int_field env ''iat'' d, int_field env ''exp'' d) of
        (Some p, Some h, Some t, Some a, Some n, Some i, Some e) \<Rightarrow>
          Some \<lparr>cl_proposal_id = p, cl_payload_hash = h, cl_action_type = t, cl_approver = a,
                cl_nonce = n, cl_iat = i, cl_exp = e\<rparr>
      | _ \<Rightarrow> None)"

section \<open>Mint and decode\<close>

definition mint :: "env \<Rightarrow> claims \<Rightarrow> string \<Rightarrow> exn + string" where
  "mint env c secret =
     raise_if (secret = []) (ValueError ''refusing to mint an approval token with an empty secret'')
       (let segment = b64encode (ascii_json (PDict (claims_dump c)))
        in and_then (sign env segment secret) (\<lambda>sig. Inr (segment @ ''.'' @ sig)))"

text \<open>
  \<^verbatim>\<open>json.loads\<close> on bytes decodes them first: a UTF-8 byte-order mark is dropped, and bytes that are
  not UTF-8 raise \<^verbatim>\<open>UnicodeDecodeError\<close>. UTF-16 and UTF-32 texts, which Python would detect, are
  not: no minter writes them, and they read as invalid JSON here.
\<close>

fun valid_utf8 :: "string \<Rightarrow> bool" where
  "valid_utf8 [] = True"
| "valid_utf8 (a # s) =
     (let n = byte_of a;
          k = (if n < 128 then 0 else if 194 \<le> n \<and> n < 224 then 1
               else if 224 \<le> n \<and> n < 240 then 2 else if 240 \<le> n \<and> n < 245 then 3 else 4)
      in k < 4 \<and> k \<le> length s \<and> list_all is_continuation (take k s)
         \<and> (n = 224 \<longrightarrow> 160 \<le> byte_of (s ! 0)) \<and> (n = 240 \<longrightarrow> 144 \<le> byte_of (s ! 0))
         \<and> (n = 244 \<longrightarrow> byte_of (s ! 0) < 144)
         \<and> valid_utf8 (drop k s))"

definition utf8_bom :: string where
  "utf8_bom = bytes [239, 187, 191]"

definition loads_bytes :: "string \<Rightarrow> exn + pyval" where
  "loads_bytes raw =
     (let text = (if prefix utf8_bom raw then drop 3 raw else raw) in
      if \<not> valid_utf8 text then Inl UnicodeDecodeError
      else case json_loads text of
        None \<Rightarrow> Inl (MalformedToken ''token claims are not valid JSON'')
      | Some v \<Rightarrow> Inr v)"

definition parse_claims :: "env \<Rightarrow> string \<Rightarrow> pyval \<Rightarrow> exn + claims" where
  "parse_claims env fresh v =
     (case v of
        PDict d \<Rightarrow>
          (case claims_validate env fresh d of
             None \<Rightarrow> Inl (MalformedToken
                       (''token claims do not match the contract: '' @ validation_text env d))
           | Some c \<Rightarrow> Inr c)
      | _ \<Rightarrow> Inl (MalformedToken ''token claims are not an object''))"

definition decode :: "env \<Rightarrow> string \<Rightarrow> string option \<Rightarrow> string \<Rightarrow> exn + claims" where
  "decode env fresh raw secret =
     raise_if (secret = [])
       (ValueError ''refusing to verify an approval token with an empty secret'')
     (case raw of
        None \<Rightarrow> Inl (MalformedToken ''no approval token supplied'')
      | Some r \<Rightarrow>
          raise_if (r = []) (MalformedToken ''no approval token supplied'')
          (case split_on (CHR ''.'') r of
             [segment, signature] \<Rightarrow>
               raise_if (segment = [] \<or> signature = [])
                 (MalformedToken ''expected 2 token segments, got 2'')
               (and_then (sign env segment secret) (\<lambda>expected.
                and_then (compare_digest signature expected) (\<lambda>same.
                raise_if (\<not> same) (InvalidSignature ''approval token signature does not verify'')
                (and_then (b64decode segment) (\<lambda>text.
                 and_then (loads_bytes text) (parse_claims env fresh))))))
           | parts \<Rightarrow> Inl (MalformedToken
                       (''expected 2 token segments, got '' @ nat_str (length parts)))))"

section \<open>base64url is read back\<close>

lemma b64_char_val: "v < 64 \<Longrightarrow> b64_val (b64_char v) = Some v"
proof -
  assume v: "v < 64"
  consider "v < 26" | "26 \<le> v \<and> v < 52" | "52 \<le> v \<and> v < 62" | "v = 62" | "v = 63" using v by linarith
  then show ?thesis by cases (auto simp: b64_val_def b64_char_def Let_def)
qed

lemma b64_char_ne: "v < 64 \<Longrightarrow> b64_char v \<noteq> CHR ''='' \<and> b64_char v \<noteq> CHR ''.'' \<and> byte_of (b64_char v) < 128"
proof -
  assume v: "v < 64"
  have "c = CHR ''='' \<or> c = CHR ''.'' \<Longrightarrow> b64_val c = None" for c
    by (auto simp: b64_val_def Let_def)
  with b64_char_val [OF v] have "b64_char v \<noteq> CHR ''=''" "b64_char v \<noteq> CHR ''.''" by fastforce+
  moreover have "byte_of (b64_char v) < 128" using v by (auto simp: b64_char_def)
  ultimately show ?thesis by simp
qed

text \<open>The four six-bit values of three bytes, and the bytes back from them.\<close>

lemma sextets:
  fixes a b c :: char
  shows "byte_of a div 4 < 64" "byte_of a mod 4 * 16 < 64" "byte_of b mod 16 * 4 < 64"
    "byte_of a mod 4 * 16 + byte_of b div 16 < 64" "byte_of b mod 16 * 4 + byte_of c div 64 < 64"
    "byte_of c mod 64 < 64"
proof -
  have a: "byte_of x < 256" for x by simp
  then have d: "byte_of x div 4 < 64" "byte_of x div 16 < 16" "byte_of x div 64 < 4" for x
    by (simp_all add: less_mult_imp_div_less)
  have m: "byte_of x mod 4 < 4" "byte_of x mod 16 < 16" for x by simp_all
  show "byte_of a div 4 < 64" by (rule d)
  show "byte_of a mod 4 * 16 < 64" using m(1) [of a] by linarith
  show "byte_of b mod 16 * 4 < 64" using m(2) [of b] by linarith
  show "byte_of a mod 4 * 16 + byte_of b div 16 < 64" using m(1) [of a] d(2) [of b] by linarith
  show "byte_of b mod 16 * 4 + byte_of c div 64 < 64" using m(2) [of b] d(3) [of c] by linarith
  show "byte_of c mod 64 < 64" by simp
qed

lemma high_bits:
  fixes c :: char
  shows "byte_of c div 16 div 16 = 0" "byte_of c div 64 div 4 = 0"
    "byte_of c div 16 mod 16 = byte_of c div 16" "byte_of c div 64 mod 4 = byte_of c div 64"
proof -
  have "byte_of c div 16 < 16" "byte_of c div 64 < 4" by (simp_all add: less_mult_imp_div_less)
  then show "byte_of c div 16 div 16 = 0" "byte_of c div 64 div 4 = 0"
    "byte_of c div 16 mod 16 = byte_of c div 16" "byte_of c div 64 mod 4 = byte_of c div 64"
    by (simp_all only: div_less mod_less)
qed

lemma Suc3_mod: "Suc (Suc (Suc n)) mod 3 = n mod 3"
proof -
  have "Suc (Suc (Suc n)) = n + 3" by simp
  then show ?thesis by (simp only: mod_add_self2)
qed

fun unpadded :: "string \<Rightarrow> string" where
  "unpadded [] = []"
| "unpadded [a] = [b64_char (byte_of a div 4), b64_char (byte_of a mod 4 * 16)]"
| "unpadded [a, b] =
     [b64_char (byte_of a div 4), b64_char (byte_of a mod 4 * 16 + byte_of b div 16),
      b64_char (byte_of b mod 16 * 4)]"
| "unpadded (a # b # c # s) =
     b64_char (byte_of a div 4) # b64_char (byte_of a mod 4 * 16 + byte_of b div 16)
     # b64_char (byte_of b mod 16 * 4 + byte_of c div 64) # b64_char (byte_of c mod 64)
     # unpadded s"

lemma unpadded_chars:
  "c \<in> set (unpadded raw) \<Longrightarrow> c \<noteq> CHR ''='' \<and> c \<noteq> CHR ''.'' \<and> byte_of c < 128"
  by (induction raw rule: unpadded.induct) (auto simp: b64_char_ne sextets)

lemma urlsafe_padding:
  "urlsafe_b64encode raw = unpadded raw @ replicate ((3 - length raw mod 3) mod 3) (CHR ''='')"
  by (induction raw rule: unpadded.induct) (simp_all add: numeral_2_eq_2 Suc3_mod)

lemma dropWhile_pads: "a \<noteq> x \<Longrightarrow> dropWhile (\<lambda>c. c = x) (replicate n x @ a # l) = a # l"
  "dropWhile (\<lambda>c. c = x) (replicate n x) = []"
  by (induction n) simp_all

lemma rstrip_padding_pads: "CHR ''='' \<notin> set u \<Longrightarrow> rstrip_padding (u @ replicate n (CHR ''='')) = u"
  by (cases "rev u") (auto simp: rstrip_padding_def dropWhile_pads rev_swap)

lemma b64encode_unpadded: "b64encode raw = unpadded raw"
proof -
  have "CHR ''='' \<notin> set (unpadded raw)" using unpadded_chars by blast
  then show ?thesis unfolding b64encode_def urlsafe_padding by (rule rstrip_padding_pads)
qed

lemma minus_mod_4: "(- int (Suc (Suc (Suc (Suc n))))) mod 4 = (- int n) mod 4"
proof -
  have "- int (Suc (Suc (Suc (Suc n)))) = - int n - 4" by simp
  then show ?thesis by (simp only: minus_mod_self2)
qed

lemma length_unpadded:
  "nat ((- int (length (unpadded raw))) mod 4) = (3 - length raw mod 3) mod 3"
proof (induction raw rule: unpadded.induct)
  case (4 a b c s)
  then show ?case by (simp only: unpadded.simps list.size add_Suc_right add_0_right minus_mod_4 Suc3_mod)
qed (simp_all add: numeral_2_eq_2)

lemma a2b_char:
  "v < 64 \<Longrightarrow> a2b q l p (b64_char v # s) =
     (if q = 0 then a2b 1 v 0 s
      else if q = 1 then map_option (Cons (char_of (l * 4 + v div 16))) (a2b 2 (v mod 16) 0 s)
      else if q = 2 then map_option (Cons (char_of (l * 16 + v div 4))) (a2b 3 (v mod 4) 0 s)
      else map_option (Cons (char_of (l * 64 + v))) (a2b 0 0 0 s))"
  by (simp add: b64_char_val b64_char_ne)

lemma a2b_encode: "a2b 0 0 0 (urlsafe_b64encode raw) = Some raw"
  by (induction raw rule: urlsafe_b64encode.induct)
    (simp_all del: a2b.simps(2) add: a2b_char sextets, simp_all add: high_bits)

lemma b64decode_encode: "b64decode (b64encode raw) = Inr raw"
  using a2b_encode [of raw]
  by (simp add: b64decode_def b64encode_unpadded b64_padding_def length_unpadded urlsafe_padding)

lemma b64encode_chars [simp]:
  "is_ascii (b64encode raw)" "CHR ''.'' \<notin> set (b64encode raw)"
  using unpadded_chars [of _ raw] by (auto simp: b64encode_unpadded is_ascii_def list_all_iff)

lemma b64encode_nonempty: "raw \<noteq> [] \<Longrightarrow> b64encode raw \<noteq> []"
  by (cases raw rule: unpadded.cases) (simp_all add: b64encode_unpadded)

section \<open>Decoding inverts minting\<close>

text \<open>A digest of \<^verbatim>\<open>hashlib\<close> is 32 bytes; all that matters here is that it is not empty.\<close>

definition digests_nonempty :: "env \<Rightarrow> bool" where
  "digests_nonempty env = (\<forall>s. sha256 env s \<noteq> [])"

definition claims_ascii :: "claims \<Rightarrow> bool" where
  "claims_ascii c =
     (is_ascii (cl_proposal_id c) \<and> is_ascii (cl_payload_hash c) \<and> is_ascii (cl_action_type c)
      \<and> is_ascii (cl_approver c) \<and> is_ascii (cl_nonce c))"

lemma ascii_valid_utf8: "is_ascii s \<Longrightarrow> valid_utf8 s"
  by (induction s) (simp_all add: Let_def)

lemma ascii_no_bom: "is_ascii s \<Longrightarrow> \<not> prefix utf8_bom s"
  by (cases s) (auto simp: utf8_bom_def bytes_def)

lemma is_ascii_concat [simp]: "is_ascii (concat ss) \<longleftrightarrow> (\<forall>s \<in> set ss. is_ascii s)"
  by (induction ss) simp_all

lemma is_ascii_join: "is_ascii sep \<Longrightarrow> (\<And>s. s \<in> set ss \<Longrightarrow> is_ascii s) \<Longrightarrow> is_ascii (join sep ss)"
  by (induction sep ss rule: join.induct) simp_all

lemma is_ascii_hex4 [simp]: "is_ascii (hex4 n)"
  by (simp add: hex4_def)

lemma is_ascii_escape_codepoint: "n < 128 \<Longrightarrow> is_ascii (escape_codepoint n)"
  by (simp add: escape_codepoint_def unicode_escape_def escape_control_def Let_def)

lemma is_ascii_escape: "is_ascii s \<Longrightarrow> is_ascii (escape_ascii s)"
  by (auto simp: escape_ascii_def codepoints_ascii is_ascii_def [of s] list_all_iff
      intro: is_ascii_escape_codepoint)

lemma is_ascii_nat_str [simp]: "is_ascii (nat_str n)"
proof (induction n rule: nat_str.induct)
  case (1 n)
  have "byte_of (digit_char m) < 128" for m
    using digit_char_is_digit [of m] unfolding is_digit_def by linarith
  with 1 show ?case by (subst nat_str.simps) simp
qed

lemma is_ascii_int_str [simp]: "is_ascii (int_str i)"
  by (simp add: int_str_def)

lemma is_ascii_json: "all_strings is_ascii v \<Longrightarrow> is_ascii (ascii_json v)"
  unfolding ascii_json_def
proof (induction v)
  case (PDict d)
  have "is_ascii (json_string escape_ascii (fst kv) @ '':'' @ render escape_ascii (snd kv))"
    if kv: "kv \<in> set d" for kv
  proof -
    have "snd kv \<in> Basic_BNFs.snds kv" by (cases kv) simp
    with PDict kv show ?thesis by (simp add: json_string_def is_ascii_escape)
  qed
  then show ?case by (auto intro!: is_ascii_join)
qed (auto simp: json_string_def is_ascii_escape intro!: is_ascii_join)

lemma map_of_sort_key:
  assumes "dict_ok d" shows "map_of (sort_key fst d) = map_of d"
proof -
  have "dict_ok (sort_key fst d)" using assms by (simp add: distinct_map)
  with assms show ?thesis by (simp add: map_of_inject_set)
qed

lemma map_of_values: "map_of (map (\<lambda>kv. (fst kv, f (snd kv))) d) k = map_option f (map_of d k)"
  by (induction d) auto

lemma map_of_sort_keys:
  "dict_ok d \<Longrightarrow> map_of (items_of (sort_keys (PDict d))) k = map_option sort_keys (map_of d k)"
  by (simp add: map_of_values map_of_sort_key)

lemma validate_dump:
  assumes "ints_accepted env"
  shows "claims_validate env fresh (items_of (sort_keys (PDict (claims_dump c)))) = Some c"
proof -
  let ?d = "items_of (sort_keys (PDict (claims_dump c)))"
  have "dict_ok (claims_dump c)" by (simp add: claims_dump_def)
  note get = map_of_sort_keys [OF this]
  have "fst ` set ?d = fst ` set (claims_dump c)" by (simp add: image_image)
  then have "fst ` set ?d = set claim_fields" by (auto simp: claims_dump_def claim_fields_def)
  then have "list_all (\<lambda>kv. fst kv \<in> set claim_fields) ?d" unfolding list_all_iff by blast
  moreover have "str_field ''proposal_id'' ?d = Some (cl_proposal_id c)"
    "str_field ''payload_hash'' ?d = Some (cl_payload_hash c)"
    "str_field ''action_type'' ?d = Some (cl_action_type c)"
    "str_field ''approver'' ?d = Some (cl_approver c)"
    "str_field ''nonce'' ?d = Some (cl_nonce c)" "dict_has ''nonce'' ?d"
    unfolding str_field_def dict_has_def get by (simp_all add: claims_dump_def)
  moreover have "int_field env ''iat'' ?d = Some (cl_iat c)" "int_field env ''exp'' ?d = Some (cl_exp c)"
    using assms unfolding int_field_def get by (simp_all add: claims_dump_def ints_accepted_def)
  ultimately show ?thesis by (simp add: claims_validate_def)
qed

lemma sign_ascii: "is_ascii segment \<Longrightarrow> sign env segment secret = Inr (b64encode (hmac_sha256 env secret segment))"
  by (simp add: sign_def)

lemma loads_dump:
  assumes "claims_ascii c"
  shows "loads_bytes (ascii_json (PDict (claims_dump c))) = Inr (sort_keys (PDict (claims_dump c)))"
proof -
  let ?v = "PDict (claims_dump c)"
  have strings: "all_strings is_ascii ?v" using assms by (simp add: claims_dump_def claims_ascii_def)
  have "wf_pyval ?v" by (simp add: claims_dump_def)
  then have "json_loads (ascii_json ?v) = Some (sort_keys ?v)"
    unfolding ascii_json_def using strings by (rule ascii_json.loads_render)
  moreover have "is_ascii (ascii_json ?v)" using strings by (rule is_ascii_json)
  ultimately show ?thesis by (simp add: loads_bytes_def ascii_valid_utf8 ascii_no_bom)
qed

lemma mint_shape:
  "mint env c secret = Inr raw \<Longrightarrow>
   \<exists>segment. segment = b64encode (ascii_json (PDict (claims_dump c)))
     \<and> raw = segment @ CHR ''.'' # b64encode (hmac_sha256 env secret segment)"
  by (auto simp: mint_def sign_def Let_def result_simps)

lemma mint_succeeds: "secret \<noteq> [] \<Longrightarrow> \<exists>raw. mint env c secret = Inr raw"
  by (simp add: mint_def sign_def Let_def)

lemma mint_then_decode:
  assumes "ints_accepted env" and "digests_nonempty env" and "claims_ascii c"
    and "mint env c secret = Inr raw"
  shows "decode env fresh (Some raw) secret = Inr c"
proof -
  let ?json = "ascii_json (PDict (claims_dump c))"
  let ?segment = "b64encode ?json"
  let ?sig = "b64encode (hmac_sha256 env secret ?segment)"
  from mint_shape [OF assms(4)] have raw: "raw = ?segment @ CHR ''.'' # ?sig" by simp
  have secret: "secret \<noteq> []" using assms(4) by (auto simp: mint_def result_simps)
  have "?json \<noteq> []" by (simp add: ascii_json_def)
  then have "?segment \<noteq> []" by (rule b64encode_nonempty)
  have "hmac_sha256 env secret ?segment \<noteq> []" using assms(2) by (simp add: hmac_sha256_def digests_nonempty_def)
  then have "?sig \<noteq> []" by (rule b64encode_nonempty)
  have parts: "split_on (CHR ''.'') raw = [?segment, ?sig]"
    by (simp add: raw split_on_append split_on_none)
  have "parse_claims env fresh (sort_keys (PDict (claims_dump c))) = Inr c"
    using validate_dump [OF assms(1), of fresh c] by (simp add: parse_claims_def)
  then show ?thesis
    using secret \<open>?segment \<noteq> []\<close> \<open>?sig \<noteq> []\<close>
    by (simp add: decode_def parts sign_ascii compare_digest_def b64decode_encode loads_dump [OF assms(3)])
      (simp add: raw)
qed


section \<open>What \<open>decode\<close> accepts, and what escapes it\<close>

lemma decode_parts:
  assumes "split_on (CHR ''.'') r = [segment, signature]" and "secret \<noteq> []"
  shows "decode env fresh (Some r) secret =
    raise_if (segment = [] \<or> signature = []) (MalformedToken ''expected 2 token segments, got 2'')
     (and_then (sign env segment secret) (\<lambda>expected.
      and_then (compare_digest signature expected) (\<lambda>same.
      raise_if (\<not> same) (InvalidSignature ''approval token signature does not verify'')
      (and_then (b64decode segment) (\<lambda>text.
       and_then (loads_bytes text) (parse_claims env fresh))))))"
proof -
  have "r \<noteq> []" using assms(1) by auto
  then show ?thesis using assms by (simp add: decode_def)
qed

text \<open>
  Whatever \<open>decode\<close> accepts is a first segment followed by the HMAC signature of that very
  segment under the secret, and the claims are the ones the segment encodes.
\<close>

theorem decode_only_signed:
  assumes "decode env fresh raw secret = Inr c"
  shows "secret \<noteq> [] \<and>
    (\<exists>segment text v.
       raw = Some (segment @ ''.'' @ b64encode (hmac_sha256 env secret segment))
       \<and> b64decode segment = Inr text \<and> loads_bytes text = Inr v \<and> parse_claims env fresh v = Inr c)"
proof -
  from assms obtain r where r: "raw = Some r" and secret: "secret \<noteq> []"
    by (auto simp: decode_def result_simps split: option.splits)
  obtain segment signature where parts: "split_on (CHR ''.'') r = [segment, signature]"
    using assms by (auto simp: decode_def r result_simps split: list.splits)
  have "decode env fresh (Some r) secret = Inr c" using assms r by simp
  then have "signature = b64encode (hmac_sha256 env secret segment) \<and>
      (\<exists>text v. b64decode segment = Inr text \<and> loads_bytes text = Inr v \<and> parse_claims env fresh v = Inr c)"
    unfolding decode_parts [OF parts secret] by (auto simp: result_simps sign_def dest!: compare_digest_TrueD)
  moreover have "r = segment @ CHR ''.'' # signature" using split_on_two [OF parts] by simp
  ultimately show ?thesis using secret r by auto
qed

definition token_error :: "exn \<Rightarrow> bool" where
  "token_error e = (case e of InvalidSignature _ \<Rightarrow> True | MalformedToken _ \<Rightarrow> True | _ \<Rightarrow> False)"

lemma b64decode_error: "b64decode segment = Inl e \<Longrightarrow> token_error e"
  by (auto simp: b64decode_def token_error_def split: option.splits)

lemma parse_claims_error: "parse_claims env fresh v = Inl e \<Longrightarrow> token_error e"
  by (auto simp: parse_claims_def token_error_def split: pyval.splits option.splits)

lemma loads_bytes_error: "loads_bytes text = Inl e \<Longrightarrow> e = UnicodeDecodeError \<or> token_error e"
  by (auto simp: loads_bytes_def token_error_def Let_def split: option.splits if_splits)

text \<open>
  With a secret, the exceptions of \<open>decode\<close> are the two it documents, except on a token that
  is not ASCII (the encoding of the first segment, or the digest comparison, raises) and on a
  correctly signed segment that is not UTF-8.
\<close>

theorem decode_errors:
  assumes "decode env fresh raw secret = Inl e" and "secret \<noteq> []"
  shows "token_error e
    \<or> (\<exists>r. raw = Some r \<and> \<not> is_ascii r \<and>
         (e = TypeError ''comparing strings with non-ASCII characters is not supported''
          \<or> (\<exists>s. e = UnicodeEncodeError s)))
    \<or> (e = UnicodeDecodeError \<and>
        (\<exists>segment. raw = Some (segment @ ''.'' @ b64encode (hmac_sha256 env secret segment))))"
proof (cases "token_error e")
  case False
  obtain r where r: "raw = Some r" using assms False by (cases raw) (auto simp: decode_def token_error_def)
  obtain segment signature where parts: "split_on (CHR ''.'') r = [segment, signature]"
    using assms False by (auto simp: decode_def r result_simps token_error_def split: list.splits)
  have rs: "r = segment @ CHR ''.'' # signature" using split_on_two [OF parts] by simp
  have "decode env fresh (Some r) secret = Inl e" using assms r by simp
  then have "(\<not> is_ascii segment \<and> e = UnicodeEncodeError segment)
    \<or> (\<not> is_ascii signature \<and> e = TypeError ''comparing strings with non-ASCII characters is not supported'')
    \<or> (e = UnicodeDecodeError \<and> signature = b64encode (hmac_sha256 env secret segment))"
    using False unfolding decode_parts [OF parts assms(2)]
    by (auto simp: result_simps sign_def compare_digest_def token_error_def split: if_splits
        dest!: b64decode_error loads_bytes_error parse_claims_error)
  then show ?thesis using r rs by auto
qed simp

end
