(* ===== verification/AuditLog.thy ===== *)
theory AuditLog
  imports Models Token "HOL-Library.Multiset"
begin

text \<open>
  \<^verbatim>\<open>shared/audit.py\<close>, the hash-chained log, with the transactions and the retry of \<^verbatim>\<open>shared/db.py\<close>.
  The lemmas show that an append extends an intact chain by one row, that two appends from the same
  tail cannot both commit, that \<open>verify_chain\<close> reports the first divergent row, and that two intact
  chains with the same head agree row by row.
\<close>

section \<open>Rows and their hash\<close>

definition audit_payload :: "int \<Rightarrow> string \<Rightarrow> string \<Rightarrow> string \<Rightarrow> string \<Rightarrow> string \<Rightarrow> pydict \<Rightarrow> string \<Rightarrow> pyval" where
  "audit_payload rid ts_iso actor event subject_type subject_id detail prev_hash =
     PDict [(''id'', PInt rid), (''ts'', PStr ts_iso), (''actor'', PStr actor), (''event'', PStr event),
            (''subject_type'', PStr subject_type), (''subject_id'', PStr subject_id),
            (''detail'', PDict detail), (''prev_hash'', PStr prev_hash)]"

definition compute_hash ::
  "env \<Rightarrow> int \<Rightarrow> string \<Rightarrow> string \<Rightarrow> string \<Rightarrow> string \<Rightarrow> string \<Rightarrow> pydict \<Rightarrow> string \<Rightarrow> string" where
  "compute_hash env rid ts_iso actor event subject_type subject_id detail prev_hash =
     hash_payload env (audit_payload rid ts_iso actor event subject_type subject_id detail prev_hash)"

definition row_payload :: "audit_row \<Rightarrow> pyval" where
  "row_payload r = audit_payload (au_id r) (format_utc (au_ts r)) (actor_str (au_actor r)) (au_event r)
     (au_subject_type r) (au_subject_id r) (au_detail r) (au_prev_hash r)"

definition row_hash :: "env \<Rightarrow> audit_row \<Rightarrow> string" where
  "row_hash env r = compute_hash env (au_id r) (format_utc (au_ts r)) (actor_str (au_actor r)) (au_event r)
     (au_subject_type r) (au_subject_id r) (au_detail r) (au_prev_hash r)"

lemma row_hash_payload: "row_hash env r = hash_payload env (row_payload r)"
  by (simp add: row_hash_def row_payload_def compute_hash_def)

section \<open>Appending\<close>

definition audit_tail :: "world \<Rightarrow> audit_row option" where
  "audit_tail w = last_by au_id (events w)"

text \<open>The row an append builds on the tail it read, at the clock of \<open>w\<close>.\<close>

definition next_row ::
  "env \<Rightarrow> audit_row option \<Rightarrow> int \<Rightarrow> actor \<Rightarrow> string \<Rightarrow> string \<Rightarrow> string \<Rightarrow> pydict \<Rightarrow> audit_row" where
  "next_row env previous ts actor event subject_type subject_id detail =
     (let next_id = (case previous of None \<Rightarrow> 1 | Some p \<Rightarrow> au_id p + 1);
          prev_hash = (case previous of None \<Rightarrow> genesis_hash | Some p \<Rightarrow> au_hash p)
      in \<lparr>au_id = next_id, au_ts = ts, au_actor = actor, au_event = event,
          au_subject_type = subject_type, au_subject_id = subject_id, au_detail = detail,
          au_prev_hash = prev_hash,
          au_hash = compute_hash env next_id (format_utc ts) (actor_str actor) event subject_type
                      subject_id detail prev_hash\<rparr>)"

text \<open>
  \<open>append_after\<close> is an append whose tail was read at some earlier moment, by another process or
  before a concurrent commit; \<open>append_event\<close> reads the tail and inserts with nothing in between.
\<close>

definition append_after ::
  "env \<Rightarrow> audit_row option \<Rightarrow> actor \<Rightarrow> string \<Rightarrow> string \<Rightarrow> string \<Rightarrow> pydict \<Rightarrow> world \<Rightarrow> exn + world" where
  "append_after env previous actor event subject_type subject_id detail w =
     insert_event (next_row env previous (now_utc env w) actor event subject_type subject_id detail) (tick w)"

definition append_event ::
  "env \<Rightarrow> actor \<Rightarrow> string \<Rightarrow> string \<Rightarrow> string \<Rightarrow> pydict \<Rightarrow> world \<Rightarrow> exn + world" where
  "append_event env actor event subject_type subject_id detail w =
     append_after env (audit_tail w) actor event subject_type subject_id detail w"

section \<open>Verification\<close>

record chain_status =
  cs_intact :: bool
  cs_length :: nat
  cs_head_hash :: "string option"
  cs_broken_at_id :: "int option"
  cs_reason :: "string option"
  cs_checked :: "int list"

definition chain_broken :: "nat \<Rightarrow> audit_row \<Rightarrow> string \<Rightarrow> chain_status" where
  "chain_broken n r reason =
     \<lparr>cs_intact = False, cs_length = n, cs_head_hash = None, cs_broken_at_id = Some (au_id r),
      cs_reason = Some reason, cs_checked = []\<rparr>"

text \<open>The loop of \<open>verify_chain\<close>: \<open>None\<close> when it runs to its end.\<close>

fun walk_chain :: "env \<Rightarrow> nat \<Rightarrow> string \<Rightarrow> int \<Rightarrow> audit_row list \<Rightarrow> chain_status option" where
  "walk_chain env n expected_prev expected_id [] = None"
| "walk_chain env n expected_prev expected_id (r # rs) =
     (if au_id r \<noteq> expected_id then
        Some (chain_broken n r
          (''id sequence broken: expected '' @ int_str expected_id @ '', found '' @ int_str (au_id r)
           @ '' (a row was deleted or inserted out of band)''))
      else if au_prev_hash r \<noteq> expected_prev then
        Some (chain_broken n r
          ''prev_hash does not match the previous row's hash (rows reordered, re-linked, or one removed)'')
      else if row_hash env r \<noteq> au_hash r then
        Some (chain_broken n r ''row content does not match its stored hash (the row was edited)'')
      else walk_chain env n (au_hash r) (expected_id + 1) rs)"

definition verify_rows :: "env \<Rightarrow> audit_row list \<Rightarrow> chain_status" where
  "verify_rows env stored =
     (let rows = sort_key au_id stored in
      if rows = [] then
        \<lparr>cs_intact = True, cs_length = 0, cs_head_hash = None, cs_broken_at_id = None,
         cs_reason = None, cs_checked = []\<rparr>
      else case walk_chain env (length rows) genesis_hash 1 rows of
        Some broken \<Rightarrow> broken
      | None \<Rightarrow>
          \<lparr>cs_intact = True, cs_length = length rows, cs_head_hash = Some (au_hash (last rows)),
           cs_broken_at_id = None, cs_reason = None, cs_checked = map au_id rows\<rparr>)"

definition verify_chain :: "env \<Rightarrow> world \<Rightarrow> chain_status" where
  "verify_chain env w = verify_rows env (events w)"

definition chain_status_dict :: "chain_status \<Rightarrow> pydict" where
  "chain_status_dict s =
     [(''intact'', PBool (cs_intact s)), (''length'', PInt (int (cs_length s))),
      (''head_hash'', str_or_none (cs_head_hash s)),
      (''broken_at_id'', case cs_broken_at_id s of None \<Rightarrow> PNone | Some i \<Rightarrow> PInt i),
      (''reason'', str_or_none (cs_reason s))]"

section \<open>Transactions\<close>

text \<open>
  A unit of work takes the database to a result and the database it leaves, or raises. The caller
  of \<open>session_scope\<close> sees the work's result with its changes, or the exception with the database
  as it was: the changes of an aborted unit of work are lost, the clock has moved on.
\<close>

type_synonym 'a work = "world \<Rightarrow> exn + 'a \<times> world"

definition rolled_back :: "world \<Rightarrow> world" where
  "rolled_back w = tick w"

definition session_scope :: "'a work \<Rightarrow> world \<Rightarrow> (exn + 'a) \<times> world" where
  "session_scope work w =
     (case work w of Inl e \<Rightarrow> (Inl e, rolled_back w) | Inr (x, w') \<Rightarrow> (Inr x, w'))"

definition is_retryable_write_conflict :: "exn \<Rightarrow> bool" where
  "is_retryable_write_conflict e =
     (case e of
        IntegrityError message \<Rightarrow>
          contains ''prev_hash'' message \<or> contains ''audit_events.hash'' message
      | OperationalError message \<Rightarrow>
          list_ex (\<lambda>fragment. contains fragment (map ascii_lower message))
            [''database is locked'', ''database table is locked'']
      | _ \<Rightarrow> False)"

text \<open>
  \<open>run_in_transaction\<close> re-runs the whole unit of work while it loses a write conflict. What other
  processes commit between two attempts is the argument \<open>others\<close>.
\<close>

fun run_in_transaction ::
  "(nat \<Rightarrow> world \<Rightarrow> world) \<Rightarrow> nat \<Rightarrow> nat \<Rightarrow> 'a work \<Rightarrow> world \<Rightarrow> (exn + 'a) \<times> world" where
  "run_in_transaction others attempts 0 work w =
     (Inl (RuntimeError (''write conflict persisted after '' @ nat_str attempts @ '' attempts'')), w)"
| "run_in_transaction others attempts (Suc left) work w =
     (case session_scope work w of
        (Inr x, w') \<Rightarrow> (Inr x, w')
      | (Inl e, w') \<Rightarrow>
          if is_retryable_write_conflict e
          then run_in_transaction others attempts left work (others left w')
          else (Inl e, w'))"

definition max_attempts :: nat where
  "max_attempts = 6"

section \<open>Hash chains\<close>

text \<open>
  \<open>links\<close> is the condition every row of a chain meets: consecutive numbers, the hash of the row
  before, and its own content behind its own hash. The locale is the contract of a commitment: equal
  digests of valid rows mean the same row, or a clash the two rows exhibit.
\<close>

fun links ::
  "('r \<Rightarrow> int) \<Rightarrow> ('r \<Rightarrow> 'h) \<Rightarrow> ('r \<Rightarrow> 'h) \<Rightarrow> ('r \<Rightarrow> 'h) \<Rightarrow> 'h \<Rightarrow> int \<Rightarrow> 'r list \<Rightarrow> bool" where
  "links index prev stored digest p i [] = True"
| "links index prev stored digest p i (r # rs) =
     (index r = i \<and> prev r = p \<and> digest r = stored r
      \<and> links index prev stored digest (stored r) (i + 1) rs)"

definition head_after :: "('r \<Rightarrow> 'h) \<Rightarrow> 'h \<Rightarrow> 'r list \<Rightarrow> 'h" where
  "head_after stored p rs = (if rs = [] then p else stored (last rs))"

lemma links_append:
  "links index prev stored digest p i (xs @ ys) \<longleftrightarrow>
     links index prev stored digest p i xs
     \<and> links index prev stored digest (head_after stored p xs) (i + int (length xs)) ys"
  by (induction xs arbitrary: p i) (auto simp: head_after_def algebra_simps)

lemma links_take: "links index prev stored digest p i xs \<Longrightarrow> links index prev stored digest p i (take n xs)"
  by (metis append_take_drop_id links_append)

lemma links_indexes: "links index prev stored digest p i xs \<Longrightarrow> map index xs = map (\<lambda>k. i + int k) [0..<length xs]"
proof (induction xs arbitrary: p i)
  case Nil
  then show ?case by simp
next
  case (Cons x xs)
  then have "map index xs = map (\<lambda>k. i + 1 + int k) [0..<length xs]"
    using Cons.IH [of "stored x" "i + 1"] by simp
  then show ?case using Cons.prems by (simp add: map_upt_Suc comp_def algebra_simps del: upt_Suc)
qed

lemma links_nth:
  "links index prev stored digest p i xs \<Longrightarrow> k < length xs \<Longrightarrow>
   index (xs ! k) = i + int k \<and> digest (xs ! k) = stored (xs ! k)
   \<and> prev (xs ! k) = (if k = 0 then p else stored (xs ! (k - 1)))"
  by (induction xs arbitrary: p i k) (auto simp: nth_Cons split: nat.splits)

locale commitment =
  fixes index :: "'r \<Rightarrow> int" and prev stored digest :: "'r \<Rightarrow> 'h"
    and valid :: "'r \<Rightarrow> bool" and same clash :: "'r \<Rightarrow> 'r \<Rightarrow> bool"
  assumes commits: "valid r \<Longrightarrow> valid s \<Longrightarrow> digest r = digest s \<Longrightarrow> same r s \<or> clash r s"
    and same_prev: "same r s \<Longrightarrow> prev r = prev s"
begin

lemma same_head:
  "length xs = length ys \<Longrightarrow> links index prev stored digest p i xs \<Longrightarrow>
   links index prev stored digest q j ys \<Longrightarrow>
   (\<And>r. r \<in> set xs \<union> set ys \<Longrightarrow> valid r) \<Longrightarrow>
   xs \<noteq> [] \<Longrightarrow> stored (last xs) = stored (last ys) \<Longrightarrow>
   (\<forall>(r, s) \<in> set (zip xs ys). same r s) \<or> (\<exists>(r, s) \<in> set (zip xs ys). clash r s)"
proof (induction xs arbitrary: ys rule: rev_induct)
  case Nil
  then show ?case by simp
next
  case (snoc x xs)
  obtain y ys' where ys: "ys = ys' @ [y]" "length xs = length ys'"
    using snoc.prems(1) by (cases ys rule: rev_cases) auto
  have "digest x = digest y" using snoc.prems ys by (simp add: links_append)
  then consider "same x y" | "clash x y" using commits snoc.prems(4) ys by fastforce
  then show ?case
  proof cases
    case 2
    then show ?thesis using ys by auto
  next
    case 1
    show ?thesis
    proof (cases "xs = []")
      case True
      then show ?thesis using 1 ys by simp
    next
      case False
      then have "ys' \<noteq> []" using ys by auto
      then have "stored (last xs) = stored (last ys')"
        using same_prev [OF 1] False snoc.prems ys by (simp add: links_append head_after_def)
      then have "(\<forall>(r, s) \<in> set (zip xs ys'). same r s) \<or> (\<exists>(r, s) \<in> set (zip xs ys'). clash r s)"
        using snoc.prems ys False by (intro snoc.IH) (auto simp: links_append)
      then show ?thesis using 1 ys by auto
    qed
  qed
qed

end

text \<open>The audit rows: equal hashes mean rows with the same content, or a concrete SHA-256 collision.\<close>

definition same_row :: "audit_row \<Rightarrow> audit_row \<Rightarrow> bool" where
  "same_row r s =
     (au_id r = au_id s \<and> format_utc (au_ts r) = format_utc (au_ts s) \<and> au_actor r = au_actor s
      \<and> au_event r = au_event s \<and> au_subject_type r = au_subject_type s
      \<and> au_subject_id r = au_subject_id s
      \<and> same_value (PDict (au_detail r)) (PDict (au_detail s)) \<and> au_prev_hash r = au_prev_hash s)"

definition valid_row :: "audit_row \<Rightarrow> bool" where
  "valid_row r = wf_pyval (PDict (au_detail r))"

lemma actor_str_inj: "actor_str a = actor_str b \<Longrightarrow> a = b"
  by (cases a; cases b) simp_all

lemma same_value_field:
  assumes "same_value (PDict d) (PDict e)" "dict_ok d" "dict_ok e" "map_of d k = Some v" "map_of e k = Some w"
  shows "same_value v w"
proof -
  have "map_option sort_keys (map_of d k) = map_option sort_keys (map_of e k)"
    using assms(1) map_of_sort_keys [OF assms(2), of k] map_of_sort_keys [OF assms(3), of k]
    unfolding same_value_def by metis
  with assms(4,5) show ?thesis by (simp add: same_value_def)
qed

lemma same_payload_row:
  assumes "same_value (row_payload r) (row_payload s)"
  shows "same_row r s"
proof -
  have field: "map_of d k = Some v \<Longrightarrow> map_of e k = Some w \<Longrightarrow> same_value v w"
    if "d = items_of (row_payload r)" "e = items_of (row_payload s)" for d e k v w
    using same_value_field [of d e k v w] assms that by (simp add: row_payload_def audit_payload_def)
  note f = field [OF refl refl]
  have "same_value (PInt (au_id r)) (PInt (au_id s))" by (rule f [of "''id''"]) (simp_all add: row_payload_def audit_payload_def)
  moreover have "same_value (PStr (format_utc (au_ts r))) (PStr (format_utc (au_ts s)))"
    by (rule f [of "''ts''"]) (simp_all add: row_payload_def audit_payload_def)
  moreover have "same_value (PStr (actor_str (au_actor r))) (PStr (actor_str (au_actor s)))"
    by (rule f [of "''actor''"]) (simp_all add: row_payload_def audit_payload_def)
  moreover have "same_value (PStr (au_event r)) (PStr (au_event s))"
    by (rule f [of "''event''"]) (simp_all add: row_payload_def audit_payload_def)
  moreover have "same_value (PStr (au_subject_type r)) (PStr (au_subject_type s))"
    by (rule f [of "''subject_type''"]) (simp_all add: row_payload_def audit_payload_def)
  moreover have "same_value (PStr (au_subject_id r)) (PStr (au_subject_id s))"
    by (rule f [of "''subject_id''"]) (simp_all add: row_payload_def audit_payload_def)
  moreover have "same_value (PDict (au_detail r)) (PDict (au_detail s))"
    by (rule f [of "''detail''"]) (simp_all add: row_payload_def audit_payload_def)
  moreover have "same_value (PStr (au_prev_hash r)) (PStr (au_prev_hash s))"
    by (rule f [of "''prev_hash''"]) (simp_all add: row_payload_def audit_payload_def)
  ultimately show ?thesis
    using actor_str_inj [of "au_actor r" "au_actor s"] by (simp add: same_row_def) (simp add: same_value_def)
qed

lemma row_hash_commits:
  assumes "valid_row r" "valid_row s" "row_hash env r = row_hash env s"
  shows "same_row r s \<or> collide env (row_payload r) (row_payload s)"
proof -
  have "wf_pyval (row_payload r)" "wf_pyval (row_payload s)"
    using assms(1,2) by (simp_all add: valid_row_def row_payload_def audit_payload_def)
  then show ?thesis
    using hash_commits [of "row_payload r" "row_payload s" env] assms(3) same_payload_row
    by (auto simp: row_hash_payload)
qed

interpretation audit: commitment au_id au_prev_hash au_hash "row_hash env" valid_row same_row
    "\<lambda>r s. collide env (row_payload r) (row_payload s)"
  for env
  by unfold_locales (use row_hash_commits in blast, simp add: same_row_def)

section \<open>What \<open>verify_chain\<close> reports\<close>

abbreviation linked :: "env \<Rightarrow> string \<Rightarrow> int \<Rightarrow> audit_row list \<Rightarrow> bool" where
  "linked env \<equiv> links au_id au_prev_hash au_hash (row_hash env)"

lemma sort_key_Nil [simp]: "sort_key f xs = [] \<longleftrightarrow> xs = []"
  by (metis set_empty set_sort)

lemma walk_chain_None: "walk_chain env n p i rs = None \<longleftrightarrow> linked env p i rs"
  by (induction env n p i rs rule: walk_chain.induct) auto

lemma walk_chain_Some:
  "walk_chain env n p i rs = Some c \<Longrightarrow>
   \<not> cs_intact c \<and> cs_length c = n \<and>
   (\<exists>k < length rs. cs_broken_at_id c = Some (au_id (rs ! k)) \<and> linked env p i (take k rs)
      \<and> \<not> linked env p i (take (Suc k) rs))"
proof (induction env n p i rs rule: walk_chain.induct)
  case (1 env n p i)
  then show ?case by simp
next
  case (2 env n p i r rs)
  show ?case
  proof (cases "au_id r = i \<and> au_prev_hash r = p \<and> row_hash env r = au_hash r")
    case True
    with "2.prems" have "walk_chain env n (au_hash r) (i + 1) rs = Some c" by simp
    with True "2.IH" obtain k where "\<not> cs_intact c" "cs_length c = n" "k < length rs"
      "cs_broken_at_id c = Some (au_id (rs ! k))" "linked env (au_hash r) (i + 1) (take k rs)"
      "\<not> linked env (au_hash r) (i + 1) (take (Suc k) rs)" by auto
    with True show ?thesis by (intro conjI exI [of _ "Suc k"]) simp_all
  next
    case False
    with "2.prems" have "\<not> cs_intact c \<and> cs_length c = n \<and> cs_broken_at_id c = Some (au_id r)"
      by (auto simp: chain_broken_def split: if_splits)
    with False show ?thesis by (intro conjI exI [of _ 0]) auto
  qed
qed

lemma verify_rows_intact:
  "cs_intact (verify_rows env rows) \<longleftrightarrow> linked env genesis_hash 1 (sort_key au_id rows)"
  using walk_chain_Some [of env "length rows" genesis_hash 1 "sort_key au_id rows"]
    walk_chain_None [of env "length rows" genesis_hash 1 "sort_key au_id rows"]
  by (auto simp: verify_rows_def Let_def split: option.splits)

lemma verify_rows_head:
  "cs_intact (verify_rows env rows) \<Longrightarrow>
   cs_length (verify_rows env rows) = length rows
   \<and> cs_head_hash (verify_rows env rows)
       = (if rows = [] then None else Some (au_hash (last (sort_key au_id rows))))"
  using walk_chain_Some [of env "length rows" genesis_hash 1 "sort_key au_id rows"]
  by (auto simp: verify_rows_def Let_def split: option.splits)

text \<open>Appending a row with a larger number than all others.\<close>

lemma sort_key_snoc:
  fixes f :: "'r \<Rightarrow> 'k::linorder"
  assumes "\<And>x. x \<in> set xs \<Longrightarrow> f x < f r"
  shows "sort_key f (xs @ [r]) = sort_key f xs @ [r]"
proof (rule properties_for_sort_key)
  show "mset (sort_key f xs @ [r]) = mset (xs @ [r])" by simp
  show "filter (\<lambda>x. f k = f x) (sort_key f xs @ [r]) = filter (\<lambda>x. f k = f x) (xs @ [r])"
    if "k \<in> set (sort_key f xs @ [r])" for k
    using sort_key_stable [of f "f k" xs] by (simp add: eq_commute)
  show "sorted (map f (sort_key f xs @ [r]))"
    using assms by (auto simp: sorted_append intro: less_imp_le)
qed

lemma tail_of_linked:
  assumes "linked env genesis_hash 1 (sort_key au_id rows)" and "rows \<noteq> []"
  shows "last_by au_id rows = Some (last (sort_key au_id rows))
    \<and> au_id (last (sort_key au_id rows)) = int (length rows)
    \<and> (\<forall>r \<in> set rows. au_id r \<le> int (length rows))"
proof -
  let ?s = "sort_key au_id rows"
  have s: "?s \<noteq> []" "set ?s = set rows" "length ?s = length rows"
    using assms(2) by simp_all
  have nth: "k < length rows \<Longrightarrow> au_id (?s ! k) = 1 + int k" for k
    using links_nth [OF assms(1), of k] by simp
  have last: "last ?s = ?s ! (length rows - 1)" using s by (simp add: last_conv_nth)
  have upper: "au_id r \<le> int (length rows) \<and> (au_id r = int (length rows) \<longrightarrow> r = last ?s)"
    if r: "r \<in> set rows" for r
  proof -
    obtain k where k: "k < length rows" "r = ?s ! k" using r s by (metis in_set_conv_nth)
    then have "au_id r = 1 + int k" using nth by simp
    with k last show ?thesis by (cases "k = length rows - 1") auto
  qed
  have id: "au_id (last ?s) = int (length rows)" using nth [of "length rows - 1"] last assms(2) by (simp add: Suc_le_eq flip: length_greater_0_conv)
  obtain m where m: "last_by au_id rows = Some m" using assms(2) by (cases "last_by au_id rows") auto
  then have "m \<in> set rows" "\<forall>r \<in> set rows. au_id r \<le> au_id m" using last_by_Some [OF m] by auto
  moreover have "last ?s \<in> set rows" using s last_in_set by metis
  ultimately have "m = last ?s" using upper [of m] id by force
  then show ?thesis using m id upper by simp
qed

lemma append_event_Inr:
  "append_event env actor event st si detail w = Inr w' \<longleftrightarrow>
   (let r = next_row env (audit_tail w) (now_utc env w) actor event st si detail in
    au_id r \<notin> au_id ` set (events w) \<and> au_prev_hash r \<notin> au_prev_hash ` set (events w)
    \<and> au_hash r \<notin> au_hash ` set (events w) \<and> w' = (tick w)\<lparr>events := events w @ [r]\<rparr>)"
  by (auto simp: append_event_def append_after_def insert_event_def result_simps Let_def tick_def)

lemma next_row_sel [simp]:
  "au_actor (next_row env p ts actor event st si detail) = actor"
  "au_event (next_row env p ts actor event st si detail) = event"
  "au_subject_type (next_row env p ts actor event st si detail) = st"
  "au_subject_id (next_row env p ts actor event st si detail) = si"
  "au_detail (next_row env p ts actor event st si detail) = detail"
  "au_ts (next_row env p ts actor event st si detail) = ts"
  by (simp_all add: next_row_def Let_def)

lemma next_row_hash: "row_hash env (next_row env p ts actor event st si detail)
    = au_hash (next_row env p ts actor event st si detail)"
  by (simp add: next_row_def row_hash_def Let_def)

text \<open>The next row of an intact chain: its number and the hash it builds on.\<close>

lemma next_row_extends:
  assumes "linked env genesis_hash 1 (sort_key au_id (events w))"
    and "r = next_row env (audit_tail w) ts actor event st si detail"
  shows "au_id r = 1 + int (length (events w))"
    "au_prev_hash r = head_after au_hash genesis_hash (sort_key au_id (events w))"
    "\<forall>x \<in> set (events w). au_id x < au_id r"
proof -
  have "au_id r = 1 + int (length (events w))
      \<and> au_prev_hash r = head_after au_hash genesis_hash (sort_key au_id (events w))
      \<and> (\<forall>x \<in> set (events w). au_id x < au_id r)"
  proof (cases "events w = []")
    case True
    then show ?thesis by (simp add: assms(2) next_row_def Let_def audit_tail_def head_after_def)
  next
    case False
    with tail_of_linked [OF assms(1) False] show ?thesis
      by (auto simp: assms(2) next_row_def Let_def audit_tail_def head_after_def)
  qed
  then show "au_id r = 1 + int (length (events w))"
    "au_prev_hash r = head_after au_hash genesis_hash (sort_key au_id (events w))"
    "\<forall>x \<in> set (events w). au_id x < au_id r" by blast+
qed

lemma append_extends:
  assumes "cs_intact (verify_chain env w)"
    and "append_event env actor event subject_type subject_id detail w = Inr w'"
  shows "cs_intact (verify_chain env w')
    \<and> cs_length (verify_chain env w') = Suc (cs_length (verify_chain env w))
    \<and> (\<exists>r. events w' = events w @ [r] \<and> cs_head_hash (verify_chain env w') = Some (au_hash r)
          \<and> au_actor r = actor \<and> au_event r = event \<and> au_subject_id r = subject_id \<and> au_detail r = detail)"
proof -
  let ?rows = "events w" and ?s = "sort_key au_id (events w)"
  let ?r = "next_row env (audit_tail w) (now_utc env w) actor event subject_type subject_id detail"
  from assms(2) have w': "events w' = ?rows @ [?r]" by (simp add: append_event_Inr Let_def)
  have linked: "linked env genesis_hash 1 ?s" using assms(1) by (simp add: verify_chain_def verify_rows_intact)
  note r = next_row_extends [OF linked refl, of "now_utc env w" actor event subject_type subject_id detail]
  have sorted: "sort_key au_id (events w') = ?s @ [?r]" unfolding w' using r(3) by (intro sort_key_snoc) blast
  have "linked env genesis_hash 1 (?s @ [?r])"
    using linked r next_row_hash by (simp add: links_append)
  then have "cs_intact (verify_rows env (events w'))" by (simp add: verify_rows_intact sorted)
  then show ?thesis
    using verify_rows_head [of env "events w'"] verify_rows_head [of env "events w"] assms(1) sorted w'
    by (simp add: verify_chain_def)
qed

lemma append_keeps_intact:
  "cs_intact (verify_chain env w) \<Longrightarrow> append_event env a e st s d w = Inr w' \<Longrightarrow> cs_intact (verify_chain env w')"
  using append_extends by blast

text \<open>
  C20: an append to an intact chain leaves an intact chain, one row longer, whose head is the new row,
  carrying the event that was appended.
\<close>

theorem append_extends_chain:
  assumes "cs_intact (verify_chain env w)"
    and "append_event env actor event subject_type subject_id detail w = Inr w'"
  shows "cs_intact (verify_chain env w')
    \<and> cs_length (verify_chain env w') = Suc (cs_length (verify_chain env w))
    \<and> (\<exists>r. events w' = events w @ [r] \<and> cs_head_hash (verify_chain env w') = Some (au_hash r)
          \<and> au_actor r = actor \<and> au_event r = event \<and> au_subject_id r = subject_id \<and> au_detail r = detail)"
  using assms by (rule append_extends)

text \<open>
  C21: When \<open>verify_chain\<close> reports a break, the rows in front of the reported one form an intact chain
  and the reported row breaks it; when it reports none, every row is in order.
\<close>

theorem verify_chain_exact:
  "let rows = sort_key au_id (events w); s = verify_chain env w in
   cs_length s = length rows \<and>
   (if cs_intact s then linked env genesis_hash 1 rows \<and> cs_broken_at_id s = None
    else \<exists>k < length rows. cs_broken_at_id s = Some (au_id (rows ! k))
           \<and> linked env genesis_hash 1 (take k rows) \<and> \<not> linked env genesis_hash 1 (take (Suc k) rows))"
proof (cases "walk_chain env (length (events w)) genesis_hash 1 (sort_key au_id (events w))")
  case None
  then show ?thesis
    using walk_chain_None [of env "length (events w)" genesis_hash 1 "sort_key au_id (events w)"]
    by (auto simp: verify_chain_def verify_rows_def Let_def)
next
  case (Some c)
  then have "sort_key au_id (events w) \<noteq> []" by auto
  with Some walk_chain_Some [OF Some] show ?thesis
    by (auto simp: verify_chain_def verify_rows_def Let_def)
qed

text \<open>
  C22: two intact chains of the same length with the same head hash have the same rows, or some pair
  of rows at the same place is a concrete SHA-256 collision. Recomputing every hash after an edit
  does not help: a remembered head gives the edit away.
\<close>

theorem head_commits_to_chain:
  assumes "cs_intact (verify_chain env v)" and "cs_intact (verify_chain env w)"
    and "cs_length (verify_chain env v) = cs_length (verify_chain env w)"
    and "cs_head_hash (verify_chain env v) = cs_head_hash (verify_chain env w)"
    and "\<forall>r \<in> set (events v) \<union> set (events w). valid_row r"
  defines "pairs \<equiv> zip (sort_key au_id (events v)) (sort_key au_id (events w))"
  shows "(\<forall>(r, s) \<in> set pairs. same_row r s)
    \<or> (\<exists>(r, s) \<in> set pairs. collide env (row_payload r) (row_payload s))"
proof (cases "events v = []")
  case True
  then show ?thesis by (simp add: pairs_def)
next
  case False
  let ?v = "sort_key au_id (events v)" and ?w = "sort_key au_id (events w)"
  have len: "length ?v = length ?w"
    using verify_rows_head [of env "events v"] verify_rows_head [of env "events w"] assms(1-3)
    by (simp add: verify_chain_def)
  have ne: "?v \<noteq> []" "events w \<noteq> []" using False len by auto
  show ?thesis unfolding pairs_def
  proof (rule audit.same_head)
    show "linked env genesis_hash 1 ?v" "linked env genesis_hash 1 ?w"
      using assms(1,2) by (simp_all add: verify_chain_def verify_rows_intact)
    show "au_hash (last ?v) = au_hash (last ?w)"
      using verify_rows_head [of env "events v"] verify_rows_head [of env "events w"] assms(1,2,4) False ne
      by (simp add: verify_chain_def)
  qed (use len ne assms(5) in auto)
qed

lemma walk_chain_prefix:
  "linked env p i xs \<Longrightarrow>
   walk_chain env n p i (xs @ ys) = walk_chain env n (head_after au_hash p xs) (i + int (length xs)) ys"
  by (induction xs arbitrary: p i) (auto simp: head_after_def algebra_simps)

lemma sort_key_map: "(\<And>x. f (g x) = f x) \<Longrightarrow> sort_key f (map g xs) = map g (sort_key f xs)"
proof -
  assume fg: "\<And>x. f (g x) = f x"
  then have "insort_key f (g x) (map g l) = map g (insort_key f x l)" for x l by (induction l) simp_all
  then show ?thesis by (induction xs) simp_all
qed

lemma intact_distinct:
  assumes "linked env genesis_hash 1 (sort_key au_id rows)"
  shows "distinct (map au_id rows)"
proof -
  have "distinct (map au_id (sort_key au_id rows))"
    using links_indexes [OF assms] by (simp add: distinct_map inj_on_def)
  then show ?thesis by (metis distinct_map distinct_sort set_sort)
qed

lemma walk_chain_edited:
  assumes "linked env p i (xs @ r # ys)" and "au_id r' = au_id r" and "row_hash env r' \<noteq> au_hash r'"
  shows "\<exists>c. walk_chain env n p i (xs @ r' # ys) = Some c \<and> cs_broken_at_id c = Some (au_id r)"
  using assms by (auto simp: walk_chain_prefix links_append chain_broken_def)

text \<open>
  A row edited in place, its stored hash left alone, is reported as the break, unless the edit is
  a concrete SHA-256 collision.
\<close>

theorem edited_row_is_reported:
  assumes "cs_intact (verify_chain env w)" and "events w = xs @ r # ys"
    and "au_id r' = au_id r" and "au_hash r' = au_hash r" and "\<not> same_row r r'"
    and "valid_row r" and "valid_row r'"
  shows "cs_broken_at_id (verify_chain env (w\<lparr>events := xs @ r' # ys\<rparr>)) = Some (au_id r)
    \<or> collide env (row_payload r) (row_payload r')"
proof (cases "row_hash env r' = au_hash r'")
  case linked: False
  define g where "g x = (if x = r then r' else x)" for x
  let ?s = "sort_key au_id (events w)"
  have s: "linked env genesis_hash 1 ?s" using assms(1) by (simp add: verify_chain_def verify_rows_intact)
  from intact_distinct [OF this] have "r \<notin> set xs" "r \<notin> set ys"
    using assms(2) by (auto simp: rev_image_eqI)
  moreover have mapid: "map g l = l" if "r \<notin> set l" for l
    using that by (intro map_idI) (auto simp: g_def)
  ultimately have g: "xs @ r' # ys = map g (events w)" by (simp add: assms(2)) (simp add: g_def)
  have sorted: "sort_key au_id (map g (events w)) = map g ?s"
    using assms(3) by (intro sort_key_map) (simp add: g_def)
  obtain us vs where uv: "?s = us @ r # vs" by (metis assms(2) in_set_conv_decomp set_sort list.set_intros(1))
  have "distinct ?s" using intact_distinct [OF s] by (simp add: distinct_map)
  then have "r \<notin> set us" "r \<notin> set vs" using uv by auto
  then have "map g ?s = us @ r' # vs" by (simp add: uv mapid) (simp add: g_def)
  with walk_chain_edited [of env genesis_hash 1 us r vs r' "length ?s"] s uv assms(3) linked
  obtain c where "walk_chain env (length ?s) genesis_hash 1 (map g ?s) = Some c"
    "cs_broken_at_id c = Some (au_id r)" by auto
  moreover have "map g ?s \<noteq> []" using uv by simp
  ultimately show ?thesis by (simp add: verify_chain_def verify_rows_def g sorted Let_def)
next
  case True
  have "row_hash env r = au_hash r"
  proof -
    let ?s = "sort_key au_id (events w)"
    have "linked env genesis_hash 1 ?s" using assms(1) by (simp add: verify_chain_def verify_rows_intact)
    moreover have "r \<in> set ?s" using assms(2) by simp
    then obtain k where "k < length ?s" "?s ! k = r" by (auto simp only: in_set_conv_nth)
    ultimately show ?thesis using links_nth by metis
  qed
  with True assms(4-7) show ?thesis using audit.commits [of r r' env] by auto
qed

text \<open>No row of an intact chain builds on its head, unless some row hashes to the genesis constant.\<close>

lemma head_is_fresh:
  assumes "linked env genesis_hash 1 rows" and "distinct (map au_hash rows)"
    and "r \<in> set rows" and "au_prev_hash r = head_after au_hash genesis_hash rows"
  shows "\<exists>x \<in> set rows. row_hash env x = genesis_hash"
proof -
  obtain k where k: "k < length rows" "r = rows ! k" using assms(3) by (auto simp: in_set_conv_nth)
  from k(1) have ne: "rows \<noteq> []" by auto
  then have last: "last rows = rows ! (length rows - 1)" by (rule last_conv_nth)
  with ne have head: "au_prev_hash r = au_hash (rows ! (length rows - 1))" using assms(4) by (simp add: head_after_def)
  note at = links_nth [OF assms(1)]
  show ?thesis
  proof (cases k)
    case 0
    then have "au_hash (last rows) = genesis_hash" using at [OF k(1)] k head last by simp
    moreover have "row_hash env (last rows) = au_hash (last rows)"
      using at [of "length rows - 1"] k(1) last by simp
    ultimately show ?thesis using ne last_in_set by metis
  next
    case (Suc m)
    then have "au_hash (rows ! m) = au_hash (rows ! (length rows - 1))" using at [OF k(1)] k head by simp
    then have "m = length rows - 1"
      using assms(2) k(1) Suc nth_eq_iff_index_eq [OF assms(2), of m "length rows - 1"] by simp
    with k(1) Suc show ?thesis by simp
  qed
qed


lemma append_after_id:
  "append_after env p a e st s d w = Inr w' \<Longrightarrow>
   (case p of None \<Rightarrow> 1 | Some r \<Rightarrow> au_id r + 1) \<in> au_id ` set (events w')"
  by (auto simp: append_after_def insert_event_def result_simps next_row_def Let_def)

lemma append_after_taken:
  "(case p of None \<Rightarrow> 1 | Some r \<Rightarrow> au_id r + 1) \<in> au_id ` set (events w) \<Longrightarrow>
   append_after env p a e st s d w = Inl (unique_failed ''audit_events.id'')"
  by (simp add: append_after_def insert_event_def next_row_def Let_def tick_def)

text \<open>
  Two appends that read the same tail: the second one raises and commits nothing, so the chain
  cannot fork. The column SQLite names is the primary key, which both computed from the tail.
\<close>

theorem no_fork:
  assumes "append_after env tail_row a1 e1 t1 s1 d1 w = Inr w'"
  shows "append_after env tail_row a2 e2 t2 s2 d2 w' = Inl (unique_failed ''audit_events.id'')"
  using append_after_id [OF assms] by (rule append_after_taken)

text \<open>
  The conflict of two competing appends is not one \<open>run_in_transaction\<close> retries: the message
  names the primary key, not \<open>prev_hash\<close> and not \<open>hash\<close>. The loser's unit of work raises at its
  first attempt.
\<close>

theorem lost_append_is_not_retried:
  assumes "append_after env tail_row a1 e1 t1 s1 d1 w = Inr w'"
  shows "run_in_transaction others n (Suc left)
      (\<lambda>v. and_then (append_after env tail_row a2 e2 t2 s2 d2 v) (\<lambda>v'. Inr ((), v'))) w'
    = (Inl (unique_failed ''audit_events.id''), rolled_back w')"
proof -
  have "\<not> is_retryable_write_conflict (unique_failed ''audit_events.id'')"
    by (simp add: is_retryable_write_conflict_def unique_failed_def)
  then show ?thesis by (simp add: session_scope_def append_after_taken [OF append_after_id [OF assms]])
qed

text \<open>The conflict on \<open>prev_hash\<close>, were SQLite to name it, would be retried.\<close>

lemma prev_hash_conflict_retryable:
  "is_retryable_write_conflict (unique_failed ''audit_events.prev_hash'')"
  by (simp add: is_retryable_write_conflict_def unique_failed_def)

section \<open>What an append leaves alone\<close>

lemma wf_append_event:
  "wf_world w \<Longrightarrow> append_event env a e st s d w = Inr w' \<Longrightarrow> wf_world w'"
  unfolding append_event_def append_after_def by (rule wf_insert_event) simp_all

lemma append_event_frame:
  assumes "append_event env a e st s d w = Inr w'"
  shows "runs w' = runs w" "steps w' = steps w" "proposals w' = proposals w"
    "approvals w' = approvals w" "executions w' = executions w" "nonces w' = nonces w"
    "outbox w' = outbox w" "mails w' = mails w" "ticks w' = Suc (ticks w)"
    "\<exists>r. events w' = events w @ [r]"
  using assms by (auto simp: append_event_Inr Let_def tick_def)

text \<open>An append fails only by a uniqueness constraint of the chain.\<close>

lemma append_event_Inl:
  "append_event env a e st s d w = Inl x \<Longrightarrow>
   x \<in> unique_failed ` {''audit_events.id'', ''audit_events.prev_hash'', ''audit_events.hash''}"
  by (auto simp: append_event_def append_after_def insert_event_def result_simps)

end
