(* ===== verification/Store.thy ===== *)
theory Store
  imports AuditLog
begin

text \<open>
  \<^verbatim>\<open>app/store/repositories.py\<close>: runs, transcripts and proposals. Each operation is the unit of work
  inside its \<^verbatim>\<open>with session_scope()\<close>; the ones the program calls from outside a session are wrapped
  by \<open>session_scope\<close>. The locale \<open>table_invariant\<close> is the contract between a property of the database and
  the primitive changes these operations make; the lemmas in it say that every operation keeps such a
  property. \<open>world_invariant\<close> extends it with the changes of the gateway, and its three
  interpretations are the constraints, the chain and the payload hashes.
\<close>

section \<open>Shared pieces\<close>

abbreviation RUN_STARTED :: string where "RUN_STARTED \<equiv> ''run.started''"
abbreviation RUN_COMPLETED :: string where "RUN_COMPLETED \<equiv> ''run.completed''"
abbreviation RUN_SETTLED :: string where "RUN_SETTLED \<equiv> ''run.settled''"
abbreviation RUN_ABANDONED :: string where "RUN_ABANDONED \<equiv> ''run.abandoned''"
abbreviation RUN_FAILED :: string where "RUN_FAILED \<equiv> ''run.failed''"
abbreviation PROPOSAL_CREATED :: string where "PROPOSAL_CREATED \<equiv> ''proposal.created''"
abbreviation PROPOSAL_EXPIRED :: string where "PROPOSAL_EXPIRED \<equiv> ''proposal.expired''"

text \<open>A loop over rows whose body is a unit of work: the results in order, or the first exception.\<close>

fun each :: "('x \<Rightarrow> 'a work) \<Rightarrow> 'x list \<Rightarrow> 'a list work" where
  "each f [] w = Inr ([], w)"
| "each f (x # xs) w =
     and_then (f x w) (\<lambda>(y, w1). and_then (each f xs w1) (\<lambda>(ys, w2). Inr (y # ys, w2)))"

text \<open>\<^verbatim>\<open>str(value)\<close> of a UTC datetime.\<close>

definition datetime_str :: "int \<Rightarrow> string" where
  "datetime_str t =
     (let us = nat (t mod day_us); s = us div 1000000; frac = us mod 1000000
      in iso_date t @ '' '' @ pad_digits 2 (s div 3600) @ '':'' @ pad_digits 2 (s div 60 mod 60)
         @ '':'' @ pad_digits 2 (s mod 60)
         @ (if frac = 0 then [] else ''.'' @ pad_digits 6 frac) @ ''+00:00'')"

definition keep_or :: "int option \<Rightarrow> int \<Rightarrow> int option" where
  "keep_or old new = (case old of None \<Rightarrow> Some new | Some t \<Rightarrow> Some t)"

section \<open>Runs\<close>

definition create_run :: "env \<Rightarrow> string \<Rightarrow> string \<Rightarrow> pydict \<Rightarrow> string work" where
  "create_run env goal operator_id params w =
     (let run = \<lparr>rn_id = new_uuid env (tick w), rn_goal = goal, rn_status = RunQueued,
                 rn_started_at = now_utc env w, rn_ended_at = None, rn_operator_id = operator_id,
                 rn_error = None, rn_params = params\<rparr>
      in and_then (insert_run run (tick (tick w))) (\<lambda>w1.
         and_then (append_event env Operator RUN_STARTED ''run'' (rn_id run)
             [(''goal'', PStr goal), (''params'', PDict params)] w1) (\<lambda>w2.
         Inr (rn_id run, w2))))"

definition ends_run :: "run_status \<Rightarrow> bool" where
  "ends_run s = (s \<in> {RunCompleted, RunFailed, RunAwaiting})"

definition set_status :: "env \<Rightarrow> string \<Rightarrow> run_status \<Rightarrow> string option \<Rightarrow> unit work" where
  "set_status env run_id status err w =
     (case find_run run_id w of
        None \<Rightarrow> Inl (LookupError run_id)
      | Some run \<Rightarrow>
          let w1 = update_run run_id
                (\<lambda>r. r\<lparr>rn_status := status, rn_error := (if err = None then rn_error r else err)\<rparr>) w
          in if ends_run status then
               let w2 = tick (update_run run_id (\<lambda>r. r\<lparr>rn_ended_at := Some (now_utc env w1)\<rparr>) w1)
               in and_then (append_event env Agent (if status = RunFailed then RUN_FAILED else RUN_COMPLETED)
                      ''run'' run_id
                      [(''status'', PStr (run_status_str status)), (''error'', str_or_none err)] w2)
                    (\<lambda>w3. Inr ((), w3))
             else Inr ((), w1))"

section \<open>The transcript\<close>

definition run_steps :: "string \<Rightarrow> world \<Rightarrow> step_row list" where
  "run_steps run_id w = filter (\<lambda>s. st_run_id s = run_id) (steps w)"

definition next_seq :: "string \<Rightarrow> world \<Rightarrow> nat" where
  "next_seq run_id w =
     (case last_by st_seq (run_steps run_id w) of None \<Rightarrow> 0 | Some s \<Rightarrow> st_seq s) + 1"

definition append_step ::
  "env \<Rightarrow> string \<Rightarrow> step_type \<Rightarrow> string option \<Rightarrow> pydict \<Rightarrow> nat work" where
  "append_step env run_id kind tool_name payload w =
     (let seq = next_seq run_id w in
      and_then (insert_step \<lparr>st_id = 0, st_run_id = run_id, st_seq = seq, st_type = kind,
            st_tool_name = tool_name, st_payload = payload, st_created_at = now_utc env w\<rparr> (tick w))
        (\<lambda>w1. Inr (seq, w1)))"

section \<open>Proposals\<close>

definition run_proposals :: "string \<Rightarrow> world \<Rightarrow> proposal_row list" where
  "run_proposals run_id w = filter (\<lambda>p. pr_run_id p = run_id) (proposals w)"

definition proposal_count :: "string \<Rightarrow> world \<Rightarrow> nat" where
  "proposal_count run_id w = length (run_proposals run_id w)"

definition duplicate_message :: "string \<Rightarrow> bool" where
  "duplicate_message message =
     (contains ''ux_proposals_one_pending_per_invoice'' message
      \<or> contains ''proposals.stripe_invoice_id'' message)"

text \<open>The insert of a proposal, with the index violation turned into its own exception.\<close>

definition flush_proposal :: "proposal_row \<Rightarrow> world \<Rightarrow> exn + world" where
  "flush_proposal p w =
     (case insert_proposal p w of
        Inr w' \<Rightarrow> Inr w'
      | Inl (IntegrityError message) \<Rightarrow>
          if duplicate_message message then Inl (DuplicatePendingProposal (pr_invoice_id p))
          else Inl (IntegrityError message)
      | Inl e \<Rightarrow> Inl e)"

definition new_proposal ::
  "env \<Rightarrow> string \<Rightarrow> pydict \<Rightarrow> string \<Rightarrow> string \<Rightarrow> string \<Rightarrow> int \<Rightarrow> string \<Rightarrow> int \<Rightarrow> int \<Rightarrow> world \<Rightarrow> proposal_row" where
  "new_proposal env run_id payload rationale invoice_id customer_email amount_due currency days_overdue
       ttl_hours w =
     \<lparr>pr_id = new_uuid env (tick (tick w)), pr_run_id = run_id,
      pr_action_type = ''send_collection_letter'', pr_status = Pending, pr_payload = payload,
      pr_payload_hash = hash_payload env (PDict payload), pr_rationale = rationale,
      pr_invoice_id = invoice_id, pr_customer_email = customer_email, pr_amount_due = amount_due,
      pr_currency = currency, pr_days_overdue = days_overdue, pr_created_at = now_utc env w,
      pr_expires_at = hours_from (now_utc env (tick w)) ttl_hours\<rparr>"

definition create_proposal ::
  "env \<Rightarrow> string \<Rightarrow> pydict \<Rightarrow> string \<Rightarrow> string \<Rightarrow> string \<Rightarrow> int \<Rightarrow> string \<Rightarrow> int \<Rightarrow> int \<Rightarrow> string work" where
  "create_proposal env run_id payload rationale invoice_id customer_email amount_due currency
       days_overdue ttl_hours w =
     (let p = new_proposal env run_id payload rationale invoice_id customer_email amount_due currency
                days_overdue ttl_hours w
      in and_then (flush_proposal p (tick (tick (tick w)))) (\<lambda>w1.
         and_then (append_event env Agent PROPOSAL_CREATED ''proposal'' (pr_id p)
             [(''run_id'', PStr run_id), (''invoice_id'', PStr invoice_id),
              (''tone'', dict_get ''tone'' payload),
              (''amount_display'', dict_get ''amount_display'' payload),
              (''days_overdue'', PInt days_overdue), (''payload_hash'', PStr (pr_payload_hash p))] w1) (\<lambda>w2.
         Inr (pr_id p, w2))))"

section \<open>Sweeps\<close>

definition set_proposal_status :: "proposal_status \<Rightarrow> string \<Rightarrow> world \<Rightarrow> world" where
  "set_proposal_status s i w = update_proposal i (\<lambda>p. p\<lparr>pr_status := s\<rparr>) w"

definition stale :: "int \<Rightarrow> proposal_row \<Rightarrow> bool" where
  "stale now p = (pr_status p = Pending \<and> pr_expires_at p \<le> now)"

definition expire_one :: "env \<Rightarrow> proposal_row \<Rightarrow> unit work" where
  "expire_one env p w =
     and_then (append_event env System PROPOSAL_EXPIRED ''proposal'' (pr_id p)
         [(''expires_at'', PStr (datetime_str (pr_expires_at p)))] (set_proposal_status Expired (pr_id p) w))
       (\<lambda>w1. Inr ((), w1))"

definition expire_stale_proposals :: "env \<Rightarrow> nat work" where
  "expire_stale_proposals env w =
     (let gone = filter (stale (now_utc env w)) (proposals w)
      in and_then (each (expire_one env) gone (tick w)) (\<lambda>(_, w1). Inr (length gone, w1)))"

definition pending_in :: "string \<Rightarrow> world \<Rightarrow> proposal_row list" where
  "pending_in run_id w = filter (\<lambda>p. pr_status p = Pending) (run_proposals run_id w)"

text \<open>\<^verbatim>\<open>GROUP BY status\<close> gives each status once; their order is the database's, here of first appearance.\<close>

definition run_outcomes :: "string \<Rightarrow> world \<Rightarrow> pydict" where
  "run_outcomes run_id w =
     map (\<lambda>(s, n). (proposal_status_str s, PInt (int n)))
       (group_counts (map pr_status (run_proposals run_id w)))"

definition settle_run_if_decided :: "env \<Rightarrow> string \<Rightarrow> bool work" where
  "settle_run_if_decided env run_id w =
     (case find_run run_id w of
        None \<Rightarrow> Inr (False, w)
      | Some run \<Rightarrow>
          if rn_status run \<noteq> RunAwaiting \<or> pending_in run_id w \<noteq> [] then Inr (False, w)
          else
            let w1 = update_run run_id (\<lambda>r. r\<lparr>rn_status := RunCompleted,
                    rn_ended_at := keep_or (rn_ended_at r) (now_utc env w)\<rparr>) w
            in and_then (append_event env System RUN_SETTLED ''run'' run_id
                   [(''outcomes'', PDict (run_outcomes run_id w)),
                    (''reason'', PStr ''every proposal from this run has been decided'')] (tick w1))
                 (\<lambda>w2. Inr (True, w2)))"

definition settle_decided_runs :: "env \<Rightarrow> nat work" where
  "settle_decided_runs env w =
     and_then (expire_stale_proposals env w) (\<lambda>(_, w1).
     let waiting = map rn_id (filter (\<lambda>r. rn_status r = RunAwaiting) (runs w1))
     in and_then (each (settle_run_if_decided env) waiting w1) (\<lambda>(settled, w2).
        Inr (length (filter id settled), w2)))"

definition abandoned_message :: string where
  "abandoned_message =
     ''The service restarted while this run was in progress, so no worker is executing ''
     @ ''it any more. Start a new run.''"

definition orphaned :: "run_row \<Rightarrow> bool" where
  "orphaned r = (rn_status r \<in> {RunQueued, RunRunning})"

definition abandon_one :: "env \<Rightarrow> string \<Rightarrow> run_row \<Rightarrow> unit work" where
  "abandon_one env message run w =
     and_then (append_event env System RUN_ABANDONED ''run'' (rn_id run)
         [(''previous_status'', PStr ''queued/running''), (''reason'', PStr message)]
         (tick (update_run (rn_id run) (\<lambda>r. r\<lparr>rn_status := RunFailed, rn_error := Some message,
             rn_ended_at := keep_or (rn_ended_at r) (now_utc env w)\<rparr>) w)))
       (\<lambda>w1. Inr ((), w1))"

definition abandon_orphaned_runs :: "env \<Rightarrow> string option \<Rightarrow> string list work" where
  "abandon_orphaned_runs env reason w =
     (let message = (case reason of None \<Rightarrow> abandoned_message
                     | Some m \<Rightarrow> if m = [] then abandoned_message else m);
          gone = filter orphaned (runs w)
      in and_then (each (abandon_one env message) gone w) (\<lambda>(_, w1). Inr (map rn_id gone, w1)))"

section \<open>The contract of an invariant\<close>

definition hash_ok :: "env \<Rightarrow> proposal_row \<Rightarrow> bool" where
  "hash_ok env p = (pr_payload_hash p = hash_payload env (PDict (pr_payload p)))"

text \<open>What an update may do to a row: keys stay, a hash in step stays in step, nothing becomes pending.\<close>

definition proposal_update_ok :: "env \<Rightarrow> (proposal_row \<Rightarrow> proposal_row) \<Rightarrow> bool" where
  "proposal_update_ok env f =
     (\<forall>p. pr_id (f p) = pr_id p \<and> pr_run_id (f p) = pr_run_id p
        \<and> pr_action_type (f p) = pr_action_type p \<and> pr_invoice_id (f p) = pr_invoice_id p
        \<and> (pr_status (f p) = Pending \<longrightarrow> pr_status p = Pending)
        \<and> (hash_ok env p \<longrightarrow> hash_ok env (f p)))"

definition execution_update_ok :: "(execution_row \<Rightarrow> execution_row) \<Rightarrow> bool" where
  "execution_update_ok f =
     (\<forall>e. ex_id (f e) = ex_id e \<and> ex_key (f e) = ex_key e \<and> ex_proposal_id (f e) = ex_proposal_id e)"

locale table_invariant =
  fixes env :: env and P :: "world \<Rightarrow> bool"
  assumes keeps_tick: "P w \<Longrightarrow> P (tick w)"
    and keeps_event: "P w \<Longrightarrow> append_event env a e st s d w = Inr w' \<Longrightarrow> P w'"
    and keeps_run: "P w \<Longrightarrow> insert_run r w = Inr w' \<Longrightarrow> P w'"
    and keeps_step: "P w \<Longrightarrow> insert_step t w = Inr w' \<Longrightarrow> P w'"
    and keeps_proposal: "P w \<Longrightarrow> hash_ok env p \<Longrightarrow> insert_proposal p w = Inr w' \<Longrightarrow> P w'"
    and keeps_update_run: "P w \<Longrightarrow> (\<And>r. rn_id (g r) = rn_id r) \<Longrightarrow> P (update_run i g w)"
    and keeps_update_proposal: "P w \<Longrightarrow> proposal_update_ok env h \<Longrightarrow> P (update_proposal i h w)"
begin

lemma keeps_status: "P w \<Longrightarrow> s \<noteq> Pending \<Longrightarrow> P (set_proposal_status s i w)"
  unfolding set_proposal_status_def
  by (rule keeps_update_proposal) (simp_all add: proposal_update_ok_def hash_ok_def)

text \<open>The rules with the step that was taken as their first premise, to take an operation apart with.\<close>

lemmas keeps_back = keeps_event [rotated] keeps_run [rotated] keeps_step [rotated]

lemma keeps_proposal_back: "insert_proposal p w = Inr w' \<Longrightarrow> P w \<Longrightarrow> hash_ok env p \<Longrightarrow> P w'"
  by (rule keeps_proposal)

lemma keeps_scope:
  "P w \<Longrightarrow> (\<And>x w'. work w = Inr (x, w') \<Longrightarrow> P w') \<Longrightarrow> P (snd (session_scope work w))"
  by (cases "work w") (auto simp: session_scope_def rolled_back_def keeps_tick)

lemma keeps_each:
  "each f xs w = Inr (ys, w') \<Longrightarrow> P w \<Longrightarrow> (\<And>x y w w'. f x w = Inr (y, w') \<Longrightarrow> P w \<Longrightarrow> P w') \<Longrightarrow> P w'"
proof (induction f xs w arbitrary: ys w' rule: each.induct)
  case (1 f w)
  then show ?case by simp
next
  case (2 f x xs w)
  from "2.prems"(1) obtain y w1 zs where "f x w = Inr (y, w1)" "each f xs w1 = Inr (zs, w')"
    by (auto simp: result_simps)
  with "2.IH" "2.prems" show ?case by blast
qed

lemma keeps_create_run: "create_run env goal op params w = Inr (x, w') \<Longrightarrow> P w \<Longrightarrow> P w'"
  by (auto simp: create_run_def Let_def result_simps dest!: keeps_back intro!: keeps_tick)

lemma keeps_set_status:
  assumes "set_status env i status err w = Inr (x, w')" and "P w"
  shows "P w'"
proof -
  let ?w1 = "update_run i (\<lambda>r. r\<lparr>rn_status := status, rn_error := (if err = None then rn_error r else err)\<rparr>) w"
  have "P ?w1" using assms(2) by (rule keeps_update_run) simp
  then show ?thesis using assms
    by (auto simp: set_status_def Let_def result_simps split: option.splits if_splits
        dest!: keeps_back intro!: keeps_tick keeps_update_run)
qed

lemma keeps_append_step: "append_step env i kind tool payload w = Inr (x, w') \<Longrightarrow> P w \<Longrightarrow> P w'"
  by (auto simp: append_step_def Let_def result_simps dest!: keeps_back intro!: keeps_tick)

lemma flush_proposal_Inr: "flush_proposal p w = Inr w' \<longleftrightarrow> insert_proposal p w = Inr w'"
  by (auto simp: flush_proposal_def split: sum.splits exn.splits)

lemma keeps_create_proposal:
  assumes "create_proposal env i payload rat invo email amt cur days ttl w = Inr (x, w')" and "P w"
  shows "P w'"
proof -
  have "hash_ok env (new_proposal env i payload rat invo email amt cur days ttl w)"
    by (simp add: hash_ok_def new_proposal_def)
  with assms show ?thesis
    by (auto simp: create_proposal_def Let_def result_simps flush_proposal_Inr
        dest!: keeps_back keeps_proposal_back intro!: keeps_tick)
qed

lemma keeps_expire_one: "expire_one env p w = Inr (x, w') \<Longrightarrow> P w \<Longrightarrow> P w'"
  by (auto simp: expire_one_def result_simps dest!: keeps_back intro!: keeps_status)

lemma keeps_expire:
  assumes "expire_stale_proposals env w = Inr (n, w')" and "P w"
  shows "P w'"
proof -
  from assms(1) obtain ys where "each (expire_one env) (filter (stale (now_utc env w)) (proposals w)) (tick w) = Inr (ys, w')"
    by (auto simp: expire_stale_proposals_def Let_def result_simps)
  then show ?thesis using keeps_tick [OF assms(2)] by (rule keeps_each) (rule keeps_expire_one)
qed

lemma keeps_settle_run: "settle_run_if_decided env i w = Inr (b, w') \<Longrightarrow> P w \<Longrightarrow> P w'"
  by (auto simp: settle_run_if_decided_def Let_def result_simps split: option.splits if_splits
      dest!: keeps_back intro!: keeps_tick keeps_update_run)

lemma keeps_settle_decided:
  assumes "settle_decided_runs env w = Inr (n, w')" and "P w"
  shows "P w'"
proof -
  from assms(1) obtain m w1 xs ys where "expire_stale_proposals env w = Inr (m, w1)"
    "each (settle_run_if_decided env) xs w1 = Inr (ys, w')"
    by (auto simp: settle_decided_runs_def Let_def result_simps)
  from this(2) keeps_expire [OF this(1) assms(2)] show ?thesis
    by (rule keeps_each) (rule keeps_settle_run)
qed

lemma keeps_abandon_one: "abandon_one env message r w = Inr (x, w') \<Longrightarrow> P w \<Longrightarrow> P w'"
  by (auto simp: abandon_one_def result_simps dest!: keeps_back intro!: keeps_tick keeps_update_run)

lemma keeps_abandon:
  assumes "abandon_orphaned_runs env reason w = Inr (ids, w')" and "P w"
  shows "P w'"
proof -
  from assms(1) obtain message xs ys where "each (abandon_one env message) xs w = Inr (ys, w')"
    by (auto simp: abandon_orphaned_runs_def Let_def result_simps)
  then show ?thesis using assms(2) by (rule keeps_each) (rule keeps_abandon_one)
qed

lemmas keeps_store =
  keeps_create_run keeps_set_status keeps_append_step keeps_create_proposal keeps_expire
  keeps_settle_run keeps_settle_decided keeps_abandon

end

text \<open>
  The gateway and the decisions also insert approvals, executions, nonces and captured letters; a
  property they keep meets the larger contract.
\<close>

locale world_invariant = table_invariant +
  assumes keeps_approval: "P w \<Longrightarrow> insert_approval b w = Inr w' \<Longrightarrow> P w'"
    and keeps_execution: "P w \<Longrightarrow> insert_execution x w = Inr w' \<Longrightarrow> P w'"
    and keeps_nonce: "P w \<Longrightarrow> insert_nonce n w = Inr w' \<Longrightarrow> P w'"
    and keeps_outbox: "P w \<Longrightarrow> insert_outbox m w = Inr w' \<Longrightarrow> P w'"
    and keeps_update_execution: "P w \<Longrightarrow> execution_update_ok k \<Longrightarrow> P (update_execution j k w)"
    and keeps_mail: "P w \<Longrightarrow> P (w\<lparr>mails := mails w @ [l]\<rparr>)"
begin

lemmas keeps_rows =
  keeps_back keeps_approval [rotated] keeps_execution [rotated] keeps_nonce [rotated] keeps_outbox [rotated]

end

subsection \<open>The constraints, the chain and the payload hashes\<close>

interpretation wf: world_invariant env wf_world for env
proof unfold_locales
  show "wf_world (w\<lparr>mails := mails w @ [l]\<rparr>)" if "wf_world w" for w l
    using that by (simp add: wf_world_def)
  show "wf_world (update_proposal i h w)" if "wf_world w" "proposal_update_ok env h" for w i h
    using that by (intro wf_update_proposal) (auto simp: proposal_update_ok_def)
  show "wf_world (update_execution j k w)" if "wf_world w" "execution_update_ok k" for w j k
    using that by (intro wf_update_execution) (auto simp: execution_update_ok_def)
qed (auto intro: wf_append_event wf_inserts wf_update_run)

lemma verify_chain_events: "events v = events w \<Longrightarrow> verify_chain env v = verify_chain env w"
  by (simp add: verify_chain_def)

lemma insert_keeps_events:
  "insert_run r w = Inr w' \<Longrightarrow> events w' = events w"
  "insert_step t w = Inr w' \<Longrightarrow> events w' = events w"
  "insert_proposal p w = Inr w' \<Longrightarrow> events w' = events w"
  "insert_approval b w = Inr w' \<Longrightarrow> events w' = events w"
  "insert_execution x w = Inr w' \<Longrightarrow> events w' = events w"
  "insert_nonce n w = Inr w' \<Longrightarrow> events w' = events w"
  "insert_outbox m w = Inr w' \<Longrightarrow> events w' = events w"
  by (auto simp: insert_run_def insert_step_def insert_proposal_def insert_approval_def
      insert_execution_def insert_nonce_def insert_outbox_def result_simps)

definition chain_intact :: "env \<Rightarrow> world \<Rightarrow> bool" where
  "chain_intact env w = cs_intact (verify_chain env w)"

interpretation chain: world_invariant env "chain_intact env" for env
proof unfold_locales
  show "chain_intact env w'" if "chain_intact env w" "append_event env a e st s d w = Inr w'"
    for w w' a e st s d
    using that append_keeps_intact by (simp add: chain_intact_def)
qed (simp_all add: chain_intact_def insert_keeps_events [THEN verify_chain_events],
    simp_all add: verify_chain_def tick_def update_run_def update_proposal_def update_execution_def)

definition hashes_agree :: "env \<Rightarrow> world \<Rightarrow> bool" where
  "hashes_agree env w = (\<forall>p \<in> set (proposals w). hash_ok env p)"

lemma insert_keeps_proposals:
  "insert_run r w = Inr w' \<Longrightarrow> proposals w' = proposals w"
  "insert_step t w = Inr w' \<Longrightarrow> proposals w' = proposals w"
  "insert_approval b w = Inr w' \<Longrightarrow> proposals w' = proposals w"
  "insert_execution x w = Inr w' \<Longrightarrow> proposals w' = proposals w"
  "insert_nonce n w = Inr w' \<Longrightarrow> proposals w' = proposals w"
  "insert_outbox m w = Inr w' \<Longrightarrow> proposals w' = proposals w"
  by (auto simp: insert_run_def insert_step_def insert_approval_def
      insert_execution_def insert_nonce_def insert_outbox_def result_simps)

interpretation hashes: world_invariant env "hashes_agree env" for env
proof unfold_locales
  show "hashes_agree env w'" if "hashes_agree env w" "hash_ok env p" "insert_proposal p w = Inr w'" for w w' p
    using that by (auto simp: insert_proposal_def result_simps hashes_agree_def)
  show "hashes_agree env (update_proposal i h w)" if "hashes_agree env w" "proposal_update_ok env h" for w i h
    using that by (auto simp: hashes_agree_def proposal_update_ok_def update_proposal_def dest!: update_by_mem)
  show "hashes_agree env w'" if "hashes_agree env w" "append_event env a e st s d w = Inr w'" for w w' a e st s d
    using that append_event_frame(3) [OF that(2)] by (simp add: hashes_agree_def)
qed (simp_all add: hashes_agree_def insert_keeps_proposals tick_def update_run_def update_execution_def)

end
