(* ===== verification/Email.thy ===== *)
theory Email
  imports Store
begin

text \<open>
  \<^verbatim>\<open>gateway/email_adapter\<close>: the three adapters behind one \<open>send\<close>, their selection, and the
  gateway's settings. What the disk, the SMTP server, the Resend endpoint and Stripe answer is the
  argument \<open>io\<close>. Every call of \<open>send\<close> is entered in the log \<open>mails\<close>, whatever comes of it.
\<close>

section \<open>Settings\<close>

record gateway_settings =
  gs_signing_secret :: string
  gs_stripe_api_key_write :: string
  gs_enable_stripe_invoice_send :: bool
  gs_email_adapter :: string
  gs_outbox_dir :: string
  gs_smtp_host :: string
  gs_smtp_port :: int
  gs_smtp_username :: string
  gs_smtp_password :: string
  gs_smtp_starttls :: bool
  gs_resend_api_key :: string
  gs_mail_from :: string
  gs_mail_from_name :: string

definition require_signing_secret :: "string \<Rightarrow> exn + string" where
  "require_signing_secret secret =
     raise_if (length secret < 32)
       (RuntimeError (''APPROVAL_SIGNING_SECRET must be at least 32 bytes. ''
          @ ''Generate one with: python -c \"import secrets; print(secrets.token_hex(32))\"''))
       (Inr secret)"

section \<open>The outside\<close>

datatype smtp_reply = SmtpFailed string string | SmtpRaised exn | SmtpAccepted "(string \<times> string) list"

datatype http_reply = HttpFailed string string | HttpResponse nat string "pydict option"

datatype stripe_reply = StripeRaised exn | StripeInvoice string pyval pyval

record io =
  disk_ok :: "nat \<Rightarrow> bool"
  smtp_server :: "nat \<Rightarrow> smtp_reply"
  resend_api :: "nat \<Rightarrow> http_reply"
  stripe_api :: "nat \<Rightarrow> stripe_reply"

section \<open>Results\<close>

record delivery =
  dl_adapter :: string
  dl_accepted :: bool
  dl_provider_message_id :: "string option"
  dl_detail :: pydict

definition delivery_dict :: "delivery \<Rightarrow> pydict" where
  "delivery_dict d =
     dict_update
       [(''adapter'', PStr (dl_adapter d)), (''accepted'', PBool (dl_accepted d)),
        (''provider_message_id'', str_or_none (dl_provider_message_id d))] (dl_detail d)"

datatype adapter = OutboxAdapter | SmtpAdapter | ResendAdapter

definition adapter_name :: "adapter \<Rightarrow> string" where
  "adapter_name a =
     (case a of OutboxAdapter \<Rightarrow> ''outbox'' | SmtpAdapter \<Rightarrow> ''smtp'' | ResendAdapter \<Rightarrow> ''resend'')"

section \<open>Selecting an adapter\<close>

definition build_adapter :: "gateway_settings \<Rightarrow> exn + adapter" where
  "build_adapter s =
     (let choice = map ascii_lower
             (strip (if gs_email_adapter s = [] then ''outbox'' else gs_email_adapter s))
      in if choice = ''outbox'' then Inr OutboxAdapter
         else if choice = ''smtp'' then Inr SmtpAdapter
         else if choice = ''resend'' then
           raise_if (gs_resend_api_key s = [])
             (ValueError (''EMAIL_ADAPTER=resend requires RESEND_API_KEY. Refusing to start with a ''
                @ ''real-delivery adapter and no credential.''))
             (Inr ResendAdapter)
         else Inl (ValueError (''unknown EMAIL_ADAPTER '' @ [CHR 0x27] @ choice @ [CHR 0x27]
                @ ''; expected one of ('' @ [CHR 0x27] @ ''outbox'' @ [CHR 0x27] @ '', '' @ [CHR 0x27]
                @ ''smtp'' @ [CHR 0x27] @ '', '' @ [CHR 0x27] @ ''resend'' @ [CHR 0x27] @ '')'')))"

lemma build_adapter_outbox: "gs_email_adapter s = ''outbox'' \<Longrightarrow> build_adapter s = Inr OutboxAdapter"
proof -
  have "strip ''outbox'' = ''outbox''" by (rule strip_id) (simp_all add: printable_def)
  then show "gs_email_adapter s = ''outbox'' \<Longrightarrow> build_adapter s = Inr OutboxAdapter"
    by (simp add: build_adapter_def Let_def ascii_lower_def)
qed

section \<open>The captured outbox\<close>

text \<open>\<^verbatim>\<open>re.sub("[^A-Za-z0-9_-]+", "-", s)\<close>: every run of other characters is one dash.\<close>

definition safe_char :: "char \<Rightarrow> bool" where
  "safe_char c =
     (let n = byte_of c in (48 \<le> n \<and> n \<le> 57) \<or> (65 \<le> n \<and> n \<le> 90) \<or> (97 \<le> n \<and> n \<le> 122)
        \<or> c = CHR ''_'' \<or> c = CHR ''-'')"

fun dash_unsafe :: "bool \<Rightarrow> string \<Rightarrow> string" where
  "dash_unsafe in_run [] = []"
| "dash_unsafe in_run (c # s) =
     (if safe_char c then c # dash_unsafe False s
      else if in_run then dash_unsafe True s else CHR ''-'' # dash_unsafe True s)"

definition outbox_file_name :: "int \<Rightarrow> string \<Rightarrow> string" where
  "outbox_file_name t proposal_id =
     map (\<lambda>c. if c = CHR '':'' then CHR ''-'' else c) (format_utc t) @ ''_''
     @ take 40 (dash_unsafe False proposal_id) @ ''.eml''"

text \<open>\<open>None\<close> when the file system refuses: the row in the database is the capture that counts.\<close>

definition write_file :: "env \<Rightarrow> io \<Rightarrow> gateway_settings \<Rightarrow> string \<Rightarrow> world \<Rightarrow> string option" where
  "write_file env io s proposal_id w =
     (if disk_ok io (ticks w)
      then Some (gs_outbox_dir s @ ''/'' @ outbox_file_name (now_utc env w) proposal_id) else None)"

definition meta_proposal_id :: "pydict \<Rightarrow> string" where
  "meta_proposal_id meta =
     (case dict_get_or ''proposal_id'' (PStr ''unknown'') meta of PStr s \<Rightarrow> s | _ \<Rightarrow> ''unknown'')"

definition outbox_send :: "env \<Rightarrow> io \<Rightarrow> gateway_settings \<Rightarrow> mail \<Rightarrow> delivery work" where
  "outbox_send env io s m w =
     (let proposal_id = meta_proposal_id (ml_meta m);
          path = write_file env io s proposal_id w;
          w1 = tick w;
          row = \<lparr>ob_id = new_uuid env w1, ob_proposal_id = proposal_id, ob_to_email = ml_to m,
                 ob_subject = ml_subject m, ob_body = ml_body m, ob_meta = ml_meta m,
                 ob_adapter = ''outbox'', ob_file_path = path, ob_created_at = now_utc env w1\<rparr>
      in and_then (insert_outbox row (tick w1)) (\<lambda>w2.
         Inr (\<lparr>dl_adapter = ''outbox'', dl_accepted = True, dl_provider_message_id = Some (ob_id row),
               dl_detail = [(''captured'', PBool True), (''file_path'', str_or_none path),
                 (''note'', PStr ''Captured locally. Nothing left this machine.'')]\<rparr>, w2)))"

section \<open>SMTP\<close>

text \<open>\<^verbatim>\<open>EmailMessage\<close> refuses a header of more than one line (\<^verbatim>\<open>str.splitlines\<close>).\<close>

definition line_breaks :: "string list" where
  "line_breaks =
     bytes [13, 10] # map (\<lambda>n. bytes [n]) [10, 11, 12, 13, 28, 29, 30]
     @ [bytes [194, 133], bytes [226, 128, 168], bytes [226, 128, 169]]"

definition drop_last_break :: "string \<Rightarrow> string" where
  "drop_last_break s =
     (case find (\<lambda>b. suffix b s) line_breaks of None \<Rightarrow> s | Some b \<Rightarrow> take (length s - length b) s)"

definition one_line :: "string \<Rightarrow> bool" where
  "one_line s = (\<not> list_ex (\<lambda>b. contains b (drop_last_break s)) line_breaks)"

definition smtp_headers :: "gateway_settings \<Rightarrow> mail \<Rightarrow> string list" where
  "smtp_headers s m =
     [gs_mail_from_name s @ '' <'' @ gs_mail_from s @ ''>'', ml_to m, ml_subject m]
     @ (if truthy (dict_get ''proposal_id'' (ml_meta m)) then [meta_proposal_id (ml_meta m)] else [])"

definition smtp_send :: "io \<Rightarrow> gateway_settings \<Rightarrow> mail \<Rightarrow> delivery work" where
  "smtp_send io s m w =
     raise_if (\<not> list_all one_line (smtp_headers s m))
       (ValueError ''Header values may not contain linefeed or carriage return characters'')
     (case smtp_server io (ticks w) of
        SmtpFailed name text \<Rightarrow>
          Inl (DeliveryError (''SMTP delivery failed: '' @ text) ''smtp''
            [(''host'', PStr (gs_smtp_host s)), (''port'', PInt (gs_smtp_port s)), (''error'', PStr name)])
      | SmtpRaised e \<Rightarrow> Inl e
      | SmtpAccepted refused \<Rightarrow>
          if refused \<noteq> [] then
            Inl (DeliveryError (''SMTP server refused the recipient: ''
                @ ''{'' @ join '', '' (map (\<lambda>(a, t). [CHR 0x27] @ a @ [CHR 0x27] @ '': '' @ t) refused) @ ''}'') ''smtp''
              [(''refused'', PDict (map (\<lambda>(a, t). (a, PStr t)) refused))])
          else
            Inr (\<lparr>dl_adapter = ''smtp'', dl_accepted = True, dl_provider_message_id = None,
                  dl_detail = [(''host'', PStr (gs_smtp_host s)), (''port'', PInt (gs_smtp_port s))]\<rparr>,
                 tick w))"

section \<open>Resend\<close>

definition resend_send :: "io \<Rightarrow> gateway_settings \<Rightarrow> mail \<Rightarrow> delivery work" where
  "resend_send io s m w =
     (case resend_api io (ticks w) of
        HttpFailed name text \<Rightarrow>
          Inl (DeliveryError (''Resend was unreachable: '' @ text) ''resend'' [(''error'', PStr name)])
      | HttpResponse status text body \<Rightarrow>
          if 400 \<le> status then
            Inl (DeliveryError (''Resend refused the message with HTTP '' @ nat_str status @ ''.'') ''resend''
              [(''http_status'', PInt (int status)), (''response'', PStr (py_take 500 text))])
          else if text = [] then
            Inr (\<lparr>dl_adapter = ''resend'', dl_accepted = True, dl_provider_message_id = None,
                  dl_detail = [(''http_status'', PInt (int status))]\<rparr>, tick w)
          else case body of
            None \<Rightarrow> Inl (ValueError text)
          | Some d \<Rightarrow>
              Inr (\<lparr>dl_adapter = ''resend'', dl_accepted = True,
                    dl_provider_message_id = (case dict_get ''id'' d of PStr i \<Rightarrow> Some i | _ \<Rightarrow> None),
                    dl_detail = [(''http_status'', PInt (int status))]\<rparr>, tick w))"

section \<open>One interface\<close>

definition log_mail :: "mail \<Rightarrow> world \<Rightarrow> world" where
  "log_mail m w = w\<lparr>mails := mails w @ [m]\<rparr>"

definition adapter_send ::
  "env \<Rightarrow> io \<Rightarrow> gateway_settings \<Rightarrow> adapter \<Rightarrow> mail \<Rightarrow> world \<Rightarrow> (exn + delivery) \<times> world" where
  "adapter_send env io s a m w =
     (let w1 = log_mail m w in
      case (case a of OutboxAdapter \<Rightarrow> outbox_send env io s m w1
            | SmtpAdapter \<Rightarrow> smtp_send io s m w1
            | ResendAdapter \<Rightarrow> resend_send io s m w1) of
        Inl e \<Rightarrow> (Inl e, tick w1)
      | Inr (d, w2) \<Rightarrow> (Inr d, w2))"

text \<open>Step 4, the optional Stripe invoice mail of \<^verbatim>\<open>gateway/stripe_client/write.py\<close>.\<close>

definition send_invoice :: "io \<Rightarrow> string \<Rightarrow> string \<Rightarrow> world \<Rightarrow> exn + pydict" where
  "send_invoice io api_key invoice_id w =
     (if api_key = [] then
        Inr [(''attempted'', PBool False), (''reason'', PStr ''STRIPE_API_KEY_WRITE is not configured'')]
      else case stripe_api io (ticks w) of
        StripeRaised e \<Rightarrow> Inl e
      | StripeInvoice inv_id status url \<Rightarrow>
          Inr [(''attempted'', PBool True), (''invoice_id'', PStr inv_id), (''status'', status),
               (''hosted_invoice_url'', url)])"

section \<open>What sending changes\<close>

lemma outbox_send_frame:
  "outbox_send env io s m w = Inr (d, w') \<Longrightarrow>
   proposals w' = proposals w \<and> approvals w' = approvals w \<and> executions w' = executions w
   \<and> nonces w' = nonces w \<and> events w' = events w \<and> runs w' = runs w \<and> mails w' = mails w"
  by (auto simp: outbox_send_def Let_def result_simps insert_outbox_def tick_def)

lemma adapter_send_frame:
  assumes "adapter_send env io s a m w = (r, w')"
  shows "proposals w' = proposals w" "approvals w' = approvals w" "executions w' = executions w"
    "nonces w' = nonces w" "events w' = events w" "runs w' = runs w" "mails w' = mails w @ [m]"
proof -
  have "proposals w' = proposals w \<and> approvals w' = approvals w \<and> executions w' = executions w
      \<and> nonces w' = nonces w \<and> events w' = events w \<and> runs w' = runs w \<and> mails w' = mails w @ [m]"
    using assms
    by (cases a)
      (auto simp: adapter_send_def Let_def log_mail_def tick_def smtp_send_def resend_send_def raise_if_def
        split: sum.splits smtp_reply.splits http_reply.splits if_splits option.splits dest!: outbox_send_frame)
  then show "proposals w' = proposals w" "approvals w' = approvals w" "executions w' = executions w"
    "nonces w' = nonces w" "events w' = events w" "runs w' = runs w" "mails w' = mails w @ [m]"
    by simp_all
qed

context world_invariant
begin

lemma keeps_adapter_send:
  assumes "P w" and "adapter_send env io s a m w = (r, w')"
  shows "P w'"
proof -
  have "P (log_mail m w)" using assms(1) by (simp add: log_mail_def keeps_mail)
  then show ?thesis using assms(2)
    by (cases a)
      (auto simp: adapter_send_def Let_def result_simps outbox_send_def smtp_send_def resend_send_def raise_if_def
        split: sum.splits smtp_reply.splits http_reply.splits if_splits option.splits
        dest!: keeps_rows intro!: keeps_tick)
qed

end

end
