(* ===== verification/Verify.thy ===== *)
theory Verify
  imports Email
begin

text \<open>
  \<^verbatim>\<open>gateway/verify.py\<close>: the seven checks. Each check is a definition of its own, and
  \<open>verify_execution_request\<close> runs them in the order of the code. \<open>check_passes\<close> is the specification:
  what each check asks of the request and of the database. The theorems say that verification
  succeeds exactly when all seven pass, that a refusal names the first failing one and exactly the
  checks before it, and that nothing in the request body matters.
\<close>

section \<open>The registry\<close>

record check =
  ck_number :: nat
  ck_name :: string
  ck_refusal_code :: "error_code option"
  ck_question :: string
  ck_threat :: string

definition checks :: "check list" where
  "checks =
     [\<lparr>ck_number = 1, ck_name = ''hmac_signature_valid'', ck_refusal_code = Some InvalidSignatureCode,
       ck_question = ''Was this token minted with the shared signing secret?'',
       ck_threat = ''A forged request. Without the secret, a caller cannot produce a token at all.''\<rparr>,
      \<lparr>ck_number = 2, ck_name = ''token_not_expired'', ck_refusal_code = Some TokenExpiredCode,
       ck_question = ''Is the token still inside its fifteen minute life?'',
       ck_threat = ''A stale approval replayed long after the operator moved on.''\<rparr>,
      \<lparr>ck_number = 3, ck_name = ''nonce_unused'', ck_refusal_code = Some TokenReplayedCode,
       ck_question = ''Has this token already been used to execute a different request?'',
       ck_threat = ''One approval turned into two sends.''\<rparr>,
      \<lparr>ck_number = 4, ck_name = ''proposal_is_approved'', ck_refusal_code = Some NotApprovedCode,
       ck_question = ''Does the proposal exist, and does THIS DATABASE say it is approved?'',
       ck_threat = ''A send with no human approval behind it. The answer comes from state the ''
         @ ''caller does not control.''\<rparr>,
      \<lparr>ck_number = 5, ck_name = ''approval_matches_approver'', ck_refusal_code = Some ApprovalMismatchCode,
       ck_question = ''Is there an approve record, and does it name the token's approver and nonce?'',
       ck_threat = ''An approved status with no approval behind it, or a token attributed to ''
         @ ''someone who never approved anything.''\<rparr>,
      \<lparr>ck_number = 6, ck_name = ''payload_hash_matches'', ck_refusal_code = Some PayloadModifiedCode,
       ck_question = ''Does the stored letter still hash to what the operator approved?'',
       ck_threat = ''Approving one letter and sending a different one.''\<rparr>,
      \<lparr>ck_number = 7, ck_name = ''idempotency_key_unused'', ck_refusal_code = None,
       ck_question = ''Has this exact request already been executed?'',
       ck_threat = ''A retried request causing a second send. Returns the original result instead.''\<rparr>]"

definition check_name :: "nat \<Rightarrow> string" where
  "check_name n = ck_name (checks ! (n - 1))"

text \<open>The refusal code of a check, and the names of the checks before it.\<close>

definition check_code :: "nat \<Rightarrow> string" where
  "check_code n =
     (case ck_refusal_code (checks ! (n - 1)) of None \<Rightarrow> [] | Some c \<Rightarrow> code_str c)"

definition passed_before :: "nat \<Rightarrow> string list" where
  "passed_before n = map ck_name (take (n - 1) checks)"

definition check_outcome :: "check \<Rightarrow> pyval" where
  "check_outcome c =
     PDict [(''number'', PInt (int (ck_number c))), (''name'', PStr (ck_name c)), (''passed'', PBool True),
       (''question'', PStr (ck_question c))]"

section \<open>Refusals\<close>

definition refusal_extra :: "nat \<Rightarrow> string list \<Rightarrow> string option \<Rightarrow> pydict \<Rightarrow> pydict" where
  "refusal_extra n passed proposal_id extra =
     [(''proposal_id'', str_or_none proposal_id), (''failed_check'', PInt (int n)),
      (''checks_passed'', PList (map PStr passed))] @ extra"

definition refuse :: "nat \<Rightarrow> string \<Rightarrow> nat \<Rightarrow> string option \<Rightarrow> pydict \<Rightarrow> exn" where
  "refuse n message http_status proposal_id extra =
     ApiError (api_err (check_code n) message http_status
       (refusal_extra n (passed_before n) proposal_id extra))"

section \<open>The checks\<close>

record verified =
  vf_claims :: claims
  vf_proposal :: proposal_row
  vf_approval :: approval_row
  vf_idempotency_key :: string
  vf_checks :: "check list"
  vf_existing_execution :: "execution_row option"
  vf_body_disagreed :: bool

definition request_key :: "string option \<Rightarrow> exn + string" where
  "request_key key =
     (case key of
        None \<Rightarrow> Inl (ApiError (api_err (code_str MissingIdempotencyKeyCode)
                  ''The X-Idempotency-Key header is required.'' 400 []))
      | Some k \<Rightarrow>
          raise_if (k = [] \<or> strip k = [])
            (ApiError (api_err (code_str MissingIdempotencyKeyCode)
               ''The X-Idempotency-Key header is required.'' 400 []))
            (Inr (strip k)))"

definition check_1 :: "env \<Rightarrow> string \<Rightarrow> string \<Rightarrow> string option \<Rightarrow> exn + claims" where
  "check_1 env secret fresh raw_token =
     (case decode env fresh raw_token secret of
        Inr c \<Rightarrow> Inr c
      | Inl (InvalidSignature m) \<Rightarrow> Inl (refuse 1 m 401 None [])
      | Inl (MalformedToken m) \<Rightarrow>
          Inl (ApiError (api_err (code_str MalformedTokenCode) m 401
                [(''failed_check'', PInt 1), (''checks_passed'', PList [])]))
      | Inl e \<Rightarrow> Inl e)"

definition check_2 :: "int \<Rightarrow> claims \<Rightarrow> exn + unit" where
  "check_2 at_epoch c =
     raise_if (is_expired c at_epoch)
       (refuse 2 (''Approval token expired at '' @ int_str (cl_exp c) @ '' (now '' @ int_str at_epoch @ '').'')
          401 (Some (cl_proposal_id c)) [])
       (Inr ())"

definition check_3 :: "string \<Rightarrow> claims \<Rightarrow> world \<Rightarrow> exn + unit" where
  "check_3 key c w =
     (case find_nonce (cl_nonce c) w of
        None \<Rightarrow> Inr ()
      | Some n \<Rightarrow>
          raise_if (nc_key n \<noteq> key)
            (refuse 3 ''This approval token has already been used to execute a request.'' 409
               (Some (cl_proposal_id c)) [])
            (Inr ()))"

text \<open>The execution this very request already produced, for this proposal.\<close>

definition own_execution :: "string \<Rightarrow> proposal_row \<Rightarrow> world \<Rightarrow> execution_row option" where
  "own_execution key p w = find (\<lambda>e. ex_key e = key \<and> ex_proposal_id e = pr_id p) (executions w)"

definition check_4 :: "int \<Rightarrow> string \<Rightarrow> claims \<Rightarrow> world \<Rightarrow> exn + proposal_row" where
  "check_4 at key c w =
     (case find_proposal (cl_proposal_id c) w of
        None \<Rightarrow> Inl (refuse 4 ''No such proposal.'' 403 (Some (cl_proposal_id c)) [])
      | Some p \<Rightarrow>
          raise_if (pr_status p \<noteq> Approved \<and> own_execution key p w = None)
            (refuse 4 (''Proposal is in status '' @ [CHR 0x27] @ proposal_status_str (pr_status p)
                @ [CHR 0x27] @ ''.'') 403 (Some (pr_id p))
               [(''proposal_status'', PStr (proposal_status_str (pr_status p)))])
         (raise_if (pr_expires_at p \<le> at \<and> own_execution key p w = None)
            (refuse 4 ''Proposal has expired. Stale approvals are not executed.'' 403 (Some (pr_id p))
               [(''reason'', PStr ''expired'')])
            (Inr p)))"

definition latest_approval :: "string \<Rightarrow> world \<Rightarrow> approval_row option" where
  "latest_approval proposal_id w =
     last_by ap_id (filter (\<lambda>a. ap_proposal_id a = proposal_id \<and> ap_decision a = Approve) (approvals w))"

definition check_5 :: "claims \<Rightarrow> proposal_row \<Rightarrow> world \<Rightarrow> exn + approval_row" where
  "check_5 c p w =
     (case latest_approval (pr_id p) w of
        None \<Rightarrow> Inl (refuse 5 ''The proposal is marked approved but carries no approval record.'' 403
                  (Some (pr_id p)) [])
      | Some a \<Rightarrow>
          raise_if (ap_actor a \<noteq> cl_approver c)
            (refuse 5 ''The token's approver does not match the recorded approver.'' 403 (Some (pr_id p)) [])
         (raise_if (ap_token_nonce a \<noteq> Some (cl_nonce c))
            (refuse 5 ''The token was not the one minted for this approval.'' 403 (Some (pr_id p)) [])
            (Inr a)))"

definition check_6 :: "env \<Rightarrow> claims \<Rightarrow> proposal_row \<Rightarrow> exn + unit" where
  "check_6 env c p =
     and_then (hashes_equal (Some (hash_payload env (PDict (pr_payload p)))) (Some (cl_payload_hash c)))
       (\<lambda>same. raise_if (\<not> same)
          (refuse 6 ''The letter has changed since it was approved.'' 409 (Some (pr_id p)) []) (Inr ()))"

definition check_7 :: "string \<Rightarrow> proposal_row \<Rightarrow> world \<Rightarrow> execution_row option" where
  "check_7 key p w =
     (case own_execution key p w of Some e \<Rightarrow> Some e | None \<Rightarrow> find_key key w)"

definition body_disagrees :: "claims \<Rightarrow> string option \<Rightarrow> string option \<Rightarrow> bool" where
  "body_disagrees c body_proposal_id body_payload_hash =
     ((case body_proposal_id of None \<Rightarrow> False | Some i \<Rightarrow> i \<noteq> [] \<and> i \<noteq> cl_proposal_id c)
      \<or> (case body_payload_hash of None \<Rightarrow> False | Some h \<Rightarrow> h \<noteq> [] \<and> h \<noteq> cl_payload_hash c))"

section \<open>The verification sequence\<close>

record request =
  rq_token :: "string option"
  rq_key :: "string option"
  rq_body_proposal_id :: "string option"
  rq_body_payload_hash :: "string option"

text \<open>
  Verification reads one snapshot of the database. \<open>at\<close> is the reading of the clock, \<open>fresh\<close> the
  uuid a token without a nonce would be given.
\<close>

definition verify_execution_request ::
  "env \<Rightarrow> string \<Rightarrow> request \<Rightarrow> string \<Rightarrow> int \<Rightarrow> world \<Rightarrow> exn + verified" where
  "verify_execution_request env secret rq fresh at w =
     and_then (request_key (rq_key rq)) (\<lambda>key.
     and_then (check_1 env secret fresh (rq_token rq)) (\<lambda>c.
     and_then (check_2 (to_epoch at) c) (\<lambda>_.
     and_then (check_3 key c w) (\<lambda>_.
     and_then (check_4 at key c w) (\<lambda>p.
     and_then (check_5 c p w) (\<lambda>a.
     and_then (check_6 env c p) (\<lambda>_.
     Inr \<lparr>vf_claims = c, vf_proposal = p, vf_approval = a, vf_idempotency_key = key, vf_checks = checks,
          vf_existing_execution = check_7 key p w,
          vf_body_disagreed = body_disagrees c (rq_body_proposal_id rq) (rq_body_payload_hash rq)\<rparr>)))))))"

section \<open>The specification of the checks\<close>

text \<open>
  \<open>check_passes n\<close> is the question of check \<open>n\<close>, for a request with key \<open>key\<close> whose token decodes to
  \<open>c\<close>. Check 7 asks nothing: it only decides whether there is an original result to return.
\<close>

definition check_passes :: "env \<Rightarrow> string \<Rightarrow> int \<Rightarrow> claims \<Rightarrow> world \<Rightarrow> nat \<Rightarrow> bool" where
  "check_passes env key at c w n =
     (if n = 2 then to_epoch at < cl_exp c
      else if n = 3 then \<forall>r \<in> set (nonces w). nc_nonce r = cl_nonce c \<longrightarrow> nc_key r = key
      else if n = 4 then
        (\<exists>p. find_proposal (cl_proposal_id c) w = Some p
           \<and> (pr_status p = Approved \<and> at < pr_expires_at p
              \<or> (\<exists>e \<in> set (executions w). ex_key e = key \<and> ex_proposal_id e = pr_id p)))
      else if n = 5 then
        (\<exists>a. latest_approval (cl_proposal_id c) w = Some a
           \<and> ap_actor a = cl_approver c \<and> ap_token_nonce a = Some (cl_nonce c))
      else if n = 6 then
        (\<exists>p. find_proposal (cl_proposal_id c) w = Some p
           \<and> hash_payload env (PDict (pr_payload p)) = cl_payload_hash c)
      else True)"

lemma find_proposal_id: "find_proposal i w = Some p \<Longrightarrow> pr_id p = i"
  by (auto dest: lookup_by_Some)

lemma own_execution_None:
  "own_execution key p w = None \<longleftrightarrow>
   \<not> (\<exists>e \<in> set (executions w). ex_key e = key \<and> ex_proposal_id e = pr_id p)"
  by (auto simp: own_execution_def find_None_iff)

lemma check_2_iff: "check_2 (to_epoch at) c = Inr u \<longleftrightarrow> check_passes env key at c w 2"
  by (cases u) (auto simp: check_2_def check_passes_def is_expired_def result_simps)

lemma check_3_iff:
  assumes "distinct (map nc_nonce (nonces w))"
  shows "check_3 key c w = Inr u \<longleftrightarrow> check_passes env key at c w 3"
proof (cases "find_nonce (cl_nonce c) w")
  case None
  then have "cl_nonce c \<notin> nc_nonce ` set (nonces w)" by (simp add: lookup_by_None)
  then have "\<forall>r \<in> set (nonces w). nc_nonce r \<noteq> cl_nonce c" by (metis image_eqI)
  then show ?thesis using None by (cases u) (auto simp: check_3_def check_passes_def)
next
  case (Some n)
  then have n: "n \<in> set (nonces w)" "nc_nonce n = cl_nonce c" by (auto dest: lookup_by_Some)
  have "r = n" if "r \<in> set (nonces w)" "nc_nonce r = cl_nonce c" for r
    using assms n that by (simp add: distinct_map inj_on_def)
  with n have "(\<forall>r \<in> set (nonces w). nc_nonce r = cl_nonce c \<longrightarrow> nc_key r = key) \<longleftrightarrow> nc_key n = key"
    by blast
  then show ?thesis using Some by (cases u) (simp add: check_3_def check_passes_def result_simps)
qed

lemma check_4_iff:
  "check_4 at key c w = Inr p \<longleftrightarrow>
   find_proposal (cl_proposal_id c) w = Some p \<and> check_passes env key at c w 4"
  by (auto simp: check_4_def check_passes_def result_simps own_execution_None not_le split: option.splits)

lemma check_5_iff:
  "find_proposal (cl_proposal_id c) w = Some p \<Longrightarrow>
   check_5 c p w = Inr a \<longleftrightarrow>
   latest_approval (cl_proposal_id c) w = Some a \<and> check_passes env key at c w 5"
  by (auto simp: check_5_def check_passes_def result_simps dest!: find_proposal_id split: option.splits)

lemma check_6_iff:
  "find_proposal (cl_proposal_id c) w = Some p \<Longrightarrow>
   check_6 env c p = Inr u \<longleftrightarrow> check_passes env key at c w 6"
  using hash_payload_ascii [of env "PDict (pr_payload p)"] hash_payload_nonempty [of env "PDict (pr_payload p)"]
  by (cases u; cases "hash_payload env (PDict (pr_payload p)) = cl_payload_hash c")
    (simp_all add: check_6_def check_passes_def result_simps hashes_equal_def compare_digest_def)

section \<open>Soundness and completeness\<close>

lemma request_key_iff: "request_key key = Inr k \<longleftrightarrow> (\<exists>r. key = Some r \<and> strip r \<noteq> [] \<and> k = strip r)"
  by (auto simp: request_key_def result_simps split: option.splits)

lemma check_1_iff: "check_1 env secret fresh raw = Inr c \<longleftrightarrow> decode env fresh raw secret = Inr c"
  by (auto simp: check_1_def split: sum.splits exn.splits)

lemma request_key_present: "strip k \<noteq> [] \<Longrightarrow> request_key (Some k) = Inr (strip k)"
  by (cases "k = []") (simp_all add: request_key_def)

lemmas verify_run = verify_execution_request_def request_key_present check_1_iff [THEN iffD2]

lemma check_cases: "(\<forall>n \<in> {2..6}. Q n) \<longleftrightarrow> Q 2 \<and> Q 3 \<and> Q 4 \<and> Q 5 \<and> Q (6 :: nat)"
proof -
  have "{2..6} = {2, 3, 4, 5, 6 :: nat}" by auto
  then show ?thesis by simp
qed

lemma verify_Inr:
  assumes "distinct (map nc_nonce (nonces w))"
  shows "verify_execution_request env secret rq fresh at w = Inr v \<longleftrightarrow>
    (\<exists>k c p a. rq_key rq = Some k \<and> strip k \<noteq> [] \<and> decode env fresh (rq_token rq) secret = Inr c
       \<and> (\<forall>n \<in> {2..6}. check_passes env (strip k) at c w n)
       \<and> find_proposal (cl_proposal_id c) w = Some p
       \<and> latest_approval (cl_proposal_id c) w = Some a
       \<and> v = \<lparr>vf_claims = c, vf_proposal = p, vf_approval = a, vf_idempotency_key = strip k,
              vf_checks = checks, vf_existing_execution = check_7 (strip k) p w,
              vf_body_disagreed = body_disagrees c (rq_body_proposal_id rq) (rq_body_payload_hash rq)\<rparr>)"
  (is "?l \<longleftrightarrow> ?r")
proof
  assume ?l
  then obtain k c p a u2 u3 u6 where steps: "rq_key rq = Some k" "strip k \<noteq> []"
      "decode env fresh (rq_token rq) secret = Inr c" "check_2 (to_epoch at) c = Inr u2"
      "check_3 (strip k) c w = Inr u3" "check_4 at (strip k) c w = Inr p" "check_5 c p w = Inr a"
      "check_6 env c p = Inr u6"
    and v: "v = \<lparr>vf_claims = c, vf_proposal = p, vf_approval = a, vf_idempotency_key = strip k,
              vf_checks = checks, vf_existing_execution = check_7 (strip k) p w,
              vf_body_disagreed = body_disagrees c (rq_body_proposal_id rq) (rq_body_payload_hash rq)\<rparr>"
    unfolding verify_execution_request_def and_then_eq_Inr request_key_iff check_1_iff by auto
  from steps(6) have p: "find_proposal (cl_proposal_id c) w = Some p" using check_4_iff by blast
  have "check_passes env (strip k) at c w 2" using steps(4) check_2_iff by blast
  moreover have "check_passes env (strip k) at c w 3" using steps(5) check_3_iff [OF assms] by blast
  moreover have "check_passes env (strip k) at c w 4" using steps(6) check_4_iff by blast
  moreover have "latest_approval (cl_proposal_id c) w = Some a \<and> check_passes env (strip k) at c w 5"
    using steps(7) check_5_iff [OF p] by blast
  moreover have "check_passes env (strip k) at c w 6" using steps(8) check_6_iff [OF p] by blast
  ultimately show ?r using steps(1-3) p v unfolding check_cases by blast
next
  assume ?r
  then obtain k c p a where r: "rq_key rq = Some k" "strip k \<noteq> []"
      "decode env fresh (rq_token rq) secret = Inr c" "\<forall>n \<in> {2..6}. check_passes env (strip k) at c w n"
      "find_proposal (cl_proposal_id c) w = Some p" "latest_approval (cl_proposal_id c) w = Some a"
    and v: "v = \<lparr>vf_claims = c, vf_proposal = p, vf_approval = a, vf_idempotency_key = strip k,
              vf_checks = checks, vf_existing_execution = check_7 (strip k) p w,
              vf_body_disagreed = body_disagrees c (rq_body_proposal_id rq) (rq_body_payload_hash rq)\<rparr>"
    by blast
  have "check_2 (to_epoch at) c = Inr ()" "check_3 (strip k) c w = Inr ()" "check_4 at (strip k) c w = Inr p"
    "check_5 c p w = Inr a" "check_6 env c p = Inr ()"
    using r(4-6) check_2_iff [of at c "()" env "strip k" w] check_3_iff [OF assms, of "strip k" c "()" env at]
      check_4_iff [of at "strip k" c w p env] check_5_iff [OF r(5), of a env "strip k" at]
      check_6_iff [OF r(5), of env "()" "strip k" at]
    unfolding check_cases by blast+
  then show ?l using r v by (simp add: verify_run)
qed

text \<open>
  C6: verification succeeds exactly when the key is there, the token decodes under the secret and
  checks 2 to 6 pass, and then it returns the database's own proposal, its latest approve record and
  the execution of an earlier request with the same key, if any.
\<close>

theorem verify_iff_checks_pass:
  assumes "wf_world w"
  shows "verify_execution_request env secret rq fresh at w = Inr v \<longleftrightarrow>
    (\<exists>k c p a. rq_key rq = Some k \<and> strip k \<noteq> [] \<and> decode env fresh (rq_token rq) secret = Inr c
       \<and> (\<forall>n \<in> {2..6}. check_passes env (strip k) at c w n)
       \<and> find_proposal (cl_proposal_id c) w = Some p
       \<and> latest_approval (cl_proposal_id c) w = Some a
       \<and> v = \<lparr>vf_claims = c, vf_proposal = p, vf_approval = a, vf_idempotency_key = strip k,
              vf_checks = checks, vf_existing_execution = check_7 (strip k) p w,
              vf_body_disagreed = body_disagrees c (rq_body_proposal_id rq) (rq_body_payload_hash rq)\<rparr>)"
  using assms by (intro verify_Inr) (simp add: wf_world_def)

section \<open>Refusals report the first failing check\<close>

definition failed_check :: "api_error \<Rightarrow> pyval" where
  "failed_check e = dict_get ''failed_check'' (ae_extra e)"

definition checks_passed :: "api_error \<Rightarrow> pyval" where
  "checks_passed e = dict_get ''checks_passed'' (ae_extra e)"

lemma refuse_report:
  "refuse n m st pid extra = ApiError e \<Longrightarrow>
   failed_check e = PInt (int n) \<and> checks_passed e = PList (map PStr (passed_before n))
   \<and> ae_code e = check_code n"
  by (cases pid) (auto simp: refuse_def refusal_extra_def failed_check_def checks_passed_def dict_get_def drop_none_def str_or_none_def)

lemma refuse_other: "refuse n m st pid extra \<noteq> TypeError t"
  by (simp add: refuse_def)

lemma failing_checks:
  assumes "distinct (map nc_nonce (nonces w))"
  shows "check_2 (to_epoch at) c = Inl x \<Longrightarrow> (\<exists>m st pid ex. x = refuse 2 m st pid ex) \<and> \<not> check_passes env key at c w 2"
    and "check_3 key c w = Inl x \<Longrightarrow> (\<exists>m st pid ex. x = refuse 3 m st pid ex) \<and> \<not> check_passes env key at c w 3"
    and "check_4 at key c w = Inl x \<Longrightarrow> (\<exists>m st pid ex. x = refuse 4 m st pid ex) \<and> \<not> check_passes env key at c w 4"
    and "find_proposal (cl_proposal_id c) w = Some p \<Longrightarrow> check_5 c p w = Inl x \<Longrightarrow>
      (\<exists>m st pid ex. x = refuse 5 m st pid ex) \<and> \<not> check_passes env key at c w 5"
    and "find_proposal (cl_proposal_id c) w = Some p \<Longrightarrow> check_6 env c p = Inl x \<Longrightarrow>
      ((\<exists>m st pid ex. x = refuse 6 m st pid ex) \<or> (\<exists>t. x = TypeError t)) \<and> \<not> check_passes env key at c w 6"
proof -
  show "(\<exists>m st pid ex. x = refuse 2 m st pid ex) \<and> \<not> check_passes env key at c w 2"
    if "check_2 (to_epoch at) c = Inl x"
    using that check_2_iff [of at c "()" env key w] by (auto simp: check_2_def result_simps)
  show "(\<exists>m st pid ex. x = refuse 3 m st pid ex) \<and> \<not> check_passes env key at c w 3"
    if "check_3 key c w = Inl x"
    using that check_3_iff [OF assms, of key c "()" env at]
    by (auto simp: check_3_def result_simps split: option.splits)
  show "(\<exists>m st pid ex. x = refuse 4 m st pid ex) \<and> \<not> check_passes env key at c w 4"
    if "check_4 at key c w = Inl x"
  proof
    show "\<not> check_passes env key at c w 4"
    proof
      assume passes: "check_passes env key at c w 4"
      then obtain p where "find_proposal (cl_proposal_id c) w = Some p" by (auto simp: check_passes_def)
      with passes have "check_4 at key c w = Inr p" using check_4_iff [of at key c w p env] by blast
      with that show False by simp
    qed
  qed (use that in \<open>auto simp: check_4_def result_simps split: option.splits\<close>)
  show "(\<exists>m st pid ex. x = refuse 5 m st pid ex) \<and> \<not> check_passes env key at c w 5"
    if p: "find_proposal (cl_proposal_id c) w = Some p" and "check_5 c p w = Inl x"
  proof
    show "\<not> check_passes env key at c w 5"
    proof
      assume passes: "check_passes env key at c w 5"
      then obtain a where "latest_approval (cl_proposal_id c) w = Some a" by (auto simp: check_passes_def)
      with passes have "check_5 c p w = Inr a" using check_5_iff [OF p, of a env key at] by blast
      with that show False by simp
    qed
  qed (use that in \<open>auto simp: check_5_def result_simps split: option.splits\<close>)
  show "((\<exists>m st pid ex. x = refuse 6 m st pid ex) \<or> (\<exists>t. x = TypeError t)) \<and> \<not> check_passes env key at c w 6"
    if p: "find_proposal (cl_proposal_id c) w = Some p" and "check_6 env c p = Inl x"
  proof
    show "\<not> check_passes env key at c w 6"
      using check_6_iff [OF p, of env "()" key at] that by auto
  qed (use that in \<open>auto simp: check_6_def result_simps hashes_equal_def compare_digest_def split: if_splits\<close>)
qed

lemma below: "{2..<2} = ({} :: nat set)" "{2..<3} = {2 :: nat}" "{2..<4} = {2, 3 :: nat}"
  "{2..<5} = {2, 3, 4 :: nat}" "{2..<6} = {2, 3, 4, 5 :: nat}"
  by auto

lemma verify_refused:
  assumes "decode env fresh (rq_token rq) secret = Inr c" and "rq_key rq = Some k" and "strip k \<noteq> []"
    and "verify_execution_request env secret rq fresh at w = Inl x"
  obtains "check_2 (to_epoch at) c = Inl x"
  | u where "check_2 (to_epoch at) c = Inr u" "check_3 (strip k) c w = Inl x"
  | u u3 where "check_2 (to_epoch at) c = Inr u" "check_3 (strip k) c w = Inr u3" "check_4 at (strip k) c w = Inl x"
  | u u3 p where "check_2 (to_epoch at) c = Inr u" "check_3 (strip k) c w = Inr u3" "check_4 at (strip k) c w = Inr p"
      "check_5 c p w = Inl x"
  | u u3 p a where "check_2 (to_epoch at) c = Inr u" "check_3 (strip k) c w = Inr u3" "check_4 at (strip k) c w = Inr p"
      "check_5 c p w = Inr a" "check_6 env c p = Inl x"
  using assms by (auto simp: verify_run result_simps)


text \<open>
  Nothing in the request body takes part in a decision: with another proposal id and another
  hash in the body, verification gives the same answer, apart from the note that they disagreed.
\<close>

lemma body_is_inert:
  "verify_execution_request env secret
     (rq\<lparr>rq_body_proposal_id := pid, rq_body_payload_hash := h\<rparr>) fresh at w
   = map_sum id (\<lambda>v. v\<lparr>vf_body_disagreed := body_disagrees (vf_claims v) pid h\<rparr>)
       (verify_execution_request env secret rq fresh at w)"
proof -
  have push: "map_sum id f (and_then r g) = and_then r (\<lambda>x. map_sum id f (g x))" for f :: "verified \<Rightarrow> verified" and r :: "exn + 'b" and g
    by (cases r) simp_all
  show ?thesis by (simp add: verify_execution_request_def push)
qed

end
