(* ===== verification/Executor.thy ===== *)
theory Executor
  imports Verify
begin

text \<open>
  \<^verbatim>\<open>gateway/executor.py\<close> and the route of \<^verbatim>\<open>gateway/api.py\<close>. Execution has three moments, each a
  definition of its own because other requests may run between them: the claim (one transaction), the
  delivery (no transaction) and the finish (another transaction). \<open>execute\<close> composes them the way the
  code does, \<open>handle_execute\<close> is the whole request with its error handling.
\<close>

section \<open>The claim\<close>

definition claim_detail :: "verified \<Rightarrow> nat \<Rightarrow> pydict" where
  "claim_detail v execution_id =
     [(''execution_id'', PInt (int execution_id)), (''idempotency_key'', PStr (vf_idempotency_key v)),
      (''action_type'', PStr (cl_action_type (vf_claims v))), (''approver'', PStr (cl_approver (vf_claims v))),
      (''payload_hash'', PStr (cl_payload_hash (vf_claims v))),
      (''checks_passed'', PList (map (\<lambda>c. PStr (ck_name c)) (vf_checks v))),
      (''body_disagreed_with_token'', PBool (vf_body_disagreed v))]"

definition claim_row :: "env \<Rightarrow> verified \<Rightarrow> world \<Rightarrow> execution_row" where
  "claim_row env v w =
     \<lparr>ex_id = next_rowid ex_id (executions w), ex_proposal_id = pr_id (vf_proposal v),
      ex_key = vf_idempotency_key v, ex_result = None, ex_status = ExPending,
      ex_executed_at = now_utc env w, ex_error = None\<rparr>"

definition claim :: "env \<Rightarrow> verified \<Rightarrow> execution_row work" where
  "claim env v w =
     (let e = claim_row env v w;
          n = \<lparr>nc_nonce = cl_nonce (vf_claims v), nc_proposal_id = pr_id (vf_proposal v),
               nc_key = vf_idempotency_key v, nc_consumed_at = now_utc env (tick w)\<rparr>
      in and_then (insert_execution e (tick (tick w))) (\<lambda>w1.
         and_then (insert_nonce n w1) (\<lambda>w2.
         and_then (append_event env Gateway ''action.execution.started'' ''proposal'' (pr_id (vf_proposal v))
             (claim_detail v (ex_id e)) w2) (\<lambda>w3.
         Inr (e, w3)))))"

section \<open>The finish\<close>

definition result_value :: "pydict option \<Rightarrow> pyval" where
  "result_value r = (case r of None \<Rightarrow> PNone | Some d \<Rightarrow> PDict d)"

definition finish :: "env \<Rightarrow> nat \<Rightarrow> string \<Rightarrow> bool \<Rightarrow> pydict \<Rightarrow> string option \<Rightarrow> unit work" where
  "finish env execution_id proposal_id succeeded result err w =
     (if find_execution execution_id w = None then Inl AssertionError
      else if find_proposal proposal_id w = None then Inl AssertionError
      else
        let w1 = update_execution execution_id
              (\<lambda>e. e\<lparr>ex_status := (if succeeded then ExSucceeded else ExFailed), ex_result := Some result,
                      ex_error := err, ex_executed_at := now_utc env w\<rparr>) w;
            w2 = set_proposal_status (if succeeded then Executed else Failed) proposal_id w1
        in and_then (append_event env Gateway
               (if succeeded then ''action.execution.succeeded'' else ''action.execution.failed'')
               ''proposal'' proposal_id
               [(''execution_id'', PInt (int execution_id)), (''result'', PDict result),
                (''error'', str_or_none err)] (tick w2))
             (\<lambda>w3. Inr ((), w3)))"

section \<open>The delivery\<close>

definition letter_meta :: "verified \<Rightarrow> nat \<Rightarrow> pydict" where
  "letter_meta v execution_id =
     [(''proposal_id'', PStr (pr_id (vf_proposal v))), (''invoice_id'', PStr (pr_invoice_id (vf_proposal v))),
      (''tone'', dict_get ''tone'' (pr_payload (vf_proposal v))),
      (''approver'', PStr (cl_approver (vf_claims v))), (''execution_id'', PInt (int execution_id))]"

text \<open>\<^verbatim>\<open>payload["subject"]\<close>: a letter without the field raises; its fields are strings.\<close>

definition payload_text :: "string \<Rightarrow> pydict \<Rightarrow> exn + string" where
  "payload_text k payload =
     (case map_of payload k of
        None \<Rightarrow> Inl (KeyError k)
      | Some (PStr s) \<Rightarrow> Inr s
      | Some _ \<Rightarrow> Inl (TypeError k))"

definition letter :: "verified \<Rightarrow> nat \<Rightarrow> exn + mail" where
  "letter v execution_id =
     and_then (payload_text ''subject'' (pr_payload (vf_proposal v))) (\<lambda>subject.
     and_then (payload_text ''body'' (pr_payload (vf_proposal v))) (\<lambda>body.
     Inr \<lparr>ml_to = pr_customer_email (vf_proposal v), ml_subject = subject, ml_body = body,
          ml_meta = letter_meta v execution_id\<rparr>))"

definition stripe_step :: "io \<Rightarrow> gateway_settings \<Rightarrow> verified \<Rightarrow> world \<Rightarrow> exn + pydict" where
  "stripe_step io s v w =
     (if gs_enable_stripe_invoice_send s
      then send_invoice io (gs_stripe_api_key_write s) (pr_invoice_id (vf_proposal v)) w
      else Inr [(''attempted'', PBool False), (''reason'', PStr ''ENABLE_STRIPE_INVOICE_SEND is off'')])"

text \<open>Steps 3 and 4: the result dict, or the exception that left the \<^verbatim>\<open>try\<close>.\<close>

definition deliver ::
  "env \<Rightarrow> io \<Rightarrow> gateway_settings \<Rightarrow> adapter \<Rightarrow> verified \<Rightarrow> nat \<Rightarrow> world \<Rightarrow> (exn + pydict) \<times> world" where
  "deliver env io s a v execution_id w =
     (case letter v execution_id of
        Inl e \<Rightarrow> (Inl e, w)
      | Inr m \<Rightarrow>
          (case adapter_send env io s a m w of
             (Inl e, w1) \<Rightarrow> (Inl e, w1)
           | (Inr d, w1) \<Rightarrow>
               (case stripe_step io s v w1 of
                  Inl e \<Rightarrow> (Inl e, tick w1)
                | Inr r \<Rightarrow>
                    (Inr [(''email'', PDict (delivery_dict d)), (''stripe_invoice_send'', PDict r)], tick w1))))"

section \<open>Outcomes\<close>

definition execution_failed :: "string \<Rightarrow> string \<Rightarrow> nat \<Rightarrow> pydict \<Rightarrow> exn" where
  "execution_failed message proposal_id execution_id detail =
     ApiError (api_err (code_str ExecutionFailedCode) message 502
       [(''proposal_id'', PStr proposal_id), (''execution_id'', PInt (int execution_id)),
        (''provider'', if detail = [] then PNone else PDict detail)])"

text \<open>What \<open>execute\<close> records and raises for an exception of the delivery.\<close>

fun failure_result :: "exn \<Rightarrow> pydict" where
  "failure_result (DeliveryError m a d) =
     [(''email'', PDict (dict_update [(''adapter'', PStr a), (''accepted'', PBool False)] d))]"
| "failure_result e = [(''error'', PStr (exn_name e))]"

fun failure_raised :: "exn \<Rightarrow> string \<Rightarrow> nat \<Rightarrow> exn" where
  "failure_raised (DeliveryError m a d) proposal_id execution_id =
     execution_failed m proposal_id execution_id
       (dict_update [(''adapter'', PStr a), (''accepted'', PBool False)] d)"
| "failure_raised e proposal_id execution_id =
     execution_failed (''The action failed: '' @ exn_text e) proposal_id execution_id
       [(''error'', PStr (exn_name e))]"

definition result_dict :: "execution_row \<Rightarrow> pydict" where
  "result_dict e = (case ex_result e of None \<Rightarrow> [] | Some d \<Rightarrow> d)"

definition answer_from_the_winner ::
  "verified \<Rightarrow> exn \<Rightarrow> string \<Rightarrow> world \<Rightarrow> exn + execution_row \<times> pydict \<times> bool" where
  "answer_from_the_winner v raised message w =
     (case find_key (vf_idempotency_key v) w of
        Some e \<Rightarrow> Inr (e, result_dict e, True)
      | None \<Rightarrow>
          raise_if (contains ''token_nonces'' message \<or> contains ''nonce'' message)
            (ApiError (api_err (check_code 3)
               ''This approval token has already been used to execute a request.'' 409
               (refusal_extra 3 (map ck_name (take 2 (vf_checks v))) (Some (pr_id (vf_proposal v))) [])))
            (Inl raised))"

section \<open>\<open>execute\<close>\<close>

definition finish_with ::
  "env \<Rightarrow> verified \<Rightarrow> execution_row \<Rightarrow> exn + pydict \<Rightarrow> world \<Rightarrow>
     (exn + execution_row \<times> pydict \<times> bool) \<times> world" where
  "finish_with env v e outcome w =
     (case outcome of
        Inr result \<Rightarrow>
          (case session_scope (finish env (ex_id e) (pr_id (vf_proposal v)) True result None) w of
             (Inl x, w1) \<Rightarrow> (Inl x, w1)
           | (Inr _, w1) \<Rightarrow> (Inr (e, result, False), w1))
      | Inl x \<Rightarrow>
          (case session_scope (finish env (ex_id e) (pr_id (vf_proposal v)) False (failure_result x)
                  (Some (exn_text x))) w of
             (Inl y, w1) \<Rightarrow> (Inl y, w1)
           | (Inr _, w1) \<Rightarrow> (Inl (failure_raised x (pr_id (vf_proposal v)) (ex_id e)), w1)))"

definition replay_answer :: "verified \<Rightarrow> execution_row \<Rightarrow> exn + execution_row \<times> pydict \<times> bool" where
  "replay_answer v e =
     (if ex_status e = ExFailed then
        Inl (execution_failed
          (case ex_error e of None \<Rightarrow> ''The original attempt for this idempotency key failed.''
           | Some m \<Rightarrow> if m = [] then ''The original attempt for this idempotency key failed.'' else m)
          (pr_id (vf_proposal v)) (ex_id e) (result_dict e))
      else Inr (e, result_dict e, True))"

definition execute ::
  "env \<Rightarrow> io \<Rightarrow> gateway_settings \<Rightarrow> adapter \<Rightarrow> verified \<Rightarrow> world \<Rightarrow>
     (exn + execution_row \<times> pydict \<times> bool) \<times> world" where
  "execute env io s a v w =
     (case vf_existing_execution v of
        Some e \<Rightarrow> (replay_answer v e, w)
      | None \<Rightarrow>
          (case session_scope (claim env v) w of
             (Inl (IntegrityError m), w1) \<Rightarrow> (answer_from_the_winner v (IntegrityError m) m w1, w1)
           | (Inl x, w1) \<Rightarrow> (Inl x, w1)
           | (Inr e, w1) \<Rightarrow>
               (case deliver env io s a v (ex_id e) w1 of
                  (outcome, w2) \<Rightarrow> finish_with env v e outcome w2)))"

section \<open>The route\<close>

definition record_refusal :: "env \<Rightarrow> api_error \<Rightarrow> world \<Rightarrow> world" where
  "record_refusal env e w =
     (let subject = (case dict_get ''proposal_id'' (ae_extra e) of PStr s \<Rightarrow> if s = [] then ''unknown'' else s
                     | _ \<Rightarrow> ''unknown'')
      in case append_event env Gateway ''action.refused'' ''proposal'' subject
              (dict_update [(''code'', PStr (ae_code e)), (''message'', PStr (ae_message e))] (ae_extra e)) w of
           Inl _ \<Rightarrow> rolled_back w
         | Inr w' \<Rightarrow> w')"

record response =
  rs_status :: nat
  rs_body :: pyval

definition execute_response :: "verified \<Rightarrow> execution_row \<times> pydict \<times> bool \<Rightarrow> response" where
  "execute_response v answer =
     (case answer of (e, result, replayed) \<Rightarrow>
       \<lparr>rs_status = 200, rs_body = PDict
          [(''status'', PStr (if replayed then ''already_executed'' else ''executed'')),
           (''proposal_id'', PStr (pr_id (vf_proposal v))), (''execution_id'', PInt (int (ex_id e))),
           (''idempotency_key'', PStr (vf_idempotency_key v)), (''idempotent_replay'', PBool replayed),
           (''result'', PDict result), (''checks'', PList (map check_outcome (vf_checks v)))]\<rparr>)"

text \<open>The handler's body: what it returns or raises.\<close>

definition execute_action ::
  "env \<Rightarrow> io \<Rightarrow> gateway_settings \<Rightarrow> request \<Rightarrow> world \<Rightarrow> (exn + response) \<times> world" where
  "execute_action env io s rq w =
     (case require_signing_secret (gs_signing_secret s) of
        Inl e \<Rightarrow> (Inl e, w)
      | Inr secret \<Rightarrow>
          (case verify_execution_request env secret rq (new_uuid env w) (now_utc env w) w of
             Inl e \<Rightarrow> (Inl e, tick w)
           | Inr v \<Rightarrow>
               (case build_adapter s of
                  Inl e \<Rightarrow> (Inl e, tick w)
                | Inr a \<Rightarrow>
                    (case execute env io s a v (tick w) of
                       (Inl e, w1) \<Rightarrow> (Inl e, w1)
                     | (Inr answer, w1) \<Rightarrow> (Inr (execute_response v answer), w1)))))"

text \<open>
  The exception handler turns an \<open>ApiError\<close> into its envelope and audits it; any other exception is
  answered by the framework with a bare 500 and leaves no audit row.
\<close>

definition handle_execute ::
  "env \<Rightarrow> io \<Rightarrow> gateway_settings \<Rightarrow> request \<Rightarrow> world \<Rightarrow> response \<times> world" where
  "handle_execute env io s rq w =
     (case execute_action env io s rq w of
        (Inr r, w1) \<Rightarrow> (r, w1)
      | (Inl (ApiError e), w1) \<Rightarrow>
          (\<lparr>rs_status = ae_status e, rs_body = error_envelope e\<rparr>, record_refusal env e w1)
      | (Inl _, w1) \<Rightarrow> (\<lparr>rs_status = 500, rs_body = PStr ''Internal Server Error''\<rparr>, w1))"

definition describe_checks :: pyval where
  "describe_checks =
     PDict [(''checks'', PList (map (\<lambda>c. PDict
       [(''number'', PInt (int (ck_number c))), (''name'', PStr (ck_name c)),
        (''refusal_code'', str_or_none (map_option code_str (ck_refusal_code c))),
        (''question'', PStr (ck_question c)), (''threat'', PStr (ck_threat c))]) checks))]"

section \<open>Every step keeps the invariants\<close>

context world_invariant
begin

lemma keeps_claim: "claim env v w = Inr (e, w') \<Longrightarrow> P w \<Longrightarrow> P w'"
  by (auto simp: claim_def Let_def result_simps dest!: keeps_rows intro!: keeps_tick)

lemma keeps_finish:
  assumes "finish env i p ok result err w = Inr (x, w')" and "P w"
  shows "P w'"
proof -
  have "P (update_execution i (\<lambda>e. e\<lparr>ex_status := st, ex_result := r, ex_error := err, ex_executed_at := t\<rparr>) w)"
    for st r t using assms(2) by (rule keeps_update_execution) (simp add: execution_update_ok_def)
  with assms(1) show ?thesis
    by (auto simp: finish_def Let_def result_simps split: if_splits
        dest!: keeps_rows intro!: keeps_tick keeps_status)
qed

lemma keeps_deliver: "deliver env io s a v i w = (r, w') \<Longrightarrow> P w \<Longrightarrow> P w'"
  by (auto simp: deliver_def split: sum.splits prod.splits intro!: keeps_tick dest: keeps_adapter_send)

lemma keeps_finish_with:
  assumes "finish_with env v e outcome w = (r, w')" and "P w"
  shows "P w'"
proof -
  have "P (snd (session_scope (finish env i p ok result err) w))" for i p ok result err
    using assms(2) by (rule keeps_scope) (rule keeps_finish [OF _ assms(2)])
  then have "session_scope (finish env i p ok result err) w = (y, w1) \<Longrightarrow> P w1" for i p ok result err y w1
    by (metis snd_conv)
  with assms(1) show ?thesis
    by (auto simp: finish_with_def split: sum.splits prod.splits)
qed

lemma keeps_execute:
  assumes "execute env io s a v w = (r, w')" and "P w"
  shows "P w'"
proof -
  have "P (snd (session_scope (claim env v) w))"
    using assms(2) by (rule keeps_scope) (rule keeps_claim [OF _ assms(2)])
  then have claimed: "session_scope (claim env v) w = (y, w1) \<Longrightarrow> P w1" for y w1 by (metis snd_conv)
  show ?thesis
  proof (cases "vf_existing_execution v")
    case (Some e)
    with assms show ?thesis by (simp add: execute_def)
  next
    case None
    obtain y w1 where scope: "session_scope (claim env v) w = (y, w1)" by (cases "session_scope (claim env v) w")
    show ?thesis
    proof (cases y)
      case (Inl x)
      then show ?thesis using assms(1) None scope claimed [OF scope]
        by (cases x) (auto simp: execute_def)
    next
      case (Inr e)
      obtain outcome w2 where d: "deliver env io s a v (ex_id e) w1 = (outcome, w2)"
        by (cases "deliver env io s a v (ex_id e) w1")
      with assms(1) None scope Inr have "finish_with env v e outcome w2 = (r, w')"
        by (simp add: execute_def)
      then show ?thesis by (rule keeps_finish_with) (rule keeps_deliver [OF d claimed [OF scope]])
    qed
  qed
qed

lemma keeps_execute_action: "execute_action env io s rq w = (r, w') \<Longrightarrow> P w \<Longrightarrow> P w'"
  by (auto simp: execute_action_def split: sum.splits prod.splits intro: keeps_tick keeps_execute)

lemma keeps_record_refusal: "P w \<Longrightarrow> P (record_refusal env e w)"
  by (auto simp: record_refusal_def Let_def rolled_back_def split: sum.split intro: keeps_tick dest: keeps_rows)

lemma keeps_handle: "handle_execute env io s rq w = (r, w') \<Longrightarrow> P w \<Longrightarrow> P w'"
  by (auto simp: handle_execute_def split: sum.splits prod.splits exn.splits
      intro: keeps_record_refusal dest: keeps_execute_action)

end

section \<open>What each moment changes\<close>

lemma claim_Inr:
  assumes "claim env v w = Inr (e, w')"
  shows "e = claim_row env v w" "executions w' = executions w @ [e]"
    "\<exists>n. nonces w' = nonces w @ [n] \<and> nc_nonce n = cl_nonce (vf_claims v) \<and> nc_key n = vf_idempotency_key v
       \<and> nc_proposal_id n = pr_id (vf_proposal v)"
    "cl_nonce (vf_claims v) \<notin> nc_nonce ` set (nonces w)" "vf_idempotency_key v \<notin> ex_key ` set (executions w)"
    "proposals w' = proposals w" "approvals w' = approvals w" "runs w' = runs w" "mails w' = mails w"
    "outbox w' = outbox w"
proof -
  from assms obtain w1 w2 where e: "e = claim_row env v w"
    and 1: "insert_execution e (tick (tick w)) = Inr w1"
    and 2: "insert_nonce \<lparr>nc_nonce = cl_nonce (vf_claims v), nc_proposal_id = pr_id (vf_proposal v),
        nc_key = vf_idempotency_key v, nc_consumed_at = now_utc env (tick w)\<rparr> w1 = Inr w2"
    and 3: "append_event env Gateway ''action.execution.started'' ''proposal'' (pr_id (vf_proposal v))
        (claim_detail v (ex_id e)) w2 = Inr w'"
    by (auto simp: claim_def Let_def result_simps)
  show "e = claim_row env v w" by (rule e)
  have id: "e\<lparr>ex_id := next_rowid ex_id (executions w)\<rparr> = e" "ex_key e = vf_idempotency_key v"
    by (simp_all add: e claim_row_def)
  note frame = append_event_frame [OF 3]
  from 1 2 frame id show "executions w' = executions w @ [e]" "proposals w' = proposals w"
    "approvals w' = approvals w" "runs w' = runs w" "mails w' = mails w" "outbox w' = outbox w"
    "cl_nonce (vf_claims v) \<notin> nc_nonce ` set (nonces w)" "vf_idempotency_key v \<notin> ex_key ` set (executions w)"
    by (auto simp: insert_execution_def insert_nonce_def result_simps tick_def)
  from 1 2 frame show "\<exists>n. nonces w' = nonces w @ [n] \<and> nc_nonce n = cl_nonce (vf_claims v)
      \<and> nc_key n = vf_idempotency_key v \<and> nc_proposal_id n = pr_id (vf_proposal v)"
    by (auto simp: insert_execution_def insert_nonce_def result_simps tick_def)
qed

lemma finish_Inr:
  assumes "finish env i p ok result err w = Inr (x, w')"
  shows "proposals w' = update_by pr_id p (\<lambda>q. q\<lparr>pr_status := (if ok then Executed else Failed)\<rparr>) (proposals w)"
    "\<exists>t. executions w' = update_by ex_id i (\<lambda>e. e\<lparr>ex_status := (if ok then ExSucceeded else ExFailed),
        ex_result := Some result, ex_error := err, ex_executed_at := t\<rparr>) (executions w)"
    "nonces w' = nonces w" "approvals w' = approvals w" "runs w' = runs w" "mails w' = mails w"
    "find_execution i w \<noteq> None" "find_proposal p w \<noteq> None" "outbox w' = outbox w"
  using assms
  by (auto simp: finish_def Let_def result_simps update_execution_def set_proposal_status_def
      update_proposal_def tick_def append_event_frame split: if_splits)

lemma deliver_changes:
  assumes "deliver env io s a v i w = (r, w')"
  shows "proposals w' = proposals w" "approvals w' = approvals w" "executions w' = executions w"
    "nonces w' = nonces w" "events w' = events w" "runs w' = runs w"
    "mails w' = (case letter v i of Inl _ \<Rightarrow> mails w | Inr m \<Rightarrow> mails w @ [m])"
proof -
  have "proposals w' = proposals w \<and> approvals w' = approvals w \<and> executions w' = executions w
    \<and> nonces w' = nonces w \<and> events w' = events w \<and> runs w' = runs w
    \<and> mails w' = (case letter v i of Inl _ \<Rightarrow> mails w | Inr m \<Rightarrow> mails w @ [m])"
  proof (cases "letter v i")
    case (Inl e)
    with assms show ?thesis by (simp add: deliver_def)
  next
    case (Inr m)
    obtain d w1 where send: "adapter_send env io s a m w = (d, w1)" by (cases "adapter_send env io s a m w")
    from assms Inr send have "w' = w1 \<or> w' = tick w1"
      by (auto simp: deliver_def split: sum.splits)
    with adapter_send_frame [OF send] Inr show ?thesis by (auto simp: tick_def)
  qed
  then show "proposals w' = proposals w" "approvals w' = approvals w" "executions w' = executions w"
    "nonces w' = nonces w" "events w' = events w" "runs w' = runs w"
    "mails w' = (case letter v i of Inl _ \<Rightarrow> mails w | Inr m \<Rightarrow> mails w @ [m])" by simp_all
qed

section \<open>When something is sent\<close>

lemma session_scope_cases:
  "session_scope work w = (r, w') \<Longrightarrow>
   (\<exists>e. work w = Inl e \<and> r = Inl e \<and> w' = rolled_back w) \<or> (\<exists>x. work w = Inr (x, w') \<and> r = Inr x)"
  by (auto simp: session_scope_def split: sum.splits)

lemma finish_with_mails: "finish_with env v e outcome w = (r, w') \<Longrightarrow> mails w' = mails w"
  by (auto simp: finish_with_def rolled_back_def tick_def finish_Inr split: sum.splits prod.splits
      dest!: session_scope_cases)

lemma execute_mails:
  assumes "execute env io s a v w = (r, w')" and "mails w' \<noteq> mails w"
  shows "vf_existing_execution v = None \<and> vf_idempotency_key v \<notin> ex_key ` set (executions w)
    \<and> cl_nonce (vf_claims v) \<notin> nc_nonce ` set (nonces w)
    \<and> (\<exists>m. letter v (next_rowid ex_id (executions w)) = Inr m \<and> mails w' = mails w @ [m])"
proof -
  have none: "vf_existing_execution v = None" using assms by (cases "vf_existing_execution v") (auto simp: execute_def)
  obtain y w1 where scope: "session_scope (claim env v) w = (y, w1)" by (cases "session_scope (claim env v) w")
  obtain e where y: "y = Inr e"
    using assms none scope session_scope_cases [OF scope]
    by (cases y) (auto simp: execute_def rolled_back_def tick_def split: exn.splits)
  then have claimed: "claim env v w = Inr (e, w1)" using session_scope_cases [OF scope] by auto
  obtain outcome w2 where d: "deliver env io s a v (ex_id e) w1 = (outcome, w2)"
    by (cases "deliver env io s a v (ex_id e) w1")
  have "finish_with env v e outcome w2 = (r, w')" using assms(1) none scope y d by (simp add: execute_def)
  then have "mails w' = mails w2" by (rule finish_with_mails)
  moreover have "ex_id e = next_rowid ex_id (executions w)"
    using claim_Inr(1) [OF claimed] by (simp add: claim_row_def)
  ultimately show ?thesis
    using deliver_changes(7) [OF d] claim_Inr(4,5,9) [OF claimed] assms(2) none by (auto split: sum.splits)
qed

lemma record_refusal_frame [simp]:
  "mails (record_refusal env e w) = mails w" "proposals (record_refusal env e w) = proposals w"
  "executions (record_refusal env e w) = executions w" "nonces (record_refusal env e w) = nonces w"
  "approvals (record_refusal env e w) = approvals w" "runs (record_refusal env e w) = runs w"
  "outbox (record_refusal env e w) = outbox w" "steps (record_refusal env e w) = steps w"
  by (auto simp: record_refusal_def Let_def rolled_back_def tick_def append_event_frame split: sum.split)

lemma handle_mails:
  assumes "handle_execute env io s rq w = (r, w')" and "mails w' \<noteq> mails w"
  shows "\<exists>v a x w1. verify_execution_request env (gs_signing_secret s) rq (new_uuid env w) (now_utc env w) w = Inr v
    \<and> build_adapter s = Inr a \<and> execute env io s a v (tick w) = (x, w1) \<and> mails w1 = mails w'"
proof -
  obtain y w1 where act: "execute_action env io s rq w = (y, w1)" by (cases "execute_action env io s rq w")
  with assms(1) have same: "mails w1 = mails w'"
    by (auto simp: handle_execute_def split: sum.splits exn.splits)
  from act assms(2) same show ?thesis
    by (auto simp: execute_action_def require_signing_secret_def raise_if_def tick_def split: sum.splits prod.splits if_splits)
qed

lemma send_needs_approval:
  assumes "wf_world w" and "handle_execute env io s rq w = (r, w')" and "mails w' \<noteq> mails w"
  shows "\<exists>c p a m. decode env (new_uuid env w) (rq_token rq) (gs_signing_secret s) = Inr c
    \<and> to_epoch (now_utc env w) < cl_exp c
    \<and> find_proposal (cl_proposal_id c) w = Some p \<and> pr_status p = Approved \<and> now_utc env w < pr_expires_at p
    \<and> latest_approval (pr_id p) w = Some a \<and> ap_actor a = cl_approver c \<and> ap_token_nonce a = Some (cl_nonce c)
    \<and> hash_payload env (PDict (pr_payload p)) = cl_payload_hash c
    \<and> mails w' = mails w @ [m] \<and> ml_to m = pr_customer_email p
    \<and> map_of (pr_payload p) ''subject'' = Some (PStr (ml_subject m))
    \<and> map_of (pr_payload p) ''body'' = Some (PStr (ml_body m))"
proof -
  from handle_mails [OF assms(2,3)] obtain v ad x w1 where
    v: "verify_execution_request env (gs_signing_secret s) rq (new_uuid env w) (now_utc env w) w = Inr v"
    and ex: "execute env io s ad v (tick w) = (x, w1)" and w1: "mails w1 = mails w'" by blast
  have "mails w1 \<noteq> mails (tick w)" using w1 assms(3) by (simp add: tick_def)
  from execute_mails [OF ex this] obtain m where none: "vf_existing_execution v = None"
    and m: "letter v (next_rowid ex_id (executions w)) = Inr m" "mails w' = mails w @ [m]"
    using w1 by (auto simp: tick_def)
  have d: "distinct (map nc_nonce (nonces w))" using assms(1) by (simp add: wf_world_def)
  from v [unfolded verify_Inr [OF d]] obtain k c p a where
    c: "decode env (new_uuid env w) (rq_token rq) (gs_signing_secret s) = Inr c"
    and checks: "\<forall>n \<in> {2..6}. check_passes env (strip k) (now_utc env w) c w n"
    and p: "find_proposal (cl_proposal_id c) w = Some p" and a: "latest_approval (cl_proposal_id c) w = Some a"
    and veq: "vf_claims v = c" "vf_proposal v = p" "vf_existing_execution v = check_7 (strip k) p w"
    by auto
  have "own_execution (strip k) p w = None" using none veq by (auto simp: check_7_def split: option.splits)
  moreover have "pr_id p = cl_proposal_id c" using p by (rule find_proposal_id)
  ultimately show ?thesis
    using c p a checks m veq unfolding check_cases check_passes_def own_execution_None
    by (intro exI [of _ c] exI [of _ p] exI [of _ a] exI [of _ m])
      (auto simp: letter_def payload_text_def result_simps split: option.splits pyval.splits)
qed


text \<open>
  One key, one send: a request whose idempotency key already has an execution, or whose token's
  nonce was already consumed, makes the gateway call no adapter, whatever else it says.
\<close>

theorem used_key_or_nonce_never_sends:
  assumes "handle_execute env io s rq w = (r, w')"
    and "(\<exists>k. rq_key rq = Some k \<and> find_key (strip k) w \<noteq> None)
      \<or> (\<exists>c. decode env (new_uuid env w) (rq_token rq) (gs_signing_secret s) = Inr c
           \<and> find_nonce (cl_nonce c) w \<noteq> None)"
  shows "mails w' = mails w"
proof (rule ccontr)
  assume sent: "mails w' \<noteq> mails w"
  from handle_mails [OF assms(1) this] obtain v ad x w1 where
    v: "verify_execution_request env (gs_signing_secret s) rq (new_uuid env w) (now_utc env w) w = Inr v"
    and ex: "execute env io s ad v (tick w) = (x, w1)" and w1: "mails w1 = mails w'" by blast
  have "mails w1 \<noteq> mails (tick w)" using w1 sent by (simp add: tick_def)
  from execute_mails [OF ex this] have fresh: "vf_idempotency_key v \<notin> ex_key ` set (executions w)"
    "cl_nonce (vf_claims v) \<notin> nc_nonce ` set (nonces w)" by (simp_all add: tick_def)
  from v obtain k where "rq_key rq = Some k" "vf_idempotency_key v = strip k"
    "decode env (new_uuid env w) (rq_token rq) (gs_signing_secret s) = Inr (vf_claims v)"
    by (auto simp: verify_execution_request_def result_simps request_key_iff check_1_iff)
  with fresh assms(2) show False by (auto simp: lookup_by_None)
qed


section \<open>What an execution leaves behind\<close>

lemma find_execution_snoc:
  "ex_id e \<notin> ex_id ` set rows \<Longrightarrow> lookup_by ex_id (ex_id e) (rows @ [e]) = Some e"
  by (simp add: lookup_by_append lookup_by_None split: option.split) (metis image_eqI lookup_by_Some)

lemma execute_fresh:
  assumes "execute env io s a v w = (Inr (e, result, False), w')"
  shows "\<exists>w1 w2 u. claim env v w = Inr (e, w1) \<and> deliver env io s a v (ex_id e) w1 = (Inr result, w2)
    \<and> finish env (ex_id e) (pr_id (vf_proposal v)) True result None w2 = Inr (u, w')"
proof -
  have none: "vf_existing_execution v = None"
    using assms by (cases "vf_existing_execution v") (auto simp: execute_def replay_answer_def split: if_splits)
  obtain y w1 where scope: "session_scope (claim env v) w = (y, w1)" by (cases "session_scope (claim env v) w")
  have "answer_from_the_winner v x m w1 \<noteq> Inr (e, result, False)" for x m
    by (auto simp: answer_from_the_winner_def raise_if_def split: option.splits)
  then obtain f where y: "y = Inr f"
    using assms none scope by (cases y) (auto simp: execute_def split: exn.splits)
  obtain outcome w2 where d: "deliver env io s a v (ex_id f) w1 = (outcome, w2)"
    by (cases "deliver env io s a v (ex_id f) w1")
  have fin: "finish_with env v f outcome w2 = (Inr (e, result, False), w')"
    using assms none scope y d by (simp add: execute_def)
  then obtain u where "outcome = Inr result" "f = e"
    "finish env (ex_id f) (pr_id (vf_proposal v)) True result None w2 = Inr (u, w')"
    by (auto simp: finish_with_def session_scope_def split: sum.splits prod.splits)
  then show ?thesis using session_scope_cases [OF scope] y d by auto
qed

lemma claim_event:
  assumes "claim env v w = Inr (e, w')"
  shows "\<exists>r. events w' = events w @ [r] \<and> au_event r = ''action.execution.started''
    \<and> au_subject_id r = pr_id (vf_proposal v)"
  using assms
  by (auto simp: claim_def Let_def result_simps insert_execution_def insert_nonce_def append_event_Inr tick_def)

lemma finish_event:
  assumes "finish env i p ok result err w = Inr (x, w')"
  shows "\<exists>r. events w' = events w @ [r] \<and> au_subject_id r = p
    \<and> au_event r = (if ok then ''action.execution.succeeded'' else ''action.execution.failed'')"
  using assms
  by (auto simp: finish_def Let_def result_simps append_event_Inr tick_def update_execution_def
      set_proposal_status_def update_proposal_def split: if_splits)

text \<open>
  C18: a fresh execution that is answered with success leaves its execution row succeeded with the
  result it reports, its nonce consumed by its key, the proposal executed, and exactly two audit rows,
  the start and the success, in this order.
\<close>

theorem execution_is_recorded:
  assumes "wf_world w" and "execute env io s a v w = (Inr (e, result, False), w')"
  shows "(\<exists>row. find_execution (ex_id e) w' = Some row \<and> ex_status row = ExSucceeded
        \<and> ex_result row = Some result \<and> ex_key row = vf_idempotency_key v
        \<and> ex_proposal_id row = pr_id (vf_proposal v))
    \<and> (\<exists>p. find_proposal (pr_id (vf_proposal v)) w' = Some p \<and> pr_status p = Executed)
    \<and> (\<exists>n \<in> set (nonces w'). nc_nonce n = cl_nonce (vf_claims v) \<and> nc_key n = vf_idempotency_key v)
    \<and> (\<exists>r1 r2. events w' = events w @ [r1, r2] \<and> au_event r1 = ''action.execution.started''
          \<and> au_event r2 = ''action.execution.succeeded'' \<and> au_subject_id r1 = pr_id (vf_proposal v)
          \<and> au_subject_id r2 = pr_id (vf_proposal v))"
proof -
  from execute_fresh [OF assms(2)] obtain w1 w2 u where c: "claim env v w = Inr (e, w1)"
    and d: "deliver env io s a v (ex_id e) w1 = (Inr result, w2)"
    and f: "finish env (ex_id e) (pr_id (vf_proposal v)) True result None w2 = Inr (u, w')" by blast
  have e: "e = claim_row env v w" by (rule claim_Inr(1) [OF c])
  have "find_execution (ex_id e) w2 = Some e"
    unfolding deliver_changes(3) [OF d] claim_Inr(2) [OF c]
    using next_rowid_fresh [of ex_id "executions w"] by (intro find_execution_snoc) (simp add: e claim_row_def)
  then obtain t where "find_execution (ex_id e) w' = Some (e\<lparr>ex_status := ExSucceeded, ex_result := Some result,
      ex_error := None, ex_executed_at := t\<rparr>)"
    using finish_Inr(2) [OF f] by (auto simp: lookup_update_same)
  moreover obtain p where p: "find_proposal (pr_id (vf_proposal v)) w2 = Some p" using finish_Inr(8) [OF f] by auto
  then have "find_proposal (pr_id (vf_proposal v)) w' = Some (p\<lparr>pr_status := Executed\<rparr>)"
    using finish_Inr(1) [OF f] find_proposal_id [OF p] by (simp add: lookup_update_same)
  moreover have "\<exists>n \<in> set (nonces w'). nc_nonce n = cl_nonce (vf_claims v) \<and> nc_key n = vf_idempotency_key v"
    using finish_Inr(3) [OF f] deliver_changes(4) [OF d] claim_Inr(3) [OF c] by auto
  moreover have "\<exists>r1 r2. events w' = events w @ [r1, r2] \<and> au_event r1 = ''action.execution.started''
      \<and> au_event r2 = ''action.execution.succeeded'' \<and> au_subject_id r1 = pr_id (vf_proposal v)
      \<and> au_subject_id r2 = pr_id (vf_proposal v)"
    using claim_event [OF c] finish_event [OF f] deliver_changes(5) [OF d] by auto
  ultimately show ?thesis by (simp add: e claim_row_def)
qed

text \<open>
  C19: handling any request keeps the database constraints, the audit chain intact and every stored
  payload hash in step with its payload, whatever the outside answers.
\<close>

theorem gateway_keeps_invariants:
  assumes "wf_world w" and "cs_intact (verify_chain env w)" and "hashes_agree env w"
    and "handle_execute env io s rq w = (r, w')"
  shows "wf_world w' \<and> cs_intact (verify_chain env w') \<and> hashes_agree env w'"
  using wf.keeps_handle [OF assms(4)] chain.keeps_handle [OF assms(4)] hashes.keeps_handle [OF assms(4)] assms(1-3)
  by (simp add: chain_intact_def)

end
