(* ===== verification/Approval.thy ===== *)
theory Approval
  imports Executor
begin

text \<open>
  \<^verbatim>\<open>app/approval\<close>, \<^verbatim>\<open>app/services/proposals.py\<close> and \<^verbatim>\<open>app/gateway_client.py\<close>: the one place a human
  decision becomes an action. The database work of each decision is a unit of work of its own; the
  call of the gateway follows its commit. What becomes of an HTTP call is the argument \<open>net\<close>.
\<close>

section \<open>Settings\<close>

record app_settings =
  as_signing_secret :: string
  as_token_ttl_seconds :: int
  as_proposal_ttl_hours :: int
  as_operator_id :: string
  as_gateway_url :: string
  as_max_tool_calls :: nat
  as_max_proposals :: nat
  as_run_timeout_us :: int
  as_enable_unapproved_demo :: bool
  as_anthropic_api_key :: string
  as_model :: string

section \<open>Minting\<close>

definition new_claims ::
  "proposal_row \<Rightarrow> string \<Rightarrow> string \<Rightarrow> string \<Rightarrow> int \<Rightarrow> int \<Rightarrow> claims" where
  "new_claims p payload_hash approver nonce issued_at ttl =
     \<lparr>cl_proposal_id = pr_id p, cl_payload_hash = payload_hash, cl_action_type = pr_action_type p,
      cl_approver = approver, cl_nonce = nonce, cl_iat = issued_at, cl_exp = issued_at + ttl\<rparr>"

definition mint_for_approval ::
  "env \<Rightarrow> proposal_row \<Rightarrow> approval_row \<Rightarrow> string \<Rightarrow> int \<Rightarrow> int \<Rightarrow> exn + string" where
  "mint_for_approval env p a secret ttl_seconds now =
     raise_if (ap_decision a \<noteq> Approve)
       (ValueError ''refusing to mint an approval token for a rejection'')
    (case ap_token_nonce a of
       None \<Rightarrow> Inl (ValueError ''the approval record must carry a nonce before a token is minted'')
     | Some nonce \<Rightarrow>
         raise_if (nonce = [])
           (ValueError ''the approval record must carry a nonce before a token is minted'')
        (let recomputed = hash_payload env (PDict (pr_payload p)) in
         and_then (hashes_equal (Some recomputed) (Some (pr_payload_hash p))) (\<lambda>same.
         raise_if (\<not> same)
           (PayloadHashDrift (''proposals.payload_hash does not match proposals.payload for '' @ pr_id p
              @ ''. Refusing to mint a token that would authorise content the operator did not approve.''))
         (mint env (new_claims p recomputed (ap_actor a) nonce (to_epoch now) ttl_seconds) secret))))"

text \<open>The demonstration token: correctly signed, for any proposal that is not approved.\<close>

definition mint_probe_token ::
  "env \<Rightarrow> proposal_row \<Rightarrow> string \<Rightarrow> string \<Rightarrow> int \<Rightarrow> world \<Rightarrow> exn + string" where
  "mint_probe_token env p actor secret ttl_seconds w =
     raise_if (pr_status p = Approved)
       (ProbeNotPermitted (''The unapproved-send probe must never target an approved proposal: that is the ''
          @ ''one status the gateway will act on. Refusing to mint a token for it.''))
       (mint env (new_claims p (hash_payload env (PDict (pr_payload p))) actor (new_uuid env w)
          (to_epoch (now_utc env w)) ttl_seconds) secret)"

section \<open>The gateway client\<close>

text \<open>
  An HTTP call is answered, or fails before the gateway saw it, or fails after it (a timeout while the
  gateway was acting); the client cannot tell the last two apart.
\<close>

datatype transport = Answered | NeverArrived string | AnswerLost string

record gateway_outcome =
  go_http_status :: nat
  go_body :: pydict
  go_idempotency_key :: string
  go_transport_error :: "string option"

definition go_executed :: "gateway_outcome \<Rightarrow> bool" where
  "go_executed g = (go_http_status g = 200 \<and> (go_transport_error g = None \<or> go_transport_error g = Some []))"

definition go_error :: "gateway_outcome \<Rightarrow> pydict" where
  "go_error g = items_of (dict_get ''error'' (go_body g))"

definition go_error_code :: "gateway_outcome \<Rightarrow> pyval" where
  "go_error_code g =
     (case go_transport_error g of
        Some (_ # _) \<Rightarrow> PStr ''gateway_unreachable''
      | _ \<Rightarrow> if go_executed g then PNone else dict_get ''code'' (go_error g))"

definition go_error_message :: "gateway_outcome \<Rightarrow> pyval" where
  "go_error_message g =
     (case go_transport_error g of
        Some (c # cs) \<Rightarrow> PStr (c # cs) | _ \<Rightarrow> dict_get ''message'' (go_error g))"

definition go_failed_check :: "gateway_outcome \<Rightarrow> pyval" where
  "go_failed_check g = dict_get ''failed_check'' (go_error g)"

definition go_checks :: "gateway_outcome \<Rightarrow> pyval list" where
  "go_checks g = elems_of (dict_get ''checks'' (go_body g))"

definition go_checks_passed :: "gateway_outcome \<Rightarrow> pyval list" where
  "go_checks_passed g =
     (if go_executed g then map (\<lambda>c. dict_get ''name'' (items_of c)) (go_checks g)
      else elems_of (dict_get ''checks_passed'' (go_error g)))"

definition gateway_outcome_dict :: "gateway_outcome \<Rightarrow> pydict" where
  "gateway_outcome_dict g =
     [(''executed'', PBool (go_executed g)), (''http_status'', PInt (int (go_http_status g))),
      (''idempotency_key'', PStr (go_idempotency_key g)), (''error_code'', go_error_code g),
      (''error_message'', go_error_message g), (''failed_check'', go_failed_check g),
      (''checks_passed'', PList (go_checks_passed g)), (''checks'', PList (go_checks g)),
      (''gateway_response'', PDict (go_body g))]"

definition response_dict :: "response \<Rightarrow> pydict" where
  "response_dict r =
     (case rs_body r of
        PDict d \<Rightarrow> d
      | PStr text \<Rightarrow> [(''error'', PDict [(''code'', PStr ''unreadable_response''), (''message'', PStr (py_take 500 text))])]
      | _ \<Rightarrow> [])"

text \<open>\<^verbatim>\<open>base_url.rstrip("/")\<close>.\<close>

definition base_url :: "string \<Rightarrow> string" where
  "base_url url = rev (dropWhile (\<lambda>c. c = CHR ''/'') (rev url))"

definition unreachable :: "string \<Rightarrow> string \<Rightarrow> string \<Rightarrow> gateway_outcome" where
  "unreachable url key name =
     \<lparr>go_http_status = 0, go_body = [], go_idempotency_key = key,
      go_transport_error = Some (''The action gateway at '' @ base_url url @ '' could not be reached ('' @ name
        @ ''). Nothing was sent.'')\<rparr>"

definition client_execute ::
  "env \<Rightarrow> io \<Rightarrow> gateway_settings \<Rightarrow> (nat \<Rightarrow> transport) \<Rightarrow> string \<Rightarrow> string \<Rightarrow> string \<Rightarrow> string \<Rightarrow> world \<Rightarrow>
     gateway_outcome \<times> world" where
  "client_execute env io gs net url token proposal_id payload_hash w =
     (let key = new_uuid env w;
          rq = \<lparr>rq_token = Some token, rq_key = Some key, rq_body_proposal_id = Some proposal_id,
                rq_body_payload_hash = Some payload_hash\<rparr>;
          handled = handle_execute env io gs rq (tick w)
      in case net (ticks w) of
           NeverArrived name \<Rightarrow> (unreachable url key name, tick w)
         | AnswerLost name \<Rightarrow> (unreachable url key name, snd handled)
         | Answered \<Rightarrow>
             (\<lparr>go_http_status = rs_status (fst handled), go_body = response_dict (fst handled),
               go_idempotency_key = key, go_transport_error = None\<rparr>, snd handled))"

section \<open>Decisions\<close>

record decision_result =
  dc_proposal_id :: string
  dc_status :: string
  dc_decision :: string
  dc_outcome :: "gateway_outcome option"

definition decision_dict :: "decision_result \<Rightarrow> pydict" where
  "decision_dict d =
     [(''proposal_id'', PStr (dc_proposal_id d)), (''decision'', PStr (dc_decision d)),
      (''status'', PStr (dc_status d))]
     @ (case dc_outcome d of None \<Rightarrow> [] | Some g \<Rightarrow> [(''gateway'', PDict (gateway_outcome_dict g))])"

definition not_found :: "string \<Rightarrow> exn" where
  "not_found proposal_id =
     ApiError (api_err (code_str ProposalNotFoundCode) (''No proposal '' @ proposal_id @ ''.'') 404
       [(''proposal_id'', PStr proposal_id)])"

definition not_pending :: "string \<Rightarrow> string \<Rightarrow> string \<Rightarrow> exn" where
  "not_pending message proposal_id status =
     ApiError (api_err (code_str ProposalNotPendingCode) message 409
       [(''proposal_id'', PStr proposal_id), (''proposal_status'', PStr status)])"

definition load_pending :: "env \<Rightarrow> string \<Rightarrow> proposal_row work" where
  "load_pending env proposal_id w =
     (case find_proposal proposal_id w of
        None \<Rightarrow> Inl (not_found proposal_id)
      | Some p \<Rightarrow>
          raise_if (pr_status p \<noteq> Pending)
            (not_pending (''Proposal is in status '' @ [CHR 0x27] @ proposal_status_str (pr_status p)
               @ [CHR 0x27] @ '' and can no longer be decided.'') proposal_id
               (proposal_status_str (pr_status p)))
         (raise_if (pr_expires_at p \<le> now_utc env w)
            (not_pending ''Proposal has expired. Stale approvals are worse than no approvals.'' proposal_id ''expired'')
            (Inr (p, tick w))))"

text \<open>A new body: the payload, its hash, and the row that carries them.\<close>

definition edited_payload :: "string \<Rightarrow> proposal_row \<Rightarrow> pydict" where
  "edited_payload body p = dict_set ''body'' (PStr body) (pr_payload p)"

definition with_body :: "env \<Rightarrow> string \<Rightarrow> proposal_row \<Rightarrow> proposal_row" where
  "with_body env body p =
     p\<lparr>pr_payload := edited_payload body p, pr_payload_hash := hash_payload env (PDict (edited_payload body p))\<rparr>"

definition edit_note :: string where
  "edit_note =
     ''The letter was saved and its hash recomputed. Any approval token minted ''
     @ ''before this edit can no longer execute.''"

definition save_edit :: "env \<Rightarrow> string \<Rightarrow> string \<Rightarrow> string \<Rightarrow> pydict work" where
  "save_edit env proposal_id body actor w =
     and_then (expire_stale_proposals env w) (\<lambda>(_, w1).
     and_then (load_pending env proposal_id w1) (\<lambda>(p, w2).
     let previous = pr_payload_hash p;
         current = pr_payload_hash (with_body env body p);
         w3 = update_proposal proposal_id (with_body env body) w2
     in and_then (append_event env Operator ''proposal.edited'' ''proposal'' proposal_id
            [(''actor'', PStr actor), (''previous_payload_hash'', PStr previous),
             (''payload_hash'', PStr current)] w3) (\<lambda>w4.
        Inr ([(''proposal_id'', PStr proposal_id), (''payload_hash'', PStr current),
              (''previous_payload_hash'', PStr previous), (''note'', PStr edit_note)], w4))))"

definition reject_work :: "env \<Rightarrow> string \<Rightarrow> string \<Rightarrow> string \<Rightarrow> decision_result work" where
  "reject_work env proposal_id actor note w =
     and_then (expire_stale_proposals env w) (\<lambda>(_, w1).
     and_then (load_pending env proposal_id w1) (\<lambda>(p, w2).
     and_then (insert_approval \<lparr>ap_id = 0, ap_proposal_id = proposal_id, ap_decision = Reject,
            ap_actor = actor, ap_note = Some note, ap_edited_body = None,
            ap_decided_at = now_utc env w2, ap_token_nonce = None\<rparr> (tick w2)) (\<lambda>w3.
     and_then (append_event env Operator ''approval.rejected'' ''proposal'' proposal_id
            [(''actor'', PStr actor), (''note'', PStr note)]
            (set_proposal_status Rejected proposal_id w3)) (\<lambda>w4.
     and_then (settle_run_if_decided env (pr_run_id p) w4) (\<lambda>(_, w5).
     Inr (\<lparr>dc_proposal_id = proposal_id, dc_status = ''rejected'', dc_decision = ''reject'',
           dc_outcome = None\<rparr>, w5))))))"

definition reject :: "env \<Rightarrow> string \<Rightarrow> string \<Rightarrow> string \<Rightarrow> world \<Rightarrow> (exn + decision_result) \<times> world" where
  "reject env proposal_id actor note w =
     (if strip note = [] then
        (Inl (ApiError (api_err (code_str ValidationFailedCode)
           ''A note is required when rejecting a proposal.'' 422 [(''proposal_id'', PStr proposal_id)])), w)
      else session_scope (reject_work env proposal_id actor note) w)"

text \<open>The edit at approval time, when the operator changed the body.\<close>

definition approval_edit :: "env \<Rightarrow> string \<Rightarrow> string \<Rightarrow> string option \<Rightarrow> proposal_row \<Rightarrow> world \<Rightarrow> exn + world" where
  "approval_edit env proposal_id actor edited_body p w =
     (case edited_body of
        None \<Rightarrow> Inr w
      | Some body \<Rightarrow>
          if PStr body = dict_get ''body'' (pr_payload p) then Inr w
          else append_event env Operator ''proposal.edited'' ''proposal'' proposal_id
                 [(''actor'', PStr actor), (''previous_payload_hash'', PStr (pr_payload_hash p)),
                  (''payload_hash'', PStr (pr_payload_hash (with_body env body p))),
                  (''reason'', PStr ''edited at approval time'')]
                 (update_proposal proposal_id (with_body env body) w))"

definition current_proposal :: "env \<Rightarrow> string option \<Rightarrow> proposal_row \<Rightarrow> proposal_row" where
  "current_proposal env edited_body p =
     (case edited_body of
        None \<Rightarrow> p
      | Some body \<Rightarrow> if PStr body = dict_get ''body'' (pr_payload p) then p else with_body env body p)"

definition new_approval ::
  "env \<Rightarrow> string \<Rightarrow> string \<Rightarrow> string option \<Rightarrow> string option \<Rightarrow> world \<Rightarrow> approval_row" where
  "new_approval env proposal_id actor note edited_body w =
     \<lparr>ap_id = next_rowid ap_id (approvals w), ap_proposal_id = proposal_id, ap_decision = Approve,
      ap_actor = actor, ap_note = note, ap_edited_body = edited_body, ap_decided_at = now_utc env w,
      ap_token_nonce = Some (new_uuid env w)\<rparr>"

text \<open>Everything of an approval that is durable before the network call: the token and the hash.\<close>

definition approve_work ::
  "env \<Rightarrow> app_settings \<Rightarrow> string \<Rightarrow> string \<Rightarrow> string \<Rightarrow> string option \<Rightarrow> string option \<Rightarrow>
     (string \<times> string) work" where
  "approve_work env s secret proposal_id actor note edited_body w =
     and_then (expire_stale_proposals env w) (\<lambda>(_, w1).
     and_then (load_pending env proposal_id w1) (\<lambda>(p, w2).
     and_then (approval_edit env proposal_id actor edited_body p w2) (\<lambda>w3.
     let q = current_proposal env edited_body p;
         a = new_approval env proposal_id actor note edited_body w3
     in and_then (insert_approval a (tick (set_proposal_status Approved proposal_id w3))) (\<lambda>w4.
        and_then (append_event env Operator ''approval.granted'' ''proposal'' proposal_id
            [(''actor'', PStr actor), (''note'', str_or_none note),
             (''edited'', PBool (edited_body \<noteq> None)), (''payload_hash'', PStr (pr_payload_hash q))] w4) (\<lambda>w5.
        and_then (mint_for_approval env q a secret (as_token_ttl_seconds s) (now_utc env w5)) (\<lambda>token.
        and_then (append_event env Operator ''approval.token.minted'' ''proposal'' proposal_id
            [(''approver'', PStr actor), (''nonce'', str_or_none (ap_token_nonce a)),
             (''expires_in_seconds'', PInt (as_token_ttl_seconds s))] (tick w5)) (\<lambda>w6.
        Inr ((token, pr_payload_hash q), w6))))))))"

definition status_of :: "string \<Rightarrow> world \<Rightarrow> string" where
  "status_of proposal_id w =
     (case find_proposal proposal_id w of None \<Rightarrow> ''unknown'' | Some p \<Rightarrow> proposal_status_str (pr_status p))"

definition approve ::
  "env \<Rightarrow> io \<Rightarrow> gateway_settings \<Rightarrow> (nat \<Rightarrow> transport) \<Rightarrow> app_settings \<Rightarrow> string \<Rightarrow> string \<Rightarrow>
     string option \<Rightarrow> string option \<Rightarrow> world \<Rightarrow> (exn + decision_result) \<times> world" where
  "approve env io gs net s proposal_id actor note edited_body w =
     (case require_signing_secret (as_signing_secret s) of
        Inl e \<Rightarrow> (Inl e, w)
      | Inr secret \<Rightarrow>
          (case session_scope (approve_work env s secret proposal_id actor note edited_body) w of
             (Inl e, w1) \<Rightarrow> (Inl e, w1)
           | (Inr (token, payload_hash), w1) \<Rightarrow>
               (case client_execute env io gs net (as_gateway_url s) token proposal_id payload_hash w1 of
                  (outcome, w2) \<Rightarrow>
                    (Inr \<lparr>dc_proposal_id = proposal_id, dc_status = status_of proposal_id w2,
                          dc_decision = ''approve'', dc_outcome = Some outcome\<rparr>, w2))))"

definition attempt_unapproved ::
  "env \<Rightarrow> io \<Rightarrow> gateway_settings \<Rightarrow> (nat \<Rightarrow> transport) \<Rightarrow> app_settings \<Rightarrow> string \<Rightarrow> string \<Rightarrow> world \<Rightarrow>
     (exn + decision_result) \<times> world" where
  "attempt_unapproved env io gs net s proposal_id actor w =
     (if \<not> as_enable_unapproved_demo s then
        (Inl (ApiError (api_err (code_str ValidationFailedCode)
           ''The unapproved-send demonstration is disabled (ENABLE_UNAPPROVED_ATTEMPT_DEMO=false).'' 403 [])), w)
      else case require_signing_secret (as_signing_secret s) of
        Inl e \<Rightarrow> (Inl e, w)
      | Inr secret \<Rightarrow>
          (case find_proposal proposal_id w of
             None \<Rightarrow> (Inl (not_found proposal_id), w)
           | Some p \<Rightarrow>
               (case mint_probe_token env p actor secret 300 w of
                  Inl e \<Rightarrow> (Inl e, tick w)
                | Inr token \<Rightarrow>
                    (case client_execute env io gs net (as_gateway_url s) token proposal_id
                        (pr_payload_hash p) (tick w) of
                       (outcome, w2) \<Rightarrow>
                         (Inr \<lparr>dc_proposal_id = proposal_id, dc_status = status_of proposal_id w2,
                               dc_decision = ''attempt_unapproved'', dc_outcome = Some outcome\<rparr>, w2)))))"

section \<open>Every decision keeps the invariants\<close>

lemma with_body_ok: "proposal_update_ok env (with_body env body)"
  by (simp add: proposal_update_ok_def with_body_def hash_ok_def)

context table_invariant
begin

lemma keeps_load_pending: "load_pending env i w = Inr (p, w') \<Longrightarrow> P w \<Longrightarrow> P w'"
  by (auto simp: load_pending_def result_simps split: option.splits intro: keeps_tick)

lemma keeps_edit: "P w \<Longrightarrow> P (update_proposal i (with_body env body) w)"
  by (rule keeps_update_proposal [OF _ with_body_ok])

lemma keeps_save_edit: "save_edit env i body actor w = Inr (x, w') \<Longrightarrow> P w \<Longrightarrow> P w'"
  by (auto simp: save_edit_def Let_def result_simps dest!: keeps_back keeps_load_pending keeps_expire
      intro!: keeps_edit)

lemma keeps_approval_edit: "approval_edit env i actor b p w = Inr w' \<Longrightarrow> P w \<Longrightarrow> P w'"
  by (auto simp: approval_edit_def split: option.splits if_splits dest!: keeps_back intro!: keeps_edit)

end

context world_invariant
begin

lemma keeps_reject_work: "reject_work env i actor note w = Inr (x, w') \<Longrightarrow> P w \<Longrightarrow> P w'"
  by (auto simp: reject_work_def Let_def result_simps
      dest!: keeps_settle_run keeps_rows keeps_load_pending keeps_expire intro!: keeps_status keeps_tick)

lemma keeps_approve_work: "approve_work env s secret i actor note b w = Inr (x, w') \<Longrightarrow> P w \<Longrightarrow> P w'"
  by (auto simp: approve_work_def Let_def result_simps
      dest!: keeps_rows keeps_approval_edit keeps_load_pending keeps_expire intro!: keeps_status keeps_tick)

lemma keeps_session:
  assumes "session_scope work w = (r, w')" and "P w" and "\<And>x v. work w = Inr (x, v) \<Longrightarrow> P w \<Longrightarrow> P v"
  shows "P w'"
proof -
  have "P (snd (session_scope work w))" using assms(2) by (rule keeps_scope) (rule assms(3) [OF _ assms(2)])
  then show ?thesis using assms(1) by simp
qed

lemma keeps_client:
  assumes "client_execute env io gs net url token i h w = (g, w')" and "P w"
  shows "P w'"
proof -
  have "P (snd (handle_execute env io gs rq (tick w)))" for rq
    using keeps_handle [OF _ keeps_tick [OF assms(2)]] by (metis prod.collapse)
  then show ?thesis using assms
    by (auto simp: client_execute_def Let_def split: transport.splits intro: keeps_tick)
qed

lemma keeps_approve:
  assumes "approve env io gs net s i actor note b w = (r, w')" and "P w"
  shows "P w'"
proof (cases "require_signing_secret (as_signing_secret s)")
  case (Inl e)
  with assms show ?thesis by (simp add: approve_def)
next
  case (Inr secret)
  obtain y w1 where scope: "session_scope (approve_work env s secret i actor note b) w = (y, w1)"
    by (cases "session_scope (approve_work env s secret i actor note b) w")
  have "P w1" using scope assms(2) by (rule keeps_session) (rule keeps_approve_work)
  with assms(1) Inr scope show ?thesis
    by (cases y) (auto simp: approve_def split: prod.splits dest: keeps_client)
qed

lemma keeps_reject:
  assumes "reject env i actor note w = (r, w')" and "P w"
  shows "P w'"
proof (cases "strip note = []")
  case True
  with assms show ?thesis by (simp add: reject_def)
next
  case False
  with assms(1) have "session_scope (reject_work env i actor note) w = (r, w')" by (simp add: reject_def)
  then show ?thesis using assms(2) by (rule keeps_session) (rule keeps_reject_work)
qed

lemma keeps_attempt_step: "attempt_unapproved env io gs net s i actor w = (r, w') \<Longrightarrow> P w \<Longrightarrow> P w'"
  by (auto simp: attempt_unapproved_def split: if_splits sum.splits option.splits prod.splits
      intro: keeps_tick dest: keeps_client)

lemma keeps_decisions:
  assumes "w' \<in> {snd (session_scope (save_edit env i body actor) w), snd (reject env i actor note w),
               snd (approve env io gs net s i actor n b w), snd (attempt_unapproved env io gs net s i actor w)}"
    and "P w"
  shows "P w'"
proof -
  have "P (snd (session_scope (save_edit env i body actor) w))"
    using assms(2) by (rule keeps_scope) (rule keeps_save_edit [OF _ assms(2)])
  moreover have "P (snd (reject env i actor note w))"
    using keeps_reject [of i actor "note" w] assms(2) by (metis prod.collapse)
  moreover have "P (snd (approve env io gs net s i actor n b w))"
    using keeps_approve [of io gs net s i actor n b w] assms(2) by (metis prod.collapse)
  moreover have "P (snd (attempt_unapproved env io gs net s i actor w))"
    using keeps_attempt_step [of io gs net s i actor w] assms(2) by (metis prod.collapse)
  ultimately show ?thesis using assms(1) by blast
qed

end

section \<open>What an approval leaves behind\<close>

lemma each_frame:
  assumes "each f xs w = Inr (ys, w')" and "\<And>x y v v'. f x v = Inr (y, v') \<Longrightarrow> g v' = g v"
  shows "g w' = g w"
  using assms(1)
proof (induction xs arbitrary: w ys)
  case Nil
  then show ?case by simp
next
  case (Cons x xs)
  then obtain y w1 zs where "f x w = Inr (y, w1)" "each f xs w1 = Inr (zs, w')" by (auto simp: result_simps)
  then show ?case using Cons.IH assms(2) by metis
qed

lemma expire_frame:
  assumes "expire_stale_proposals env w = Inr (n, w')"
  shows "approvals w' = approvals w" "executions w' = executions w" "nonces w' = nonces w"
    "mails w' = mails w" "runs w' = runs w" "outbox w' = outbox w"
proof -
  from assms obtain ys where e: "each (expire_one env) (filter (stale (now_utc env w)) (proposals w)) (tick w) = Inr (ys, w')"
    by (auto simp: expire_stale_proposals_def Let_def result_simps)
  have one: "expire_one env p v = Inr (y, v') \<Longrightarrow> approvals v' = approvals v \<and> executions v' = executions v
      \<and> nonces v' = nonces v \<and> mails v' = mails v \<and> runs v' = runs v \<and> outbox v' = outbox v" for p y v v'
    by (auto simp: expire_one_def result_simps set_proposal_status_def update_proposal_def append_event_frame)
  have "approvals w' = approvals (tick w)" by (rule each_frame [OF e]) (simp add: one)
  moreover have "executions w' = executions (tick w)" by (rule each_frame [OF e]) (simp add: one)
  moreover have "nonces w' = nonces (tick w)" by (rule each_frame [OF e]) (simp add: one)
  moreover have "mails w' = mails (tick w)" by (rule each_frame [OF e]) (simp add: one)
  moreover have "runs w' = runs (tick w)" by (rule each_frame [OF e]) (simp add: one)
  moreover have "outbox w' = outbox (tick w)" by (rule each_frame [OF e]) (simp add: one)
  ultimately show "approvals w' = approvals w" "executions w' = executions w" "nonces w' = nonces w"
    "mails w' = mails w" "runs w' = runs w" "outbox w' = outbox w" by (simp_all add: tick_def)
qed

lemma load_pending_Inr:
  "load_pending env i w = Inr (p, w') \<longleftrightarrow>
   find_proposal i w = Some p \<and> pr_status p = Pending \<and> now_utc env w < pr_expires_at p \<and> w' = tick w"
  by (auto simp: load_pending_def result_simps split: option.splits)

lemma current_proposal_sel [simp]:
  "pr_id (current_proposal env b p) = pr_id p" "pr_expires_at (current_proposal env b p) = pr_expires_at p"
  "pr_action_type (current_proposal env b p) = pr_action_type p"
  "pr_customer_email (current_proposal env b p) = pr_customer_email p"
  by (auto simp: current_proposal_def with_body_def split: option.splits)

lemma approval_edit_Inr:
  assumes "approval_edit env i actor b p w = Inr w'" and "find_proposal i w = Some p"
  shows "find_proposal i w' = Some (current_proposal env b p)" "approvals w' = approvals w"
    "executions w' = executions w" "nonces w' = nonces w" "mails w' = mails w"
proof -
  have id: "pr_id p = i" using assms(2) by (rule find_proposal_id)
  have "find_proposal i (update_proposal i (with_body env body) w) = Some (with_body env body p)" for body
    using assms(2) id by (simp add: update_proposal_def lookup_update_same with_body_def)
  with assms show "find_proposal i w' = Some (current_proposal env b p)" "approvals w' = approvals w"
    "executions w' = executions w" "nonces w' = nonces w" "mails w' = mails w"
    by (auto simp: approval_edit_def current_proposal_def append_event_frame update_proposal_def
        split: option.splits if_splits)
qed

lemma next_rowid_gt: "r \<in> set rows \<Longrightarrow> key r < next_rowid key rows"
proof -
  assume r: "r \<in> set rows"
  then obtain m where m: "last_by key rows = Some m" by (cases "last_by key rows") auto
  with r last_by_Some [OF m] show ?thesis by (auto simp: next_rowid_def)
qed

lemma mint_for_approval_Inr:
  assumes "mint_for_approval env p a secret ttl now = Inr token"
  shows "\<exists>nonce. ap_decision a = Approve \<and> ap_token_nonce a = Some nonce \<and> hash_ok env p
    \<and> mint env (new_claims p (pr_payload_hash p) (ap_actor a) nonce (to_epoch now) ttl) secret = Inr token"
  using assms
  by (auto simp: mint_for_approval_def result_simps Let_def hash_ok_def split: option.splits dest!: hashes_equal_TrueD)

lemma approve_work_steps:
  assumes "approve_work env s secret i actor note b w = Inr ((token, h), w')"
  obtains n w1 p w2 w3 w4 w5 where
    "expire_stale_proposals env w = Inr (n, w1)"
    and "load_pending env i w1 = Inr (p, w2)"
    and "approval_edit env i actor b p w2 = Inr w3"
    and "insert_approval (new_approval env i actor note b w3) (tick (set_proposal_status Approved i w3)) = Inr w4"
    and "append_event env Operator ''approval.granted'' ''proposal'' i
        [(''actor'', PStr actor), (''note'', str_or_none note), (''edited'', PBool (b \<noteq> None)),
         (''payload_hash'', PStr (pr_payload_hash (current_proposal env b p)))] w4 = Inr w5"
    and "mint_for_approval env (current_proposal env b p) (new_approval env i actor note b w3) secret
        (as_token_ttl_seconds s) (now_utc env w5) = Inr token"
    and "append_event env Operator ''approval.token.minted'' ''proposal'' i
        [(''approver'', PStr actor), (''nonce'', str_or_none (ap_token_nonce (new_approval env i actor note b w3))),
         (''expires_in_seconds'', PInt (as_token_ttl_seconds s))] (tick w5) = Inr w'"
    and "h = pr_payload_hash (current_proposal env b p)"
  using assms unfolding approve_work_def by (auto simp: result_simps Let_def)

lemma approve_work_Inr:
  assumes "approve_work env s secret i actor note b w = Inr ((token, h), w')"
  shows "\<exists>p q nonce t.
    find_proposal i w' = Some (q\<lparr>pr_status := Approved\<rparr>) \<and> q = current_proposal env b p
    \<and> pr_status p = Pending \<and> pr_id p = i \<and> h = pr_payload_hash q \<and> hash_ok env q
    \<and> (\<exists>a. latest_approval i w' = Some a \<and> ap_actor a = actor \<and> ap_token_nonce a = Some nonce
          \<and> ap_note a = note \<and> ap_edited_body a = b)
    \<and> mint env (new_claims q h actor nonce (to_epoch t) (as_token_ttl_seconds s)) secret = Inr token
    \<and> (\<exists>n. nonce = uuid_at env n) \<and> executions w' = executions w \<and> nonces w' = nonces w \<and> mails w' = mails w"
proof -
  from approve_work_steps [OF assms] obtain n w1 p w2 w3 w4 w5 where
    1: "expire_stale_proposals env w = Inr (n, w1)" and 2: "load_pending env i w1 = Inr (p, w2)"
    and 3: "approval_edit env i actor b p w2 = Inr w3"
    and 4: "insert_approval (new_approval env i actor note b w3) (tick (set_proposal_status Approved i w3)) = Inr w4"
    and 5: "append_event env Operator ''approval.granted'' ''proposal'' i
        [(''actor'', PStr actor), (''note'', str_or_none note), (''edited'', PBool (b \<noteq> None)),
         (''payload_hash'', PStr (pr_payload_hash (current_proposal env b p)))] w4 = Inr w5"
    and 6: "mint_for_approval env (current_proposal env b p) (new_approval env i actor note b w3) secret
        (as_token_ttl_seconds s) (now_utc env w5) = Inr token"
    and 7: "append_event env Operator ''approval.token.minted'' ''proposal'' i
        [(''approver'', PStr actor), (''nonce'', str_or_none (ap_token_nonce (new_approval env i actor note b w3))),
         (''expires_in_seconds'', PInt (as_token_ttl_seconds s))] (tick w5) = Inr w'"
    and h: "h = pr_payload_hash (current_proposal env b p)" .
  let ?q = "current_proposal env b p" and ?a = "new_approval env i actor note b w3"
  from 2 have p: "find_proposal i w1 = Some p" "pr_status p = Pending" "w2 = tick w1" by (simp_all add: load_pending_Inr)
  then have id: "pr_id p = i" using find_proposal_id by blast
  have p2: "find_proposal i w2 = Some p" using p by (simp add: tick_def)
  note e = approval_edit_Inr [OF 3 p2]
  have "find_proposal i (set_proposal_status Approved i w3) = Some (?q\<lparr>pr_status := Approved\<rparr>)"
    using e(1) id by (simp add: set_proposal_status_def update_proposal_def lookup_update_same)
  moreover have w4: "proposals w4 = proposals (set_proposal_status Approved i w3)" "approvals w4 = approvals w3 @ [?a]"
    "executions w4 = executions w3" "nonces w4 = nonces w3" "mails w4 = mails w3"
    using 4 by (auto simp: insert_approval_def result_simps tick_def set_proposal_status_def update_proposal_def new_approval_def)
  ultimately have "find_proposal i w' = Some (?q\<lparr>pr_status := Approved\<rparr>)"
    using append_event_frame(3) [OF 5] append_event_frame(3) [OF 7] by (simp add: tick_def)
  moreover have "approvals w' = approvals w3 @ [?a]"
    using append_event_frame(4) [OF 5] append_event_frame(4) [OF 7] w4 by (simp add: tick_def)
  then have "latest_approval i w' = Some ?a"
    using next_rowid_gt [of _ "approvals w3" ap_id]
    by (auto simp: latest_approval_def new_approval_def intro!: last_by_snoc)
  moreover have "executions w' = executions w" "nonces w' = nonces w" "mails w' = mails w"
    using append_event_frame [OF 5] append_event_frame [OF 7] w4 e p expire_frame [OF 1] by (simp_all add: tick_def)
  moreover from mint_for_approval_Inr [OF 6] obtain nonce where
    "ap_token_nonce ?a = Some nonce" "hash_ok env ?q"
    "mint env (new_claims ?q (pr_payload_hash ?q) actor nonce (to_epoch (now_utc env w5)) (as_token_ttl_seconds s)) secret = Inr token"
    by (auto simp: new_approval_def)
  moreover have "ap_actor ?a = actor \<and> ap_note ?a = note \<and> ap_edited_body ?a = b
      \<and> (ap_token_nonce ?a = Some nonce \<longrightarrow> (\<exists>n. nonce = uuid_at env n))"
    by (auto simp: new_approval_def new_uuid_def)
  ultimately show ?thesis using p(2) id h
    by (intro exI [of _ p] exI [of _ ?q] exI [of _ nonce] exI [of _ "now_utc env w5"]) auto
qed

section \<open>An approval can be acted on, and only that approval\<close>

definition uuids_ok :: "env \<Rightarrow> world \<Rightarrow> bool" where
  "uuids_ok env w = (\<forall>n. is_ascii (uuid_at env n) \<and> (\<forall>r \<in> set (nonces w). nc_nonce r \<noteq> uuid_at env n))"

lemma own_execution_fresh: "find_key key w = None \<Longrightarrow> own_execution key p w = None"
  by (auto simp: own_execution_None lookup_by_None)

lemma approval_verifies:
  assumes "wf_world w" and "ints_accepted env" and "digests_nonempty env" and "uuids_ok env w"
    and "is_ascii i" and "is_ascii actor"
    and "approve_work env s secret i actor note b w = Inr ((token, h), w')"
    and "rq_token rq = Some token" and "rq_key rq = Some k" and "strip k \<noteq> []" and "find_key (strip k) w' = None"
  shows "\<exists>c p. decode env fresh (Some token) secret = Inr c \<and> cl_proposal_id c = i \<and> cl_approver c = actor
    \<and> cl_exp c = cl_iat c + as_token_ttl_seconds s
    \<and> find_proposal i w' = Some p \<and> cl_payload_hash c = hash_payload env (PDict (pr_payload p))
    \<and> (\<forall>body. b = Some body \<longrightarrow> dict_get ''body'' (pr_payload p) = PStr body)
    \<and> (\<forall>at. to_epoch at < cl_exp c \<longrightarrow> at < pr_expires_at p \<longrightarrow>
          (\<exists>v. verify_execution_request env secret rq fresh at w' = Inr v \<and> vf_existing_execution v = None))"
proof -
  from approve_work_Inr [OF assms(7)] obtain p q nonce t a where
    found: "find_proposal i w' = Some (q\<lparr>pr_status := Approved\<rparr>)" and q: "q = current_proposal env b p"
    and h: "h = pr_payload_hash q" "hash_ok env q" and pid: "pr_id p = i"
    and a: "latest_approval i w' = Some a" "ap_actor a = actor" "ap_token_nonce a = Some nonce"
    and m: "mint env (new_claims q h actor nonce (to_epoch t) (as_token_ttl_seconds s)) secret = Inr token"
    and nonce: "\<exists>n. nonce = uuid_at env n"
    and frame: "executions w' = executions w" "nonces w' = nonces w" by blast
  let ?c = "new_claims q h actor nonce (to_epoch t) (as_token_ttl_seconds s)"
  let ?p = "q\<lparr>pr_status := Approved\<rparr>"
  have wf: "wf_world w'" using assms(7,1) by (rule wf.keeps_approve_work)
  have "pr_action_type ?p \<in> set action_types"
    using wf found by (auto simp: wf_world_def dest!: lookup_by_Some)
  then have "claims_ascii ?c"
    using assms(4-6) nonce pid h q
    by (auto simp: claims_ascii_def new_claims_def uuids_ok_def hash_ok_def action_types_def)
  then have dec: "decode env fresh (Some token) secret = Inr ?c"
    using assms(2,3) m by (intro mint_then_decode)
  have d: "distinct (map nc_nonce (nonces w'))" using wf by (simp add: wf_world_def)
  have ok: "\<exists>v. verify_execution_request env secret rq fresh at w' = Inr v \<and> vf_existing_execution v = None"
    if at: "to_epoch at < cl_exp ?c" "at < pr_expires_at ?p" for at
  proof -
    have "\<forall>n \<in> {2..6}. check_passes env (strip k) at ?c w' n"
      unfolding check_cases check_passes_def using at found a frame nonce assms(4) h pid q
      by (auto simp: new_claims_def uuids_ok_def hash_ok_def)
    moreover have "find_proposal (cl_proposal_id ?c) w' = Some ?p" "latest_approval (cl_proposal_id ?c) w' = Some a"
      using found a pid q by (simp_all add: new_claims_def)
    moreover have "check_7 (strip k) ?p w' = None"
      using assms(11) by (simp add: check_7_def own_execution_fresh)
    ultimately show ?thesis using assms(8-10) dec by (subst verify_Inr [OF d]) auto
  qed
  have "dict_get ''body'' (pr_payload ?p) = PStr body" if "b = Some body" for body
    using q that by (auto simp: current_proposal_def with_body_def edited_payload_def)
  then show ?thesis using dec found h ok pid q
    by (intro exI [of _ ?c] exI [of _ ?p]) (auto simp: new_claims_def hash_ok_def)
qed

text \<open>
  C15: the token of an approval names the proposal, the operator and the hash of the letter as it was
  approved, edits included; and while neither token nor proposal has expired, a request with it and a
  new key passes all seven checks on the database the approval committed.
\<close>

theorem approval_authorises_sending:
  assumes "wf_world w" and "ints_accepted env" and "digests_nonempty env" and "uuids_ok env w"
    and "is_ascii i" and "is_ascii actor"
    and "approve_work env s secret i actor note b w = Inr ((token, h), w')"
    and "rq_token rq = Some token" and "rq_key rq = Some k" and "strip k \<noteq> []" and "find_key (strip k) w' = None"
  shows "\<exists>c p. decode env fresh (Some token) secret = Inr c \<and> cl_proposal_id c = i \<and> cl_approver c = actor
    \<and> cl_exp c = cl_iat c + as_token_ttl_seconds s
    \<and> find_proposal i w' = Some p \<and> cl_payload_hash c = hash_payload env (PDict (pr_payload p))
    \<and> (\<forall>body. b = Some body \<longrightarrow> dict_get ''body'' (pr_payload p) = PStr body)
    \<and> (\<forall>at. to_epoch at < cl_exp c \<longrightarrow> at < pr_expires_at p \<longrightarrow>
          (\<exists>v. verify_execution_request env secret rq fresh at w' = Inr v \<and> vf_existing_execution v = None))"
  using assms by (rule approval_verifies)

lemma expire_keeps_decided:
  assumes "expire_stale_proposals env w = Inr (n, w')" and "find_proposal i w = Some p" and "pr_status p \<noteq> Pending"
  shows "\<exists>q. find_proposal i w' = Some q \<and> pr_status q \<noteq> Pending"
proof -
  have one: "\<exists>q. find_proposal i v' = Some q \<and> pr_status q \<noteq> Pending"
    if "expire_one env r v = Inr (y, v')" and "\<exists>q. find_proposal i v = Some q \<and> pr_status q \<noteq> Pending" for r v y v'
  proof -
    from that(2) obtain q where q: "find_proposal i v = Some q" "pr_status q \<noteq> Pending" by blast
    have props: "proposals v' = update_by pr_id (pr_id r) (\<lambda>p. p\<lparr>pr_status := Expired\<rparr>) (proposals v)"
      using that(1) by (auto simp: expire_one_def result_simps set_proposal_status_def update_proposal_def append_event_frame)
    show ?thesis
    proof (cases "i = pr_id r")
      case True
      then show ?thesis using props q find_proposal_id [OF q(1)] by (auto simp: lookup_update_same)
    next
      case False
      then show ?thesis using props q by (auto simp: lookup_update_other)
    qed
  qed
  have loop: "each (expire_one env) xs v = Inr (ys, v') \<Longrightarrow> (\<exists>q. find_proposal i v = Some q \<and> pr_status q \<noteq> Pending) \<Longrightarrow>
      \<exists>q. find_proposal i v' = Some q \<and> pr_status q \<noteq> Pending" for xs v ys v'
    by (induction xs arbitrary: v ys) (auto simp: result_simps dest!: one)
  from assms show ?thesis
    by (auto simp: expire_stale_proposals_def Let_def result_simps tick_def dest!: loop)
qed

lemma no_decision_twice:
  assumes "find_proposal i w = Some p" and "pr_status p \<noteq> Pending"
  shows "and_then (expire_stale_proposals env w) (\<lambda>(n, w1). and_then (load_pending env i w1) (f n w1)) \<noteq> Inr x"
  using expire_keeps_decided [OF _ assms] by (fastforce simp: result_simps load_pending_Inr)

text \<open>
  A decided proposal stays decided: on a proposal that is not pending, an edit, a rejection and an
  approval all raise, and the database is as it was.
\<close>

theorem decided_is_final:
  assumes "find_proposal i w = Some p" and "pr_status p \<noteq> Pending"
  shows "\<exists>e1 e2 e3.
    session_scope (save_edit env i body actor) w = (Inl e1, rolled_back w)
    \<and> session_scope (reject_work env i actor note) w = (Inl e2, rolled_back w)
    \<and> session_scope (approve_work env s secret i actor n b) w = (Inl e3, rolled_back w)"
proof -
  have fails: "\<exists>e. session_scope work w = (Inl e, rolled_back w)" if "\<And>x. work w \<noteq> Inr x" for work :: "'z work"
    using that by (cases "work w") (auto simp: session_scope_def)
  note twice = no_decision_twice [OF assms, unfolded case_prod_unfold]
  have "save_edit env i body actor w \<noteq> Inr x" for x
    unfolding save_edit_def case_prod_unfold by (rule twice)
  moreover have "reject_work env i actor note w \<noteq> Inr x" for x
    unfolding reject_work_def case_prod_unfold by (rule twice)
  moreover have "approve_work env s secret i actor n b w \<noteq> Inr x" for x
    unfolding approve_work_def case_prod_unfold by (rule twice)
  ultimately show ?thesis
    using fails [of "save_edit env i body actor"] fails [of "reject_work env i actor note"]
      fails [of "approve_work env s secret i actor n b"] by blast
qed

lemma save_edit_Inr:
  assumes "save_edit env i body actor w = Inr (x, w')"
  shows "\<exists>p. find_proposal i w' = Some (with_body env body p) \<and> pr_id p = i \<and> pr_status p = Pending
    \<and> (\<exists>n w1. expire_stale_proposals env w = Inr (n, w1) \<and> find_proposal i w1 = Some p)"
proof -
  from assms obtain n w1 p w2 where
    1: "expire_stale_proposals env w = Inr (n, w1)" and 2: "load_pending env i w1 = Inr (p, w2)"
    and w': "proposals w' = proposals (update_proposal i (with_body env body) w2)"
    unfolding save_edit_def by (auto simp: result_simps Let_def append_event_frame)
  from 2 have p: "find_proposal i w1 = Some p" "pr_status p = Pending" "w2 = tick w1" by (simp_all add: load_pending_Inr)
  moreover have id: "pr_id p = i" using p(1) by (rule find_proposal_id)
  ultimately have "find_proposal i w' = Some (with_body env body p)"
    by (simp add: w' update_proposal_def tick_def lookup_update_same with_body_def)
  with p id 1 show ?thesis by blast
qed

lemma expire_keeps_payload:
  assumes "expire_stale_proposals env w = Inr (n, w')" and "find_proposal i w' = Some q"
  shows "\<exists>p. find_proposal i w = Some p \<and> pr_payload q = pr_payload p \<and> pr_payload_hash q = pr_payload_hash p"
proof -
  have one: "\<exists>p. find_proposal i v = Some p \<and> pr_payload q = pr_payload p \<and> pr_payload_hash q = pr_payload_hash p"
    if "expire_one env r v = Inr (y, v')" and "find_proposal i v' = Some q" for r v y v' q
  proof -
    have props: "proposals v' = update_by pr_id (pr_id r) (\<lambda>p. p\<lparr>pr_status := Expired\<rparr>) (proposals v)"
      using that(1) by (auto simp: expire_one_def result_simps set_proposal_status_def update_proposal_def append_event_frame)
    show ?thesis
    proof (cases "find_proposal i v")
      case None
      then have "find_proposal i v' = None"
        by (simp add: props lookup_by_None update_by_image)
      with that(2) show ?thesis by simp
    next
      case (Some p)
      then have "pr_id p = i" by (rule find_proposal_id)
      with Some that(2) props show ?thesis
        by (cases "i = pr_id r") (auto simp: lookup_update_same lookup_update_other)
    qed
  qed
  have loop: "each (expire_one env) xs v = Inr (ys, v') \<Longrightarrow> find_proposal i v' = Some q \<Longrightarrow>
      \<exists>p. find_proposal i v = Some p \<and> pr_payload q = pr_payload p \<and> pr_payload_hash q = pr_payload_hash p" for xs v ys v' q
  proof (induction xs arbitrary: v ys)
    case Nil
    then show ?case by simp
  next
    case (Cons r xs)
    then obtain y v1 zs where "expire_one env r v = Inr (y, v1)" "each (expire_one env) xs v1 = Inr (zs, v')"
      by (auto simp: result_simps)
    with Cons.IH [of v1 zs] Cons.prems(2) one [of r v y v1] show ?case by fastforce
  qed
  from assms show ?thesis
    by (auto simp: expire_stale_proposals_def Let_def result_simps tick_def dest!: loop)
qed

text \<open>
  C16: an edit that changes the letter makes every token minted for the old letter fail check 6, or
  the two letters are a concrete SHA-256 collision.
\<close>

theorem edit_voids_old_tokens:
  assumes "save_edit env i body actor w = Inr (x, w')" and "find_proposal i w = Some p" and "hash_ok env p"
    and "wf_pyval (PDict (pr_payload p))" and "dict_get ''body'' (pr_payload p) \<noteq> PStr body"
    and "cl_proposal_id c = i" and "cl_payload_hash c = pr_payload_hash p"
  shows "\<not> check_passes env key at c w' 6
    \<or> collide env (PDict (edited_payload body p)) (PDict (pr_payload p))"
proof -
  from save_edit_Inr [OF assms(1)] obtain q n w1 where q: "find_proposal i w' = Some (with_body env body q)"
    "expire_stale_proposals env w = Inr (n, w1)" "find_proposal i w1 = Some q" by blast
  from expire_keeps_payload [OF q(2,3)] assms(2) have "pr_payload q = pr_payload p" by auto
  then have payload: "pr_payload (with_body env body q) = edited_payload body p" by (simp add: with_body_def edited_payload_def)
  have wf: "wf_pyval (PDict (edited_payload body p))"
    unfolding edited_payload_def using assms(4) by (rule wf_dict_set) simp
  have "\<not> same_value (PDict (edited_payload body p)) (PDict (pr_payload p))"
  proof
    assume same: "same_value (PDict (edited_payload body p)) (PDict (pr_payload p))"
    have "map_option sort_keys (map_of (edited_payload body p) ''body'')
        = map_option sort_keys (map_of (pr_payload p) ''body'')"
      using same map_of_sort_keys [of "edited_payload body p"] map_of_sort_keys [of "pr_payload p"] wf assms(4)
      unfolding same_value_def by (metis wf_pyval.simps(2))
    then have "map_option sort_keys (map_of (pr_payload p) ''body'') = Some (PStr body)"
      by (simp add: edited_payload_def map_of_dict_set)
    then obtain v where "map_of (pr_payload p) ''body'' = Some v" "sort_keys v = PStr body" by auto
    then have "dict_get ''body'' (pr_payload p) = PStr body" by (cases v) (simp_all add: dict_get_def)
    with assms(5) show False by simp
  qed
  with hash_commits [OF wf assms(4), of env]
  have "hash_payload env (PDict (edited_payload body p)) \<noteq> hash_payload env (PDict (pr_payload p))
      \<or> collide env (PDict (edited_payload body p)) (PDict (pr_payload p))" by blast
  then show ?thesis using q payload assms(3,6,7) by (auto simp: check_passes_def hash_ok_def)
qed

lemma not_approved_never_sends:
  assumes "wf_world w" and "handle_execute env io gs rq w = (r, w')"
    and "decode env (new_uuid env w) (rq_token rq) (gs_signing_secret gs) = Inr c"
    and "find_proposal (cl_proposal_id c) w = Some p" and "pr_status p \<noteq> Approved"
  shows "mails w' = mails w"
proof (rule ccontr)
  assume "mails w' \<noteq> mails w"
  from send_needs_approval [OF assms(1,2) this] assms(3-5) show False by auto
qed

text \<open>
  The demonstration never sends: \<open>attempt_unapproved\<close> calls no adapter, whatever the status of the
  proposal, because a token is only minted for one the gateway will refuse.
\<close>

theorem demonstration_never_sends:
  assumes "wf_world w" and "ints_accepted env" and "digests_nonempty env"
    and "\<forall>n. is_ascii (uuid_at env n)" and "is_ascii i" and "is_ascii actor"
    and "gs_signing_secret gs = as_signing_secret s"
    and "attempt_unapproved env io gs net s i actor w = (r, w')"
  shows "mails w' = mails w"
proof (cases "find_proposal i w")
  case None
  with assms(8) show ?thesis by (auto simp: attempt_unapproved_def split: if_splits sum.splits)
next
  case (Some p)
  show ?thesis
  proof (cases "\<exists>token. mint_probe_token env p actor (as_signing_secret s) 300 w = Inr token")
    case False
    then show ?thesis using assms(8) Some
      by (auto simp: attempt_unapproved_def require_signing_secret_def raise_if_def tick_def
          split: if_splits sum.splits)
  next
    case True
    then obtain token where token: "mint_probe_token env p actor (as_signing_secret s) 300 w = Inr token" by blast
    let ?c = "new_claims p (hash_payload env (PDict (pr_payload p))) actor (new_uuid env w) (to_epoch (now_utc env w)) 300"
    from token have status: "pr_status p \<noteq> Approved" and m: "mint env ?c (as_signing_secret s) = Inr token"
      by (simp_all add: mint_probe_token_def result_simps)
    have id: "pr_id p = i" using Some by (rule find_proposal_id)
    have "p \<in> set (proposals w)" using Some by (auto dest: lookup_by_Some)
    then have "claims_ascii ?c" using assms(1,4-6) id
      by (auto simp: claims_ascii_def new_claims_def new_uuid_def wf_world_def action_types_def)
    then have dec: "decode env fresh (Some token) (as_signing_secret s) = Inr ?c" for fresh
      using assms(2,3) m by (intro mint_then_decode)
    have quiet: "mails (snd (handle_execute env io gs rq (tick (tick w)))) = mails w" if "rq_token rq = Some token" for rq
    proof -
      obtain r1 w1 where h: "handle_execute env io gs rq (tick (tick w)) = (r1, w1)"
        by (cases "handle_execute env io gs rq (tick (tick w))")
      have "mails w1 = mails (tick (tick w))"
        using assms(1) Some status dec that assms(7) id
        by (intro not_approved_never_sends [OF _ h, where c = ?c and p = p]) (simp_all add: tick_def new_claims_def, simp_all add: wf_world_def)
      then show ?thesis using h by (simp add: tick_def)
    qed
    have net: "client_execute env io gs net url token i h (tick w) = (g, v) \<Longrightarrow> mails v = mails w" for url h g v
      using quiet by (auto simp: client_execute_def Let_def tick_def split: transport.splits)
    show ?thesis using assms(8) Some token
      by (auto simp: attempt_unapproved_def require_signing_secret_def raise_if_def split: if_splits sum.splits prod.splits dest!: net)
  qed
qed

text \<open>
  An answer lost on its way back is reported as a gateway that could not be reached and the
  words "Nothing was sent.", although the gateway handled the request and whatever it did stands.
\<close>

theorem lost_answer_is_misreported:
  assumes "net (ticks w) = AnswerLost name"
  shows "\<exists>rq url'. rq_token rq = Some token
    \<and> go_transport_error (fst (client_execute env io gs net url token i h w))
        = Some (url' @ '' could not be reached ('' @ name @ ''). Nothing was sent.'')
    \<and> snd (client_execute env io gs net url token i h w) = snd (handle_execute env io gs rq (tick w))"
  using assms
  by (intro exI [of _ "\<lparr>rq_token = Some token, rq_key = Some (new_uuid env w), rq_body_proposal_id = Some i,
        rq_body_payload_hash = Some h\<rparr>"] exI [of _ "''The action gateway at '' @ base_url url"])
    (simp add: client_execute_def Let_def unreachable_def)

text \<open>
  every decision keeps the database constraints, the audit chain intact and every payload hash in
  step with its payload: saving an edit, rejecting, approving and the demonstration.
\<close>

theorem decisions_keep_invariants:
  assumes "wf_world w" and "cs_intact (verify_chain env w)" and "hashes_agree env w"
    and "w' \<in> {snd (session_scope (save_edit env i body actor) w), snd (reject env i actor note w),
               snd (approve env io gs net s i actor n b w), snd (attempt_unapproved env io gs net s i actor w)}"
  shows "wf_world w' \<and> cs_intact (verify_chain env w') \<and> hashes_agree env w'"
  using wf.keeps_decisions [OF assms(4,1)] chain.keeps_decisions [OF assms(4)] hashes.keeps_decisions [OF assms(4,3)] assms(2)
  by (simp add: chain_intact_def)

end
