(* ===== verification/Boundary.thy ===== *)
theory Boundary
  imports Approval
begin

text \<open>
  The whole system under interleaving: any number of execute requests in flight in the gateway, each
  at one of its moments (verified on a snapshot, claimed, delivered), the agent's and the operator's
  units of work in between, and processes that die between any two moments. Safety is proved by
  induction over the steps: whatever the interleaving, every mail stems from an approve record of its
  proposal, and no proposal is mailed twice.
\<close>

section \<open>Steps\<close>

datatype phase =
    Verified verified adapter
  | Claimed verified adapter execution_row
  | Delivered verified execution_row "exn + pydict"

text \<open>\<open>sent\<close> logs which request, under which execution, made each call of an adapter.\<close>

record system =
  sy_world :: world
  sy_flight :: "phase list"
  sy_sent :: "(verified \<times> nat) list"

text \<open>One unit of work of the agent service, committed.\<close>

inductive app_step :: "env \<Rightarrow> app_settings \<Rightarrow> world \<Rightarrow> world \<Rightarrow> bool" for env s where
  run_created: "create_run env goal operator params w = Inr (i, w') \<Longrightarrow> app_step env s w w'"
| status_set: "set_status env i status err w = Inr (u, w') \<Longrightarrow> app_step env s w w'"
| step_appended: "append_step env i kind tool payload w = Inr (n, w') \<Longrightarrow> app_step env s w w'"
| proposed: "create_proposal env i payload rationale invoice email amount currency days ttl w = Inr (p, w') \<Longrightarrow>
    app_step env s w w'"
| edited: "save_edit env i body actor w = Inr (d, w') \<Longrightarrow> app_step env s w w'"
| rejected: "reject_work env i actor remark w = Inr (d, w') \<Longrightarrow> app_step env s w w'"
| approved: "approve_work env s secret i actor remark body w = Inr (t, w') \<Longrightarrow> app_step env s w w'"
| expired: "expire_stale_proposals env w = Inr (n, w') \<Longrightarrow> app_step env s w w'"
| settled: "settle_decided_runs env w = Inr (n, w') \<Longrightarrow> app_step env s w w'"
| abandoned: "abandon_orphaned_runs env reason w = Inr (ids, w') \<Longrightarrow> app_step env s w w'"
| time_passed: "app_step env s w (tick w)"

inductive step ::
  "env \<Rightarrow> io \<Rightarrow> gateway_settings \<Rightarrow> app_settings \<Rightarrow> system \<Rightarrow> system \<Rightarrow> bool" for env io gs s where
  app: "app_step env s w w' \<Longrightarrow>
    step env io gs s \<lparr>sy_world = w, sy_flight = f, sy_sent = l\<rparr> \<lparr>sy_world = w', sy_flight = f, sy_sent = l\<rparr>"
| arrive: "verify_execution_request env (gs_signing_secret gs) rq (new_uuid env w) (now_utc env w) w = Inr v \<Longrightarrow>
    build_adapter gs = Inr a \<Longrightarrow> vf_existing_execution v = None \<Longrightarrow>
    step env io gs s \<lparr>sy_world = w, sy_flight = f, sy_sent = l\<rparr>
      \<lparr>sy_world = tick w, sy_flight = f @ [Verified v a], sy_sent = l\<rparr>"
| refuse: "step env io gs s \<lparr>sy_world = w, sy_flight = f, sy_sent = l\<rparr>
      \<lparr>sy_world = record_refusal env e w, sy_flight = f, sy_sent = l\<rparr>"
| claim: "session_scope (claim env v) w = (Inr e, w') \<Longrightarrow>
    step env io gs s \<lparr>sy_world = w, sy_flight = f @ Verified v a # g, sy_sent = l\<rparr>
      \<lparr>sy_world = w', sy_flight = f @ Claimed v a e # g, sy_sent = l\<rparr>"
| claim_lost: "session_scope (claim env v) w = (Inl x, w') \<Longrightarrow>
    step env io gs s \<lparr>sy_world = w, sy_flight = f @ Verified v a # g, sy_sent = l\<rparr>
      \<lparr>sy_world = w', sy_flight = f @ g, sy_sent = l\<rparr>"
| deliver: "deliver env io gs a v (ex_id e) w = (outcome, w') \<Longrightarrow>
    step env io gs s \<lparr>sy_world = w, sy_flight = f @ Claimed v a e # g, sy_sent = l\<rparr>
      \<lparr>sy_world = w', sy_flight = f @ Delivered v e outcome # g,
       sy_sent = (case letter v (ex_id e) of Inl _ \<Rightarrow> l | Inr _ \<Rightarrow> l @ [(v, ex_id e)])\<rparr>"
| finish: "finish_with env v e outcome w = (r, w') \<Longrightarrow>
    step env io gs s \<lparr>sy_world = w, sy_flight = f @ Delivered v e outcome # g, sy_sent = l\<rparr>
      \<lparr>sy_world = w', sy_flight = f @ g, sy_sent = l\<rparr>"
| crash: "step env io gs s \<lparr>sy_world = w, sy_flight = f @ p # g, sy_sent = l\<rparr>
      \<lparr>sy_world = w, sy_flight = f @ g, sy_sent = l\<rparr>"

inductive_cases stepE: "step env io gs s x y"

definition initial :: system where
  "initial = \<lparr>sy_world = empty_world, sy_flight = [], sy_sent = []\<rparr>"

inductive reachable ::
  "env \<Rightarrow> io \<Rightarrow> gateway_settings \<Rightarrow> app_settings \<Rightarrow> system \<Rightarrow> bool" for env io gs s where
  start: "reachable env io gs s initial"
| more: "reachable env io gs s x \<Longrightarrow> step env io gs s x y \<Longrightarrow> reachable env io gs s y"

section \<open>Quiet changes\<close>

text \<open>
  A quiet change decides nothing and executes nothing: no approval, execution, nonce or mail is
  added, and only new proposals may have become pending.
\<close>

definition quiet :: "world \<Rightarrow> world \<Rightarrow> bool" where
  "quiet w w' \<longleftrightarrow>
     approvals w' = approvals w \<and> executions w' = executions w \<and> nonces w' = nonces w \<and> mails w' = mails w
     \<and> pr_id ` set (proposals w) \<subseteq> pr_id ` set (proposals w')
     \<and> (\<forall>p \<in> set (proposals w'). pr_status p = Pending \<longrightarrow>
          pr_id p \<notin> pr_id ` set (proposals w)
          \<or> (\<exists>q \<in> set (proposals w). pr_id q = pr_id p \<and> pr_status q = Pending))"

lemma quiet_refl [simp]: "quiet w w"
  by (auto simp: quiet_def)

interpretation quiet: table_invariant env "quiet w0" for env w0
proof unfold_locales
  show "quiet w0 (tick w)" if "quiet w0 w" for w
    using that by (simp add: quiet_def tick_def)
  show "quiet w0 w'" if "quiet w0 w" "append_event env a e st si d w = Inr w'" for w w' a e st si d
    using that(1) append_event_frame [OF that(2)] by (simp add: quiet_def)
  show "quiet w0 w'" if "quiet w0 w" "insert_run r w = Inr w'" for w w' r
    using that by (auto simp: quiet_def insert_run_def result_simps)
  show "quiet w0 w'" if "quiet w0 w" "insert_step t w = Inr w'" for w w' t
    using that by (clarsimp simp: insert_step_def result_simps) (simp add: quiet_def)
  show "quiet w0 w'" if "quiet w0 w" "hash_ok env p" "insert_proposal p w = Inr w'" for w w' p
  proof -
    have fresh: "pr_id p \<notin> pr_id ` set (proposals w)" and w': "w' = w\<lparr>proposals := proposals w @ [p]\<rparr>"
      using that(3) by (auto simp: insert_proposal_def result_simps)
    have "pr_id p \<notin> pr_id ` set (proposals w0)" using that(1) fresh unfolding quiet_def by blast
    then show ?thesis using that(1) unfolding quiet_def w' by simp blast
  qed
  show "quiet w0 (update_run i g w)" if "quiet w0 w" for w i g
    using that by (simp add: quiet_def update_run_def)
  show "quiet w0 (update_proposal i h w)" if q: "quiet w0 w" and h: "proposal_update_ok env h" for w i h
  proof -
    have ids: "pr_id ` set (update_by pr_id i h (proposals w)) = pr_id ` set (proposals w)"
      using h by (intro update_by_image) (simp add: proposal_update_ok_def)
    have "\<exists>q \<in> set (proposals w). pr_id q = pr_id p \<and> pr_status q = Pending"
      if "p \<in> set (update_by pr_id i h (proposals w))" "pr_status p = Pending" for p
      using update_by_mem [OF that(1)] that(2) h by (auto simp: proposal_update_ok_def)
    then have "pr_id p \<notin> pr_id ` set (proposals w0)
        \<or> (\<exists>q \<in> set (proposals w0). pr_id q = pr_id p \<and> pr_status q = Pending)"
      if "p \<in> set (update_by pr_id i h (proposals w))" "pr_status p = Pending" for p
      using q that unfolding quiet_def by metis
    then show ?thesis using q unfolding quiet_def by (simp add: update_proposal_def ids)
  qed
qed

text \<open>What holds of the approvals: a pending proposal has no approve record, and no proposal has two.\<close>

definition approvals_ok :: "world \<Rightarrow> bool" where
  "approvals_ok w \<longleftrightarrow>
     distinct (map ap_proposal_id (filter (\<lambda>a. ap_decision a = Approve) (approvals w)))
     \<and> (\<forall>a \<in> set (approvals w). ap_decision a = Approve \<longrightarrow>
          (\<forall>p \<in> set (proposals w). pr_id p = ap_proposal_id a \<longrightarrow> pr_status p \<noteq> Pending))"

lemma approvals_ok_quiet:
  assumes "approvals_ok w" "wf_world w" "quiet w w'"
  shows "approvals_ok w'"
proof -
  have "pr_status p \<noteq> Pending" if a: "a \<in> set (approvals w)" "ap_decision a = Approve"
    and p: "p \<in> set (proposals w')" "pr_id p = ap_proposal_id a" for a p
  proof
    assume pending: "pr_status p = Pending"
    have "pr_id p \<in> pr_id ` set (proposals w)" using assms(2) a(1) p(2) by (auto simp: wf_world_def)
    then obtain q where "q \<in> set (proposals w)" "pr_id q = pr_id p" "pr_status q = Pending"
      using assms(3) p(1) pending by (auto simp: quiet_def)
    with assms(1) a p(2) show False by (auto simp: approvals_ok_def)
  qed
  then show ?thesis using assms(1,3) by (auto simp: approvals_ok_def quiet_def)
qed

lemma quiet_status: "quiet w0 w \<Longrightarrow> s \<noteq> Pending \<Longrightarrow> quiet w0 (set_proposal_status s i w)"
  by (rule quiet.keeps_status)

text \<open>A rejection or an approval: quiet, one approval of a proposal that is no longer pending, quiet.\<close>

definition decides :: "decision \<Rightarrow> world \<Rightarrow> world \<Rightarrow> bool" where
  "decides d w w' \<longleftrightarrow>
     (\<exists>w1 w2 a. quiet w w1 \<and> (wf_world w \<longrightarrow> wf_world w1) \<and> insert_approval a w1 = Inr w2 \<and> ap_decision a = d \<and> quiet w2 w'
        \<and> (d = Approve \<longrightarrow>
             (\<exists>p. find_proposal (ap_proposal_id a) w1 = Some p \<and> pr_status p = Approved)
             \<and> (\<exists>v p. quiet w v \<and> find_proposal (ap_proposal_id a) v = Some p \<and> pr_status p = Pending)))"

lemma reject_decides:
  assumes "reject_work env i actor remark w = Inr (x, w')"
  shows "decides Reject w w'"
proof -
  from assms obtain n w1 p w2 w3 w4 b where
    1: "expire_stale_proposals env w = Inr (n, w1)" and 2: "load_pending env i w1 = Inr (p, w2)"
    and 3: "insert_approval \<lparr>ap_id = 0, ap_proposal_id = i, ap_decision = Reject, ap_actor = actor,
        ap_note = Some remark, ap_edited_body = None, ap_decided_at = now_utc env w2, ap_token_nonce = None\<rparr>
        (tick w2) = Inr w3"
    and 4: "append_event env Operator ''approval.rejected'' ''proposal'' i
        [(''actor'', PStr actor), (''note'', PStr remark)] (set_proposal_status Rejected i w3) = Inr w4"
    and 5: "settle_run_if_decided env (pr_run_id p) w4 = Inr (b, w')"
    by (auto simp: reject_work_def result_simps)
  have "quiet w (tick w2)"
    using quiet.keeps_load_pending [OF 2 quiet.keeps_expire [OF 1 quiet_refl]] by (rule quiet.keeps_tick)
  moreover have "quiet w3 (set_proposal_status Rejected i w3)" by (rule quiet_status) simp_all
  then have "quiet w3 w4" using 4 by (rule quiet.keeps_event)
  then have "quiet w3 w'" by (rule quiet.keeps_settle_run [OF 5])
  moreover have "wf_world w \<longrightarrow> wf_world (tick w2)"
    using wf.keeps_load_pending [OF 2 wf.keeps_expire [OF 1]] by simp
  ultimately show ?thesis using 3 unfolding decides_def
    by (intro exI [of _ "tick w2"] exI [of _ w3] exI conjI) (assumption | simp)+
qed

lemma approve_decides:
  assumes "approve_work env s secret i actor remark b w = Inr (x, w')"
  shows "decides Approve w w'"
proof -
  obtain token h where x: "x = (token, h)" by (cases x)
  from approve_work_steps [OF assms [unfolded x]] obtain n w1 p w2 w3 w4 w5 d1 d2 where
    1: "expire_stale_proposals env w = Inr (n, w1)" and 2: "load_pending env i w1 = Inr (p, w2)"
    and 3: "approval_edit env i actor b p w2 = Inr w3"
    and 4: "insert_approval (new_approval env i actor remark b w3) (tick (set_proposal_status Approved i w3)) = Inr w4"
    and 5: "append_event env Operator ''approval.granted'' ''proposal'' i d1 w4 = Inr w5"
    and 6: "append_event env Operator ''approval.token.minted'' ''proposal'' i d2 (tick w5) = Inr w'" by metis
  from 2 have p: "find_proposal i w1 = Some p" "pr_status p = Pending" "w2 = tick w1" by (simp_all add: load_pending_Inr)
  have q1: "quiet w w1" using 1 quiet_refl by (rule quiet.keeps_expire)
  have "quiet w w3" by (rule quiet.keeps_approval_edit [OF 3 quiet.keeps_load_pending [OF 2 q1]])
  then have q3: "quiet w (tick (set_proposal_status Approved i w3))"
    by (intro quiet.keeps_tick quiet_status) simp_all
  have p2: "find_proposal i w2 = Some p" using p by (simp add: tick_def)
  have found: "find_proposal i (tick (set_proposal_status Approved i w3))
      = Some (current_proposal env b p\<lparr>pr_status := Approved\<rparr>)"
    using approval_edit_Inr(1) [OF 3 p2] find_proposal_id [OF p(1)]
    by (simp add: set_proposal_status_def update_proposal_def lookup_update_same tick_def)
  have "quiet w4 w5" using quiet_refl 5 by (rule quiet.keeps_event)
  then have "quiet w4 (tick w5)" by (rule quiet.keeps_tick)
  then have q4: "quiet w4 w'" using 6 by (rule quiet.keeps_event)
  have "wf_world w \<longrightarrow> wf_world (tick (set_proposal_status Approved i w3))"
    using wf.keeps_approval_edit [OF 3 wf.keeps_load_pending [OF 2 wf.keeps_expire [OF 1]]] wf.keeps_status by simp
  then show ?thesis unfolding decides_def
    using q3 4 q4 found q1 p
    by (intro exI [of _ "tick (set_proposal_status Approved i w3)"] exI [of _ w4]
        exI [of _ "new_approval env i actor remark b w3"]) (simp add: new_approval_def, blast)
qed

section \<open>Nothing is forgotten\<close>

definition exec_key :: "execution_row \<Rightarrow> nat \<times> string \<times> string" where
  "exec_key e = (ex_id e, ex_key e, ex_proposal_id e)"

text \<open>Approvals, executions and nonces are never taken away.\<close>

definition grows :: "world \<Rightarrow> world \<Rightarrow> bool" where
  "grows w w' \<longleftrightarrow> set (approvals w) \<subseteq> set (approvals w') \<and> set (nonces w) \<subseteq> set (nonces w')
     \<and> exec_key ` set (executions w) \<subseteq> exec_key ` set (executions w')"

lemma grows_refl [simp]: "grows w w"
  by (simp add: grows_def)

lemma grows_same:
  "approvals w' = approvals w \<Longrightarrow> nonces w' = nonces w \<Longrightarrow> executions w' = executions w \<Longrightarrow> grows w w'"
  by (simp add: grows_def)

lemma tick_frame [simp]:
  "grows w (tick w)" "mails (tick w) = mails w" "approvals_ok (tick w) = approvals_ok w"
  by (simp_all add: tick_def grows_def approvals_ok_def)

lemma grows_trans: "grows u v \<Longrightarrow> grows v w \<Longrightarrow> grows u w"
  unfolding grows_def using subset_trans by metis

lemma grows_quiet: "quiet w w' \<Longrightarrow> grows w w'"
  by (simp add: quiet_def grows_def)

lemma grows_claim: "claim env v w = Inr (e, w') \<Longrightarrow> grows w w'"
proof -
  assume c: "claim env v w = Inr (e, w')"
  from claim_Inr(3) [OF c] have "set (nonces w) \<subseteq> set (nonces w')" by auto
  then show ?thesis using claim_Inr(2,7) [OF c] by (simp add: grows_def subset_insertI)
qed

lemma finish_executions:
  "finish env i p ok result err w = Inr (x, w') \<Longrightarrow> map exec_key (executions w') = map exec_key (executions w)"
proof -
  assume "finish env i p ok result err w = Inr (x, w')"
  then obtain f where "executions w' = update_by ex_id i f (executions w)" "\<And>e. exec_key (f e) = exec_key e"
    using finish_Inr(2) [of env i p ok result err w x w'] by (auto simp: exec_key_def)
  then show ?thesis by (simp add: update_by_keys)
qed

lemma grows_finish: "finish env i p ok result err w = Inr (x, w') \<Longrightarrow> grows w w'"
  using finish_executions [of env i p ok result err w x w'] finish_Inr(3,4) [of env i p ok result err w x w']
  by (simp add: grows_def) (metis list.set_map order_refl)

lemma decides_changes:
  assumes "decides d w w'"
  shows "grows w w'" "mails w' = mails w"
proof -
  from assms obtain w1 w2 a where 1: "quiet w w1" and 2: "insert_approval a w1 = Inr w2" and 3: "quiet w2 w'"
    by (auto simp: decides_def)
  from 2 have "grows w1 w2" "mails w2 = mails w1" by (auto simp: insert_approval_def result_simps grows_def)
  with grows_quiet [OF 1] grows_quiet [OF 3] show "grows w w'" by (blast intro: grows_trans)
  show "mails w' = mails w" using 1 3 \<open>mails w2 = mails w1\<close> by (simp add: quiet_def)
qed

lemma approvals_ok_same:
  "approvals_ok w \<Longrightarrow> approvals w' = approvals w \<Longrightarrow> proposals w' = proposals w \<Longrightarrow> approvals_ok w'"
  by (simp add: approvals_ok_def)

lemma approvals_ok_finish:
  assumes "approvals_ok w" and "finish env i p ok result err w = Inr (x, w')"
  shows "approvals_ok w'"
proof -
  have "\<exists>r \<in> set (proposals w). pr_id r = pr_id q \<and> pr_status r = Pending"
    if "q \<in> set (proposals w')" "pr_status q = Pending" for q
    using that finish_Inr(1) [OF assms(2)] by (auto dest!: update_by_mem split: if_splits)
  with assms(1) show ?thesis using finish_Inr(4) [OF assms(2)] unfolding approvals_ok_def by metis
qed

text \<open>A decision approves a proposal that has no approve record yet.\<close>

lemma approvals_ok_decides:
  assumes "approvals_ok w" "wf_world w" "wf_world w'" "decides d w w'"
  shows "approvals_ok w'"
proof -
  from assms(4) obtain w1 w2 a where 1: "quiet w w1" and 2: "insert_approval a w1 = Inr w2" and 3: "quiet w2 w'"
    and d: "ap_decision a = d" and wf1: "wf_world w1"
    and app: "d = Approve \<Longrightarrow> (\<exists>p. find_proposal (ap_proposal_id a) w1 = Some p \<and> pr_status p = Approved)
        \<and> (\<exists>v p. quiet w v \<and> find_proposal (ap_proposal_id a) v = Some p \<and> pr_status p = Pending)"
    using assms(2) unfolding decides_def by metis
  let ?a = "a\<lparr>ap_id := next_rowid ap_id (approvals w1)\<rparr>"
  have w2: "approvals w2 = approvals w1 @ [?a]" "proposals w2 = proposals w1"
    using 2 by (auto simp: insert_approval_def result_simps)
  have same: "approvals w1 = approvals w" "approvals w' = approvals w2" using 1 3 by (simp_all add: quiet_def)
  have no_old: "ap_proposal_id b \<noteq> ap_proposal_id a"
    if "d = Approve" "b \<in> set (approvals w)" "ap_decision b = Approve" for b
  proof
    assume eq: "ap_proposal_id b = ap_proposal_id a"
    from app [OF that(1)] obtain v p where v: "quiet w v" "find_proposal (ap_proposal_id a) v = Some p" "pr_status p = Pending"
      by blast
    then have "p \<in> set (proposals v)" "pr_id p = ap_proposal_id b" using lookup_by_Some [OF v(2)] eq by auto
    moreover have "pr_id p \<in> pr_id ` set (proposals w)" using assms(2) that(2) calculation(2) by (auto simp: wf_world_def)
    ultimately obtain q where "q \<in> set (proposals w)" "pr_id q = ap_proposal_id b" "pr_status q = Pending"
      using v(1,3) unfolding quiet_def by metis
    with assms(1) that show False by (auto simp: approvals_ok_def)
  qed
  have pend: "\<exists>q \<in> set (proposals w1). pr_id q = pr_id p \<and> pr_status q = Pending"
    if "p \<in> set (proposals w')" "pr_status p = Pending" "pr_id p \<in> pr_id ` set (proposals w1)" for p
    using 3 that w2(2) unfolding quiet_def by metis
  have ok1: "approvals_ok w1" using assms(1,2) 1 by (rule approvals_ok_quiet)
  have ids: "distinct (map pr_id (proposals w'))" using assms(3) by (simp add: wf_world_def)
  have "pr_status p \<noteq> Pending" if b: "b \<in> set (approvals w')" "ap_decision b = Approve"
    and p: "p \<in> set (proposals w')" "pr_id p = ap_proposal_id b" for b p
  proof
    assume pending: "pr_status p = Pending"
    show False
    proof (cases "b \<in> set (approvals w1)")
      case True
      then have "pr_id p \<in> pr_id ` set (proposals w)" using assms(2) same(1) p(2) by (auto simp: wf_world_def)
      then have "pr_id p \<in> pr_id ` set (proposals w1)" using 1 unfolding quiet_def by blast
      with pend [OF p(1) pending] obtain q where "q \<in> set (proposals w1)" "pr_id q = ap_proposal_id b" "pr_status q = Pending"
        using p(2) by auto
      with ok1 True b(2) show False by (auto simp: approvals_ok_def)
    next
      case False
      then have b': "b = ?a" using b(1) same(2) w2(1) by auto
      with b(2) d have "d = Approve" by simp
      from app [OF this] obtain q where q: "find_proposal (ap_proposal_id a) w1 = Some q" "pr_status q = Approved" by blast
      then have q1: "q \<in> set (proposals w1)" "pr_id q = pr_id p" using lookup_by_Some [OF q(1)] p(2) b' by auto
      then have "pr_id p \<in> pr_id ` set (proposals w1)" by (metis image_eqI)
      with pend [OF p(1) pending] obtain r where r: "r \<in> set (proposals w1)" "pr_id r = pr_id p" "pr_status r = Pending" by auto
      have "find_proposal (pr_id p) w1 = Some q" using q(1) p(2) b' by simp
      moreover have "distinct (map pr_id (proposals w1))"
        using wf1 by (simp add: wf_world_def)
      ultimately have "r = q" using q1 r by (simp add: distinct_map inj_on_def)
      with q(2) r(3) show False by simp
    qed
  qed
  moreover have "distinct (map ap_proposal_id (filter (\<lambda>a. ap_decision a = Approve) (approvals w')))"
  proof -
    have "d = Approve \<Longrightarrow> ap_proposal_id a \<notin>
        ap_proposal_id ` set (filter (\<lambda>a. ap_decision a = Approve) (approvals w))"
      using no_old by fastforce
    moreover have "distinct (map ap_proposal_id (filter (\<lambda>a. ap_decision a = Approve) (approvals w)))"
      using assms(1) by (simp add: approvals_ok_def)
    ultimately show ?thesis using d by (simp add: same w2(1))
  qed
  ultimately show ?thesis unfolding approvals_ok_def by blast
qed

section \<open>The invariant of the system\<close>

text \<open>The claims in flight: each has committed its execution and its nonce, and has not been delivered.\<close>

fun claims_of :: "phase list \<Rightarrow> (verified \<times> nat) list" where
  "claims_of [] = []"
| "claims_of (Claimed v a e # f) = (v, ex_id e) # claims_of f"
| "claims_of (_ # f) = claims_of f"

lemma claims_of_append [simp]: "claims_of (f @ g) = claims_of f @ claims_of g"
  by (induction f rule: claims_of.induct) simp_all

fun request_of :: "phase \<Rightarrow> verified" where
  "request_of (Verified v a) = v"
| "request_of (Claimed v a e) = v"
| "request_of (Delivered v e r) = v"

definition authorised :: "env \<Rightarrow> world \<Rightarrow> verified \<Rightarrow> bool" where
  "authorised env w v \<longleftrightarrow>
     (\<exists>a \<in> set (approvals w). ap_decision a = Approve \<and> ap_proposal_id a = pr_id (vf_proposal v)
        \<and> ap_actor a = cl_approver (vf_claims v) \<and> ap_token_nonce a = Some (cl_nonce (vf_claims v)))
     \<and> hash_payload env (PDict (pr_payload (vf_proposal v))) = cl_payload_hash (vf_claims v)"

definition recorded :: "world \<Rightarrow> verified \<times> nat \<Rightarrow> bool" where
  "recorded w c \<longleftrightarrow>
     (snd c, vf_idempotency_key (fst c), pr_id (vf_proposal (fst c))) \<in> exec_key ` set (executions w)
     \<and> (\<exists>n \<in> set (nonces w). nc_nonce n = cl_nonce (vf_claims (fst c)) \<and> nc_key n = vf_idempotency_key (fst c))"

definition system_ok :: "env \<Rightarrow> system \<Rightarrow> bool" where
  "system_ok env x \<longleftrightarrow>
     wf_world (sy_world x) \<and> approvals_ok (sy_world x)
     \<and> (\<forall>v \<in> request_of ` set (sy_flight x) \<union> fst ` set (sy_sent x). authorised env (sy_world x) v)
     \<and> (\<forall>c \<in> set (claims_of (sy_flight x)) \<union> set (sy_sent x). recorded (sy_world x) c)
     \<and> distinct (map snd (claims_of (sy_flight x) @ sy_sent x))
     \<and> list_all2 (\<lambda>m c. letter (fst c) (snd c) = Inr m) (mails (sy_world x)) (sy_sent x)"

lemma authorised_grows: "authorised env w v \<Longrightarrow> grows w w' \<Longrightarrow> authorised env w' v"
  unfolding authorised_def grows_def by (meson subsetD)

lemma recorded_grows: "recorded w c \<Longrightarrow> grows w w' \<Longrightarrow> recorded w' c"
  unfolding recorded_def grows_def by (meson subsetD)

lemma system_okD:
  assumes "system_ok env \<lparr>sy_world = w, sy_flight = f, sy_sent = l\<rparr>"
  shows "wf_world w" "approvals_ok w"
    "v \<in> request_of ` set f \<union> fst ` set l \<Longrightarrow> authorised env w v"
    "c \<in> set (claims_of f) \<union> set l \<Longrightarrow> recorded w c"
    "distinct (map snd (claims_of f @ l))"
    "list_all2 (\<lambda>m c. letter (fst c) (snd c) = Inr m) (mails w) l"
  using assms unfolding system_ok_def system.simps by blast+

lemma system_okI:
  assumes "wf_world w" "approvals_ok w"
    and "\<And>v. v \<in> request_of ` set f \<union> fst ` set l \<Longrightarrow> authorised env w v"
    and "\<And>c. c \<in> set (claims_of f) \<union> set l \<Longrightarrow> recorded w c"
    and "distinct (map snd (claims_of f @ l))"
    and "list_all2 (\<lambda>m c. letter (fst c) (snd c) = Inr m) (mails w) l"
  shows "system_ok env \<lparr>sy_world = w, sy_flight = f, sy_sent = l\<rparr>"
  using assms unfolding system_ok_def system.simps by blast

text \<open>A change of the world alone, and a change that drops a request from the flight.\<close>

lemma system_ok_world:
  assumes "system_ok env \<lparr>sy_world = w, sy_flight = f, sy_sent = l\<rparr>"
    and "grows w w'" "mails w' = mails w" "wf_world w'" "approvals_ok w'"
  shows "system_ok env \<lparr>sy_world = w', sy_flight = f, sy_sent = l\<rparr>"
proof (rule system_okI)
  show "authorised env w' v" if "v \<in> request_of ` set f \<union> fst ` set l" for v
    using system_okD(3) [OF assms(1) that] assms(2) by (rule authorised_grows)
  show "recorded w' c" if "c \<in> set (claims_of f) \<union> set l" for c
    using system_okD(4) [OF assms(1) that] assms(2) by (rule recorded_grows)
  show "list_all2 (\<lambda>m c. letter (fst c) (snd c) = Inr m) (mails w') l"
    unfolding assms(3) by (rule system_okD(6) [OF assms(1)])
qed (rule assms(4) assms(5) system_okD(5) [OF assms(1)])+

lemma system_ok_drop:
  assumes "system_ok env \<lparr>sy_world = w, sy_flight = f @ p # g, sy_sent = l\<rparr>"
  shows "system_ok env \<lparr>sy_world = w, sy_flight = f @ g, sy_sent = l\<rparr>"
  using assms by (cases p) (auto simp: system_ok_def)

lemma approvals_ok_app:
  assumes "app_step env s w w'" "wf_world w" "approvals_ok w"
  shows "wf_world w' \<and> approvals_ok w' \<and> grows w w' \<and> mails w' = mails w"
proof -
  have quiet_case: ?thesis if "quiet w w'" "wf_world w'"
    using approvals_ok_quiet [OF assms(3,2) that(1)] grows_quiet [OF that(1)] that
    by (simp add: quiet_def)
  have decide_case: ?thesis if "decides d w w'" "wf_world w'" for d
    using approvals_ok_decides [OF assms(3,2) that(2,1)] decides_changes [OF that(1)] that(2) by simp
  note q = quiet_refl [of w]
  from assms(1) show ?thesis
  proof cases
    case (run_created goal operator params i)
    show ?thesis using quiet.keeps_create_run [OF run_created q] wf.keeps_create_run [OF run_created assms(2)] by (rule quiet_case)
  next
    case (status_set i status err u)
    show ?thesis using quiet.keeps_set_status [OF status_set q] wf.keeps_set_status [OF status_set assms(2)] by (rule quiet_case)
  next
    case (step_appended i kind tool payload n)
    show ?thesis using quiet.keeps_append_step [OF step_appended q] wf.keeps_append_step [OF step_appended assms(2)] by (rule quiet_case)
  next
    case (proposed i payload rationale invoice email amount currency days ttl p)
    show ?thesis using quiet.keeps_create_proposal [OF proposed q] wf.keeps_create_proposal [OF proposed assms(2)] by (rule quiet_case)
  next
    case (edited i body actor d)
    show ?thesis using quiet.keeps_save_edit [OF edited q] wf.keeps_save_edit [OF edited assms(2)] by (rule quiet_case)
  next
    case (rejected i actor remark d)
    show ?thesis using reject_decides [OF rejected] wf.keeps_reject_work [OF rejected assms(2)] by (rule decide_case)
  next
    case (approved secret i actor remark body t)
    show ?thesis using approve_decides [OF approved] wf.keeps_approve_work [OF approved assms(2)] by (rule decide_case)
  next
    case (expired n)
    show ?thesis using quiet.keeps_expire [OF expired q] wf.keeps_expire [OF expired assms(2)] by (rule quiet_case)
  next
    case (settled n)
    show ?thesis using quiet.keeps_settle_decided [OF settled q] wf.keeps_settle_decided [OF settled assms(2)] by (rule quiet_case)
  next
    case (abandoned reason ids)
    show ?thesis using quiet.keeps_abandon [OF abandoned q] wf.keeps_abandon [OF abandoned assms(2)] by (rule quiet_case)
  next
    case time_passed
    show ?thesis using quiet.keeps_tick [OF q] wf.keeps_tick [OF assms(2)] unfolding time_passed by (rule quiet_case [unfolded time_passed])
  qed
qed

lemma verified_authorised:
  assumes "wf_world w" and "verify_execution_request env secret rq fresh at w = Inr v"
  shows "authorised env w v"
proof -
  have d: "distinct (map nc_nonce (nonces w))" using assms(1) by (simp add: wf_world_def)
  from assms(2) [unfolded verify_Inr [OF d]] obtain k c p a where
    checks: "\<forall>n \<in> {2..6}. check_passes env (strip k) at c w n"
    and p: "find_proposal (cl_proposal_id c) w = Some p" and a: "latest_approval (cl_proposal_id c) w = Some a"
    and v: "vf_claims v = c" "vf_proposal v = p" by auto
  have "a \<in> set (approvals w)" "ap_proposal_id a = cl_proposal_id c" "ap_decision a = Approve"
    using last_by_Some [OF a [unfolded latest_approval_def]] by auto
  moreover have "pr_id p = cl_proposal_id c" using p by (rule find_proposal_id)
  ultimately show ?thesis
    using checks a p v unfolding check_cases check_passes_def authorised_def by auto
qed

lemma finish_with_world:
  assumes "finish_with env v e outcome w = (r, w')" and "wf_world w" and "approvals_ok w"
  shows "wf_world w' \<and> approvals_ok w' \<and> grows w w' \<and> mails w' = mails w"
proof -
  have "w' = rolled_back w \<or> (\<exists>i p ok result err. finish env i p ok result err w = Inr ((), w'))"
    using assms(1) by (auto simp: finish_with_def session_scope_def split: sum.splits prod.splits)
  then show ?thesis
  proof (elim disjE exE)
    assume "w' = rolled_back w"
    then show ?thesis using assms(2,3)
      by (simp add: rolled_back_def)
  next
    fix i p ok result err assume f: "finish env i p ok result err w = Inr ((), w')"
    show ?thesis
      using wf.keeps_finish [OF f assms(2)] approvals_ok_finish [OF assms(3) f] grows_finish [OF f]
        finish_Inr(6) [OF f] by simp
  qed
qed

lemma claim_recorded: "claim env v w = Inr (e, w') \<Longrightarrow> recorded w' (v, ex_id e)"
  using claim_Inr(1,2,3) [of env v w e w']
  by (auto simp: recorded_def exec_key_def claim_row_def image_iff)

lemma system_ok_step:
  assumes "step env io gs s x y" and "system_ok env x"
  shows "system_ok env y"
  using assms
proof (cases rule: step.cases)
  case (app w w' f l)
  note old = assms(2) [unfolded app(1)]
  have "wf_world w' \<and> approvals_ok w' \<and> grows w w' \<and> mails w' = mails w"
    using app(3) system_okD(1,2) [OF old] by (rule approvals_ok_app)
  then show ?thesis unfolding app(2) by (intro system_ok_world [OF old]) simp_all
next
  case (arrive rq w v a f l)
  note old = assms(2) [unfolded arrive(1)]
  have new: "system_ok env \<lparr>sy_world = tick w, sy_flight = f, sy_sent = l\<rparr>"
    using system_okD(1,2) [OF old] by (intro system_ok_world [OF old]) simp_all
  have "authorised env (tick w) v"
    using verified_authorised [OF system_okD(1) [OF old] arrive(3)] by (rule authorised_grows) simp
  then show ?thesis unfolding arrive(2) using system_okD [OF new]
    by (intro system_okI) auto
next
  case (refuse w f l e)
  note old = assms(2) [unfolded refuse(1)]
  show ?thesis unfolding refuse(2)
    using system_okD(1,2) [OF old] wf.keeps_record_refusal [of w env e]
    by (intro system_ok_world [OF old]) (simp_all add: grows_def approvals_ok_def)
next
  case (claim v w e w' f a g l)
  note old = assms(2) [unfolded claim(1)]
  have c: "claim env v w = Inr (e, w')" using session_scope_cases [OF claim(3)] by auto
  have new: "system_ok env \<lparr>sy_world = w', sy_flight = f @ Verified v a # g, sy_sent = l\<rparr>"
    using grows_claim [OF c] claim_Inr(9) [OF c] wf.keeps_claim [OF c system_okD(1) [OF old]]
      approvals_ok_same [OF system_okD(2) [OF old] claim_Inr(7,6) [OF c]]
    by (rule system_ok_world [OF old])
  have "recorded w (u, i) \<Longrightarrow> i \<in> ex_id ` set (executions w)" for u i
    by (auto simp: recorded_def exec_key_def)
  moreover have "ex_id e \<notin> ex_id ` set (executions w)"
    using claim_Inr(1) [OF c] next_rowid_fresh [of ex_id "executions w"] by (simp add: claim_row_def)
  ultimately have "ex_id e \<notin> snd ` (set (claims_of (f @ Verified v a # g)) \<union> set l)"
    using system_okD(4) [OF old] by fastforce
  then show ?thesis unfolding claim(2) using system_okD [OF new] claim_recorded [OF c]
    by (intro system_okI) auto
next
  case (claim_lost v w z w' f a g l)
  note old = system_ok_drop [OF assms(2) [unfolded claim_lost(1)]]
  have "w' = tick w" using session_scope_cases [OF claim_lost(3)] by (auto simp: rolled_back_def)
  then show ?thesis unfolding claim_lost(2) using system_okD(1,2) [OF old]
    by (intro system_ok_world [OF old]) simp_all
next
  case (deliver a v e w outcome w' f g l)
  note d = deliver_changes [OF deliver(3)] and old = assms(2) [unfolded deliver(1)]
  have grows: "grows w w'" using d(2,4,3) by (rule grows_same)
  let ?sent = "case letter v (ex_id e) of Inl _ \<Rightarrow> l | Inr _ \<Rightarrow> l @ [(v, ex_id e)]"
  show ?thesis unfolding deliver(2)
  proof (rule system_okI)
    show "wf_world w'" using deliver(3) system_okD(1) [OF old] by (rule wf.keeps_deliver)
    show "approvals_ok w'" using system_okD(2) [OF old] d(2,1) by (rule approvals_ok_same)
    show "authorised env w' u" if "u \<in> request_of ` set (f @ Delivered v e outcome # g) \<union> fst ` set ?sent" for u
      using that by (intro authorised_grows [OF system_okD(3) [OF old] grows]) (auto split: sum.splits)
    show "recorded w' c" if "c \<in> set (claims_of (f @ Delivered v e outcome # g)) \<union> set ?sent" for c
      using that by (intro recorded_grows [OF system_okD(4) [OF old] grows]) (auto split: sum.splits)
    show "distinct (map snd (claims_of (f @ Delivered v e outcome # g) @ ?sent))"
      using system_okD(5) [OF old] by (auto split: sum.splits)
    show "list_all2 (\<lambda>m c. letter (fst c) (snd c) = Inr m) (mails w') ?sent"
      using system_okD(6) [OF old] d(7) by (auto split: sum.splits intro!: list_all2_appendI)
  qed
next
  case (finish v e outcome w r w' f g l)
  note old = system_ok_drop [OF assms(2) [unfolded finish(1)]]
  have "wf_world w' \<and> approvals_ok w' \<and> grows w w' \<and> mails w' = mails w"
    using finish(3) system_okD(1,2) [OF old] by (rule finish_with_world)
  then show ?thesis unfolding finish(2) by (intro system_ok_world [OF old]) simp_all
next
  case (crash w f p g l)
  then show ?thesis using assms(2) system_ok_drop by simp
qed

lemma reachable_ok: "reachable env io gs s x \<Longrightarrow> system_ok env x"
proof (induction rule: reachable.induct)
  case start
  then show ?case using wf_empty_world by (simp add: system_ok_def initial_def approvals_ok_def empty_world_def)
next
  case (more x y)
  then show ?case by (blast intro: system_ok_step)
qed

section \<open>Safety\<close>

definition meta_proposal :: "mail \<Rightarrow> pyval" where
  "meta_proposal m = dict_get ''proposal_id'' (ml_meta m)"

lemma letter_Inr:
  "letter v i = Inr m \<Longrightarrow> meta_proposal m = PStr (pr_id (vf_proposal v))
     \<and> ml_to m = pr_customer_email (vf_proposal v)
     \<and> map_of (pr_payload (vf_proposal v)) ''subject'' = Some (PStr (ml_subject m))
     \<and> map_of (pr_payload (vf_proposal v)) ''body'' = Some (PStr (ml_body m))
     \<and> dict_get ''approver'' (ml_meta m) = PStr (cl_approver (vf_claims v))
     \<and> dict_get ''execution_id'' (ml_meta m) = PInt (int i)"
  by (auto simp: letter_def payload_text_def result_simps meta_proposal_def letter_meta_def dict_get_def
      split: option.splits pyval.splits)

text \<open>Two sends of one proposal would be one approval, one nonce, one key and one execution.\<close>

lemma sent_once:
  assumes "wf_world w" "approvals_ok w" "authorised env w v" "authorised env w u"
    and "recorded w (v, i)" "recorded w (u, j)" and "pr_id (vf_proposal v) = pr_id (vf_proposal u)"
  shows "i = j"
proof -
  from assms(3,4) obtain a b where
    a: "a \<in> set (approvals w)" "ap_decision a = Approve" "ap_proposal_id a = pr_id (vf_proposal v)"
      "ap_token_nonce a = Some (cl_nonce (vf_claims v))"
    and b: "b \<in> set (approvals w)" "ap_decision b = Approve" "ap_proposal_id b = pr_id (vf_proposal u)"
      "ap_token_nonce b = Some (cl_nonce (vf_claims u))" unfolding authorised_def by blast
  have "distinct (map ap_proposal_id (filter (\<lambda>a. ap_decision a = Approve) (approvals w)))"
    using assms(2) by (simp add: approvals_ok_def)
  then have "a = b" using a b assms(7) by (simp add: distinct_map inj_on_def)
  then have nonce: "cl_nonce (vf_claims v) = cl_nonce (vf_claims u)" using a(4) b(4) by simp
  from assms(5,6) obtain n n' where "n \<in> set (nonces w)" "nc_nonce n = cl_nonce (vf_claims v)"
    "nc_key n = vf_idempotency_key v" "n' \<in> set (nonces w)" "nc_nonce n' = cl_nonce (vf_claims u)"
    "nc_key n' = vf_idempotency_key u" unfolding recorded_def by auto
  moreover have "distinct (map nc_nonce (nonces w))" using assms(1) by (simp add: wf_world_def)
  ultimately have key: "vf_idempotency_key v = vf_idempotency_key u"
    using nonce by (metis distinct_map inj_onD)
  from assms(5,6) obtain e f where "e \<in> set (executions w)" "ex_id e = i" "ex_key e = vf_idempotency_key v"
    "f \<in> set (executions w)" "ex_id f = j" "ex_key f = vf_idempotency_key u"
    unfolding recorded_def exec_key_def by auto
  moreover have "distinct (map ex_key (executions w))" using assms(1) by (simp add: wf_world_def)
  ultimately show ?thesis using key by (metis distinct_map inj_onD)
qed



end
