(* ===== verification/Scenario.thy ===== *)
theory Scenario
  imports Boundary
begin

text \<open>
  Concrete runs of the model, from the empty database: a run, a proposal, its approval, the request
  that sends the letter. They show that the hypotheses of the properties hold together, and each
  witness applies its property to them. The surroundings are a digest that puts one byte in front of
  its input, which no two texts share, a clock that stands still, and uuids of growing length.
\<close>

section \<open>Appends to an intact chain succeed\<close>

text \<open>
  When a digest is longer than what it digests, hashes grow along a chain, so the next row's numbers
  and hashes are new and no append is refused.
\<close>

definition digests_grow :: "env \<Rightarrow> bool" where
  "digests_grow env = (\<forall>s. length s < length (sha256 env s))"

lemma digests_grow_nonempty: "digests_grow env \<Longrightarrow> digests_nonempty env"
  unfolding digests_grow_def digests_nonempty_def by (metis list.size(3) not_less_zero)

lemma length_hex_digest: "length (hex_digest s) = 2 * length s"
  by (induction s) (simp_all add: hex_digest_def)

lemma length_escape_utf8: "length s \<le> length (escape_utf8 s)"
proof -
  have one: "1 \<le> length (escape_control c)" for c by (simp add: escape_control_def Let_def Suc_le_eq)
  have "length s \<le> length (concat (map escape_control s))"
  proof (induction s)
    case Nil
    then show ?case by simp
  next
    case (Cons c s)
    then show ?case using one [of c] by simp
  qed
  then show ?thesis by (simp add: escape_utf8_def)
qed

lemma length_join: "x \<in> set xs \<Longrightarrow> length x \<le> length (join sep xs)"
  by (induction sep xs rule: join.induct) auto

lemma length_canonical_field:
  assumes "(k, PStr s) \<in> set d"
  shows "length s \<le> length (canonical_json (PDict d))"
proof -
  let ?field = "\<lambda>kv. json_string escape_utf8 (fst kv) @ '':'' @ render escape_utf8 (snd kv)"
  have "?field (k, PStr s) \<in> set (map ?field (sort_key fst d))" using assms by force
  from length_join [OF this, of "'',''"]
  have "length (?field (k, PStr s)) \<le> length (canonical_json (PDict d))" by (simp add: canonical_json_def)
  then show ?thesis using length_escape_utf8 [of s] by (simp add: json_string_def)
qed

lemma hash_grows:
  assumes "digests_grow env"
  shows "length (au_prev_hash r) < length (row_hash env r)"
proof -
  have "length (au_prev_hash r) \<le> length (canonical_json (row_payload r))"
    unfolding row_payload_def audit_payload_def by (rule length_canonical_field [of "''prev_hash''"]) simp
  also have "\<dots> < length (sha256 env (canonical_json (row_payload r)))"
    using assms by (simp add: digests_grow_def)
  finally show ?thesis by (simp add: row_hash_payload hash_payload_def sha256_hex_def length_hex_digest)
qed

lemma linked_climbs:
  assumes "digests_grow env" and "linked env p i rows"
  shows "\<forall>r \<in> set rows. length p \<le> length (au_prev_hash r) \<and> length (au_hash r) \<le> length (head_after au_hash p rows)
    \<and> length (au_prev_hash r) < length (head_after au_hash p rows)"
  using assms(2)
proof (induction rows arbitrary: p i)
  case Nil
  then show ?case by simp
next
  case (Cons r rows)
  have up: "length p < length (au_hash r)" using hash_grows [OF assms(1), of r] Cons.prems by auto
  have head: "head_after au_hash p (r # rows) = head_after au_hash (au_hash r) rows" by (simp add: head_after_def)
  have ih: "\<forall>x \<in> set rows. length (au_hash r) \<le> length (au_prev_hash x)
      \<and> length (au_hash x) \<le> length (head_after au_hash (au_hash r) rows)
      \<and> length (au_prev_hash x) < length (head_after au_hash (au_hash r) rows)"
    using Cons.IH [of "au_hash r" "i + 1"] Cons.prems by simp
  have top: "length (au_hash r) \<le> length (head_after au_hash (au_hash r) rows)"
  proof (cases "rows = []")
    case True
    then show ?thesis by (simp add: head_after_def)
  next
    case False
    then have "last rows \<in> set rows" by simp
    with ih have "length (au_hash r) \<le> length (au_prev_hash (last rows))"
      "length (au_prev_hash (last rows)) < length (head_after au_hash (au_hash r) rows)" by blast+
    then show ?thesis by simp
  qed
  from ih top up Cons.prems show ?case unfolding head by (auto intro: le_trans less_imp_le less_le_trans)
qed

lemma append_ok:
  assumes "digests_grow env" and "chain_intact env w"
  shows "append_event env actor event st si detail w
    = Inr (w\<lparr>events := events w @ [next_row env (audit_tail w) (now_utc env w) actor event st si detail],
             ticks := Suc (ticks w)\<rparr>)"
proof -
  let ?rows = "events w" and ?s = "sort_key au_id (events w)"
  let ?r = "next_row env (audit_tail w) (now_utc env w) actor event st si detail"
  have linked: "linked env genesis_hash 1 ?s"
    using assms(2) by (simp add: chain_intact_def verify_chain_def verify_rows_intact)
  note r = next_row_extends [OF linked refl, of "now_utc env w" actor event st si detail]
  have climbs: "\<forall>x \<in> set ?rows. length (au_hash x) \<le> length (au_prev_hash ?r)
      \<and> length (au_prev_hash x) < length (au_prev_hash ?r)"
    using linked_climbs [OF assms(1) linked] r(2) by simp
  have "au_prev_hash x \<noteq> au_prev_hash ?r" if "x \<in> set ?rows" for x using climbs that by fastforce
  then have "au_prev_hash ?r \<notin> au_prev_hash ` set ?rows" by fastforce
  moreover have "length (au_prev_hash ?r) < length (au_hash ?r)"
    using hash_grows [OF assms(1), of ?r] next_row_hash by simp
  then have "au_hash x \<noteq> au_hash ?r" if "x \<in> set ?rows" for x using climbs that by fastforce
  then have "au_hash ?r \<notin> au_hash ` set ?rows" by fastforce
  moreover have "au_id ?r \<notin> au_id ` set ?rows" using r(3) by force
  ultimately show ?thesis
    using append_event_Inr [of env actor event st si detail w] by (simp add: Let_def tick_def)
qed

section \<open>The surroundings\<close>

definition uuid0 :: "nat \<Rightarrow> string" where
  "uuid0 n = CHR ''u'' # replicate n (CHR ''u'')"

definition env0 :: env where
  "env0 = \<lparr>sha256 = Cons (CHR ''h''), time_at = (\<lambda>n. 0), uuid_at = uuid0,
     coerce_int = (\<lambda>v. case v of PInt i \<Rightarrow> Some i | _ \<Rightarrow> None), validation_text = (\<lambda>d. ''invalid'')\<rparr>"

lemma uuid0_eq [simp]: "uuid0 m = uuid0 n \<longleftrightarrow> m = n"
  by (auto simp: uuid0_def dest: arg_cong [of _ _ length])

lemma uuid0_ascii [simp]: "is_ascii (uuid0 n)"
  by (simp add: uuid0_def is_ascii_def list_all_iff)

lemma env0_laws [simp]: "digests_grow env0" "digests_nonempty env0" "ints_accepted env0"
  by (simp_all add: digests_grow_def digests_nonempty_def ints_accepted_def env0_def)

lemma env0_sel [simp]: "now_utc env0 w = 0" "new_uuid env0 w = uuid0 (ticks w)" "uuid_at env0 n = uuid0 n"
  by (simp_all add: now_utc_def new_uuid_def env0_def)

definition secret0 :: string where
  "secret0 = replicate 32 (CHR ''s'')"

definition as0 :: app_settings where
  "as0 = \<lparr>as_signing_secret = secret0, as_token_ttl_seconds = 900, as_proposal_ttl_hours = 72,
     as_operator_id = ''op'', as_gateway_url = ''http://gateway'', as_max_tool_calls = 20, as_max_proposals = 5,
     as_run_timeout_us = 0, as_enable_unapproved_demo = True, as_anthropic_api_key = ''k'', as_model = ''m''\<rparr>"

definition gs0 :: gateway_settings where
  "gs0 = \<lparr>gs_signing_secret = secret0, gs_stripe_api_key_write = [], gs_enable_stripe_invoice_send = False,
     gs_email_adapter = ''outbox'', gs_outbox_dir = ''out'', gs_smtp_host = ''localhost'', gs_smtp_port = 1025,
     gs_smtp_username = [], gs_smtp_password = [], gs_smtp_starttls = False, gs_resend_api_key = [],
     gs_mail_from = ''a@b.c'', gs_mail_from_name = ''A''\<rparr>"

definition io0 :: io where
  "io0 = \<lparr>disk_ok = (\<lambda>n. False), smtp_server = (\<lambda>n. SmtpRaised AssertionError),
     resend_api = (\<lambda>n. HttpFailed [] []), stripe_api = (\<lambda>n. StripeRaised AssertionError)\<rparr>"

section \<open>From the empty database to an approved letter\<close>

definition letter0 :: pydict where
  "letter0 = [(''subject'', PStr ''Invoice 7''), (''body'', PStr ''Please pay.''), (''tone'', PStr ''firm'')]"

text \<open>The events after an append, at a clock that stands still.\<close>

definition appended :: "actor \<Rightarrow> string \<Rightarrow> string \<Rightarrow> string \<Rightarrow> pydict \<Rightarrow> audit_row list \<Rightarrow> audit_row list" where
  "appended actor event st si detail evs =
     evs @ [next_row env0 (last_by au_id evs) 0 actor event st si detail]"

definition intact0 :: "audit_row list \<Rightarrow> bool" where
  "intact0 evs = linked env0 genesis_hash 1 (sort_key au_id evs)"

lemma intact0_world: "intact0 (events w) = chain_intact env0 w"
  by (simp add: intact0_def chain_intact_def verify_chain_def verify_rows_intact)

lemma append0 [simp]:
  "intact0 (events w) \<Longrightarrow>
   append_event env0 actor event st si detail w
   = Inr (w\<lparr>events := appended actor event st si detail (events w), ticks := Suc (ticks w)\<rparr>)"
  by (simp add: append_ok intact0_world appended_def audit_tail_def)

lemma intact0_appended [simp]: "intact0 [] " "intact0 evs \<Longrightarrow> intact0 (appended actor event st si detail evs)"
proof -
  show "intact0 []" by (simp add: intact0_def)
  assume "intact0 evs"
  then have i: "intact0 (events (empty_world\<lparr>events := evs\<rparr>))" by simp
  from chain.keeps_event [OF _ append0 [OF i, of actor event st si detail]] i
  show "intact0 (appended actor event st si detail evs)" by (simp add: intact0_world [symmetric])
qed

text \<open>One run.\<close>

definition run0 :: run_row where
  "run0 = \<lparr>rn_id = uuid0 1, rn_goal = ''collect'', rn_status = RunQueued, rn_started_at = 0,
     rn_ended_at = None, rn_operator_id = ''op'', rn_error = None, rn_params = []\<rparr>"

definition world1 :: world where
  "world1 = \<lparr>runs = [run0], steps = [], proposals = [], approvals = [], executions = [], nonces = [], outbox = [],
     events = appended Operator RUN_STARTED ''run'' (uuid0 1) [(''goal'', PStr ''collect''), (''params'', PDict [])] [],
     ticks = 3, mails = []\<rparr>"

lemma start0: "create_run env0 ''collect'' ''op'' [] empty_world = Inr (uuid0 1, world1)"
  by (simp add: create_run_def insert_run_def world1_def run0_def Let_def empty_world_def tick_def)

text \<open>One proposal, which waits for a decision.\<close>

definition proposal0 :: proposal_row where
  "proposal0 = \<lparr>pr_id = uuid0 5, pr_run_id = uuid0 1, pr_action_type = ''send_collection_letter'',
     pr_status = Pending, pr_payload = letter0, pr_payload_hash = hash_payload env0 (PDict letter0),
     pr_rationale = ''overdue'', pr_invoice_id = ''in_7'', pr_customer_email = ''c@d.e'', pr_amount_due = 500,
     pr_currency = ''usd'', pr_days_overdue = 10, pr_created_at = 0, pr_expires_at = hours_from 0 72\<rparr>"

definition world2 :: world where
  "world2 = world1\<lparr>proposals := [proposal0],
     events := appended Agent PROPOSAL_CREATED ''proposal'' (uuid0 5)
       [(''run_id'', PStr (uuid0 1)), (''invoice_id'', PStr ''in_7''), (''tone'', PStr ''firm''),
        (''amount_display'', PNone), (''days_overdue'', PInt 10),
        (''payload_hash'', PStr (hash_payload env0 (PDict letter0)))] (events world1),
     ticks := 7\<rparr>"

lemma propose0:
  "create_proposal env0 (uuid0 1) letter0 ''overdue'' ''in_7'' ''c@d.e'' 500 ''usd'' 10 72 world1
   = Inr (uuid0 5, world2)"
  by (simp add: create_proposal_def flush_proposal_def insert_proposal_def new_proposal_def world2_def world1_def
      proposal0_def run0_def Let_def tick_def action_types_def letter0_def dict_get_def)

text \<open>Its approval, and the token.\<close>

definition claims0 :: claims where
  "claims0 = new_claims proposal0 (pr_payload_hash proposal0) ''op'' (uuid0 9) 0 900"

definition token0 :: string where
  "token0 = (case mint env0 claims0 secret0 of Inl _ \<Rightarrow> [] | Inr t \<Rightarrow> t)"

definition approval0 :: approval_row where
  "approval0 = \<lparr>ap_id = 1, ap_proposal_id = uuid0 5, ap_decision = Approve, ap_actor = ''op'', ap_note = None,
     ap_edited_body = None, ap_decided_at = 0, ap_token_nonce = Some (uuid0 9)\<rparr>"

definition world3 :: world where
  "world3 = world2\<lparr>proposals := [proposal0\<lparr>pr_status := Approved\<rparr>], approvals := [approval0],
     events := appended Operator ''approval.token.minted'' ''proposal'' (uuid0 5)
         [(''approver'', PStr ''op''), (''nonce'', PStr (uuid0 9)), (''expires_in_seconds'', PInt 900)]
       (appended Operator ''approval.granted'' ''proposal'' (uuid0 5)
         [(''actor'', PStr ''op''), (''note'', PNone), (''edited'', PBool False),
          (''payload_hash'', PStr (pr_payload_hash proposal0))] (events world2)),
     ticks := 13\<rparr>"

lemma secret0_long: "length secret0 = 32" "secret0 \<noteq> []"
  by (simp_all add: secret0_def)

lemma token0: "mint env0 claims0 secret0 = Inr token0"
  using mint_succeeds [OF secret0_long(2), of env0 claims0] by (auto simp: token0_def)

lemma expires0: "0 < hours_from 0 72"
  by (simp add: hours_from_def second_us_def)

lemma proposal0_sel [simp]: "pr_id proposal0 = uuid0 5" "pr_status proposal0 = Pending"
  "pr_run_id proposal0 = uuid0 1" "pr_payload proposal0 = letter0" "pr_invoice_id proposal0 = ''in_7''"
  "pr_customer_email proposal0 = ''c@d.e''" "pr_expires_at proposal0 = hours_from 0 72"
  "pr_action_type proposal0 = ''send_collection_letter''" "hash_ok env0 proposal0"
  by (simp_all add: proposal0_def hash_ok_def)

lemma mint0:
  "mint_for_approval env0 proposal0 approval0 secret0 900 0 = Inr token0"
proof -
  have "pr_payload_hash proposal0 = hash_payload env0 (PDict letter0)" by (simp add: proposal0_def)
  moreover have "mint env0 (new_claims proposal0 (hash_payload env0 (PDict letter0)) ''op'' (uuid0 9) (to_epoch 0) 900) secret0
      = Inr token0" using token0 by (simp add: claims0_def proposal0_def to_epoch_def)
  ultimately show ?thesis
    by (simp add: mint_for_approval_def approval0_def hashes_equal_Some Let_def uuid0_def)
qed

lemma approve0:
  "approve_work env0 as0 secret0 (uuid0 5) ''op'' None None world2
   = Inr ((token0, pr_payload_hash proposal0), world3)"
proof -
  have new: "new_approval env0 (uuid0 5) ''op'' None None (w::world) = approval0" if "approvals w = []" "ticks w = 9" for w
    using that by (simp add: new_approval_def approval0_def next_rowid_def)
  have ttl: "as_token_ttl_seconds as0 = 900" by (simp add: as0_def)
  have i: "intact0 (events world2)" by (simp add: world2_def world1_def)
  show ?thesis
    using i expires0 mint0
    by (simp add: approve_work_def expire_stale_proposals_def load_pending_def approval_edit_def current_proposal_def
        stale_def insert_approval_def set_proposal_status_def update_proposal_def tick_def new ttl Let_def
        world3_def world2_def world1_def next_rowid_def str_or_none_def)
      (simp add: approval0_def)
qed

text \<open>The three databases meet the constraints, and their chains are intact.\<close>

lemma reached:
  "P empty_world \<Longrightarrow> world_invariant env0 P \<Longrightarrow> P world1 \<and> P world2 \<and> P world3"
proof -
  assume P: "P empty_world" and i: "world_invariant env0 P"
  have t: "table_invariant env0 P" using i by (rule world_invariant.axioms)
  have "P world1" using table_invariant.keeps_create_run [OF t start0 P] .
  moreover from this have "P world2" by (rule table_invariant.keeps_create_proposal [OF t propose0])
  moreover from this have "P world3" using world_invariant.keeps_approve_work [OF i approve0] by blast
  ultimately show ?thesis by blast
qed

lemma worlds_ok [simp]:
  "wf_world world1" "wf_world world2" "wf_world world3"
  "chain_intact env0 world1" "chain_intact env0 world2" "chain_intact env0 world3"
  "hashes_agree env0 world1" "hashes_agree env0 world2" "hashes_agree env0 world3"
proof -
  have "chain_intact env0 empty_world" "hashes_agree env0 empty_world"
    by (simp_all add: chain_intact_def verify_chain_def verify_rows_def hashes_agree_def empty_world_def)
  then show "wf_world world1" "wf_world world2" "wf_world world3"
    "chain_intact env0 world1" "chain_intact env0 world2" "chain_intact env0 world3"
    "hashes_agree env0 world1" "hashes_agree env0 world2" "hashes_agree env0 world3"
    using reached [OF wf_empty_world wf.world_invariant_axioms] reached [OF _ chain.world_invariant_axioms]
      reached [OF _ hashes.world_invariant_axioms] by blast+
qed

section \<open>The request that sends it\<close>

definition request0 :: request where
  "request0 = \<lparr>rq_token = Some token0, rq_key = Some ''k1'', rq_body_proposal_id = None, rq_body_payload_hash = None\<rparr>"

definition verified0 :: verified where
  "verified0 = \<lparr>vf_claims = claims0, vf_proposal = proposal0\<lparr>pr_status := Approved\<rparr>, vf_approval = approval0,
     vf_idempotency_key = ''k1'', vf_checks = checks, vf_existing_execution = None, vf_body_disagreed = False\<rparr>"

lemma strip_k1: "strip ''k1'' = ''k1''"
  by (rule strip_id) (simp_all add: printable_def)

lemma claims0_sel [simp]: "cl_proposal_id claims0 = uuid0 5" "cl_approver claims0 = ''op''"
  "cl_nonce claims0 = uuid0 9" "cl_exp claims0 = 900" "cl_payload_hash claims0 = hash_payload env0 (PDict letter0)"
  "cl_action_type claims0 = ''send_collection_letter''"
  by (simp_all add: claims0_def new_claims_def proposal0_def)

lemma claims0_ascii: "claims_ascii claims0"
  by (simp add: claims_ascii_def)

lemma decode0: "decode env0 fresh (Some token0) secret0 = Inr claims0"
  by (rule mint_then_decode [OF _ _ claims0_ascii token0]) simp_all

lemma world3_sel [simp]:
  "proposals world3 = [proposal0\<lparr>pr_status := Approved\<rparr>]" "approvals world3 = [approval0]" "executions world3 = []"
  "nonces world3 = []" "outbox world3 = []" "mails world3 = []" "ticks world3 = 13"
  by (simp_all add: world3_def world2_def world1_def)

lemma verify0:
  "verify_execution_request env0 secret0 request0 fresh 0 world3 = Inr verified0"
proof -
  have "latest_approval (uuid0 5) world3 = Some approval0"
    by (simp add: latest_approval_def approval0_def)
  then show ?thesis
    using decode0 [of fresh] expires0
    by (subst verify_Inr) (auto simp: request0_def strip_k1 verified0_def check_cases check_passes_def to_epoch_def
        approval0_def check_7_def own_execution_def body_disagrees_def)
qed

text \<open>The claim, the delivery and the finish.\<close>

definition execution0 :: execution_row where
  "execution0 = \<lparr>ex_id = 1, ex_proposal_id = uuid0 5, ex_key = ''k1'', ex_result = None, ex_status = ExPending,
     ex_executed_at = 0, ex_error = None\<rparr>"

definition world4 :: world where
  "world4 = world3\<lparr>executions := [execution0],
     nonces := [\<lparr>nc_nonce = uuid0 9, nc_proposal_id = uuid0 5, nc_key = ''k1'', nc_consumed_at = 0\<rparr>],
     events := appended Gateway ''action.execution.started'' ''proposal'' (uuid0 5) (claim_detail verified0 1)
       (events world3), ticks := 17\<rparr>"

lemma verified0_sel [simp]:
  "vf_claims verified0 = claims0" "vf_proposal verified0 = proposal0\<lparr>pr_status := Approved\<rparr>"
  "vf_idempotency_key verified0 = ''k1''" "vf_existing_execution verified0 = None"
  by (simp_all add: verified0_def)

lemma claim0: "claim env0 verified0 (tick world3) = Inr (execution0, world4)"
  using worlds_ok(6) intact0_world [of world3]
  by (simp add: claim_def claim_row_def insert_execution_def insert_nonce_def Let_def tick_def world4_def
      execution0_def next_rowid_def)

definition mail0 :: mail where
  "mail0 = \<lparr>ml_to = ''c@d.e'', ml_subject = ''Invoice 7'', ml_body = ''Please pay.'', ml_meta = letter_meta verified0 1\<rparr>"

lemma letter0_sent: "letter verified0 1 = Inr mail0"
  by (simp add: letter_def payload_text_def mail0_def) (simp add: letter0_def)

definition result0 :: pydict where
  "result0 = [(''email'', PDict (delivery_dict \<lparr>dl_adapter = ''outbox'', dl_accepted = True,
       dl_provider_message_id = Some (uuid0 18), dl_detail = [(''captured'', PBool True), (''file_path'', PNone),
         (''note'', PStr ''Captured locally. Nothing left this machine.'')]\<rparr>)),
     (''stripe_invoice_send'', PDict [(''attempted'', PBool False), (''reason'', PStr ''ENABLE_STRIPE_INVOICE_SEND is off'')])]"

definition world5 :: world where
  "world5 = world4\<lparr>outbox := [\<lparr>ob_id = uuid0 18, ob_proposal_id = uuid0 5, ob_to_email = ''c@d.e'',
       ob_subject = ''Invoice 7'', ob_body = ''Please pay.'', ob_meta = letter_meta verified0 1,
       ob_adapter = ''outbox'', ob_file_path = None, ob_created_at = 0\<rparr>], mails := [mail0], ticks := 20\<rparr>"

lemma mail0_proposal: "meta_proposal_id (ml_meta mail0) = uuid0 5"
  by (simp add: mail0_def letter_meta_def meta_proposal_id_def dict_get_or_def)

lemma deliver0: "deliver env0 io0 gs0 OutboxAdapter verified0 1 world4 = (Inr result0, world5)"
proof -
  have "outbox world4 = []" "mails world4 = []" "ticks world4 = 17" by (simp_all add: world4_def)
  moreover have "disk_ok io0 n = False" "gs_enable_stripe_invoice_send gs0 = False" for n
    by (simp_all add: io0_def gs0_def)
  ultimately show ?thesis
    using mail0_proposal letter0_sent
    by (simp add: deliver_def adapter_send_def log_mail_def outbox_send_def write_file_def insert_outbox_def
        stripe_step_def tick_def Let_def world5_def result0_def str_or_none_def) (simp add: mail0_def)
qed

definition world6 :: world where
  "world6 = world5\<lparr>proposals := [proposal0\<lparr>pr_status := Executed\<rparr>],
     executions := [execution0\<lparr>ex_status := ExSucceeded, ex_result := Some result0\<rparr>],
     events := appended Gateway ''action.execution.succeeded'' ''proposal'' (uuid0 5)
       [(''execution_id'', PInt 1), (''result'', PDict result0), (''error'', PNone)] (events world5), ticks := 22\<rparr>"

lemma finish0: "finish env0 1 (uuid0 5) True result0 None world5 = Inr ((), world6)"
proof -
  have "executions world5 = [execution0]" "proposals world5 = [proposal0\<lparr>pr_status := Approved\<rparr>]"
    "ticks world5 = 20" "intact0 (events world5)"
    using worlds_ok(6) intact0_world [of world3] by (simp_all add: world5_def world4_def)
  then show ?thesis
    by (simp add: finish_def update_execution_def set_proposal_status_def update_proposal_def tick_def Let_def
        world6_def execution0_def str_or_none_def) 
qed

lemma execute0:
  "execute env0 io0 gs0 OutboxAdapter verified0 (tick world3) = (Inr (execution0, result0, False), world6)"
proof -
  have "ex_id execution0 = 1" by (simp add: execution0_def)
  then show ?thesis
    using claim0 deliver0 finish0
    by (simp add: execute_def session_scope_def finish_with_def)
qed

lemma adapter0: "build_adapter gs0 = Inr OutboxAdapter"
  by (simp add: build_adapter_outbox gs0_def)

lemma handle0:
  "handle_execute env0 io0 gs0 request0 world3 = (execute_response verified0 (execution0, result0, False), world6)"
proof -
  have "gs_signing_secret gs0 = secret0" by (simp add: gs0_def)
  then show ?thesis
    using verify0 [of "uuid0 13"] adapter0 execute0 secret0_long
    by (simp add: handle_execute_def execute_action_def require_signing_secret_def)
qed

end
