(* ===== verification/Witnesses.thy ===== *)
theory Witnesses
  imports Scenario
begin

text \<open>
  Each property with hypotheses, applied to the concrete runs of \<open>Scenario\<close>: its hypotheses hold
  there, so it says something.
\<close>

section \<open>The token\<close>


lemma decode_only_signed_witness:
  "\<exists>segment text v. token0 = segment @ ''.'' @ b64encode (hmac_sha256 env0 secret0 segment)
     \<and> b64decode segment = Inr text \<and> loads_bytes text = Inr v \<and> parse_claims env0 ''x'' v = Inr claims0"
  using decode_only_signed [OF decode0 [of "''x''"]] by simp

lemma decode_errors_witness:
  "decode env0 ''x'' None secret0 = Inl (MalformedToken ''no approval token supplied'')
   \<and> token_error (MalformedToken ''no approval token supplied'')"
proof -
  have d: "decode env0 ''x'' None secret0 = Inl (MalformedToken ''no approval token supplied'')"
    by (simp add: decode_def secret0_long)
  from decode_errors [OF d secret0_long(2)] d show ?thesis by simp
qed

section \<open>The audit log\<close>

definition event0 :: "world \<Rightarrow> exn + world" where
  "event0 w = append_event env0 System ''e'' ''t'' ''s'' [] w"

definition logged1 :: world where
  "logged1 = empty_world\<lparr>events := appended System ''e'' ''t'' ''s'' [] [], ticks := 1\<rparr>"

lemma logged1: "append_event env0 System ''e'' ''t'' ''s'' [] empty_world = Inr logged1"
  by (simp add: logged1_def empty_world_def)

lemma empty_intact: "cs_intact (verify_chain env empty_world)"
  by (simp add: verify_chain_def verify_rows_def empty_world_def)

lemma append_extends_chain_witness:
  "cs_intact (verify_chain env0 logged1) \<and> cs_length (verify_chain env0 logged1) = Suc 0"
  using append_extends_chain [OF empty_intact logged1]
  by (simp add: verify_chain_def verify_rows_def empty_world_def)

definition row1 :: audit_row where
  "row1 = next_row env0 None 0 System ''e'' ''t'' ''s'' []"

lemma logged1_events: "events logged1 = [row1]"
  by (simp add: logged1_def appended_def row1_def)

lemma row1_valid: "valid_row row1" "au_detail row1 = []" "au_event row1 = ''e''"
  by (simp_all add: valid_row_def row1_def)

lemma logged1_intact: "cs_intact (verify_chain env0 logged1)"
  by (rule append_keeps_intact [OF empty_intact logged1])

lemma verify_chain_exact_witness:
  "cs_length (verify_chain env0 logged1) = 1 \<and> cs_broken_at_id (verify_chain env0 logged1) = None"
  using verify_chain_exact [of logged1 env0] logged1_intact by (simp add: Let_def logged1_events)

lemma head_commits_to_chain_witness:
  "same_row row1 row1 \<or> collide env0 (row_payload row1) (row_payload row1)"
  using head_commits_to_chain [OF logged1_intact logged1_intact] row1_valid by (simp add: logged1_events)

lemma edited_row_is_reported_witness:
  "cs_broken_at_id (verify_chain env0 (logged1\<lparr>events := [row1\<lparr>au_event := ''f''\<rparr>]\<rparr>)) = Some 1"
proof -
  have "\<not> collide env0 v w" for v w by (simp add: collide_def env0_def)
  moreover have "\<not> same_row row1 (row1\<lparr>au_event := ''f''\<rparr>)" by (simp add: same_row_def row1_valid)
  moreover have "valid_row (row1\<lparr>au_event := ''f''\<rparr>)" using row1_valid by (simp add: valid_row_def)
  moreover have "au_id row1 = 1" by (simp add: row1_def next_row_def Let_def)
  ultimately show ?thesis
    using edited_row_is_reported [OF logged1_intact, of "[]" row1 "[]" "row1\<lparr>au_event := ''f''\<rparr>"] row1_valid
    by (simp add: logged1_events)
qed

lemma after_none: "append_after env0 None System ''e'' ''t'' ''s'' [] empty_world = Inr logged1"
proof -
  have "audit_tail empty_world = None" by (simp add: audit_tail_def empty_world_def)
  then show ?thesis using logged1 by (simp add: append_event_def)
qed

lemma no_fork_witness:
  "append_after env0 None Agent ''f'' ''t'' ''s'' [] logged1 = Inl (unique_failed ''audit_events.id'')"
  by (rule no_fork [OF after_none])

lemma lost_append_is_not_retried_witness:
  "run_in_transaction (\<lambda>n w. w) 6 6
      (\<lambda>v. and_then (append_after env0 None Agent ''f'' ''t'' ''s'' [] v) (\<lambda>v'. Inr ((), v'))) logged1
    = (Inl (unique_failed ''audit_events.id''), rolled_back logged1)"
  using lost_append_is_not_retried [OF after_none, of "\<lambda>n w. w" 6 5] by (simp add: numeral_eq_Suc)

text \<open>With a digest that maps everything to one byte, the second row collides with the first.\<close>

definition env1 :: env where
  "env1 = env0\<lparr>sha256 := (\<lambda>s. ''h'')\<rparr>"

definition crowded :: world where
  "crowded = empty_world\<lparr>events := [next_row env1 None 0 System ''e'' ''t'' ''s'' []], ticks := 1\<rparr>"

lemma crowded: "append_event env1 System ''e'' ''t'' ''s'' [] empty_world = Inr crowded"
  by (simp add: append_event_Inr Let_def crowded_def empty_world_def audit_tail_def now_utc_def env1_def env0_def tick_def)


section \<open>The gateway\<close>

lemma verify_iff_checks_pass_witness:
  "verify_execution_request env0 secret0 request0 ''x'' 0 world3 = Inr verified0
   \<and> check_passes env0 ''k1'' 0 claims0 world3 4 \<and> check_passes env0 ''k1'' 0 claims0 world3 6"
  using verify_iff_checks_pass [OF worlds_ok(3), THEN iffD1, OF verify0 [of "''x''"]] verify0 [of "''x''"]
    decode0 [of "''x''"]
  by (auto simp: check_cases request0_def strip_k1)

text \<open>The same request before the approval.\<close>

definition refusal0 :: api_error where
  "refusal0 = api_err (check_code 4) (''Proposal is in status '' @ [CHR 0x27] @ ''pending'' @ [CHR 0x27] @ ''.'') 403
     (refusal_extra 4 (passed_before 4) (Some (uuid0 5)) [(''proposal_status'', PStr ''pending'')])"

lemma world2_sel [simp]:
  "proposals world2 = [proposal0]" "approvals world2 = []" "executions world2 = []" "nonces world2 = []"
  "outbox world2 = []" "mails world2 = []" "ticks world2 = 7" "runs world2 = [run0]" "steps world2 = []"
  by (simp_all add: world2_def world1_def)

lemma refused0: "verify_execution_request env0 secret0 request0 fresh 0 world2 = Inl (ApiError refusal0)"
proof -
  have "request_key (Some ''k1'') = Inr ''k1''" using strip_k1 request_key_present [of "''k1''"] by simp
  moreover have "check_1 env0 secret0 fresh (Some token0) = Inr claims0" using decode0 by (simp add: check_1_def)
  ultimately show ?thesis
    by (simp add: verify_execution_request_def request0_def check_2_def is_expired_def to_epoch_def check_3_def
        check_4_def own_execution_def refuse_def refusal0_def)
qed


lemma gs0_secret [simp]: "gs_signing_secret gs0 = secret0"
  by (simp add: gs0_def)


lemma used_key_or_nonce_never_sends_witness:
  "\<exists>r w. handle_execute env0 io0 gs0 request0 world6 = (r, w) \<and> mails w = mails world6"
proof -
  obtain r w where h: "handle_execute env0 io0 gs0 request0 world6 = (r, w)"
    by (cases "handle_execute env0 io0 gs0 request0 world6")
  have "find_key (strip ''k1'') world6 \<noteq> None" by (simp add: world6_def execution0_def strip_k1)
  then show ?thesis using used_key_or_nonce_never_sends [OF h] h by (auto simp: request0_def)
qed


lemma execution_is_recorded_witness:
  "\<exists>row p. find_execution 1 world6 = Some row \<and> ex_status row = ExSucceeded
     \<and> find_proposal (uuid0 5) world6 = Some p \<and> pr_status p = Executed"
proof -
  have "wf_world (tick world3)" by simp
  from execution_is_recorded [OF this execute0] show ?thesis by (auto simp: execution0_def)
qed

lemma gateway_keeps_invariants_witness:
  "wf_world world6 \<and> cs_intact (verify_chain env0 world6) \<and> hashes_agree env0 world6"
  using gateway_keeps_invariants [OF worlds_ok(3) _ worlds_ok(9) handle0] worlds_ok(6)
  by (simp add: chain_intact_def)

section \<open>Decisions\<close>

lemma uuids0: "nonces w = [] \<Longrightarrow> uuids_ok env0 w"
  by (simp add: uuids_ok_def)

lemma approval_authorises_sending_witness:
  "\<exists>c v. decode env0 ''x'' (Some token0) secret0 = Inr c \<and> cl_approver c = ''op''
     \<and> verify_execution_request env0 secret0 request0 ''x'' 0 world3 = Inr v"
proof -
  have "is_ascii ''op''" "find_key (strip ''k1'') world3 = None" "strip ''k1'' \<noteq> []" by (simp_all add: strip_k1)
  with approval_authorises_sending [OF worlds_ok(2) env0_laws(3,2) uuids0 uuid0_ascii _ approve0, of request0 "''k1''" "''x''"]
  obtain c p where c: "decode env0 ''x'' (Some token0) secret0 = Inr c" "cl_approver c = ''op''"
    "find_proposal (uuid0 5) world3 = Some p"
    and v: "\<forall>at. to_epoch at < cl_exp c \<longrightarrow> at < pr_expires_at p \<longrightarrow>
      (\<exists>v. verify_execution_request env0 secret0 request0 ''x'' at world3 = Inr v \<and> vf_existing_execution v = None)"
    by (auto simp: request0_def)
  have "c = claims0" using c(1) decode0 [of "''x''"] by simp
  moreover have "0 < pr_expires_at p" using c(3) expires0 by auto
  moreover have "to_epoch 0 < 900" by (simp add: to_epoch_def)
  ultimately show ?thesis using v [rule_format, of 0] c(1,2) by auto
qed

lemma decided_is_final_witness:
  "\<exists>e1 e2 e3.
    session_scope (save_edit env0 (uuid0 5) ''no'' ''op'') world3 = (Inl e1, rolled_back world3)
    \<and> session_scope (reject_work env0 (uuid0 5) ''op'' ''no'') world3 = (Inl e2, rolled_back world3)
    \<and> session_scope (approve_work env0 as0 secret0 (uuid0 5) ''op'' None None) world3 = (Inl e3, rolled_back world3)"
  by (rule decided_is_final [of _ _ "proposal0\<lparr>pr_status := Approved\<rparr>"]) simp_all

text \<open>The letter edited after the token was minted.\<close>

lemma edited0: "\<exists>x w. save_edit env0 (uuid0 5) ''Pay now.'' ''op'' world2 = Inr (x, w)"
proof -
  have i: "intact0 (events world2)" using worlds_ok(5) intact0_world [of world2] by simp
  show ?thesis using i expires0
    by (simp add: save_edit_def expire_stale_proposals_def load_pending_def stale_def tick_def update_proposal_def Let_def)
qed

lemma edit_voids_old_tokens_witness:
  "\<exists>x w. save_edit env0 (uuid0 5) ''Pay now.'' ''op'' world2 = Inr (x, w)
     \<and> \<not> check_passes env0 ''k1'' 0 claims0 w 6"
proof -
  from edited0 obtain x w where e: "save_edit env0 (uuid0 5) ''Pay now.'' ''op'' world2 = Inr (x, w)" by blast
  have "\<not> collide env0 v u" for v u by (simp add: collide_def env0_def)
  moreover have "wf_pyval (PDict (pr_payload proposal0))" "dict_get ''body'' (pr_payload proposal0) \<noteq> PStr ''Pay now.''"
    by (simp_all add: letter0_def dict_get_def)
  moreover have "cl_payload_hash claims0 = pr_payload_hash proposal0" by (simp add: proposal0_def)
  ultimately show ?thesis
    using edit_voids_old_tokens [OF e, of proposal0 claims0 "''k1''" 0] e by auto
qed

lemma demonstration_never_sends_witness:
  "\<exists>r w. attempt_unapproved env0 io0 gs0 (\<lambda>n. Answered) as0 (uuid0 5) ''op'' world2 = (r, w) \<and> mails w = mails world2"
proof -
  obtain r w where a: "attempt_unapproved env0 io0 gs0 (\<lambda>n. Answered) as0 (uuid0 5) ''op'' world2 = (r, w)"
    by (cases "attempt_unapproved env0 io0 gs0 (\<lambda>n. Answered) as0 (uuid0 5) ''op'' world2")
  have "gs_signing_secret gs0 = as_signing_secret as0" by (simp add: as0_def)
  with demonstration_never_sends [OF worlds_ok(2) env0_laws(3,2) _ uuid0_ascii _ _ a] a show ?thesis by simp
qed

lemma lost_answer_is_misreported_witness:
  "\<exists>url. go_transport_error (fst (client_execute env0 io0 gs0 (\<lambda>n. AnswerLost ''ReadTimeout'') ''http://gateway''
        token0 (uuid0 5) ''h'' world3))
      = Some (url @ '' could not be reached ('' @ ''ReadTimeout'' @ ''). Nothing was sent.'')"
  using lost_answer_is_misreported [of "\<lambda>n. AnswerLost ''ReadTimeout''" world3 "''ReadTimeout''"] by blast

lemma decisions_keep_invariants_witness:
  "wf_world (snd (reject env0 (uuid0 5) ''op'' ''no'' world2))
   \<and> cs_intact (verify_chain env0 (snd (reject env0 (uuid0 5) ''op'' ''no'' world2)))
   \<and> hashes_agree env0 (snd (reject env0 (uuid0 5) ''op'' ''no'' world2))"
proof -
  have i: "cs_intact (verify_chain env0 world2)" using worlds_ok(5) by (simp add: chain_intact_def)
  show ?thesis by (rule decisions_keep_invariants [OF worlds_ok(2) i worlds_ok(8)]) blast
qed

section \<open>The boundary\<close>

definition delivered0 :: system where
  "delivered0 = \<lparr>sy_world = world5, sy_flight = [Delivered verified0 execution0 (Inr result0)], sy_sent = [(verified0, 1)]\<rparr>"

lemma reachable0: "reachable env0 io0 gs0 as0 delivered0"
proof -
  have "reachable env0 io0 gs0 as0 initial" by (rule reachable.start)
  then have "reachable env0 io0 gs0 as0 \<lparr>sy_world = world1, sy_flight = [], sy_sent = []\<rparr>"
    unfolding initial_def by (rule reachable.more) (rule step.app [OF app_step.run_created [OF start0]])
  then have "reachable env0 io0 gs0 as0 \<lparr>sy_world = world2, sy_flight = [], sy_sent = []\<rparr>"
    by (rule reachable.more) (rule step.app [OF app_step.proposed [OF propose0]])
  then have "reachable env0 io0 gs0 as0 \<lparr>sy_world = world3, sy_flight = [], sy_sent = []\<rparr>"
    by (rule reachable.more) (rule step.app [OF app_step.approved [OF approve0]])
  moreover have "step env0 io0 gs0 as0 \<lparr>sy_world = world3, sy_flight = [], sy_sent = []\<rparr>
      \<lparr>sy_world = tick world3, sy_flight = [] @ [Verified verified0 OutboxAdapter], sy_sent = []\<rparr>"
    by (rule step.arrive [where rq = request0]) (simp_all add: verify0 adapter0)
  ultimately have "reachable env0 io0 gs0 as0
      \<lparr>sy_world = tick world3, sy_flight = [] @ Verified verified0 OutboxAdapter # [], sy_sent = []\<rparr>"
    by (rule reachable.more)
  moreover have "session_scope (claim env0 verified0) (tick world3) = (Inr execution0, world4)"
    using claim0 by (simp add: session_scope_def)
  ultimately have "reachable env0 io0 gs0 as0
      \<lparr>sy_world = world4, sy_flight = [] @ Claimed verified0 OutboxAdapter execution0 # [], sy_sent = []\<rparr>"
    by (meson reachable.more step.claim)
  moreover have "ex_id execution0 = 1" by (simp add: execution0_def)
  moreover from this have "step env0 io0 gs0 as0
      \<lparr>sy_world = world4, sy_flight = [] @ Claimed verified0 OutboxAdapter execution0 # [], sy_sent = []\<rparr>
      \<lparr>sy_world = world5, sy_flight = [] @ Delivered verified0 execution0 (Inr result0) # [],
        sy_sent = (case letter verified0 (ex_id execution0) of Inl _ \<Rightarrow> [] | Inr _ \<Rightarrow> [] @ [(verified0, ex_id execution0)])\<rparr>"
    using deliver0 by (intro step.deliver) simp
  ultimately show ?thesis using letter0_sent unfolding delivered0_def by (auto dest: reachable.more)
qed



end
