(* ===== verification/Regex.thy ===== *)
theory Regex
  imports Json
begin

text \<open>
  What the program uses of Python's \<^verbatim>\<open>re\<close>. A pattern is run at a place in a text of code points and
  yields its matches in the order the backtracking matcher tries them, so that the first one is the
  match Python reports; \<open>search\<close> and \<open>find_all\<close> are \<^verbatim>\<open>re.search\<close> and \<^verbatim>\<open>re.finditer\<close>. The letters and
  digits outside ASCII are the Unicode database's; with the other facts of Python's libraries the
  letter checks ask for they are the record \<open>unicode\<close>, a parameter.
\<close>

section \<open>Code points\<close>

type_synonym cps = "nat list"

record unicode =
  uc_word :: "nat \<Rightarrow> bool"
  uc_digit :: "nat \<Rightarrow> bool"
  uc_nfkc_delimiters :: "string \<Rightarrow> bool"
  uc_bracket_ok :: "string \<Rightarrow> bool"
  uc_repr :: "pyval \<Rightarrow> string"

definition ascii_digit :: "nat \<Rightarrow> bool" where
  "ascii_digit n = (48 \<le> n \<and> n \<le> 57)"

definition ascii_upper_letter :: "nat \<Rightarrow> bool" where
  "ascii_upper_letter n = (65 \<le> n \<and> n \<le> 90)"

definition ascii_lower_letter :: "nat \<Rightarrow> bool" where
  "ascii_lower_letter n = (97 \<le> n \<and> n \<le> 122)"

text \<open>\<^verbatim>\<open>\w\<close>, \<^verbatim>\<open>\d\<close> and \<^verbatim>\<open>\s\<close>.\<close>

definition word_char :: "unicode \<Rightarrow> nat \<Rightarrow> bool" where
  "word_char u n =
     (if n < 128 then ascii_digit n \<or> ascii_upper_letter n \<or> ascii_lower_letter n \<or> n = 95 else uc_word u n)"

definition digit_char_class :: "unicode \<Rightarrow> nat \<Rightarrow> bool" where
  "digit_char_class u n = (if n < 128 then ascii_digit n else uc_digit u n)"

definition space_char :: "nat \<Rightarrow> bool" where
  "space_char n =
     (9 \<le> n \<and> n \<le> 13 \<or> 28 \<le> n \<and> n \<le> 32
      \<or> n \<in> {133, 160, 5760, 8232, 8233, 8239, 8287, 12288} \<or> 8192 \<le> n \<and> n \<le> 8202)"

text \<open>
  \<^verbatim>\<open>re.IGNORECASE\<close> against an ASCII letter of the pattern: the two cases, and the four code points
  outside ASCII that fold to one.
\<close>

definition fold_case :: "nat \<Rightarrow> nat" where
  "fold_case n =
     (if ascii_upper_letter n then n + 32
      else if n = 304 \<or> n = 305 then 105
      else if n = 383 then 115
      else if n = 8490 then 107
      else n)"

definition cps_of :: "string \<Rightarrow> cps" where
  "cps_of s = map byte_of s"

definition cps_text :: "cps \<Rightarrow> string" where
  "cps_text ns = concat (map utf8_encode ns)"

section \<open>Patterns\<close>

datatype pat =
    Empty
  | Cls "nat \<Rightarrow> bool"
  | Rep nat "nat option" "nat \<Rightarrow> bool"
  | Opt pat
  | Seq pat pat
  | Alt pat pat
  | Bound
  | NotAfter "nat \<Rightarrow> bool"
  | NotBefore pat

text \<open>A place: the text in front of it, backwards, and the text behind it.\<close>

type_synonym place = "cps \<times> cps"

definition shift :: "nat \<Rightarrow> place \<Rightarrow> place" where
  "shift k x = (rev (take k (snd x)) @ fst x, drop k (snd x))"

definition first_is :: "(nat \<Rightarrow> bool) \<Rightarrow> cps \<Rightarrow> bool" where
  "first_is P s = (s \<noteq> [] \<and> P (hd s))"

text \<open>\<^verbatim>\<open>\b\<close>: a word character on exactly one side.\<close>

definition at_boundary :: "(nat \<Rightarrow> bool) \<Rightarrow> place \<Rightarrow> bool" where
  "at_boundary w x = (first_is w (fst x) \<noteq> first_is w (snd x))"

text \<open>How many repetitions a greedy \<^verbatim>\<open>{lo,hi}\<close> tries, the most first.\<close>

definition tries :: "nat \<Rightarrow> nat option \<Rightarrow> nat \<Rightarrow> nat list" where
  "tries lo hi available =
     (let most = (case hi of None \<Rightarrow> available | Some h \<Rightarrow> min h available) in rev [lo..<Suc most])"

primrec run :: "(nat \<Rightarrow> bool) \<Rightarrow> pat \<Rightarrow> place \<Rightarrow> place list" where
  "run w Empty x = [x]"
| "run w (Cls P) x = (if first_is P (snd x) then [shift 1 x] else [])"
| "run w (Rep lo hi P) x = map (\<lambda>k. shift k x) (tries lo hi (length (takeWhile P (snd x))))"
| "run w (Opt p) x = run w p x @ [x]"
| "run w (Seq p q) x = concat (map (run w q) (run w p x))"
| "run w (Alt p q) x = run w p x @ run w q x"
| "run w Bound x = (if at_boundary w x then [x] else [])"
| "run w (NotAfter P) x = (if first_is P (fst x) then [] else [x])"
| "run w (NotBefore p) x = (if run w p x = [] then [x] else [])"

definition many1 :: "(nat \<Rightarrow> bool) \<Rightarrow> pat" where
  "many1 P = Rep 1 None P"

fun seqs :: "pat list \<Rightarrow> pat" where
  "seqs [] = Empty"
| "seqs (p # ps) = Seq p (seqs ps)"

fun alts :: "pat list \<Rightarrow> pat" where
  "alts [] = NotBefore Empty"
| "alts [p] = p"
| "alts (p # ps) = Alt p (alts ps)"

text \<open>A literal, exactly or with the case ignored.\<close>

definition lit :: "string \<Rightarrow> pat" where
  "lit s = seqs (map (\<lambda>c. Cls (\<lambda>n. n = byte_of c)) s)"

definition ilit :: "string \<Rightarrow> pat" where
  "ilit s = seqs (map (\<lambda>c. Cls (\<lambda>n. fold_case n = fold_case (byte_of c))) s)"

section \<open>Searching\<close>

text \<open>A match: the text matched, and the place behind it.\<close>

definition matched_at :: "(nat \<Rightarrow> bool) \<Rightarrow> pat \<Rightarrow> place \<Rightarrow> (cps \<times> place) option" where
  "matched_at w p x =
     (case run w p x of
        [] \<Rightarrow> None
      | y # _ \<Rightarrow> Some (take (length (snd x) - length (snd y)) (snd x), y))"

fun search_from :: "(nat \<Rightarrow> bool) \<Rightarrow> pat \<Rightarrow> cps \<Rightarrow> cps \<Rightarrow> (cps \<times> place) option" where
  "search_from w p b [] = matched_at w p (b, [])"
| "search_from w p b (c # s) =
     (case matched_at w p (b, c # s) of None \<Rightarrow> search_from w p (c # b) s | Some m \<Rightarrow> Some m)"

definition search :: "(nat \<Rightarrow> bool) \<Rightarrow> pat \<Rightarrow> cps \<Rightarrow> cps option" where
  "search w p s = map_option fst (search_from w p [] s)"

text \<open>
  \<^verbatim>\<open>finditer\<close> for a pattern that matches no empty text: the next search starts behind the match.
  Fuel bounds the number of matches; the length of the text is enough.
\<close>

fun find_from :: "nat \<Rightarrow> (nat \<Rightarrow> bool) \<Rightarrow> pat \<Rightarrow> place \<Rightarrow> cps list" where
  "find_from 0 w p x = []"
| "find_from (Suc k) w p x =
     (case search_from w p (fst x) (snd x) of
        None \<Rightarrow> []
      | Some (m, y) \<Rightarrow> m # find_from k w p y)"

definition find_all :: "(nat \<Rightarrow> bool) \<Rightarrow> pat \<Rightarrow> cps \<Rightarrow> cps list" where
  "find_all w p s = find_from (length s) w p ([], s)"

section \<open>What a pattern matches\<close>

lemma run_advances: "y \<in> set (run w p x) \<Longrightarrow> \<exists>k \<le> length (snd x). y = shift k x"
proof (induction p arbitrary: x y)
  case (Cls P)
  then show ?case by (intro exI [of _ 1]) (auto simp: first_is_def Suc_le_eq split: if_splits)
next
  case (Rep lo hi P)
  then obtain k where k: "k \<in> set (tries lo hi (length (takeWhile P (snd x))))" "y = shift k x" by auto
  then have "k \<le> length (takeWhile P (snd x))" by (auto simp: tries_def Let_def split: option.splits)
  also have "\<dots> \<le> length (snd x)" by (rule length_takeWhile_le)
  finally show ?case using k(2) by blast
next
  case (Opt p)
  then consider "y \<in> set (run w p x)" | "y = x" by auto
  then show ?case
  proof cases
    case 1
    then show ?thesis by (rule Opt.IH)
  next
    case 2
    then show ?thesis by (intro exI [of _ 0]) (simp add: shift_def)
  qed
next
  case (Seq p q)
  then obtain z where z: "z \<in> set (run w p x)" "y \<in> set (run w q z)" by auto
  from Seq.IH(1) [OF z(1)] obtain j where j: "j \<le> length (snd x)" "z = shift j x" by blast
  from Seq.IH(2) [OF z(2)] obtain k where k: "k \<le> length (snd z)" "y = shift k z" by blast
  have "shift k (shift j x) = shift (j + k) x"
    by (simp add: shift_def take_add add.commute)
  then show ?case using j k by (intro exI [of _ "j + k"]) (simp add: shift_def)
qed (auto simp: shift_def intro: exI [of _ 0] split: if_splits)

lemma run_splits:
  assumes "y \<in> set (run w p x)"
  shows "\<exists>m a. snd x = m @ a \<and> y = (rev m @ fst x, a)"
proof -
  from run_advances [OF assms] obtain k where "k \<le> length (snd x)" "y = shift k x" by blast
  then show ?thesis by (intro exI [of _ "take k (snd x)"] exI [of _ "drop k (snd x)"]) (simp add: shift_def)
qed

lemma matched_at_None: "matched_at w p x = None \<longleftrightarrow> run w p x = []"
  by (simp add: matched_at_def split: list.split)

lemma matched_at_Some:
  "matched_at w p (b, s) = Some (m, y) \<Longrightarrow>
   \<exists>a rest. s = m @ a \<and> y = (rev m @ b, a) \<and> run w p (b, s) = y # rest"
proof -
  assume h: "matched_at w p (b, s) = Some (m, y)"
  then obtain rest where r: "run w p (b, s) = y # rest" and m: "m = take (length s - length (snd y)) s"
    by (auto simp: matched_at_def split: list.splits)
  then obtain m' a where "s = m' @ a" "y = (rev m' @ b, a)" using run_splits [of y w p "(b, s)"] by auto
  with r m show ?thesis by auto
qed

lemma all_splits_Cons:
  "(\<forall>pre post. c # s = pre @ post \<longrightarrow> Q pre post) \<longleftrightarrow>
   Q [] (c # s) \<and> (\<forall>pre post. s = pre @ post \<longrightarrow> Q (c # pre) post)"
proof (intro iffI conjI allI impI)
  fix pre post
  assume h: "Q [] (c # s) \<and> (\<forall>pre post. s = pre @ post \<longrightarrow> Q (c # pre) post)" and "c # s = pre @ post"
  then show "Q pre post" by (cases pre) auto
qed auto

text \<open>A search finds the leftmost place where the pattern matches, or there is none.\<close>

lemma search_from_None:
  "search_from w p b s = None \<longleftrightarrow> (\<forall>pre post. s = pre @ post \<longrightarrow> run w p (rev pre @ b, post) = [])"
proof (induction s arbitrary: b)
  case Nil
  then show ?case by (simp add: matched_at_None)
next
  case (Cons c s)
  show ?case
  proof (cases "matched_at w p (b, c # s)")
    case None
    then have "search_from w p b (c # s) = search_from w p (c # b) s" by simp
    moreover have "run w p (b, c # s) = []" using None by (simp add: matched_at_None)
    then have "(\<forall>pre post. c # s = pre @ post \<longrightarrow> run w p (rev pre @ b, post) = [])
        \<longleftrightarrow> (\<forall>pre post. s = pre @ post \<longrightarrow> run w p (rev pre @ c # b, post) = [])"
      using all_splits_Cons [of c s "\<lambda>pre post. run w p (rev pre @ b, post) = []"] by simp
    ultimately show ?thesis using Cons.IH [of "c # b"] by simp
  next
    case (Some r)
    then have "run w p (rev [] @ b, c # s) \<noteq> []" using matched_at_None [of w p "(b, c # s)"] by simp
    with Some show ?thesis by (metis append_Nil option.distinct(1) option.simps(5) search_from.simps(2))
  qed
qed

lemma search_from_Some:
  "search_from w p b s = Some (m, y) \<Longrightarrow>
   \<exists>pre a rest. s = pre @ m @ a \<and> y = (rev m @ rev pre @ b, a) \<and> run w p (rev pre @ b, m @ a) = y # rest
     \<and> (\<forall>pre' post. s = pre' @ post \<longrightarrow> length pre' < length pre \<longrightarrow> run w p (rev pre' @ b, post) = [])"
proof (induction s arbitrary: b)
  case Nil
  then obtain a rest where r: "[] = m @ a" "y = (rev m @ b, a)" "run w p (b, []) = y # rest"
    using matched_at_Some [of w p b "[]" m y] by auto
  then have "m = []" "a = []" by simp_all
  with r show ?case by (intro exI [of _ "[]"] exI [of _ a] exI [of _ rest]) simp
next
  case (Cons c s)
  show ?case
  proof (cases "matched_at w p (b, c # s)")
    case None
    with Cons.prems have "search_from w p (c # b) s = Some (m, y)" by simp
    from Cons.IH [OF this] obtain pre a rest where r: "s = pre @ m @ a" "y = (rev m @ rev pre @ c # b, a)"
      "run w p (rev pre @ c # b, m @ a) = y # rest"
      and least: "\<forall>pre' post. s = pre' @ post \<longrightarrow> length pre' < length pre \<longrightarrow> run w p (rev pre' @ c # b, post) = []"
      by blast
    have "run w p (rev pre' @ b, post) = []" if "c # s = pre' @ post" "length pre' < Suc (length pre)" for pre' post
      using that None least matched_at_None [of w p "(b, c # s)"] by (cases pre') auto
    with r show ?thesis by (intro exI [of _ "c # pre"] exI [of _ a] exI [of _ rest]) simp
  next
    case (Some r)
    with Cons.prems have "matched_at w p (b, c # s) = Some (m, y)" by simp
    from matched_at_Some [OF this] obtain a rest where "c # s = m @ a" "y = (rev m @ b, a)"
      "run w p (b, c # s) = y # rest" by blast
    then show ?thesis by (intro exI [of _ "[]"] exI [of _ a] exI [of _ rest]) simp
  qed
qed

lemma search_None:
  "search w p s = None \<longleftrightarrow> (\<forall>pre post. s = pre @ post \<longrightarrow> run w p (rev pre, post) = [])"
  using search_from_None [of w p "[]" s] by (simp add: search_def)

lemma search_Some:
  assumes "search w p s = Some m"
  shows "\<exists>pre a. s = pre @ m @ a \<and> (rev m @ rev pre, a) \<in> set (run w p (rev pre, m @ a))"
proof -
  from assms obtain y where "search_from w p [] s = Some (m, y)" by (auto simp: search_def)
  from search_from_Some [OF this] show ?thesis by fastforce
qed

text \<open>Every match of \<open>find_all\<close> is a match at some place.\<close>

lemma find_from_sound:
  "m \<in> set (find_from k w p (b, s)) \<Longrightarrow>
   \<exists>pre a. s = pre @ m @ a \<and> (rev m @ rev pre @ b, a) \<in> set (run w p (rev pre @ b, m @ a))"
proof (induction k arbitrary: b s)
  case 0
  then show ?case by simp
next
  case (Suc k)
  then obtain r where "search_from w p b s = Some r" by (cases "search_from w p b s") auto
  moreover obtain m0 y where "r = (m0, y)" by (cases r)
  ultimately have f: "search_from w p b s = Some (m0, y)" by simp
  with Suc.prems have m: "m = m0 \<or> m \<in> set (find_from k w p y)" by simp
  from search_from_Some [OF f] obtain pre a rest where r: "s = pre @ m0 @ a" "y = (rev m0 @ rev pre @ b, a)"
    "run w p (rev pre @ b, m0 @ a) = y # rest" by blast
  show ?case
  proof (cases "m = m0")
    case True
    with r show ?thesis by (intro exI [of _ pre] exI [of _ a]) simp
  next
    case False
    with m r have "m \<in> set (find_from k w p (rev m0 @ rev pre @ b, a))" by simp
    from Suc.IH [OF this] obtain pre' a' where "a = pre' @ m @ a'"
      "(rev m @ rev pre' @ rev m0 @ rev pre @ b, a') \<in> set (run w p (rev pre' @ rev m0 @ rev pre @ b, m @ a'))" by blast
    with r show ?thesis by (intro exI [of _ "pre @ m0 @ pre'"] exI [of _ a']) simp
  qed
qed

lemma find_all_sound:
  "m \<in> set (find_all w p s) \<Longrightarrow> \<exists>pre a. s = pre @ m @ a \<and> (rev m @ rev pre, a) \<in> set (run w p (rev pre, m @ a))"
  unfolding find_all_def using find_from_sound [of m "length s" w p "[]" s] by simp

text \<open>
  A place where the pattern matches is found, when no match that starts in front of it reaches over it
  and no match is empty.
\<close>

lemma find_from_complete:
  assumes "\<And>x y. y \<in> set (run w p x) \<Longrightarrow> length (snd y) < length (snd x)"
    and "\<And>pre m a. s = pre @ m @ a \<Longrightarrow> length pre < length before \<Longrightarrow>
        (rev m @ rev pre @ b, a) \<in> set (run w p (rev pre @ b, m @ a)) \<Longrightarrow> length (pre @ m) \<le> length before"
    and "s = before @ post" and "matched_at w p (rev before @ b, post) = Some (m, y)" and "length s \<le> k"
  shows "m \<in> set (find_from k w p (b, s))"
  using assms(2-)
proof (induction k arbitrary: b s before)
  case 0
  then have "post = []" "before = []" by simp_all
  with 0 have "run w p (b, []) \<noteq> []" using matched_at_None [of w p "(b, [])"] by auto
  then obtain z where "z \<in> set (run w p (b, []))" by (cases "run w p (b, [])") auto
  with assms(1) [of z "(b, [])"] show ?case by simp
next
  case (Suc k)
  have run: "run w p (rev before @ b, post) \<noteq> []"
    using Suc.prems(3) matched_at_None [of w p "(rev before @ b, post)"] by auto
  then have "search_from w p b s \<noteq> None" using Suc.prems(2) by (auto simp: search_from_None)
  then obtain m0 y0 where f: "search_from w p b s = Some (m0, y0)" by auto
  from search_from_Some [OF f] obtain pre a rest where r: "s = pre @ m0 @ a" "y0 = (rev m0 @ rev pre @ b, a)"
      "run w p (rev pre @ b, m0 @ a) = y0 # rest"
    and least: "\<forall>pre' post. s = pre' @ post \<longrightarrow> length pre' < length pre \<longrightarrow> run w p (rev pre' @ b, post) = []"
    by blast
  have le: "length pre \<le> length before"
  proof (rule leI, rule notI)
    assume "length before < length pre"
    with least Suc.prems(2) have "run w p (rev before @ b, post) = []" by blast
    with run show False by simp
  qed
  show ?case
  proof (cases "length pre = length before")
    case True
    then have "pre = before" "m0 @ a = post" using r(1) Suc.prems(2) by auto
    then have "m = m0" using Suc.prems(3) r by (auto simp: matched_at_def)
    then show ?thesis using f by simp
  next
    case False
    then have lt: "length pre < length before" using le by simp
    have over: "length (pre @ m0) \<le> length before"
      using Suc.prems(1) [OF r(1) lt] r by simp
    then obtain gap where gap: "before = pre @ m0 @ gap"
      using r(1) Suc.prems(2) by (metis append.assoc append_eq_append_conv_if append_take_drop_id)
    then have a: "a = gap @ post" using r(1) Suc.prems(2) by simp
    have "length a < length (m0 @ a)" using assms(1) [of y0 "(rev pre @ b, m0 @ a)"] r by simp
    then have k: "length a \<le> k" using Suc.prems(4) r(1) by (cases m0) simp_all
    have "m \<in> set (find_from k w p (rev m0 @ rev pre @ b, a))"
    proof (rule Suc.IH [of a gap])
      show "length (pre' @ m') \<le> length gap"
        if "a = pre' @ m' @ a'" "length pre' < length gap"
          "(rev m' @ rev pre' @ rev m0 @ rev pre @ b, a') \<in> set (run w p (rev pre' @ rev m0 @ rev pre @ b, m' @ a'))"
        for pre' m' a'
        using Suc.prems(1) [of "pre @ m0 @ pre'" m' a'] that r(1) gap by simp
      show "matched_at w p (rev gap @ rev m0 @ rev pre @ b, post) = Some (m, y)"
        using Suc.prems(3) gap by simp
    qed (use a k in simp_all)
    then show ?thesis using f r(2) by simp
  qed
qed

section \<open>Literals\<close>

lemma run_classes:
  "run w (seqs (map (\<lambda>c. Cls (f c)) t)) x =
     (if length t \<le> length (snd x) \<and> list_all2 f t (take (length t) (snd x)) then [shift (length t) x] else [])"
proof (induction t arbitrary: x)
  case Nil
  then show ?case by (simp add: shift_def)
next
  case (Cons c t)
  obtain b s where x: "x = (b, s)" by (cases x)
  show ?case
  proof (cases s)
    case Nil
    then show ?thesis by (simp add: x first_is_def)
  next
    case s: (Cons d r)
    show ?thesis using Cons.IH [of "(d # b, r)"] by (simp add: x s first_is_def shift_def)
  qed
qed

lemma length_cps_of [simp]: "length (cps_of t) = length t"
  by (simp add: cps_of_def)

lemma run_lit: "run w (lit t) (b, s) = (if prefix (cps_of t) s then [(rev (cps_of t) @ b, drop (length t) s)] else [])"
proof -
  have "list_all2 (\<lambda>c n. n = byte_of c) t (take (length t) s) \<longleftrightarrow> take (length t) s = cps_of t" if "length t \<le> length s"
    using that by (auto simp: list_all2_conv_all_nth cps_of_def list_eq_iff_nth_eq)
  then have "length t \<le> length s \<and> list_all2 (\<lambda>c n. n = byte_of c) t (take (length t) s)
      \<longleftrightarrow> prefix (cps_of t) s"
    by (auto simp: prefix_def) (metis append_take_drop_id)
  then show ?thesis unfolding lit_def run_classes by (auto simp: shift_def prefix_def)
qed

text \<open>\<open>same_letters t m\<close>: the text \<open>m\<close> spells \<open>t\<close>, whatever the case.\<close>

definition same_letters :: "string \<Rightarrow> cps \<Rightarrow> bool" where
  "same_letters t m = (map fold_case m = map fold_case (cps_of t))"

lemma run_ilit:
  "run w (ilit t) (b, s) =
     (if length t \<le> length s \<and> same_letters t (take (length t) s) then [shift (length t) (b, s)] else [])"
proof -
  have "list_all2 (\<lambda>c n. fold_case n = fold_case (byte_of c)) t (take (length t) s)
      \<longleftrightarrow> same_letters t (take (length t) s)" if "length t \<le> length s"
    using that by (auto simp: list_all2_conv_all_nth same_letters_def cps_of_def list_eq_iff_nth_eq)
  then show ?thesis unfolding ilit_def run_classes by simp
qed

lemma run_alts: "ps \<noteq> [] \<Longrightarrow> run w (alts ps) x = concat (map (\<lambda>p. run w p x) ps)"
  by (induction ps rule: alts.induct) auto


text \<open>A repetition matches between \<open>lo\<close> and \<open>hi\<close> characters of its class, the most first.\<close>

lemma run_rep:
  assumes "y \<in> set (run w (Rep lo hi P) (b, s))"
  shows "\<exists>m a. s = m @ a \<and> y = (rev m @ b, a) \<and> list_all P m \<and> lo \<le> length m \<and> (\<forall>h. hi = Some h \<longrightarrow> length m \<le> h)"
proof -
  from assms obtain k where k: "k \<in> set (tries lo hi (length (takeWhile P s)))" "y = shift k (b, s)" by auto
  then have lo: "lo \<le> k" and le: "k \<le> length (takeWhile P s)" and hi: "\<forall>h. hi = Some h \<longrightarrow> k \<le> h"
    by (auto simp: tries_def Let_def split: option.splits)
  have "take k s = take k (takeWhile P s)" using le by (subst takeWhile_eq_take) (simp add: min_absorb1)
  then have "list_all P (take k s)" by (auto simp: list_all_iff dest: in_set_takeD set_takeWhileD)
  moreover have "length (take k s) = k" using le length_takeWhile_le [of P s] by simp
  ultimately show ?thesis using k(2) lo hi
    by (intro exI [of _ "take k s"] exI [of _ "drop k s"]) (simp add: shift_def)
qed

lemma run_many1_first:
  assumes "list_all P m" and "m \<noteq> []" and "\<not> first_is P a"
  shows "\<exists>rest. run w (many1 P) (b, m @ a) = (rev m @ b, a) # rest"
proof -
  have "takeWhile P (m @ a) = m"
    using assms(1,3) by (cases a) (auto simp: list_all_iff first_is_def takeWhile_append)
  moreover have "tries 1 None (length m) = length m # rev [1..<length m]"
    using assms(2) by (cases m) (simp_all add: tries_def)
  ultimately show ?thesis by (simp add: many1_def shift_def)
qed


section \<open>What a pattern can match, read off its shape\<close>

text \<open>Every character the pattern can consume satisfies \<open>Q\<close>; the pattern consumes at least one.\<close>

primrec draws :: "(nat \<Rightarrow> bool) \<Rightarrow> pat \<Rightarrow> bool" where
  "draws Q Empty = True"
| "draws Q (Cls P) = (\<forall>n. P n \<longrightarrow> Q n)"
| "draws Q (Rep lo hi P) = (\<forall>n. P n \<longrightarrow> Q n)"
| "draws Q (Opt p) = draws Q p"
| "draws Q (Seq p q) = (draws Q p \<and> draws Q q)"
| "draws Q (Alt p q) = (draws Q p \<and> draws Q q)"
| "draws Q Bound = True"
| "draws Q (NotAfter P) = True"
| "draws Q (NotBefore p) = True"

primrec eats :: "pat \<Rightarrow> bool" where
  "eats Empty = False"
| "eats (Cls P) = True"
| "eats (Rep lo hi P) = (0 < lo)"
| "eats (Opt p) = False"
| "eats (Seq p q) = (eats p \<or> eats q)"
| "eats (Alt p q) = (eats p \<and> eats q)"
| "eats Bound = False"
| "eats (NotAfter P) = False"
| "eats (NotBefore p) = False"

lemma run_draws:
  "draws Q p \<Longrightarrow> y \<in> set (run w p (b, s)) \<Longrightarrow> \<exists>m a. s = m @ a \<and> y = (rev m @ b, a) \<and> list_all Q m"
proof (induction p arbitrary: b s y)
  case (Cls P)
  then show ?case by (cases s) (auto simp: first_is_def shift_def split: if_splits)
next
  case (Rep lo hi P)
  from run_rep [OF Rep.prems(2)] Rep.prems(1) show ?case by (auto simp: list_all_iff)
next
  case (Opt p)
  then consider "y \<in> set (run w p (b, s))" | "y = (b, s)" by auto
  then show ?case by cases (use Opt in \<open>auto intro: exI [of _ "[]"]\<close>)
next
  case (Seq p q)
  then obtain z where z: "z \<in> set (run w p (b, s))" "y \<in> set (run w q z)" by auto
  from Seq.IH(1) [OF _ z(1)] Seq.prems obtain m a where m: "s = m @ a" "z = (rev m @ b, a)" "list_all Q m" by auto
  from Seq.IH(2) [of y "rev m @ b" a] Seq.prems z(2) m(2) obtain m' a' where
    "a = m' @ a'" "y = (rev m' @ rev m @ b, a')" "list_all Q m'" by auto
  with m show ?case by (intro exI [of _ "m @ m'"] exI [of _ a']) simp
qed (auto intro: exI [of _ "[]"] split: if_splits)

lemma run_shrinks: "y \<in> set (run w p x) \<Longrightarrow> length (snd y) \<le> length (snd x)"
  using run_advances [of y w p x] by (auto simp: shift_def)

lemma run_eats: "eats p \<Longrightarrow> y \<in> set (run w p x) \<Longrightarrow> length (snd y) < length (snd x)"
proof (induction p arbitrary: x y)
  case (Cls P)
  then show ?case by (cases "snd x") (auto simp: first_is_def shift_def split: if_splits)
next
  case (Rep lo hi P)
  then show ?case using run_rep [of y w lo hi P "fst x" "snd x"] by auto
next
  case (Seq p q)
  then obtain z where "z \<in> set (run w p x)" "y \<in> set (run w q z)" by auto
  then show ?case using Seq run_shrinks [of z w p x] run_shrinks [of y w q z] by fastforce
qed auto

lemma run_Seq_first: "run w p x = y # ys \<Longrightarrow> run w q y = z # zs \<Longrightarrow> \<exists>rest. run w (Seq p q) x = z # rest"
  by simp

end
