(* ===== verification/Guardrails.thy ===== *)
theory Guardrails
  imports Regex Money Store
begin

text \<open>
  \<^verbatim>\<open>app/agent/guardrails.py\<close>: what a letter may not say, what it must say, and the figures it may use.
  The lemmas turn the regular expressions into statements about the letter's text: an accepted letter
  contains no forbidden phrase as whole words in any case, contains the facts it was built from, and no
  amount, link or raw minor-unit figure that was not retrieved.
\<close>

section \<open>Forbidden claims\<close>

record forbidden =
  fb_code :: string
  fb_phrases :: "string list"
  fb_why :: string

definition forbidden_patterns :: "forbidden list" where
  "forbidden_patterns =
     [\<lparr>fb_code = ''legal_action'',
       fb_phrases = [''legal action'', ''legal proceedings'', ''lawsuit'', ''litigation'',
         ''sue you'', ''we will sue'', ''take you to court'', ''court action'', ''small claims'',
         ''statutory demand'', ''writ'', ''our attorney'', ''our solicitor'', ''our lawyers'',
         ''our legal team'', ''judgment against''],
       fb_why = ''Section 8 forbids threats of legal action. State the balance and ask for a pay''
         @ ''ment date instead.''\<rparr>,
      \<lparr>fb_code = ''credit_reporting'',
       fb_phrases = [''credit bureau'', ''credit bureaux'', ''credit report'',
         ''credit reporting'', ''credit rating'', ''credit score'', ''credit file'',
         ''credit reference agency'', ''blacklist'', ''blacklisted'', ''default notice'',
         ''adverse credit''],
       fb_why = ''Section 8 forbids any claim about credit reporting. Nothing in this system is ''
         @ ''authorised to report anything to anyone.''\<rparr>,
      \<lparr>fb_code = ''collection_escalation'',
       fb_phrases = [''collection agency'', ''collections agency'', ''debt collector'',
         ''debt collection agency'', ''recovery agent'', ''bailiff'', ''repossess'',
         ''repossession''],
       fb_why = ''Section 8 forbids threatening a consequence the client has not authorised. Ref''
         @ ''erral to a third party is such a consequence.''\<rparr>,
      \<lparr>fb_code = ''fees_or_interest'',
       fb_phrases = [''late fee'', ''late fees'', ''late charge'', ''late charges'',
         ''interest will'', ''interest charges'', ''interest accrues'', ''interest accrued'',
         ''accrue interest'', ''penalty fee'', ''penalty charge'', ''penalties will'',
         ''surcharge'', ''administration fee'', ''admin fee'', ''1.5% per month'', ''per annum''],
       fb_why = ''Section 8 forbids any claim about fees or interest not present in the Stripe d''
         @ ''ata. No fee or interest figure exists anywhere in this system's data, so any s''
         @ ''uch claim is invented.''\<rparr>,
      \<lparr>fb_code = ''service_threat'',
       fb_phrases = [''suspend your account'', ''suspend service'', ''terminate your account'',
         ''terminate the contract'', ''withdraw credit'', ''stop supply'', ''cease supply'',
         ''cut off''],
       fb_why = ''Section 8 forbids threatening a consequence the client has not authorised. Sus''
         @ ''pension or termination is not ours to promise.''\<rparr>]"

record violation =
  vl_code :: string
  vl_matched :: string
  vl_why :: string

definition violation_dict :: "violation \<Rightarrow> pydict" where
  "violation_dict v =
     [(''code'', PStr (vl_code v)), (''matched'', PStr (vl_matched v)), (''why'', PStr (vl_why v))]"

text \<open>Word-boundary alternation, case-insensitive.\<close>

definition phrase :: "string list \<Rightarrow> pat" where
  "phrase alternatives = Seq Bound (Seq (alts (map ilit alternatives)) Bound)"

definition forbidden_in :: "unicode \<Rightarrow> string \<Rightarrow> forbidden \<Rightarrow> violation list" where
  "forbidden_in u text rule =
     (case search (word_char u) (phrase (fb_phrases rule)) (codepoints text) of
        None \<Rightarrow> []
      | Some m \<Rightarrow> [\<lparr>vl_code = fb_code rule, vl_matched = cps_text m, vl_why = fb_why rule\<rparr>])"

definition find_forbidden_claims :: "unicode \<Rightarrow> string list \<Rightarrow> violation list" where
  "find_forbidden_claims u texts =
     concat (map (\<lambda>text. if text = [] then [] else concat (map (forbidden_in u text) forbidden_patterns)) texts)"

section \<open>Payment links\<close>

definition url_char :: "nat \<Rightarrow> bool" where
  "url_char n = (\<not> space_char n \<and> n \<notin> {60, 62, 41, 93, 34, 39})"

definition url_pattern :: pat where
  "url_pattern = seqs [lit ''http'', Opt (lit ''s''), lit ''://'', many1 url_char]"

definition found_urls :: "unicode \<Rightarrow> string \<Rightarrow> string list" where
  "found_urls u text = map cps_text (find_all (word_char u) url_pattern (codepoints text))"

definition STABLE_LINK_PREFIX :: nat where
  "STABLE_LINK_PREFIX = 120"

text \<open>
  \<^verbatim>\<open>urlsplit\<close> up to the query, which is all the identity of a link uses: scheme, host and path. An
  unpaired bracket in the host raises, and so does a bracketed host that is no address and a host
  whose compatibility form has a delimiter.
\<close>

definition scheme_char :: "char \<Rightarrow> bool" where
  "scheme_char c = (is_letter c \<or> is_digit c \<or> c \<in> {CHR ''+'', CHR ''-'', CHR ''.''})"

definition clean_url :: "string \<Rightarrow> string" where
  "clean_url s =
     filter (\<lambda>c. byte_of c \<notin> {9, 10, 13}) (dropWhile (\<lambda>c. byte_of c \<le> 32) s)"

definition split_scheme :: "string \<Rightarrow> string \<times> string" where
  "split_scheme s =
     (let head = takeWhile (\<lambda>c. c \<noteq> CHR '':'') s in
      if head \<noteq> s \<and> head \<noteq> [] \<and> is_letter (hd head) \<and> list_all scheme_char head
      then (map ascii_lower head, drop (Suc (length head)) s) else ([], s))"

definition netloc_end :: "char \<Rightarrow> bool" where
  "netloc_end c = (c = CHR ''/'' \<or> c = CHR ''?'' \<or> c = CHR ''#'')"

definition split_netloc :: "string \<Rightarrow> string \<times> string" where
  "split_netloc s =
     (if prefix ''//'' s
      then (takeWhile (\<lambda>c. \<not> netloc_end c) (drop 2 s), dropWhile (\<lambda>c. \<not> netloc_end c) (drop 2 s))
      else ([], s))"

definition bracketed_host :: "string \<Rightarrow> string" where
  "bracketed_host netloc =
     takeWhile (\<lambda>c. c \<noteq> CHR '']'') (drop 1 (dropWhile (\<lambda>c. c \<noteq> CHR ''['') netloc))"

definition check_netloc :: "unicode \<Rightarrow> string \<Rightarrow> exn + unit" where
  "check_netloc u netloc =
     raise_if ((CHR ''['' \<in> set netloc) \<noteq> (CHR '']'' \<in> set netloc)) (ValueError ''Invalid IPv6 URL'')
    (raise_if (CHR ''['' \<in> set netloc \<and> \<not> uc_bracket_ok u (bracketed_host netloc))
       (ValueError ''Invalid IPv6 URL'')
    (raise_if (\<not> is_ascii netloc \<and> uc_nfkc_delimiters u netloc)
       (ValueError ''netloc contains invalid characters under NFKC normalization'') (Inr ())))"

definition urlsplit :: "unicode \<Rightarrow> string \<Rightarrow> exn + string \<times> string \<times> string" where
  "urlsplit u url =
     (case split_scheme (clean_url url) of (scheme, rest) \<Rightarrow>
      case split_netloc rest of (netloc, tail) \<Rightarrow>
        and_then (check_netloc u netloc) (\<lambda>_.
        Inr (scheme, netloc, takeWhile (\<lambda>c. c \<noteq> CHR ''#'' \<and> c \<noteq> CHR ''?'') tail)))"

definition link_trail :: "char \<Rightarrow> bool" where
  "link_trail c = (c \<in> set ''.,;:!?)]}'' \<or> byte_of c = 34 \<or> byte_of c = 39)"

definition link_identity :: "unicode \<Rightarrow> string \<Rightarrow> exn + string" where
  "link_identity u url =
     and_then (urlsplit u (rev (dropWhile link_trail (rev url)))) (\<lambda>(scheme, netloc, path).
     Inr (py_take STABLE_LINK_PREFIX (scheme @ ''://'' @ netloc @ path)))"

definition links_match :: "unicode \<Rightarrow> string \<Rightarrow> string \<Rightarrow> exn + bool" where
  "links_match u candidate retrieved =
     (if candidate = [] \<or> retrieved = [] then Inr False
      else and_then (link_identity u candidate) (\<lambda>a. and_then (link_identity u retrieved) (\<lambda>b. Inr (a = b))))"

text \<open>\<^verbatim>\<open>any(...)\<close>: the first true one ends it, an exception in front of it leaves it.\<close>

fun any_of :: "('x \<Rightarrow> exn + bool) \<Rightarrow> 'x list \<Rightarrow> exn + bool" where
  "any_of f [] = Inr False"
| "any_of f (x # xs) = and_then (f x) (\<lambda>b. if b then Inr True else any_of f xs)"

section \<open>Python values in a letter\<close>

definition py_str :: "unicode \<Rightarrow> pyval \<Rightarrow> string" where
  "py_str u v =
     (case v of PStr s \<Rightarrow> s | PInt i \<Rightarrow> int_str i | PNone \<Rightarrow> ''None''
      | PBool b \<Rightarrow> if b then ''True'' else ''False'' | _ \<Rightarrow> uc_repr u v)"

text \<open>
  \<^verbatim>\<open>int(v)\<close>. A string is read as a decimal number with an optional sign, white space around it and
  single underscores between digits; digits outside ASCII are not modelled.
\<close>

fun digits_ok :: "string \<Rightarrow> bool" where
  "digits_ok [] = False"
| "digits_ok [c] = is_digit c"
| "digits_ok (c # d # s) =
     (is_digit c \<and> (if d = CHR ''_'' then digits_ok s else digits_ok (d # s)))"

definition int_of_text :: "string \<Rightarrow> int option" where
  "int_of_text s =
     (let t = strip s; signed = (t \<noteq> [] \<and> hd t \<in> {CHR ''+'', CHR ''-''});
          body = (if signed then tl t else t); n = int (read_digits (filter is_digit body))
      in if \<not> digits_ok body then None else Some (if signed \<and> hd t = CHR ''-'' then - n else n))"

definition py_int :: "pyval \<Rightarrow> exn + int" where
  "py_int v =
     (case v of PInt i \<Rightarrow> Inr i | PBool b \<Rightarrow> Inr (if b then 1 else 0)
      | PStr s \<Rightarrow> (case int_of_text s of Some i \<Rightarrow> Inr i
                   | None \<Rightarrow> Inl (ValueError ''invalid literal for int() with base 10''))
      | _ \<Rightarrow> Inl (TypeError ''int() argument must be a string, a bytes-like object or a real number''))"

section \<open>Required facts\<close>

definition local_char :: "unicode \<Rightarrow> nat \<Rightarrow> bool" where
  "local_char u n = (word_char u n \<or> n \<in> {46, 43, 45})"

definition email_pattern :: "unicode \<Rightarrow> pat" where
  "email_pattern u =
     seqs [many1 (local_char u), lit ''@'', many1 (\<lambda>n. word_char u n \<or> n = 45), lit ''.'',
       many1 (\<lambda>n. word_char u n \<or> n = 46)]"

definition dispute_phrases :: "string list" where
  "dispute_phrases =
     [''reply to this email'', ''reply to this e-mail'', ''reply to this message'', ''reply directly'',
      ''respond to this email'', ''respond to this e-mail'', ''respond to this message'', ''contact us'',
      ''get in touch'', ''let us know'', ''raise a query'', ''in error'']"

definition dispute_route :: "unicode \<Rightarrow> pat" where
  "dispute_route u = alts (map ilit dispute_phrases @ [email_pattern u])"

subsection \<open>Dates\<close>

definition month_names :: "string list" where
  "month_names =
     [''January'', ''February'', ''March'', ''April'', ''May'', ''June'', ''July'', ''August'',
      ''September'', ''October'', ''November'', ''December'']"

text \<open>The weekday of the first of January, Monday being 0, and the first Monday of the ISO year.\<close>

definition jan_1_weekday :: "nat \<Rightarrow> nat" where
  "jan_1_weekday y =
     (let p = y - 1 in (365 * p + p div 4 - p div 100 + p div 400) mod 7)"

definition week_1_offset :: "nat \<Rightarrow> int" where
  "week_1_offset y =
     (let w = int (jan_1_weekday y) in if 3 < w then 7 - w else - w)"

definition week_exists :: "nat \<Rightarrow> nat \<Rightarrow> bool" where
  "week_exists y week =
     (1 \<le> week \<and> week \<le> 52
      \<or> week = 53 \<and> (jan_1_weekday y = 3 \<or> jan_1_weekday y = 2 \<and> leap y))"

definition date_of_week :: "nat \<Rightarrow> nat \<Rightarrow> nat \<Rightarrow> (nat \<times> nat \<times> nat) option" where
  "date_of_week y week day =
     (if y < 1 \<or> 9999 < y \<or> \<not> week_exists y week \<or> day < 1 \<or> 7 < day then None
      else let offset = week_1_offset y + (int week - 1) * 7 + (int day - 1) in
        if offset < 0 then (if y = 1 then None else Some (y - 1, 12, nat (32 + offset)))
        else if int (days_in_year y) \<le> offset
          then (if y = 9999 then None else Some (y + 1, 1, nat (offset - int (days_in_year y)) + 1))
        else case month_of_days (month_lengths y) 1 (nat offset) of (m, d) \<Rightarrow> Some (y, m, Suc d))"

definition valid_date :: "nat \<times> nat \<times> nat \<Rightarrow> (nat \<times> nat \<times> nat) option" where
  "valid_date c =
     (case c of (y, m, d) \<Rightarrow>
        if 1 \<le> y \<and> 1 \<le> m \<and> m \<le> 12 \<and> 1 \<le> d \<and> d \<le> month_lengths y ! (m - 1) then Some c else None)"

text \<open>
  \<^verbatim>\<open>date.fromisoformat\<close>: the calendar and the week forms, with and without separators. A text of 7, 8 or
  10 characters is read from its front.
\<close>

definition fromisoformat :: "string \<Rightarrow> (nat \<times> nat \<times> nat) option" where
  "fromisoformat s =
     (if \<not> is_ascii s \<or> length s \<notin> {7, 8, 10} then None
      else Option.bind (field 4 [] s) (\<lambda>(y, r).
        let sep = (if prefix ''-'' r then ''-'' else []); r1 = drop (length sep) r in
        if prefix ''W'' r1 then
          Option.bind (field 2 [] (drop 1 r1)) (\<lambda>(week, r2).
            if r2 = [] then date_of_week y week 1
            else if \<not> prefix sep r2 then None
            else Option.bind (field 1 [] (drop (length sep) r2)) (\<lambda>(day, _). date_of_week y week day))
        else
          Option.bind (field 2 sep r1) (\<lambda>(m, r2).
          Option.bind (field 2 [] r2) (\<lambda>(d, _). valid_date (y, m, d)))))"

definition date_variants :: "string \<Rightarrow> string list" where
  "date_variants due =
     (case fromisoformat due of
        None \<Rightarrow> [due]
      | Some (y, m, d) \<Rightarrow>
          let day = nat_str d; day2 = pad_digits 2 d; month2 = pad_digits 2 m; year = nat_str y;
              month = month_names ! (m - 1); short = take 3 month
          in [due, day @ '' '' @ month @ '' '' @ year, day2 @ '' '' @ month @ '' '' @ year,
              month @ '' '' @ day @ '', '' @ year, month @ '' '' @ day @ '' '' @ year,
              day @ '' '' @ short @ '' '' @ year, short @ '' '' @ day @ '', '' @ year,
              day2 @ ''/'' @ month2 @ ''/'' @ year, month2 @ ''/'' @ day2 @ ''/'' @ year])"

subsection \<open>The checks\<close>

text \<open>\<^verbatim>\<open>value and value not in text\<close>: a value that is no string raises.\<close>

definition absent :: "pyval \<Rightarrow> string \<Rightarrow> exn + bool" where
  "absent v text =
     (if \<not> truthy v then Inr False
      else case v of PStr s \<Rightarrow> Inr (\<not> contains s text)
        | _ \<Rightarrow> Inl (TypeError ''in <string> requires string as left operand''))"

definition note_if :: "bool \<Rightarrow> string \<Rightarrow> string list" where
  "note_if b what = (if b then [what] else [])"

definition named :: "string \<Rightarrow> string \<Rightarrow> string" where
  "named what s = what @ '' ('' @ s @ '')''"

definition number_pattern :: "int \<Rightarrow> pat" where
  "number_pattern i = Seq Bound (Seq (lit (int_str i)) Bound)"

definition days_missing :: "unicode \<Rightarrow> string \<Rightarrow> pyval \<Rightarrow> exn + bool" where
  "days_missing u text v =
     (if v = PNone then Inr False
      else and_then (py_int v) (\<lambda>i.
        Inr (search (word_char u) (number_pattern i) (codepoints text) = None)))"

definition link_missing :: "unicode \<Rightarrow> string \<Rightarrow> pyval \<Rightarrow> exn + bool" where
  "link_missing u text v =
     (if \<not> truthy v then Inr False
      else and_then (any_of (\<lambda>found. links_match u found (py_str u v)) (found_urls u text)) (\<lambda>b. Inr (\<not> b)))"

definition find_missing_facts :: "unicode \<Rightarrow> string \<Rightarrow> pydict \<Rightarrow> exn + string list" where
  "find_missing_facts u text facts =
     (let name = dict_get ''customer_name'' facts; number = dict_get ''invoice_number'' facts;
          display = dict_get ''amount_display'' facts; due = dict_get ''due_date'' facts;
          days = dict_get ''days_overdue'' facts; link = dict_get ''hosted_invoice_url'' facts
      in and_then (absent name text) (\<lambda>no_name.
         and_then (absent display text) (\<lambda>no_amount.
         and_then (days_missing u text days) (\<lambda>no_days.
         and_then (link_missing u text link) (\<lambda>no_link.
         Inr (note_if no_name (named ''customer name'' (py_str u name))
            @ note_if (truthy number \<and> \<not> contains (py_str u number) text)
                (named ''invoice number'' (py_str u number))
            @ note_if no_amount (named ''amount due'' (py_str u display))
            @ note_if (truthy due \<and> \<not> list_ex (\<lambda>v. contains v text) (date_variants (py_str u due)))
                (named ''original due date'' (py_str u due))
            @ note_if no_days (named ''days overdue'' (py_str u days))
            @ note_if no_link ''hosted payment link''
            @ note_if (search (word_char u) (dispute_route u) (codepoints text) = None)
                ''a contact route for disputes''))))))"

section \<open>No invented figures\<close>

definition currency_sign :: "nat \<Rightarrow> bool" where
  "currency_sign n = (n \<in> {36, 163, 8364, 165})"

definition figure_char :: "unicode \<Rightarrow> nat \<Rightarrow> bool" where
  "figure_char u n = (digit_char_class u n \<or> n = 44)"

definition money_pattern :: "unicode \<Rightarrow> pat" where
  "money_pattern u =
     Alt (seqs [Cls currency_sign, Rep 0 (Some 1) space_char, many1 (figure_char u),
            Opt (Seq (lit ''.'') (Rep 1 (Some 3) (digit_char_class u)))])
         (seqs [Bound, many1 (figure_char u), lit ''.'', Rep 2 (Some 2) (digit_char_class u),
            Rep 0 (Some 1) space_char, Rep 3 (Some 3) ascii_upper_letter, Bound])"

definition normalise_money :: "cps \<Rightarrow> cps" where
  "normalise_money m = filter (\<lambda>n. \<not> space_char n) m"

definition fact_values :: "string \<Rightarrow> unicode \<Rightarrow> pydict \<Rightarrow> string list" where
  "fact_values ending u facts =
     map (\<lambda>kv. py_str u (snd kv)) (filter (\<lambda>kv. suffix ending (fst kv) \<and> truthy (snd kv)) facts)"

definition allowed_money :: "unicode \<Rightarrow> pydict \<Rightarrow> cps list" where
  "allowed_money u facts = map (\<lambda>s. normalise_money (codepoints s)) (fact_values ''_display'' u facts)"

definition invented_amounts :: "unicode \<Rightarrow> string \<Rightarrow> pydict \<Rightarrow> violation list" where
  "invented_amounts u text facts =
     map (\<lambda>m. \<lparr>vl_code = ''invented_amount'', vl_matched = cps_text m,
           vl_why = ''Every figure in a letter must come from a tool result. The only amount retrieved ''
             @ ''for this invoice is '' @ py_str u (dict_get ''amount_display'' facts) @ ''.''\<rparr>)
       (filter (\<lambda>m. normalise_money m \<notin> set (allowed_money u facts))
         (find_all (word_char u) (money_pattern u) (codepoints text)))"

fun unmatched_links :: "unicode \<Rightarrow> string list \<Rightarrow> string list \<Rightarrow> exn + string list" where
  "unmatched_links u allowed [] = Inr []"
| "unmatched_links u allowed (l # ls) =
     and_then (any_of (links_match u l) allowed) (\<lambda>known.
     and_then (unmatched_links u allowed ls) (\<lambda>rest. Inr (if known then rest else l # rest)))"

definition invented_links :: "unicode \<Rightarrow> string \<Rightarrow> pydict \<Rightarrow> exn + violation list" where
  "invented_links u text facts =
     and_then (unmatched_links u (fact_values ''_url'' u facts) (found_urls u text)) (\<lambda>ls.
     Inr (map (\<lambda>l. \<lparr>vl_code = ''invented_link'', vl_matched = l,
           vl_why = ''Payment links are never constructed. Use the hosted_invoice_url the tool ''
             @ ''returned for this invoice.''\<rparr>) ls))"

text \<open>The amount in minor units, standing alone as a number.\<close>

definition glued_before :: "unicode \<Rightarrow> nat \<Rightarrow> bool" where
  "glued_before u n = (word_char u n \<or> n \<in> {46, 44, 45} \<or> currency_sign n)"

definition standalone :: "unicode \<Rightarrow> string \<Rightarrow> pat" where
  "standalone u digits =
     seqs [NotAfter (glued_before u), lit digits, NotBefore (Cls (digit_char_class u)),
       NotBefore (Seq (lit ''.'') (Cls (digit_char_class u))),
       NotBefore (Cls (\<lambda>n. ascii_upper_letter n \<or> ascii_lower_letter n \<or> n = 95))]"

definition raw_minor_units :: "unicode \<Rightarrow> string \<Rightarrow> pydict \<Rightarrow> violation list" where
  "raw_minor_units u text facts =
     (case dict_get ''amount_due'' facts of
        PInt minor \<Rightarrow>
          let digits = nat_str (nat \<bar>minor\<bar>) in
          if 4 \<le> length digits
             \<and> search (word_char u) (standalone u digits) (codepoints text) \<noteq> None
          then [\<lparr>vl_code = ''raw_minor_units'', vl_matched = int_str minor,
                 vl_why = int_str minor @ '' is the amount in minor units, not a sum of money. Use ''
                   @ py_str u (dict_get ''amount_display'' facts) @ '', which is already formatted.''\<rparr>]
          else []
      | _ \<Rightarrow> [])"

definition find_invented_figures :: "unicode \<Rightarrow> string \<Rightarrow> pydict \<Rightarrow> exn + violation list" where
  "find_invented_figures u text facts =
     and_then (invented_links u text facts) (\<lambda>links.
     Inr (invented_amounts u text facts @ links @ raw_minor_units u text facts))"

section \<open>The review\<close>

record guardrail_report =
  gr_forbidden :: "violation list"
  gr_missing_facts :: "string list"
  gr_invented :: "violation list"

definition report_ok :: "guardrail_report \<Rightarrow> bool" where
  "report_ok r = (gr_forbidden r = [] \<and> gr_missing_facts r = [] \<and> gr_invented r = [])"

definition as_tool_error :: "guardrail_report \<Rightarrow> pydict" where
  "as_tool_error r =
     [(''error'', PStr ''letter_rejected''),
      (''message'', PStr (''This letter was not accepted. Nothing has been proposed. Fix the problems ''
         @ ''listed and call propose_collection_letter again.'')),
      (''problems'', PList
         (map (\<lambda>v. PDict (violation_dict v)) (gr_forbidden r @ gr_invented r)
          @ (if gr_missing_facts r = [] then [] else
              [PDict [(''code'', PStr ''missing_required_facts''),
                 (''matched'', PStr (join '', '' (gr_missing_facts r))),
                 (''why'', PStr (''Section 8 requires every letter to contain the customer name, ''
                    @ ''invoice number, amount due, original due date, days overdue, the ''
                    @ ''hosted payment link, and a contact route for disputes.''))]]))),
      (''recoverable'', PBool True)]"

definition review_letter :: "unicode \<Rightarrow> string \<Rightarrow> string \<Rightarrow> pydict \<Rightarrow> exn + guardrail_report" where
  "review_letter u subject body facts =
     and_then (find_missing_facts u body facts) (\<lambda>missing.
     and_then (find_invented_figures u body facts) (\<lambda>invented.
     Inr \<lparr>gr_forbidden = find_forbidden_claims u [subject, body], gr_missing_facts = missing,
          gr_invented = invented\<rparr>))"

end
