(* ===== verification/StripeRead.thy ===== *)
theory StripeRead
  imports Guardrails
begin

text \<open>
  \<^verbatim>\<open>app/stripe_client/read.py\<close>: the read-only Stripe client. Stripe's answers are a parameter, one per
  call in the order the calls are made; the projections, the retries, the overdue query and the cache
  of customers are the program's. An object of Stripe is a dict of its fields, and \<open>sc_live\<close> says that
  it is one of the library's objects, which are no \<^verbatim>\<open>Mapping\<close>.
\<close>

section \<open>Effects\<close>

text \<open>
  A method of the client: it may raise, and what it has done to the client stays when it does. What it
  raises is \<^verbatim>\<open>StripeReadError\<close> with its message, code and detail, or another exception.
\<close>

datatype read_exn = ReadError string string pydict | ReadRaised exn

definition as_read_error :: "string \<Rightarrow> string \<Rightarrow> pydict \<Rightarrow> pydict" where
  "as_read_error message code detail =
     dict_update (dict_update [(''error'', PStr code), (''message'', PStr message)] detail)
       [(''recoverable'', PBool True),
        (''hint'', PStr ''Note the failure and continue with the invoices you already have.'')]"

datatype read_reply = RateLimited | Refused string pyval pyval | Broke exn | Replied pyval

record stripe_client =
  sc_reply :: "nat \<Rightarrow> string \<Rightarrow> pydict \<Rightarrow> read_reply"
  sc_live :: bool
  sc_max_attempts :: nat
  sc_include_clocks :: bool
  sc_max_clocks :: nat

text \<open>
  The calls made, the pauses between them in units of half a second, jitter left out, and the
  customers of this run.
\<close>

record reads =
  rd_calls :: nat
  rd_pauses :: "nat list"
  rd_customers :: "(pyval \<times> pydict) list"

type_synonym 'a reading = "reads \<Rightarrow> (read_exn + 'a) \<times> reads"

definition read_pure :: "exn + 'a \<Rightarrow> 'a reading" where
  "read_pure r s = (case r of Inl e \<Rightarrow> (Inl (ReadRaised e), s) | Inr x \<Rightarrow> (Inr x, s))"

fun read_each :: "('x \<Rightarrow> 'a reading) \<Rightarrow> 'x list \<Rightarrow> 'a list reading" where
  "read_each f [] s = (Inr [], s)"
| "read_each f (x # xs) s =
     then_with (f x) (\<lambda>y. then_with (read_each f xs) (\<lambda>ys s'. (Inr (y # ys), s'))) s"

text \<open>The constructor: without a key there is no client.\<close>

definition PAGE_SIZE :: int where "PAGE_SIZE = 100"

definition stripe_read_client :: "stripe_client \<Rightarrow> string \<Rightarrow> read_exn + stripe_client \<times> reads" where
  "stripe_read_client c api_key =
     (if api_key = [] then Inl (ReadError ''STRIPE_API_KEY_READ is not configured.'' ''stripe_not_configured'' [])
      else Inr (c, \<lparr>rd_calls = 0, rd_pauses = [], rd_customers = []\<rparr>))"

section \<open>Reading an object\<close>

fun get_path :: "pyval \<Rightarrow> string list \<Rightarrow> pyval" where
  "get_path v [] = v"
| "get_path v (k # ks) = (case v of PDict d \<Rightarrow> get_path (dict_get k d) ks | _ \<Rightarrow> PNone)"

definition get_or :: "pyval \<Rightarrow> string list \<Rightarrow> pyval \<Rightarrow> pyval" where
  "get_or v path dflt = (let x = get_path v path in if x = PNone then dflt else x)"

definition is_mapping :: "stripe_client \<Rightarrow> pyval \<Rightarrow> bool" where
  "is_mapping c v = (case v of PDict _ \<Rightarrow> \<not> sc_live c | _ \<Rightarrow> False)"

definition plain_dict :: "pyval \<Rightarrow> pyval" where
  "plain_dict v = PDict (items_of v)"

text \<open>\<^verbatim>\<open>getattr(page, "data", []) or []\<close>, and \<^verbatim>\<open>obj.id\<close>.\<close>

definition page_data :: "pyval \<Rightarrow> pyval list" where
  "page_data page = elems_of (get_path page [''data''])"

definition attr_id :: "pyval \<Rightarrow> exn + pyval" where
  "attr_id v =
     (if dict_has ''id'' (items_of v) then Inr (get_path v [''id'']) else Inl (OtherError ''AttributeError'' ''id''))"

section \<open>Dates and amounts\<close>

text \<open>
  \<^verbatim>\<open>from_epoch\<close> of a field: instants of the years 1 to 9999, and \<^verbatim>\<open>.date().isoformat()\<close> of one. A date
  in front of 1970 is printed through the same date 2000 years on, five cycles of the calendar.
\<close>

definition instant :: "pyval \<Rightarrow> exn + int" where
  "instant v =
     and_then (case v of PInt i \<Rightarrow> Inr i | PBool b \<Rightarrow> Inr (if b then 1 else 0)
               | _ \<Rightarrow> Inl (TypeError ''an integer is required'')) (\<lambda>e.
     raise_if (e < -62135596800 \<or> 253402300799 < e) (ValueError ''year is out of range'') (Inr (from_epoch e)))"

definition date_text :: "int \<Rightarrow> string" where
  "date_text t =
     (if 0 \<le> t then iso_date t
      else case civil_of_days (nat (t div day_us + 5 * 146097)) of (y, m, d) \<Rightarrow> format_date (y - 2000, m, d))"

definition iso_date_of :: "pyval \<Rightarrow> exn + pyval" where
  "iso_date_of v =
     (if truthy v then and_then (instant v) (\<lambda>t. Inr (PStr (date_text t))) else Inr PNone)"

definition whole_days :: "int \<Rightarrow> int \<Rightarrow> int" where
  "whole_days since til = max 0 ((til - since) div day_us)"

definition days_overdue :: "pyval \<Rightarrow> int \<Rightarrow> exn + pyval" where
  "days_overdue due now =
     (if truthy due then and_then (instant due) (\<lambda>t. Inr (PInt (whole_days t now))) else Inr PNone)"

definition days_str :: "int \<Rightarrow> string" where
  "days_str n = int_str n @ (if n = 1 then '' day'' else '' days'')"

definition currency_error :: "unicode \<Rightarrow> pyval \<Rightarrow> exn" where
  "currency_error u v = OtherError ''CurrencyError'' (''expected an ISO currency code, got '' @ uc_repr u v)"

definition display :: "unicode \<Rightarrow> int \<Rightarrow> pyval \<Rightarrow> exn + pyval" where
  "display u minor currency =
     (case currency of
        PStr code \<Rightarrow> (case format_amount minor code True of
            Some s \<Rightarrow> Inr (PStr s) | None \<Rightarrow> Inl (currency_error u currency))
      | _ \<Rightarrow> Inl (currency_error u currency))"

text \<open>\<^verbatim>\<open>int(x or 0)\<close>; \<^verbatim>\<open>str(currency).lower()\<close> of what \<open>display\<close> accepted.\<close>

definition int_or_0 :: "pyval \<Rightarrow> exn + int" where
  "int_or_0 v = (if truthy v then py_int v else Inr 0)"

definition lowered :: "pyval \<Rightarrow> pyval" where
  "lowered v = (case v of PStr s \<Rightarrow> PStr (map ascii_lower s) | _ \<Rightarrow> v)"

section \<open>Projections\<close>

definition no_email_reason :: "unicode \<Rightarrow> pyval \<Rightarrow> string" where
  "no_email_reason u snapshot =
     ''This customer has no email address on file, so no letter can be sent. ''
     @ ''Do not propose one for this invoice.''
     @ (if truthy snapshot then
          '' (The invoice still carries '' @ py_str u snapshot @ '' from when it was finalized, ''
          @ ''but the customer record no longer has an address, so that snapshot is ''
          @ ''not a valid destination.)''
        else [])"

definition is_expanded :: "pyval \<Rightarrow> bool" where
  "is_expanded customer = (customer \<noteq> PNone \<and> \<not> is_pstr customer)"

text \<open>The address that counts: the customer's own when the customer is there, else the snapshot.\<close>

definition current_email :: "pyval \<Rightarrow> pyval" where
  "current_email raw =
     (if is_expanded (get_path raw [''customer'']) then get_path raw [''customer'', ''email'']
      else get_path raw [''customer_email''])"

definition deliverability :: "unicode \<Rightarrow> pyval \<Rightarrow> pydict" where
  "deliverability u raw =
     (if truthy (current_email raw) then [(''deliverable'', PBool True)]
      else [(''deliverable'', PBool False),
            (''not_deliverable_reason'', PStr (no_email_reason u (get_path raw [''customer_email''])))])"

definition retry_note :: "pyval \<Rightarrow> int \<Rightarrow> pydict" where
  "retry_note collection_method attempts =
     (if collection_method = PStr ''charge_automatically'' \<and> attempts \<noteq> 0
      then [(''automatic_collection_note'',
        PStr (''Stripe is still retrying this card automatically ('' @ int_str attempts
          @ '' attempts so far). Consider whether a letter is ''
          @ ''appropriate before the retries are exhausted.''))]
      else [])"

definition remaining :: "unicode \<Rightarrow> pyval \<Rightarrow> pyval \<Rightarrow> exn + pydict" where
  "remaining u raw currency =
     (let v = get_path raw [''amount_remaining''] in
      if v = PNone then Inr []
      else and_then (py_int v) (\<lambda>i. and_then (display u i currency) (\<lambda>s.
        Inr [(''amount_remaining'', PInt i), (''amount_remaining_display'', s)])))"

definition project_invoice :: "unicode \<Rightarrow> pyval \<Rightarrow> int \<Rightarrow> exn + pydict" where
  "project_invoice u raw now =
     (let currency = get_or raw [''currency''] (PStr ''usd'');
          customer = get_path raw [''customer''];
          customer_id = (if is_pstr customer then customer else get_path customer [''id''])
      in and_then (int_or_0 (get_path raw [''amount_due''])) (\<lambda>amount_due.
         and_then (display u amount_due currency) (\<lambda>amount_display.
         and_then (iso_date_of (get_path raw [''due_date''])) (\<lambda>due_date.
         and_then (days_overdue (get_path raw [''due_date'']) now) (\<lambda>days.
         and_then (int_or_0 (get_path raw [''attempt_count''])) (\<lambda>attempts.
         and_then (iso_date_of (get_path raw [''status_transitions'', ''finalized_at''])) (\<lambda>finalized.
         and_then (remaining u raw currency) (\<lambda>left.
         Inr ([(''id'', get_path raw [''id'']), (''number'', get_path raw [''number'']),
               (''status'', get_path raw [''status'']), (''customer_id'', customer_id),
               (''customer_name'', py_or (get_path raw [''customer_name'']) (get_path customer [''name''])),
               (''customer_email'', current_email raw), (''amount_due'', PInt amount_due),
               (''amount_due_display'', amount_display), (''currency'', lowered currency),
               (''due_date'', due_date), (''days_overdue'', days),
               (''hosted_invoice_url'', get_path raw [''hosted_invoice_url'']),
               (''collection_method'', get_path raw [''collection_method'']),
               (''attempt_count'', PInt attempts), (''finalized_at'', finalized)]
              @ left
              @ [(''customer_email_source'', PStr (if is_expanded customer then ''customer'' else ''invoice_snapshot''))]
              @ deliverability u raw
              @ retry_note (get_path raw [''collection_method'']) attempts)))))))))"

definition project_line :: "unicode \<Rightarrow> pyval \<Rightarrow> pyval \<Rightarrow> exn + pyval" where
  "project_line u currency line =
     and_then (int_or_0 (get_path line [''amount''])) (\<lambda>amount.
     and_then (display u amount (get_or line [''currency''] currency)) (\<lambda>s.
     Inr (PDict [(''description'', get_path line [''description'']), (''quantity'', get_path line [''quantity'']),
       (''amount'', PInt amount), (''amount_display'', s)])))"

fun collect :: "('x \<Rightarrow> exn + 'y) \<Rightarrow> 'x list \<Rightarrow> exn + 'y list" where
  "collect f [] = Inr []"
| "collect f (x # xs) = and_then (f x) (\<lambda>y. and_then (collect f xs) (\<lambda>ys. Inr (y # ys)))"

definition project_invoice_detail :: "unicode \<Rightarrow> pyval \<Rightarrow> int \<Rightarrow> exn + pydict" where
  "project_invoice_detail u raw now =
     and_then (project_invoice u raw now) (\<lambda>detail.
     and_then (collect (project_line u (dict_get ''currency'' detail)) (elems_of (get_path raw [''lines'', ''data'']))) (\<lambda>lines.
     and_then (iso_date_of (get_path raw [''next_payment_attempt''])) (\<lambda>next_attempt.
     Inr (dict_update detail
       [(''lines'', PList lines),
        (''payment_attempts'', PDict [(''attempt_count'', dict_get ''attempt_count'' detail),
           (''next_payment_attempt'', next_attempt),
           (''attempted'', PBool (truthy (get_path raw [''attempted''])))]),
        (''description'', get_path raw [''description''])]))))"

definition lower_or_none :: "pyval \<Rightarrow> exn + pyval" where
  "lower_or_none v =
     (if \<not> truthy v then Inr PNone
      else case v of PStr s \<Rightarrow> Inr (PStr (map ascii_lower s))
        | _ \<Rightarrow> Inl (OtherError ''AttributeError'' ''lower''))"

definition project_customer :: "pyval \<Rightarrow> exn + pydict" where
  "project_customer raw =
     and_then (iso_date_of (get_path raw [''created''])) (\<lambda>created.
     and_then (lower_or_none (get_path raw [''currency''])) (\<lambda>currency.
     Inr [(''id'', get_path raw [''id'']), (''name'', get_path raw [''name'']),
          (''email'', get_path raw [''email'']), (''created'', created),
          (''delinquent'', PBool (truthy (get_path raw [''delinquent'']))),
          (''currency'', currency), (''metadata'', plain_dict (get_path raw [''metadata'']))]))"

definition days_late :: "pyval \<Rightarrow> exn + int option" where
  "days_late raw =
     (let due = get_path raw [''due_date'']; paid = get_path raw [''status_transitions'', ''paid_at''] in
      if truthy due \<and> truthy paid
      then and_then (instant paid) (\<lambda>p. and_then (instant due) (\<lambda>d. Inr (Some (whole_days d p))))
      else Inr None)"

definition int_or_none :: "int option \<Rightarrow> pyval" where
  "int_or_none v = (case v of None \<Rightarrow> PNone | Some i \<Rightarrow> PInt i)"

definition history_outcome :: "unicode \<Rightarrow> pyval \<Rightarrow> int option \<Rightarrow> int \<Rightarrow> exn + string" where
  "history_outcome u raw late now =
     (let status = get_path raw [''status''] in
      if status = PStr ''paid'' then
        Inr (case late of None \<Rightarrow> ''paid on time''
          | Some n \<Rightarrow> if n = 0 then ''paid on time'' else ''paid '' @ days_str n @ '' late'')
      else if status = PStr ''open'' then
        and_then (days_overdue (get_path raw [''due_date'']) now) (\<lambda>owed.
        Inr (case owed of PInt n \<Rightarrow> if n = 0 then ''still unpaid'' else ''still unpaid, '' @ days_str n @ '' overdue''
             | _ \<Rightarrow> ''still unpaid''))
      else Inr (py_str u status))"

definition project_payment_history_entry :: "unicode \<Rightarrow> pyval \<Rightarrow> int \<Rightarrow> exn + pydict" where
  "project_payment_history_entry u raw now =
     (let currency = get_or raw [''currency''] (PStr ''usd'')
      in and_then (int_or_0 (get_path raw [''amount_paid''])) (\<lambda>amount_paid.
         and_then (int_or_0 (get_path raw [''amount_due''])) (\<lambda>amount_due.
         and_then (days_late raw) (\<lambda>late.
         and_then (display u amount_due currency) (\<lambda>due_display.
         and_then (display u amount_paid currency) (\<lambda>paid_display.
         and_then (iso_date_of (get_path raw [''due_date''])) (\<lambda>due_date.
         and_then (iso_date_of (get_path raw [''status_transitions'', ''paid_at''])) (\<lambda>paid_at.
         and_then (history_outcome u raw late now) (\<lambda>what.
         Inr [(''invoice_id'', get_path raw [''id'']), (''number'', get_path raw [''number'']),
              (''status'', get_path raw [''status'']), (''currency'', lowered currency),
              (''amount_due'', PInt amount_due), (''amount_due_display'', due_display),
              (''amount_paid'', PInt amount_paid), (''amount_paid_display'', paid_display),
              (''due_date'', due_date), (''paid_at'', paid_at), (''days_late_when_paid'', int_or_none late),
              (''outcome'', PStr what)])))))))))"

section \<open>Calls\<close>

text \<open>
  \<^verbatim>\<open>_call\<close>: three attempts, a pause after each rate limit but the last. \<open>left\<close> counts the attempts that
  remain, so the recursion is the loop's range.
\<close>

definition next_call :: "reads \<Rightarrow> reads" where
  "next_call s = s\<lparr>rd_calls := Suc (rd_calls s)\<rparr>"

definition pause :: "nat \<Rightarrow> reads \<Rightarrow> reads" where
  "pause attempt s = s\<lparr>rd_pauses := rd_pauses s @ [2 ^ attempt]\<rparr>"

definition rate_limited :: "stripe_client \<Rightarrow> string \<Rightarrow> read_exn" where
  "rate_limited c what =
     ReadError (''Stripe rate limited '' @ what @ '' after '' @ nat_str (sc_max_attempts c) @ '' attempts.'')
       ''stripe_rate_limited'' [(''operation'', PStr what), (''attempts'', PInt (int (sc_max_attempts c)))]"

fun attempts_from :: "stripe_client \<Rightarrow> string \<Rightarrow> pydict \<Rightarrow> nat \<Rightarrow> nat \<Rightarrow> pyval reading" where
  "attempts_from c what params attempt 0 s = (Inl (rate_limited c what), s)"
| "attempts_from c what params attempt (Suc left) s =
     (case sc_reply c (rd_calls s) what params of
        Replied v \<Rightarrow> (Inr v, next_call s)
      | RateLimited \<Rightarrow>
          if left = 0 then (Inl (rate_limited c what), next_call s)
          else attempts_from c what params (Suc attempt) left (pause attempt (next_call s))
      | Refused why code status \<Rightarrow>
          (Inl (ReadError (''Stripe rejected '' @ what @ '': '' @ why) ''stripe_error''
             [(''operation'', PStr what), (''stripe_code'', code), (''http_status'', status)]), next_call s)
      | Broke e \<Rightarrow> (Inl (ReadRaised e), next_call s))"

definition stripe_call :: "stripe_client \<Rightarrow> string \<Rightarrow> pydict \<Rightarrow> pyval reading" where
  "stripe_call c what params = attempts_from c what params 0 (sc_max_attempts c)"

section \<open>The cache\<close>

definition hashable :: "pyval \<Rightarrow> bool" where
  "hashable v = (case v of PList _ \<Rightarrow> False | PDict _ \<Rightarrow> False | _ \<Rightarrow> True)"

definition remember_customer :: "stripe_client \<Rightarrow> pyval \<Rightarrow> unit reading" where
  "remember_customer c raw s =
     (let customer = get_path raw [''customer'']; i = get_path customer [''id''] in
      if is_mapping c customer \<and> truthy i then
        then_with (read_pure (project_customer customer))
          (\<lambda>p s'. (Inr (), s'\<lparr>rd_customers :=
             (if map_of (rd_customers s') i = None then rd_customers s' @ [(i, p)] else rd_customers s')\<rparr>)) s
      else (Inr (), s))"

section \<open>The four operations\<close>

definition overdue_filter :: "int \<Rightarrow> pydict" where
  "overdue_filter now =
     [(''status'', PStr ''open''), (''due_date'', PDict [(''lt'', PInt (to_epoch now))]),
      (''limit'', PInt PAGE_SIZE), (''expand'', PList [PStr ''data.customer''])]"

definition scoped :: "pydict \<Rightarrow> pyval \<Rightarrow> pydict" where
  "scoped conditions customer_id =
     dict_update (filter (\<lambda>kv. fst kv \<noteq> ''limit'') conditions)
       [(''customer'', customer_id), (''limit'', PInt PAGE_SIZE)]"

definition customer_overdue :: "stripe_client \<Rightarrow> pydict \<Rightarrow> pyval \<Rightarrow> pyval list reading" where
  "customer_overdue c conditions customer =
     then_with (read_pure (attr_id customer)) (\<lambda>i.
     then_with (stripe_call c ''invoices.list(customer)'' (scoped conditions i)) (\<lambda>page s.
     (Inr (page_data page), s)))"

definition clock_overdue :: "stripe_client \<Rightarrow> pydict \<Rightarrow> pyval \<Rightarrow> pyval list reading" where
  "clock_overdue c conditions clock =
     then_with (read_pure (attr_id clock)) (\<lambda>i.
     then_with (stripe_call c ''customers.list(test_clock)'' [(''limit'', PInt 100), (''test_clock'', i)]) (\<lambda>customers.
     then_with (read_each (customer_overdue c conditions) (page_data customers)) (\<lambda>pages s.
     (Inr (concat pages), s))))"

definition test_clock_overdue :: "stripe_client \<Rightarrow> pydict \<Rightarrow> pyval list reading" where
  "test_clock_overdue c conditions s =
     (case stripe_call c ''test_clocks.list'' [(''limit'', PInt (int (sc_max_clocks c)))] s of
        (Inl (ReadError message code detail), s') \<Rightarrow> (Inr [], s')
      | (Inl e, s') \<Rightarrow> (Inl e, s')
      | (Inr clocks, s') \<Rightarrow>
          then_with (read_each (clock_overdue c conditions) (page_data clocks)) (\<lambda>found s. (Inr (concat found), s)) s')"

text \<open>Which projected invoices the query keeps.\<close>

definition too_recent :: "int \<Rightarrow> pydict \<Rightarrow> bool" where
  "too_recent min_days p =
     ((case dict_get ''days_overdue'' p of PInt n \<Rightarrow> n | _ \<Rightarrow> 0) < min_days)"

definition invoice_amount :: "pydict \<Rightarrow> int" where
  "invoice_amount p = (case dict_get ''amount_due'' p of PInt n \<Rightarrow> n | _ \<Rightarrow> 0)"

definition too_small :: "int option \<Rightarrow> pydict \<Rightarrow> bool" where
  "too_small min_amount p = (case min_amount of None \<Rightarrow> False | Some m \<Rightarrow> invoice_amount p < m)"

fun pick :: "stripe_client \<Rightarrow> unicode \<Rightarrow> int \<Rightarrow> int \<Rightarrow> int option \<Rightarrow> pyval list \<Rightarrow> pyval list \<Rightarrow> pydict list reading" where
  "pick c u now min_days min_amount seen [] s = (Inr [], s)"
| "pick c u now min_days min_amount seen (raw # raws) s =
     then_with (read_pure (project_invoice u raw now)) (\<lambda>p.
       if dict_get ''id'' p \<in> set seen \<or> too_recent min_days p \<or> too_small min_amount p
       then pick c u now min_days min_amount seen raws
       else then_with (remember_customer c raw) (\<lambda>_.
            then_with (pick c u now min_days min_amount (dict_get ''id'' p # seen) raws) (\<lambda>ps s'.
            (Inr (p # ps), s')))) s"

text \<open>Largest first, equal amounts in the order they came.\<close>

definition largest_first :: "pydict list \<Rightarrow> pydict list" where
  "largest_first ps = sort_key (\<lambda>p. - invoice_amount p) ps"

definition fetch_overdue :: "stripe_client \<Rightarrow> int \<Rightarrow> pyval list reading" where
  "fetch_overdue c now =
     then_with (stripe_call c ''invoices.list'' (overdue_filter now)) (\<lambda>page.
     then_with (if sc_include_clocks c then test_clock_overdue c (overdue_filter now) else (\<lambda>s. (Inr [], s))) (\<lambda>fixtures s.
     (Inr (page_data page @ fixtures), s)))"

definition list_overdue_invoices ::
  "stripe_client \<Rightarrow> unicode \<Rightarrow> int \<Rightarrow> int \<Rightarrow> int \<Rightarrow> int option \<Rightarrow> pydict list reading" where
  "list_overdue_invoices c u now min_days limit min_amount =
     then_with (fetch_overdue c now) (\<lambda>raws.
     then_with (pick c u now min_days min_amount [] raws) (\<lambda>ps s.
     (Inr (take (nat (max 0 limit)) (largest_first ps)), s)))"

definition read_invoice :: "stripe_client \<Rightarrow> unicode \<Rightarrow> int \<Rightarrow> pyval \<Rightarrow> pydict reading" where
  "read_invoice c u now invoice_id =
     then_with (stripe_call c ''invoices.retrieve''
         [(''id'', invoice_id), (''expand'', PList [PStr ''customer'', PStr ''lines''])]) (\<lambda>raw.
     then_with (remember_customer c raw) (\<lambda>_.
     read_pure (project_invoice_detail u raw now)))"

definition read_customer :: "stripe_client \<Rightarrow> pyval \<Rightarrow> pydict reading" where
  "read_customer c customer_id s =
     (if \<not> hashable customer_id then (Inl (ReadRaised (TypeError ''unhashable type'')), s)
      else case map_of (rd_customers s) customer_id of
        Some p \<Rightarrow> (Inr p, s)
      | None \<Rightarrow>
          then_with (stripe_call c ''customers.retrieve'' [(''id'', customer_id)]) (\<lambda>raw.
          then_with (read_pure (project_customer raw)) (\<lambda>p s'.
          (Inr p, s'\<lparr>rd_customers := rd_customers s' @ [(customer_id, p)]\<rparr>))) s)"

definition read_payment_history :: "stripe_client \<Rightarrow> unicode \<Rightarrow> int \<Rightarrow> pyval \<Rightarrow> int \<Rightarrow> pydict list reading" where
  "read_payment_history c u now customer_id limit =
     then_with (stripe_call c ''invoices.list(customer)''
         [(''customer'', customer_id), (''limit'', PInt (max 1 (min limit PAGE_SIZE)))]) (\<lambda>page.
     read_pure (collect (\<lambda>raw. project_payment_history_entry u raw now) (page_data page)))"

end
