(* ===== verification/Tools.thy ===== *)
theory Tools
  imports StripeRead
begin

text \<open>
  \<^verbatim>\<open>app/agent/tools/\<close>: the classification of tools, the four READ tools, the one DRAFT tool and the
  registry that executes them and keeps the facts of every invoice the agent has read. The state of a
  run's toolset is the Stripe client's, the facts, and the database.
\<close>

section \<open>Classification\<close>

datatype tool_class = READ | DRAFT | ACTION

fun tool_class_str :: "tool_class \<Rightarrow> string" where
  "tool_class_str READ = ''READ''"
| "tool_class_str DRAFT = ''DRAFT''"
| "tool_class_str ACTION = ''ACTION''"

text \<open>What a tool raises: a failure the agent sees, or an exception that leaves the registry.\<close>

datatype tool_exn = Failure pydict | Raised exn

record agent =
  ag_reads :: reads
  ag_facts :: "string \<Rightarrow> pydict option"
  ag_world :: world

type_synonym 'a tool_work = "agent \<Rightarrow> (tool_exn + 'a) \<times> agent"

definition tool_pure :: "exn + 'a \<Rightarrow> 'a tool_work" where
  "tool_pure r a = (case r of Inl e \<Rightarrow> (Inl (Raised e), a) | Inr x \<Rightarrow> (Inr x, a))"

definition fail_if :: "bool \<Rightarrow> pydict \<Rightarrow> 'a tool_work \<Rightarrow> 'a tool_work" where
  "fail_if b payload k a = (if b then (Inl (Failure payload), a) else k a)"

text \<open>A step that looks at the state first.\<close>

definition tool_look :: "(agent \<Rightarrow> 'a tool_work) \<Rightarrow> 'a tool_work" where
  "tool_look f a = f a a"

text \<open>\<^verbatim>\<open>_guard\<close>: a Stripe failure becomes something the agent can read.\<close>

definition guard :: "'a reading \<Rightarrow> 'a tool_work" where
  "guard m a =
     (case m (ag_reads a) of
        (Inr x, s) \<Rightarrow> (Inr x, a\<lparr>ag_reads := s\<rparr>)
      | (Inl (ReadError message code detail), s) \<Rightarrow>
          (Inl (Failure (as_read_error message code detail)), a\<lparr>ag_reads := s\<rparr>)
      | (Inl (ReadRaised e), s) \<Rightarrow> (Inl (Raised e), a\<lparr>ag_reads := s\<rparr>))"

definition clock_read :: "env \<Rightarrow> int tool_work" where
  "clock_read env a = (Inr (now_utc env (ag_world a)), a\<lparr>ag_world := tick (ag_world a)\<rparr>)"

record tool_spec =
  tp_name :: string
  tp_class :: tool_class
  tp_description :: string
  tp_schema :: pydict
  tp_handler :: "pydict \<Rightarrow> pyval tool_work"

text \<open>\<^verbatim>\<open>__post_init__\<close>: an ACTION tool cannot be built. The tool as the model receives it.\<close>

definition tool_spec_init :: "unicode \<Rightarrow> tool_spec \<Rightarrow> exn + tool_spec" where
  "tool_spec_init u t =
     raise_if (tp_class t = ACTION)
       (ValueError (uc_repr u (PStr (tp_name t)) @ '' was declared as an ACTION tool. The agent service has no ''
          @ ''ACTION tools by design: its only route to the outside world is a proposal ''
          @ ''a human approves, which the gateway executes. See CLAUDE.md rule 4.'')) (Inr t)"

definition to_anthropic :: "tool_spec \<Rightarrow> pyval" where
  "to_anthropic t =
     PDict [(''name'', PStr (tp_name t)), (''description'', PStr (tp_description t)),
       (''input_schema'', PDict (tp_schema t)), (''strict'', PBool True)]"

definition nullable :: "string \<Rightarrow> pyval" where
  "nullable json_type = PList [PStr json_type, PStr ''null'']"

definition schema :: "pydict \<Rightarrow> pydict" where
  "schema properties =
     [(''type'', PStr ''object''), (''properties'', PDict properties),
      (''required'', PList (map (\<lambda>kv. PStr (fst kv)) properties)), (''additionalProperties'', PBool False)]"

definition parameter :: "pyval \<Rightarrow> string \<Rightarrow> pyval" where
  "parameter json_type description = PDict [(''type'', json_type), (''description'', PStr description)]"

text \<open>
  \<^verbatim>\<open>handler(**arguments)\<close>: each parameter by its name, with its default if it has one; an unknown or a
  missing name is a \<^verbatim>\<open>TypeError\<close>, whose wording is not modelled.
\<close>

definition no_such_call :: exn where
  "no_such_call = TypeError ''unexpected or missing keyword argument''"

definition argument :: "pydict \<Rightarrow> string \<times> pyval option \<Rightarrow> exn + pyval" where
  "argument arguments p =
     (case map_of arguments (fst p) of Some v \<Rightarrow> Inr v
      | None \<Rightarrow> (case snd p of Some dflt \<Rightarrow> Inr dflt | None \<Rightarrow> Inl no_such_call))"

definition bind_arguments :: "(string \<times> pyval option) list \<Rightarrow> pydict \<Rightarrow> exn + pyval list" where
  "bind_arguments parameters arguments =
     raise_if (list_ex (\<lambda>kv. fst kv \<notin> fst ` set parameters) arguments) no_such_call
       (collect (argument arguments) parameters)"

section \<open>The toolset of a run\<close>

record toolset =
  ts_client :: stripe_client
  ts_unicode :: unicode
  ts_run_id :: string
  ts_floor :: int
  ts_max_proposals :: int
  ts_ttl_hours :: int

subsection \<open>READ\<close>

definition int_or :: "int \<Rightarrow> pyval \<Rightarrow> exn + int" where
  "int_or dflt v = (if v = PNone then Inr dflt else py_int v)"

definition clamp_limit :: "int \<Rightarrow> pyval \<Rightarrow> exn + int" where
  "clamp_limit dflt v = (if v = PNone then Inr dflt else and_then (py_int v) (\<lambda>i. Inr (max 1 (min i 100))))"

definition optional_int :: "pyval \<Rightarrow> exn + int option" where
  "optional_int v = (if v = PNone then Inr None else and_then (py_int v) (\<lambda>i. Inr (Some i)))"

definition overdue_result :: "pydict list \<Rightarrow> pyval" where
  "overdue_result invoices =
     (let undeliverable = filter (\<lambda>row. \<not> truthy (dict_get ''deliverable'' row)) invoices in
      PDict ([(''count'', PInt (int (length invoices))), (''invoices'', PList (map PDict invoices))]
        @ (if undeliverable = [] then [] else
            [(''note'', PStr (nat_str (length undeliverable) @ '' of these have no email address on file and cannot ''
               @ ''receive a letter. Do not propose one for them.''))])))"

definition list_overdue_handler :: "env \<Rightarrow> toolset \<Rightarrow> pyval \<Rightarrow> pyval \<Rightarrow> pyval \<Rightarrow> pyval tool_work" where
  "list_overdue_handler env ts min_days limit min_amount =
     then_with (tool_pure (int_or (ts_floor ts) min_days)) (\<lambda>requested.
     then_with (tool_pure (clamp_limit 25 limit)) (\<lambda>n.
     then_with (tool_pure (optional_int min_amount)) (\<lambda>least.
     then_with (clock_read env) (\<lambda>now.
     then_with (guard (list_overdue_invoices (ts_client ts) (ts_unicode ts) now (max (ts_floor ts) requested) n least))
       (\<lambda>invoices a. (Inr (overdue_result invoices), a))))))"

definition get_invoice_handler :: "env \<Rightarrow> toolset \<Rightarrow> pyval \<Rightarrow> pyval tool_work" where
  "get_invoice_handler env ts invoice_id =
     then_with (clock_read env) (\<lambda>now.
     then_with (guard (read_invoice (ts_client ts) (ts_unicode ts) now invoice_id)) (\<lambda>p a. (Inr (PDict p), a)))"

definition get_customer_handler :: "toolset \<Rightarrow> pyval \<Rightarrow> pyval tool_work" where
  "get_customer_handler ts customer_id =
     then_with (guard (read_customer (ts_client ts) customer_id)) (\<lambda>p a. (Inr (PDict p), a))"

definition has_status :: "string \<Rightarrow> pydict \<Rightarrow> bool" where
  "has_status s entry = (dict_get ''status'' entry = PStr s)"

definition on_time :: "pydict \<Rightarrow> bool" where
  "on_time entry = (has_status ''paid'' entry \<and> \<not> truthy (dict_get ''days_late_when_paid'' entry))"

definition how_many :: "(pydict \<Rightarrow> bool) \<Rightarrow> pydict list \<Rightarrow> pyval" where
  "how_many P entries = PInt (int (length (filter P entries)))"

definition history_result :: "pydict list \<Rightarrow> pyval" where
  "history_result history =
     PDict [(''summary'', PDict [(''prior_invoices'', PInt (int (length history))),
         (''paid'', how_many (has_status ''paid'') history), (''paid_on_time'', how_many on_time history),
         (''still_unpaid'', how_many (has_status ''open'') history)]),
       (''history'', PList (map PDict history))]"

definition get_payment_history_handler :: "env \<Rightarrow> toolset \<Rightarrow> pyval \<Rightarrow> pyval \<Rightarrow> pyval tool_work" where
  "get_payment_history_handler env ts customer_id limit =
     then_with (tool_pure (clamp_limit 10 limit)) (\<lambda>n.
     then_with (clock_read env) (\<lambda>now.
     then_with (guard (read_payment_history (ts_client ts) (ts_unicode ts) now customer_id n))
       (\<lambda>history a. (Inr (history_result history), a))))"

subsection \<open>What the model is told of the tools\<close>

definition list_overdue_invoices_description :: string where
  "list_overdue_invoices_description =
      ''List invoices that are finalized, still owed, and past their due date. Returns each invo''
      @ ''ice with its customer, the amount owed both as an integer in minor units and as a prefor''
      @ ''matted display string, the due date, how many days overdue it is, the hosted payment lin''
      @ ''k, and whether a letter can actually be delivered. Sorted largest amount first. Pass nul''
      @ ''l for any argument to use its default.''"

definition list_overdue_invoices_schema :: pydict where
  "list_overdue_invoices_schema = schema
     [(''min_days_overdue'', parameter (nullable ''integer'') (''Ignore invoices less overdue than this. Null uses the floor the operator set for this ru''
         @ ''n. A value below that floor is raised to it; a higher value is honoured.'')),
      (''limit'', parameter (nullable ''integer'') (''Maximum invoices to return. Default 25, cap 100.'')),
      (''min_amount_cents'', parameter (nullable ''integer'') (''Ignore invoices owing less than this, in MINOR units (2500 means $25.00). Null means no ''
         @ ''minimum.''))]"

definition get_invoice_description :: string where
  "get_invoice_description =
      ''Full detail for one invoice, including its line items and how many payment attempts have''
      @ '' been made. Use this when you need to know what the invoice was actually for.''"

definition get_invoice_schema :: pydict where
  "get_invoice_schema = schema
     [(''invoice_id'', parameter (PStr ''string'') (''The Stripe invoice id, e.g. in_1A2b3C.''))]"

definition get_customer_description :: string where
  "get_customer_description =
      ''One customer's record: name, email address, when they were created, whether Stripe consi''
      @ ''ders them delinquent, and their metadata.''"

definition get_customer_schema :: pydict where
  "get_customer_schema = schema
     [(''customer_id'', parameter (PStr ''string'') (''The Stripe customer id, e.g. cus_1A2b3C.''))]"

definition get_payment_history_description :: string where
  "get_payment_history_description =
      ''This customer's prior invoices and how each one turned out, newest first, with a summary''
      @ '' of how many were paid and how many were paid on time. Use it to tell a first-time late ''
      @ ''payer from a repeat one: a reliable customer who is nine days late should not be address''
      @ ''ed like a habitual non-payer.''"

definition get_payment_history_schema :: pydict where
  "get_payment_history_schema = schema
     [(''customer_id'', parameter (PStr ''string'') (''The Stripe customer id.'')),
      (''limit'', parameter (nullable ''integer'') (''How many prior invoices to return. Default 10.''))]"

definition propose_collection_letter_description :: string where
  "propose_collection_letter_description =
      ''Draft a collection letter for one invoice and place it in the approval queue. This is th''
      @ ''e ONLY thing you can do with an invoice, and it does not send anything: it writes an int''
      @ ''ernal record that a human will review and approve or reject. Use only figures returned b''
      @ ''y the read tools -- the amount, due date, invoice number and payment link are checked ag''
      @ ''ainst what was actually retrieved, and a letter containing anything else is rejected.''"

definition propose_collection_letter_schema :: pydict where
  "propose_collection_letter_schema = schema
     [(''invoice_id'', parameter (PStr ''string'') (''The Stripe invoice id this letter is about.'')),
      (''subject'', parameter (PStr ''string'') (''The email subject line.'')),
      (''body'', parameter (PStr ''string'') (''The letter itself. It must contain the customer name, the invoice number, the amount due''
         @ '' exactly as amount_display gave it, the original due date, how many days overdue it is, ''
         @ ''the hosted payment link, and a way to raise a dispute.'')),
      (''tone'', PDict [(''type'', PStr ''string''), (''enum'', PList (map PStr tones)),
         (''description'', PStr (''friendly for 1-14 days overdue, firm for 15-59, final for 60+, adjusted for what the pay''
         @ ''ment history shows.''))]),
      (''rationale'', parameter (PStr ''string'') (''Why this invoice and why this tone. Shown to the operator first; it is what makes the qu''
         @ ''eue reviewable at a glance.''))]"

text \<open>The READ tools, in the order of the source: their handlers take their arguments by name.\<close>

definition with_arguments :: "(string \<times> pyval option) list \<Rightarrow> (pyval list \<Rightarrow> pyval tool_work) \<Rightarrow> pydict \<Rightarrow> pyval tool_work" where
  "with_arguments parameters handler arguments = then_with (tool_pure (bind_arguments parameters arguments)) handler"

definition read_tools :: "env \<Rightarrow> toolset \<Rightarrow> tool_spec list" where
  "read_tools env ts =
     [\<lparr>tp_name = ''list_overdue_invoices'', tp_class = READ,
       tp_description = list_overdue_invoices_description, tp_schema = list_overdue_invoices_schema,
       tp_handler = with_arguments
         [(''min_days_overdue'', Some PNone), (''limit'', Some (PInt 25)), (''min_amount_cents'', Some PNone)]
         (\<lambda>vs. list_overdue_handler env ts (vs ! 0) (vs ! 1) (vs ! 2))\<rparr>,
      \<lparr>tp_name = ''get_invoice'', tp_class = READ,
       tp_description = get_invoice_description, tp_schema = get_invoice_schema,
       tp_handler = with_arguments [(''invoice_id'', None)] (\<lambda>vs. get_invoice_handler env ts (vs ! 0))\<rparr>,
      \<lparr>tp_name = ''get_customer'', tp_class = READ,
       tp_description = get_customer_description, tp_schema = get_customer_schema,
       tp_handler = with_arguments [(''customer_id'', None)] (\<lambda>vs. get_customer_handler ts (vs ! 0))\<rparr>,
      \<lparr>tp_name = ''get_payment_history'', tp_class = READ,
       tp_description = get_payment_history_description, tp_schema = get_payment_history_schema,
       tp_handler = with_arguments [(''customer_id'', None), (''limit'', Some (PInt 10))]
         (\<lambda>vs. get_payment_history_handler env ts (vs ! 0) (vs ! 1))\<rparr>]"

definition build_read_tools :: "env \<Rightarrow> toolset \<Rightarrow> exn + tool_spec list" where
  "build_read_tools env ts = collect (tool_spec_init (ts_unicode ts)) (read_tools env ts)"

subsection \<open>DRAFT\<close>

text \<open>The refusals, in the order they are tried.\<close>

definition invoice_not_read :: "unicode \<Rightarrow> pyval \<Rightarrow> pydict" where
  "invoice_not_read u invoice_id =
     [(''error'', PStr ''invoice_not_read''),
      (''message'', PStr (''You have not read invoice '' @ py_str u invoice_id @ '' in this run, so its facts ''
         @ ''are not available and no letter can be built from them. Call ''
         @ ''list_overdue_invoices or get_invoice first.'')),
      (''recoverable'', PBool True)]"

definition not_deliverable :: "pydict \<Rightarrow> pyval \<Rightarrow> pydict" where
  "not_deliverable facts invoice_id =
     [(''error'', PStr ''not_deliverable''),
      (''message'', dict_get_or ''not_deliverable_reason''
         (PStr (''This invoice has no email address on file, so no letter can be ''
            @ ''sent. Do not propose one.'')) facts),
      (''invoice_id'', invoice_id), (''recoverable'', PBool True)]"

definition unknown_tone :: "unicode \<Rightarrow> pyval \<Rightarrow> pydict" where
  "unknown_tone u tone =
     [(''error'', PStr ''unknown_tone''),
      (''message'', PStr (''tone must be one of ['friendly', 'firm', 'final'], not '' @ uc_repr u tone @ ''.'')),
      (''recoverable'', PBool True)]"

definition rationale_required :: pydict where
  "rationale_required =
     [(''error'', PStr ''rationale_required''),
      (''message'', PStr (''Every proposal needs a written rationale explaining why this ''
         @ ''invoice and why this tone. The operator reads it first, and it is ''
         @ ''what makes the queue reviewable at a glance.'')),
      (''recoverable'', PBool True)]"

definition proposal_cap_reached :: "int \<Rightarrow> pydict" where
  "proposal_cap_reached cap =
     [(''error'', PStr ''proposal_cap_reached''),
      (''message'', PStr (''This run's limit of '' @ int_str cap @ '' proposals has been reached. ''
         @ ''Summarise what you have done and stop proposing.'')),
      (''recoverable'', PBool True)]"

definition duplicate_pending :: "string \<Rightarrow> pyval \<Rightarrow> pydict" where
  "duplicate_pending message invoice_id =
     [(''error'', PStr ''duplicate_pending_proposal''), (''message'', PStr message),
      (''invoice_id'', invoice_id), (''recoverable'', PBool True)]"

text \<open>\<^verbatim>\<open>facts_by_invoice.get(invoice_id)\<close>, \<^verbatim>\<open>(rationale or "").strip()\<close> and the texts \<^verbatim>\<open>re\<close> is run on.\<close>

definition facts_of :: "pyval \<Rightarrow> agent \<Rightarrow> exn + pydict option" where
  "facts_of invoice_id a =
     raise_if (\<not> hashable invoice_id) (TypeError ''unhashable type'')
       (Inr (case invoice_id of PStr i \<Rightarrow> ag_facts a i | _ \<Rightarrow> None))"

definition stripped :: "pyval \<Rightarrow> exn + string" where
  "stripped v =
     (if \<not> truthy v then Inr [] else case v of PStr s \<Rightarrow> Inr (strip s)
      | _ \<Rightarrow> Inl (OtherError ''AttributeError'' ''strip''))"

definition letter_text :: "pyval \<Rightarrow> exn + string" where
  "letter_text v =
     (if \<not> truthy v then Inr [] else case v of PStr s \<Rightarrow> Inr s
      | _ \<Rightarrow> Inl (TypeError ''expected string or bytes-like object''))"

definition letter_payload :: "pyval \<Rightarrow> pydict \<Rightarrow> pyval \<Rightarrow> pyval \<Rightarrow> pyval \<Rightarrow> pydict" where
  "letter_payload invoice_id facts subject body tone =
     [(''action_type'', PStr ''send_collection_letter''), (''invoice_id'', invoice_id),
      (''invoice_number'', py_or (dict_get ''invoice_number'' facts) (dict_get ''number'' facts)),
      (''customer_id'', dict_get ''customer_id'' facts), (''customer_name'', dict_get ''customer_name'' facts),
      (''customer_email'', dict_get ''customer_email'' facts), (''amount_due'', dict_get ''amount_due'' facts),
      (''amount_display'', dict_get ''amount_display'' facts), (''currency'', dict_get ''currency'' facts),
      (''due_date'', dict_get ''due_date'' facts), (''days_overdue'', dict_get ''days_overdue'' facts),
      (''hosted_invoice_url'', dict_get ''hosted_invoice_url'' facts), (''subject'', subject), (''body'', body),
      (''tone'', tone)]"

text \<open>\<^verbatim>\<open>store.create_proposal\<close>: its own transaction; only a duplicate is turned into a refusal.\<close>

definition store_proposal ::
  "env \<Rightarrow> toolset \<Rightarrow> pyval \<Rightarrow> pydict \<Rightarrow> pydict \<Rightarrow> string \<Rightarrow> int \<Rightarrow> int \<Rightarrow> string tool_work" where
  "store_proposal env ts invoice_id facts payload rationale amount days a =
     (case session_scope (create_proposal env (ts_run_id ts) payload rationale (py_str (ts_unicode ts) invoice_id)
             (py_str (ts_unicode ts) (dict_get ''customer_email'' facts)) amount
             (py_str (ts_unicode ts) (py_or (dict_get ''currency'' facts) (PStr ''usd''))) days (ts_ttl_hours ts))
           (ag_world a) of
        (Inr i, w) \<Rightarrow> (Inr i, a\<lparr>ag_world := w\<rparr>)
      | (Inl (DuplicatePendingProposal i), w) \<Rightarrow>
          (Inl (Failure (duplicate_pending (exn_text (DuplicatePendingProposal i)) invoice_id)), a\<lparr>ag_world := w\<rparr>)
      | (Inl e, w) \<Rightarrow> (Inl (Raised e), a\<lparr>ag_world := w\<rparr>))"

definition proposal_ref :: "string \<Rightarrow> pyval \<Rightarrow> pyval \<Rightarrow> pydict \<Rightarrow> pyval" where
  "proposal_ref proposal_id tone invoice_id facts =
     PDict [(''proposal_id'', PStr proposal_id), (''status'', PStr ''pending''), (''tone'', tone),
       (''invoice_id'', invoice_id), (''amount_display'', dict_get ''amount_display'' facts),
       (''awaiting'', PStr ''human approval''),
       (''note'', PStr (''Nothing has been sent. This letter is queued for a human to review, and ''
          @ ''only an approval can cause it to leave the system.''))]"

definition draft_letter ::
  "env \<Rightarrow> toolset \<Rightarrow> pyval \<Rightarrow> pyval \<Rightarrow> pyval \<Rightarrow> pyval \<Rightarrow> pyval \<Rightarrow> pydict \<Rightarrow> pyval tool_work" where
  "draft_letter env ts invoice_id subject body tone rationale facts =
     fail_if (\<not> truthy (dict_get ''deliverable'' facts)) (not_deliverable facts invoice_id)
    (fail_if (tone \<notin> PStr ` set tones) (unknown_tone (ts_unicode ts) tone)
    (then_with (tool_pure (stripped rationale)) (\<lambda>reason.
     fail_if (reason = []) rationale_required (tool_look (\<lambda>a.
     fail_if (ts_max_proposals ts \<le> int (proposal_count (ts_run_id ts) (ag_world a))) (proposal_cap_reached (ts_max_proposals ts))
    (then_with (tool_pure (and_then (letter_text subject) (\<lambda>s. and_then (letter_text body) (\<lambda>b.
       review_letter (ts_unicode ts) s b facts)))) (\<lambda>report.
     fail_if (\<not> report_ok report) (as_tool_error report)
    (then_with (tool_pure (int_or_0 (dict_get ''amount_due'' facts))) (\<lambda>amount.
     then_with (tool_pure (int_or_0 (dict_get ''days_overdue'' facts))) (\<lambda>days.
     then_with (store_proposal env ts invoice_id facts (letter_payload invoice_id facts subject body tone)
        (py_str (ts_unicode ts) rationale) amount days) (\<lambda>i a.
     (Inr (proposal_ref i tone invoice_id facts), a))))))))))))"

definition propose_handler :: "env \<Rightarrow> toolset \<Rightarrow> pyval \<Rightarrow> pyval \<Rightarrow> pyval \<Rightarrow> pyval \<Rightarrow> pyval \<Rightarrow> pyval tool_work" where
  "propose_handler env ts invoice_id subject body tone rationale =
     then_with (tool_look (\<lambda>a. tool_pure (facts_of invoice_id a))) (\<lambda>known.
       case known of
         None \<Rightarrow> (\<lambda>a. (Inl (Failure (invoice_not_read (ts_unicode ts) invoice_id)), a))
       | Some facts \<Rightarrow> draft_letter env ts invoice_id subject body tone rationale facts)"

definition draft_tool :: "env \<Rightarrow> toolset \<Rightarrow> tool_spec" where
  "draft_tool env ts =
     \<lparr>tp_name = ''propose_collection_letter'', tp_class = DRAFT,
      tp_description = propose_collection_letter_description, tp_schema = propose_collection_letter_schema,
      tp_handler = with_arguments
        [(''invoice_id'', None), (''subject'', None), (''body'', None), (''tone'', None), (''rationale'', None)]
        (\<lambda>vs. propose_handler env ts (vs ! 0) (vs ! 1) (vs ! 2) (vs ! 3) (vs ! 4))\<rparr>"

section \<open>The registry\<close>

definition letter_facts :: "pydict \<Rightarrow> pydict" where
  "letter_facts projected =
     [(''invoice_id'', dict_get ''id'' projected), (''invoice_number'', dict_get ''number'' projected),
      (''customer_id'', dict_get ''customer_id'' projected), (''customer_name'', dict_get ''customer_name'' projected),
      (''customer_email'', dict_get ''customer_email'' projected), (''amount_due'', dict_get ''amount_due'' projected),
      (''amount_display'', dict_get ''amount_due_display'' projected), (''currency'', dict_get ''currency'' projected),
      (''due_date'', dict_get ''due_date'' projected), (''days_overdue'', dict_get ''days_overdue'' projected),
      (''hosted_invoice_url'', dict_get ''hosted_invoice_url'' projected),
      (''deliverable'', dict_get_or ''deliverable'' (PBool False) projected),
      (''not_deliverable_reason'', dict_get ''not_deliverable_reason'' projected)]"

definition looks_like_an_invoice :: "pyval \<Rightarrow> bool" where
  "looks_like_an_invoice v =
     (is_pstr (dict_get ''id'' (items_of v)) \<and> dict_has ''amount_due'' (items_of v)
      \<and> dict_has ''days_overdue'' (items_of v))"

text \<open>\<^verbatim>\<open>_walk\<close> goes four levels down: fuel five.\<close>

fun walk_result :: "nat \<Rightarrow> pyval \<Rightarrow> pydict list" where
  "walk_result 0 v = []"
| "walk_result (Suc k) v =
     (if looks_like_an_invoice v then [items_of v] else [])
     @ (case v of
          PDict d \<Rightarrow> concat (map (\<lambda>kv. walk_result k (snd kv)) d)
        | PList xs \<Rightarrow> concat (map (walk_result k) xs)
        | _ \<Rightarrow> [])"

definition capture :: "pydict \<Rightarrow> (string \<Rightarrow> pydict option) \<Rightarrow> string \<Rightarrow> pydict option" where
  "capture candidate facts =
     (case dict_get ''invoice_id'' (letter_facts candidate) of
        PStr i \<Rightarrow> if i = [] then facts else facts(i \<mapsto> letter_facts candidate)
      | _ \<Rightarrow> facts)"

definition harvest :: "pyval \<Rightarrow> agent \<Rightarrow> agent" where
  "harvest result a = a\<lparr>ag_facts := fold capture (walk_result 5 result) (ag_facts a)\<rparr>"

type_synonym registry = "(string \<times> tool_spec) list"

definition registry_init :: "tool_spec list \<Rightarrow> registry" where
  "registry_init tools = map (\<lambda>t. (tp_name t, t)) tools"

definition build_registry :: "env \<Rightarrow> toolset \<Rightarrow> exn + registry" where
  "build_registry env ts =
     and_then (build_read_tools env ts) (\<lambda>tools.
     and_then (tool_spec_init (ts_unicode ts) (draft_tool env ts)) (\<lambda>draft.
     Inr (registry_init tools @ [(''propose_collection_letter'', draft)])))"

definition registry_names :: "registry \<Rightarrow> string list" where
  "registry_names reg = map fst reg"

definition anthropic_schemas :: "registry \<Rightarrow> pyval list" where
  "anthropic_schemas reg = map (\<lambda>nt. to_anthropic (snd nt)) reg"

definition classification :: "registry \<Rightarrow> (string \<times> string) list" where
  "classification reg = map (\<lambda>nt. (fst nt, tool_class_str (tp_class (snd nt)))) reg"

definition class_of_tool :: "registry \<Rightarrow> string \<Rightarrow> tool_class option" where
  "class_of_tool reg name = map_option tp_class (map_of reg name)"

definition unknown_tool :: "unicode \<Rightarrow> string \<Rightarrow> string list \<Rightarrow> pydict" where
  "unknown_tool u name available =
     [(''error'', PStr ''unknown_tool''),
      (''message'', PStr (''There is no tool called '' @ uc_repr u (PStr name) @ ''. Available tools: ''
         @ join '', '' available @ ''.'')),
      (''recoverable'', PBool True)]"

definition bad_arguments :: "string \<Rightarrow> string \<Rightarrow> pydict" where
  "bad_arguments name why =
     [(''error'', PStr ''bad_arguments''), (''message'', PStr (name @ '' rejected those arguments: '' @ why)),
      (''recoverable'', PBool True)]"

definition execute_tool :: "unicode \<Rightarrow> registry \<Rightarrow> string \<Rightarrow> pydict \<Rightarrow> pyval tool_work" where
  "execute_tool u reg name arguments a =
     (case map_of reg name of
        None \<Rightarrow> (Inl (Failure (unknown_tool u name (registry_names reg))), a)
      | Some tool \<Rightarrow>
          case tp_handler tool arguments a of
            (Inl (Raised (TypeError why)), a') \<Rightarrow> (Inl (Failure (bad_arguments name why)), a')
          | (Inl e, a') \<Rightarrow> (Inl e, a')
          | (Inr result, a') \<Rightarrow> (Inr result, if tp_class tool = READ then harvest result a' else a'))"

end
