(* ===== verification/AgentLoop.thy ===== *)
theory AgentLoop
  imports Tools Prompts Approval
begin

text \<open>
  \<^verbatim>\<open>app/agent/llm.py\<close>, \<^verbatim>\<open>app/agent/loop.py\<close> and \<^verbatim>\<open>app/runner.py\<close>: the model client, the tool-use loop and the worker that
  drives a run. The model is a parameter: what it answers to the n-th request, given the system prompt,
  the messages so far and the tools. The loop's recursion is on the turns that remain.
\<close>

section \<open>The model\<close>

record tool_call =
  tc_id :: string
  tc_name :: string
  tc_arguments :: pydict

record llm_response =
  lr_stop_reason :: "string option"
  lr_thinking :: "string list"
  lr_text :: "string list"
  lr_tool_calls :: "tool_call list"
  lr_content :: pyval

definition wants_tools :: "llm_response \<Rightarrow> bool" where
  "wants_tools r = (lr_tool_calls r \<noteq> [])"

text \<open>What the API answers: a response with its content blocks, an error status, a timeout, or no connection.\<close>

datatype block = ThinkingBlock string | TextBlock string | ToolUseBlock string string pydict | OtherBlock

datatype api_reply =
    ApiMessage "string option" "block list" pyval
  | ApiStatus int string
  | ApiTimeout string
  | ApiNoConnection string
  | ApiRaised exn

text \<open>\<^verbatim>\<open>LLMUnavailable\<close> with its text, or another exception.\<close>

datatype llm_exn = Unavailable string | LlmRaised exn

fun thinking_of :: "block \<Rightarrow> string list" where
  "thinking_of (ThinkingBlock t) = (if strip t = [] then [] else [strip t])"
| "thinking_of b = []"

fun text_of :: "block \<Rightarrow> string list" where
  "text_of (TextBlock t) = (if strip t = [] then [] else [strip t])"
| "text_of b = []"

fun call_of :: "block \<Rightarrow> tool_call list" where
  "call_of (ToolUseBlock i name arguments) = [\<lparr>tc_id = i, tc_name = name, tc_arguments = arguments\<rparr>]"
| "call_of b = []"

definition normalise_response :: "string option \<Rightarrow> block list \<Rightarrow> pyval \<Rightarrow> llm_response" where
  "normalise_response stop blocks content =
     \<lparr>lr_stop_reason = stop, lr_thinking = concat (map thinking_of blocks), lr_text = concat (map text_of blocks),
      lr_tool_calls = concat (map call_of blocks), lr_content = content\<rparr>"

text \<open>The request of the Messages API, and \<^verbatim>\<open>AnthropicLLM.create\<close>.\<close>

definition MAX_TOKENS :: int where "MAX_TOKENS = 16000"

definition llm_request :: "string \<Rightarrow> string \<Rightarrow> pyval list \<Rightarrow> pyval list \<Rightarrow> pydict" where
  "llm_request model system messages tools =
     [(''model'', PStr model), (''max_tokens'', PInt MAX_TOKENS), (''system'', PStr system),
      (''messages'', PList messages), (''tools'', PList tools),
      (''thinking'', PDict [(''type'', PStr ''adaptive''), (''display'', PStr ''summarized'')])]"

definition llm_create :: "api_reply \<Rightarrow> llm_exn + llm_response" where
  "llm_create reply =
     (case reply of
        ApiMessage stop blocks content \<Rightarrow> Inr (normalise_response stop blocks content)
      | ApiStatus status why \<Rightarrow> Inl (Unavailable (''Anthropic returned HTTP '' @ int_str status @ '': '' @ why))
      | ApiTimeout why \<Rightarrow> Inl (Unavailable (''Anthropic did not respond within this run's time budget ''
          @ ''(RUN_TIMEOUT_SECONDS): '' @ why))
      | ApiNoConnection why \<Rightarrow> Inl (Unavailable (''Could not reach Anthropic: '' @ why))
      | ApiRaised e \<Rightarrow> Inl (LlmRaised e))"

definition anthropic_llm :: "string \<Rightarrow> llm_exn + unit" where
  "anthropic_llm api_key =
     (if api_key = [] then
        Inl (Unavailable (''ANTHROPIC_API_KEY is not configured, so the agent cannot run. Everything ''
          @ ''else in this system works without it: the boundary, the approval flow and ''
          @ ''the audit chain are all exercised by the test suite and by ''
          @ ''scripts/demo_boundary.py.''))
      else Inr ())"

section \<open>Results for the model\<close>

text \<open>\<^verbatim>\<open>json.dumps\<close> with its own separators, a space behind each: the keys stay in their order.\<close>

function spaced :: "(string \<Rightarrow> string) \<Rightarrow> pyval \<Rightarrow> string" where
  "spaced esc PNone = ''null''"
| "spaced esc (PBool b) = (if b then ''true'' else ''false'')"
| "spaced esc (PInt i) = int_str i"
| "spaced esc (PStr s) = json_string esc s"
| "spaced esc (PList xs) = ''['' @ join '', '' (map (spaced esc) xs) @ '']''"
| "spaced esc (PDict d) =
     ''{'' @ join '', '' (map (\<lambda>kv. json_string esc (fst kv) @ '': '' @ spaced esc (snd kv)) d) @ ''}''"
  by pat_completeness auto
termination
  by (relation "measure (size \<circ> snd)")
     (auto simp: less_Suc_eq_le intro: size_list_estimation' order_trans [OF _ size_list_estimation'])

text \<open>\<^verbatim>\<open>json.dumps(result, default=str, ensure_ascii=False)\<close>.\<close>

definition spaced_json :: "pyval \<Rightarrow> string" where
  "spaced_json v = spaced escape_utf8 v"

definition MAX_RESULT_CHARS :: nat where "MAX_RESULT_CHARS = 20000"

definition serialise :: "pyval \<Rightarrow> string" where
  "serialise result =
     (let rendered = spaced_json result in
      if MAX_RESULT_CHARS < py_len rendered
      then py_take MAX_RESULT_CHARS rendered @ ''... [truncated at '' @ nat_str MAX_RESULT_CHARS @ '' chars]''
      else rendered)"

section \<open>The loop\<close>

text \<open>What ends the loop early: the budget, the model, or anything else.\<close>

datatype stop = OverBudget string | NoModel string | Crashed exn

record conversation =
  cv_agent :: agent
  cv_calls :: nat
  cv_turns :: nat
  cv_summary :: "string list"
  cv_steps :: "nat list"
  cv_messages :: "pyval list"

type_synonym 'a talk = "conversation \<Rightarrow> (stop + 'a) \<times> conversation"

fun talk_each :: "('x \<Rightarrow> 'a talk) \<Rightarrow> 'x list \<Rightarrow> 'a list talk" where
  "talk_each f [] c = (Inr [], c)"
| "talk_each f (x # xs) c = then_with (f x) (\<lambda>y. then_with (talk_each f xs) (\<lambda>ys c'. (Inr (y # ys), c'))) c"

definition cv_world :: "conversation \<Rightarrow> world" where
  "cv_world c = ag_world (cv_agent c)"

definition set_world :: "world \<Rightarrow> conversation \<Rightarrow> conversation" where
  "set_world w c = c\<lparr>cv_agent := (cv_agent c)\<lparr>ag_world := w\<rparr>\<rparr>"

text \<open>\<^verbatim>\<open>steps.append(store.append_step(...))\<close>: one transaction.\<close>

definition record_step :: "env \<Rightarrow> string \<Rightarrow> step_type \<Rightarrow> string option \<Rightarrow> pydict \<Rightarrow> unit talk" where
  "record_step env run_id kind tool payload c =
     (case session_scope (append_step env run_id kind tool payload) (cv_world c) of
        (Inl e, w) \<Rightarrow> (Inl (Crashed e), set_world w c)
      | (Inr n, w) \<Rightarrow> (Inr (), (set_world w c)\<lparr>cv_steps := cv_steps c @ [n]\<rparr>))"

definition class_label :: "registry \<Rightarrow> string \<Rightarrow> string" where
  "class_label reg name =
     (case class_of_tool reg name of None \<Rightarrow> ''UNKNOWN'' | Some k \<Rightarrow> tool_class_str k)"

definition result_payload :: "registry \<Rightarrow> tool_call \<Rightarrow> bool \<Rightarrow> pyval \<Rightarrow> pydict" where
  "result_payload reg call failed result =
     [(''tool_use_id'', PStr (tc_id call)), (''is_error'', PBool failed), (''result'', result),
      (''tool_class'', PStr (class_label reg (tc_name call)))]"

definition run_tool :: "unicode \<Rightarrow> registry \<Rightarrow> tool_call \<Rightarrow> (tool_exn + pyval) talk" where
  "run_tool u reg call c =
     (case execute_tool u reg (tc_name call) (tc_arguments call) (cv_agent c) of (r, a) \<Rightarrow> (Inr r, c\<lparr>cv_agent := a\<rparr>))"

definition execute_one :: "env \<Rightarrow> unicode \<Rightarrow> string \<Rightarrow> registry \<Rightarrow> tool_call \<Rightarrow> pyval talk" where
  "execute_one env u run_id reg call =
     then_with (record_step env run_id ToolCall (Some (tc_name call))
       [(''tool_use_id'', PStr (tc_id call)), (''arguments'', PDict (tc_arguments call)),
        (''tool_class'', PStr (class_label reg (tc_name call)))]) (\<lambda>_.
     then_with (run_tool u reg call) (\<lambda>r.
       case r of
         Inl (Raised e) \<Rightarrow> (\<lambda>c. (Inl (Crashed e), c))
       | Inl (Failure payload) \<Rightarrow>
           then_with (record_step env run_id ToolResult (Some (tc_name call)) (result_payload reg call True (PDict payload)))
             (\<lambda>_ c. (Inr (PDict [(''type'', PStr ''tool_result''), (''tool_use_id'', PStr (tc_id call)),
                (''content'', PStr (serialise (PDict payload))), (''is_error'', PBool True)]), c))
       | Inr result \<Rightarrow>
           then_with (record_step env run_id ToolResult (Some (tc_name call)) (result_payload reg call False result))
             (\<lambda>_ c. (Inr (PDict [(''type'', PStr ''tool_result''), (''tool_use_id'', PStr (tc_id call)),
                (''content'', PStr (serialise result))]), c))))"

definition budgeted_call :: "env \<Rightarrow> unicode \<Rightarrow> string \<Rightarrow> nat \<Rightarrow> registry \<Rightarrow> tool_call \<Rightarrow> pyval talk" where
  "budgeted_call env u run_id budget reg call c =
     (if budget \<le> cv_calls c
      then (Inl (OverBudget (''the run reached its limit of '' @ nat_str budget @ '' tool calls'')), c)
      else execute_one env u run_id reg call (c\<lparr>cv_calls := Suc (cv_calls c)\<rparr>))"

definition message :: "string \<Rightarrow> pyval \<Rightarrow> pyval" where
  "message role content = PDict [(''role'', PStr role), (''content'', content)]"

definition note_text :: "env \<Rightarrow> string \<Rightarrow> string \<Rightarrow> unit talk" where
  "note_text env run_id t =
     then_with (record_step env run_id Message None [(''text'', PStr t)])
       (\<lambda>_ c. (Inr (), c\<lparr>cv_summary := cv_summary c @ [t]\<rparr>))"

text \<open>
  The turns. The loop's own bound on turns is the fuel: when it is used up the run is over budget, as
  the source checks at the top of each turn.
\<close>

type_synonym model = "nat \<Rightarrow> string \<Rightarrow> pyval list \<Rightarrow> pyval list \<Rightarrow> llm_exn + llm_response"

definition ask_model :: "model \<Rightarrow> string \<Rightarrow> pyval list \<Rightarrow> llm_response talk" where
  "ask_model llm system tools c =
     (case llm (cv_turns c) system (cv_messages c) tools of
        Inl (Unavailable m) \<Rightarrow> (Inl (NoModel m), c\<lparr>cv_turns := Suc (cv_turns c)\<rparr>)
      | Inl (LlmRaised e) \<Rightarrow> (Inl (Crashed e), c\<lparr>cv_turns := Suc (cv_turns c)\<rparr>)
      | Inr r \<Rightarrow> (Inr r, c\<lparr>cv_turns := Suc (cv_turns c)\<rparr>))"

definition say :: "pyval \<Rightarrow> unit talk" where
  "say m c = (Inr (), c\<lparr>cv_messages := cv_messages c @ [m]\<rparr>)"

definition take_turn :: "env \<Rightarrow> unicode \<Rightarrow> string \<Rightarrow> nat \<Rightarrow> registry \<Rightarrow> model \<Rightarrow> string \<Rightarrow> bool talk" where
  "take_turn env u run_id budget reg llm system =
     then_with (ask_model llm system (anthropic_schemas reg)) (\<lambda>r.
     then_with (talk_each (\<lambda>t. record_step env run_id Thought None [(''text'', PStr t)]) (lr_thinking r)) (\<lambda>_.
     then_with (talk_each (note_text env run_id) (lr_text r)) (\<lambda>_.
       if \<not> wants_tools r then (\<lambda>c. (Inr False, c))
       else
         then_with (say (message ''assistant'' (lr_content r))) (\<lambda>_.
         then_with (talk_each (budgeted_call env u run_id budget reg) (lr_tool_calls r)) (\<lambda>results.
         then_with (say (message ''user'' (PList results))) (\<lambda>_ c. (Inr True, c)))))))"

definition turns_spent :: "nat \<Rightarrow> stop" where
  "turns_spent max_turns =
     OverBudget (''the run exceeded '' @ nat_str max_turns @ '' model turns without finishing'')"

fun converse :: "nat \<Rightarrow> nat \<Rightarrow> env \<Rightarrow> unicode \<Rightarrow> string \<Rightarrow> nat \<Rightarrow> registry \<Rightarrow> model \<Rightarrow> string \<Rightarrow> unit talk" where
  "converse max_turns 0 env u run_id budget reg llm system c = (Inl (turns_spent max_turns), c)"
| "converse max_turns (Suc left) env u run_id budget reg llm system c =
     then_with (take_turn env u run_id budget reg llm system) (\<lambda>more.
       if more then converse max_turns left env u run_id budget reg llm system
       else (\<lambda>c. (Inr (), c))) c"

record run_outcome =
  ro_run_id :: string
  ro_status :: run_status
  ro_tool_calls :: nat
  ro_proposals :: nat
  ro_turns :: nat
  ro_summary :: string
  ro_error :: "string option"
  ro_steps :: "nat list"

definition outcome_of :: "string \<Rightarrow> run_status \<Rightarrow> string \<Rightarrow> string option \<Rightarrow> conversation \<Rightarrow> run_outcome" where
  "outcome_of run_id status summary err c =
     \<lparr>ro_run_id = run_id, ro_status = status, ro_tool_calls = cv_calls c,
      ro_proposals = proposal_count run_id (cv_world c), ro_turns = cv_turns c, ro_summary = summary,
      ro_error = err, ro_steps = cv_steps c\<rparr>"

text \<open>\<^verbatim>\<open>store.set_status\<close>, whose exceptions leave \<^verbatim>\<open>run_agent\<close>; the three ways a run ends early and the way it ends.\<close>

definition store_status :: "env \<Rightarrow> string \<Rightarrow> run_status \<Rightarrow> string option \<Rightarrow> conversation \<Rightarrow> (exn + unit) \<times> conversation" where
  "store_status env run_id status err c =
     (case session_scope (set_status env run_id status err) (cv_world c) of (r, w) \<Rightarrow> (r, set_world w c))"

definition end_with :: "env \<Rightarrow> string \<Rightarrow> run_status \<Rightarrow> string \<Rightarrow> string option \<Rightarrow> conversation \<Rightarrow> (exn + run_outcome) \<times> conversation" where
  "end_with env run_id status summary err c =
     (case store_status env run_id status err c of
        (Inl e, c') \<Rightarrow> (Inl e, c')
      | (Inr _, c') \<Rightarrow> (Inr (outcome_of run_id status summary err c'), c'))"

definition guardrail_step :: "string \<Rightarrow> pydict" where
  "guardrail_step m = [(''text'', PStr (''Run stopped: '' @ m @ ''.'')), (''kind'', PStr ''guardrail'')]"

definition fail_run :: "env \<Rightarrow> string \<Rightarrow> stop \<Rightarrow> conversation \<Rightarrow> (exn + run_outcome) \<times> conversation" where
  "fail_run env run_id why c =
     (case why of
        OverBudget m \<Rightarrow>
          (case record_step env run_id Message None (guardrail_step m) c of
             (Inl (Crashed e), c') \<Rightarrow> (Inl e, c')
           | (_, c') \<Rightarrow> end_with env run_id RunFailed [] (Some m) c')
      | NoModel m \<Rightarrow> end_with env run_id RunFailed [] (Some m) c
      | Crashed e \<Rightarrow> end_with env run_id RunFailed [] (Some (exn_name e @ '': '' @ exn_text e)) c)"

definition finish_run :: "env \<Rightarrow> string \<Rightarrow> conversation \<Rightarrow> (exn + run_outcome) \<times> conversation" where
  "finish_run env run_id c =
     end_with env run_id (if 0 < proposal_count run_id (cv_world c) then RunAwaiting else RunCompleted)
       (strip (join (newline @ newline) (cv_summary c))) None c"

definition DEFAULT_MAX_TURNS :: nat where "DEFAULT_MAX_TURNS = 40"

definition run_agent ::
  "env \<Rightarrow> unicode \<Rightarrow> app_settings \<Rightarrow> string \<Rightarrow> string \<Rightarrow> model \<Rightarrow> registry \<Rightarrow> nat \<Rightarrow> agent \<Rightarrow> (exn + run_outcome) \<times> conversation" where
  "run_agent env u s run_id goal llm reg max_turns a =
     (let system = build_system_prompt (as_operator_id s) (int (as_max_proposals s)) (int (as_max_tool_calls s));
          c0 = \<lparr>cv_agent = a, cv_calls = 0, cv_turns = 0, cv_summary = [], cv_steps = [],
                cv_messages = [message ''user'' (PStr goal)]\<rparr>
      in case store_status env run_id RunRunning None c0 of
           (Inl e, c) \<Rightarrow> (Inl e, c)
         | (Inr _, c) \<Rightarrow>
             (case converse max_turns max_turns env u run_id (as_max_tool_calls s) reg llm system c of
                (Inl why, c') \<Rightarrow> fail_run env run_id why c'
              | (Inr _, c') \<Rightarrow> finish_run env run_id c'))"

section \<open>The worker\<close>

text \<open>\<^verbatim>\<open>start_run\<close>: the run is created and the work handed to a worker, which \<^verbatim>\<open>_execute\<close> is.\<close>

definition resolved_goal :: "string option \<Rightarrow> string" where
  "resolved_goal goal =
     (let g = (case goal of None \<Rightarrow> [] | Some t \<Rightarrow> strip t) in if g = [] then DEFAULT_GOAL else g)"

definition nonzero_or :: "int option \<Rightarrow> int \<Rightarrow> int" where
  "nonzero_or v dflt = (case v of None \<Rightarrow> dflt | Some i \<Rightarrow> if i = 0 then dflt else i)"

definition operator_or :: "string option \<Rightarrow> string \<Rightarrow> string" where
  "operator_or v dflt = (case v of None \<Rightarrow> dflt | Some t \<Rightarrow> if t = [] then dflt else t)"

definition run_params :: "app_settings \<Rightarrow> int \<Rightarrow> int \<Rightarrow> pydict" where
  "run_params s min_days cap =
     [(''min_days_overdue'', PInt min_days), (''max_proposals'', PInt cap),
      (''max_tool_calls'', PInt (int (as_max_tool_calls s))), (''model'', PStr (as_model s))]"

record job =
  jb_run_id :: string
  jb_goal :: string
  jb_min_days :: int
  jb_max_proposals :: int

definition start_run ::
  "env \<Rightarrow> app_settings \<Rightarrow> string option \<Rightarrow> int \<Rightarrow> int option \<Rightarrow> string option \<Rightarrow> world \<Rightarrow> (exn + pydict \<times> job) \<times> world" where
  "start_run env s goal min_days max_proposals operator_id w =
     (let g = resolved_goal goal; cap = nonzero_or max_proposals (int (as_max_proposals s));
          operator = operator_or operator_id (as_operator_id s)
      in case session_scope (create_run env g operator (run_params s min_days cap)) w of
           (Inl e, w') \<Rightarrow> (Inl e, w')
         | (Inr i, w') \<Rightarrow>
             (Inr ([(''run_id'', PStr i), (''status'', PStr ''queued''), (''goal'', PStr g)],
                   \<lparr>jb_run_id = i, jb_goal = g, jb_min_days = min_days, jb_max_proposals = cap\<rparr>), w'))"

definition run_goal :: "job \<Rightarrow> string" where
  "run_goal j =
     jb_goal j @ newline @ newline @ ''Only consider invoices at least '' @ int_str (jb_min_days j) @ '' day(s) ''
     @ ''overdue. Propose at most '' @ int_str (jb_max_proposals j) @ '' letters.''"

text \<open>\<^verbatim>\<open>build_run_context\<close>: the client and the toolset of one run, with the limits of the settings.\<close>

definition run_toolset :: "stripe_client \<Rightarrow> unicode \<Rightarrow> app_settings \<Rightarrow> job \<Rightarrow> toolset" where
  "run_toolset c u s j =
     \<lparr>ts_client = c, ts_unicode = u, ts_run_id = jb_run_id j, ts_floor = jb_min_days j,
      ts_max_proposals = int (as_max_proposals s), ts_ttl_hours = as_proposal_ttl_hours s\<rparr>"

definition build_run_context ::
  "env \<Rightarrow> stripe_client \<Rightarrow> unicode \<Rightarrow> app_settings \<Rightarrow> string \<Rightarrow> job \<Rightarrow> world \<Rightarrow> read_exn + registry \<times> agent" where
  "build_run_context env c u s read_key j w =
     (case stripe_read_client c read_key of
        Inl e \<Rightarrow> Inl e
      | Inr (client, reads) \<Rightarrow>
          (case build_registry env (run_toolset client u s j) of
             Inl e \<Rightarrow> Inl (ReadRaised e)
           | Inr reg \<Rightarrow> Inr (reg, \<lparr>ag_reads = reads, ag_facts = (\<lambda>_. None), ag_world = w\<rparr>)))"

text \<open>The last resort of the worker: one more attempt to say that the run failed.\<close>

definition mark_crashed :: "env \<Rightarrow> string \<Rightarrow> world \<Rightarrow> world" where
  "mark_crashed env run_id w =
     snd (session_scope (set_status env run_id RunFailed (Some ''the run crashed unexpectedly'')) w)"

definition execute_run ::
  "env \<Rightarrow> stripe_client \<Rightarrow> unicode \<Rightarrow> app_settings \<Rightarrow> string \<Rightarrow> model option \<Rightarrow> model \<Rightarrow> job \<Rightarrow> world \<Rightarrow> (exn + unit) \<times> world" where
  "execute_run env c u s read_key given anthropic j w =
     (case (case given of Some llm \<Rightarrow> Inr llm | None \<Rightarrow> and_then (anthropic_llm (as_anthropic_api_key s)) (\<lambda>_. Inr anthropic)) of
        Inl (Unavailable m) \<Rightarrow> session_scope (set_status env (jb_run_id j) RunFailed (Some m)) w
      | Inl (LlmRaised e) \<Rightarrow> (Inl e, w)
      | Inr llm \<Rightarrow>
          (case build_run_context env c u s read_key j w of
             Inl e \<Rightarrow> (Inr (), mark_crashed env (jb_run_id j) w)
           | Inr (reg, a) \<Rightarrow>
               (case run_agent env u s (jb_run_id j) (run_goal j) llm reg DEFAULT_MAX_TURNS a of
                  (Inl e, c') \<Rightarrow> (Inr (), mark_crashed env (jb_run_id j) (cv_world c'))
                | (Inr outcome, c') \<Rightarrow> (Inr (), cv_world c'))))"

end
