(* ===== verification/InvoiceReading.thy ===== *)
theory InvoiceReading
  imports StripeRead
begin

text \<open>
  What the read-only client of \<^verbatim>\<open>app/stripe_client/read.py\<close> guarantees: how often it asks Stripe, what
  the overdue query returns, what a projected invoice says of its due date and of its customer's
  address.
\<close>

section \<open>Effects\<close>

lemma read_pure_Inr [result_simps]: "read_pure r s = (Inr y, s') \<longleftrightarrow> r = Inr y \<and> s' = s"
  by (auto simp: read_pure_def split: sum.splits)

section \<open>Retries\<close>

text \<open>What an answer other than a rate limit makes of the call.\<close>

fun answer :: "string \<Rightarrow> read_reply \<Rightarrow> read_exn + pyval" where
  "answer what (Replied v) = Inr v"
| "answer what (Refused why code status) =
     Inl (ReadError (''Stripe rejected '' @ what @ '': '' @ why) ''stripe_error''
       [(''operation'', PStr what), (''stripe_code'', code), (''http_status'', status)])"
| "answer what (Broke e) = Inl (ReadRaised e)"
| "answer what RateLimited = Inl (ReadRaised AssertionError)"

definition pauses_from :: "nat \<Rightarrow> nat \<Rightarrow> nat list" where
  "pauses_from a b = map (\<lambda>i. 2 ^ i) [a..<b]"

lemma attempts_answered:
  assumes "\<forall>j < k. sc_reply c (rd_calls s + j) what params = RateLimited"
    and "sc_reply c (rd_calls s + k) what params \<noteq> RateLimited" and "k < left"
  shows "attempts_from c what params a left s
    = (answer what (sc_reply c (rd_calls s + k) what params),
       s\<lparr>rd_calls := rd_calls s + Suc k, rd_pauses := rd_pauses s @ pauses_from a (a + k)\<rparr>)"
  using assms
proof (induction k arbitrary: a left s)
  case 0
  then show ?case
    by (cases left; cases "sc_reply c (rd_calls s) what params") (auto simp: next_call_def pauses_from_def)
next
  case (Suc k)
  then obtain l where l: "left = Suc l" "l \<noteq> 0" by (cases left) auto
  let ?s = "pause a (next_call s)"
  have "sc_reply c (rd_calls s) what params = RateLimited" using Suc.prems(1) by (metis add_0_right zero_less_Suc)
  then have "attempts_from c what params a left s = attempts_from c what params (Suc a) l ?s"
    using l by simp
  also have "\<dots> = (answer what (sc_reply c (rd_calls ?s + k) what params),
       ?s\<lparr>rd_calls := rd_calls ?s + Suc k, rd_pauses := rd_pauses ?s @ pauses_from (Suc a) (Suc a + k)\<rparr>)"
  proof (rule Suc.IH)
    show "\<forall>j < k. sc_reply c (rd_calls ?s + j) what params = RateLimited"
      using Suc.prems(1) by (auto simp: pause_def next_call_def dest: spec [of _ "Suc _"])
  qed (use Suc.prems l in \<open>simp_all add: pause_def next_call_def\<close>)
  finally show ?case
    by (simp add: pause_def next_call_def pauses_from_def upt_conv_Cons)
qed

lemma attempts_limited:
  assumes "\<forall>j < left. sc_reply c (rd_calls s + j) what params = RateLimited"
  shows "attempts_from c what params a left s
    = (Inl (rate_limited c what),
       s\<lparr>rd_calls := rd_calls s + left, rd_pauses := rd_pauses s @ pauses_from a (a + (left - 1))\<rparr>)"
  using assms
proof (induction left arbitrary: a s)
  case 0
  then show ?case by (simp add: pauses_from_def)
next
  case (Suc l)
  let ?s = "pause a (next_call s)"
  have first: "sc_reply c (rd_calls s) what params = RateLimited" using Suc.prems by (metis add_0_right zero_less_Suc)
  show ?case
  proof (cases "l = 0")
    case True
    with first show ?thesis by (simp add: next_call_def pauses_from_def)
  next
    case False
    have "\<forall>j < l. sc_reply c (rd_calls ?s + j) what params = RateLimited"
      using Suc.prems by (auto simp: pause_def next_call_def dest: spec [of _ "Suc _"])
    from Suc.IH [OF this, of "Suc a"] first False show ?thesis
      by (cases l) (simp_all add: pause_def next_call_def pauses_from_def upt_conv_Cons)
  qed
qed

text \<open>The reply to the \<open>j\<close>th attempt of a call.\<close>

definition reply_in :: "stripe_client \<Rightarrow> reads \<Rightarrow> string \<Rightarrow> pydict \<Rightarrow> nat \<Rightarrow> read_reply" where
  "reply_in c s what params j = sc_reply c (rd_calls s + j) what params"

text \<open>
  A call of Stripe is answered by the first reply that is no rate limit, when there is one within
  the attempts, and fails as rate limited otherwise. It asks at most as often as there are attempts and
  pauses 1, 2, 4, ... half seconds between two attempts.
\<close>

theorem stripe_call_retries:
  "(\<exists>k. k < sc_max_attempts c \<and> \<not> (\<exists>j < k. reply_in c s what params j \<noteq> RateLimited) \<and> reply_in c s what params k \<noteq> RateLimited
      \<and> stripe_call c what params s = (answer what (reply_in c s what params k),
          s\<lparr>rd_calls := rd_calls s + Suc k, rd_pauses := rd_pauses s @ pauses_from 0 k\<rparr>))
    \<or> \<not> (\<exists>j < sc_max_attempts c. reply_in c s what params j \<noteq> RateLimited)
      \<and> stripe_call c what params s = (Inl (rate_limited c what),
          s\<lparr>rd_calls := rd_calls s + sc_max_attempts c,
            rd_pauses := rd_pauses s @ pauses_from 0 (sc_max_attempts c - 1)\<rparr>)"
proof (cases "\<exists>j < sc_max_attempts c. reply_in c s what params j \<noteq> RateLimited")
  case True
  define k where "k = (LEAST j. reply_in c s what params j \<noteq> RateLimited)"
  from True obtain j where j: "j < sc_max_attempts c" "reply_in c s what params j \<noteq> RateLimited" by blast
  have "reply_in c s what params k \<noteq> RateLimited" unfolding k_def using j(2) by (rule LeastI)
  moreover have "k \<le> j" unfolding k_def using j(2) by (rule Least_le)
  moreover have before: "\<forall>i < k. reply_in c s what params i = RateLimited" unfolding k_def using not_less_Least by blast
  ultimately have "stripe_call c what params s = (answer what (reply_in c s what params k),
      s\<lparr>rd_calls := rd_calls s + Suc k, rd_pauses := rd_pauses s @ pauses_from 0 k\<rparr>)"
    using attempts_answered [of k c s what params "sc_max_attempts c" 0] j(1)
    by (simp add: stripe_call_def reply_in_def)
  with \<open>reply_in c s what params k \<noteq> RateLimited\<close> \<open>k \<le> j\<close> j(1) before show ?thesis by fastforce
next
  case False
  then have "stripe_call c what params s = (Inl (rate_limited c what),
      s\<lparr>rd_calls := rd_calls s + sc_max_attempts c,
        rd_pauses := rd_pauses s @ pauses_from 0 (sc_max_attempts c - 1)\<rparr>)"
    using attempts_limited [of "sc_max_attempts c" c s what params 0] by (auto simp: stripe_call_def reply_in_def)
  with False show ?thesis by blast
qed

section \<open>The overdue query\<close>

definition eligible :: "int \<Rightarrow> int option \<Rightarrow> pydict \<Rightarrow> bool" where
  "eligible min_days min_amount p = (\<not> too_recent min_days p \<and> \<not> too_small min_amount p)"

lemma pick_sound:
  "pick c u now min_days min_amount seen raws s = (Inr ps, s') \<Longrightarrow>
   distinct (map (dict_get ''id'') ps) \<and> set (map (dict_get ''id'') ps) \<inter> set seen = {}
   \<and> (\<forall>p \<in> set ps. eligible min_days min_amount p \<and> (\<exists>raw \<in> set raws. project_invoice u raw now = Inr p))"
proof (induction raws arbitrary: seen s ps)
  case Nil
  then show ?case by simp
next
  case (Cons raw raws)
  then obtain p where p: "project_invoice u raw now = Inr p" by (auto simp: result_simps)
  show ?case
  proof (cases "dict_get ''id'' p \<in> set seen \<or> too_recent min_days p \<or> too_small min_amount p")
    case True
    with Cons.prems p have "pick c u now min_days min_amount seen raws s = (Inr ps, s')" by (auto simp: result_simps)
    from Cons.IH [OF this] show ?thesis by auto
  next
    case False
    with Cons.prems p obtain s1 qs where "pick c u now min_days min_amount (dict_get ''id'' p # seen) raws s1 = (Inr qs, s')"
      and ps: "ps = p # qs" by (auto simp: result_simps)
    from Cons.IH [OF this(1)] False p show ?thesis unfolding ps by (auto simp: eligible_def)
  qed
qed

lemma pick_complete:
  "pick c u now min_days min_amount seen raws s = (Inr ps, s') \<Longrightarrow> raw \<in> set raws \<Longrightarrow>
   \<exists>p. project_invoice u raw now = Inr p
     \<and> (eligible min_days min_amount p \<longrightarrow> dict_get ''id'' p \<in> set seen \<union> dict_get ''id'' ` set ps)"
proof (induction raws arbitrary: seen s ps)
  case Nil
  then show ?case by simp
next
  case (Cons r raws)
  then obtain p where p: "project_invoice u r now = Inr p" by (auto simp: result_simps)
  show ?case
  proof (cases "dict_get ''id'' p \<in> set seen \<or> too_recent min_days p \<or> too_small min_amount p")
    case True
    with Cons.prems(1) p have "pick c u now min_days min_amount seen raws s = (Inr ps, s')" by (auto simp: result_simps)
    with Cons.IH Cons.prems(2) p True show ?thesis by (cases "raw = r") (auto simp: eligible_def)
  next
    case False
    with Cons.prems(1) p obtain s1 qs where "pick c u now min_days min_amount (dict_get ''id'' p # seen) raws s1 = (Inr qs, s')"
      and ps: "ps = p # qs" by (auto simp: result_simps)
    with Cons.IH [OF this(1)] Cons.prems(2) p show ?thesis by (cases "raw = r") auto
  qed
qed

lemma largest_first_sorted: "sorted_wrt (\<lambda>p q. invoice_amount q \<le> invoice_amount p) (largest_first ps)"
proof -
  have "sorted (map (\<lambda>p. - invoice_amount p) (largest_first ps))" by (simp add: largest_first_def)
  then show ?thesis by (simp add: sorted_map sorted_wrt_iff_nth_less)
qed

lemma largest_first_perm: "set (largest_first ps) = set ps" "distinct (map f (largest_first ps)) \<longleftrightarrow> distinct (map f ps)"
proof -
  show "set (largest_first ps) = set ps" by (simp add: largest_first_def)
  have "mset (largest_first ps) = mset ps" by (simp add: largest_first_def)
  then have "mset (map f (largest_first ps)) = mset (map f ps)" by simp
  then show "distinct (map f (largest_first ps)) \<longleftrightarrow> distinct (map f ps)" by (rule mset_eq_imp_distinct_iff)
qed

lemma cut_off:
  assumes "sorted_wrt R xs" and "x \<in> set xs"
  shows "x \<in> set (take n xs) \<or> length (take n xs) = n \<and> (\<forall>y \<in> set (take n xs). R y x)"
proof (cases "x \<in> set (take n xs)")
  case False
  with assms(2) have d: "x \<in> set (drop n xs)" by (metis append_take_drop_id in_set_conv_decomp Un_iff set_append)
  then have "n \<le> length xs" by (metis drop_all empty_iff linear list.set(1))
  moreover have "sorted_wrt R (take n xs @ drop n xs)" using assms(1) by simp
  then have "\<forall>y \<in> set (take n xs). \<forall>z \<in> set (drop n xs). R y z" unfolding sorted_wrt_append by blast
  ultimately show ?thesis using d by auto
qed simp

text \<open>
  C27: The overdue query returns the largest eligible invoices: in descending order of the amount, at
  most \<open>limit\<close> of them, no invoice twice, each a projection of what Stripe returned and each past both
  thresholds. An eligible invoice that Stripe returned is among them under its id, or the result is full
  and every row of it owes at least as much.
\<close>

theorem overdue_query_returns_largest:
  assumes "fetch_overdue c now s = (Inr raws, s1)"
    and "list_overdue_invoices c u now min_days limit min_amount s = (Inr rows, s')"
  shows "sorted_wrt (\<lambda>p q. invoice_amount q \<le> invoice_amount p) rows \<and> length rows \<le> nat (max 0 limit)
    \<and> distinct (map (dict_get ''id'') rows)
    \<and> (\<forall>p \<in> set rows. eligible min_days min_amount p \<and> (\<exists>raw \<in> set raws. project_invoice u raw now = Inr p))
    \<and> (\<forall>raw \<in> set raws. \<exists>p. project_invoice u raw now = Inr p \<and> (eligible min_days min_amount p \<longrightarrow>
        (\<exists>q. dict_get ''id'' q = dict_get ''id'' p \<and> eligible min_days min_amount q
          \<and> (q \<in> set rows \<or> length rows = nat (max 0 limit) \<and> (\<forall>r \<in> set rows. invoice_amount q \<le> invoice_amount r)))))"
proof -
  from assms obtain ps s2 where ps: "pick c u now min_days min_amount [] raws s1 = (Inr ps, s2)"
    and rows: "rows = take (nat (max 0 limit)) (largest_first ps)"
    by (auto simp: list_overdue_invoices_def result_simps)
  note sound = pick_sound [OF ps]
  have sorted: "sorted_wrt (\<lambda>p q. invoice_amount q \<le> invoice_amount p) rows"
    unfolding rows by (rule sorted_wrt_take [OF largest_first_sorted])
  have once: "distinct (map (dict_get ''id'') rows)"
    using sound largest_first_perm(2) [of "dict_get ''id''" ps] unfolding rows by (metis distinct_take take_map)
  have sub: "set rows \<subseteq> set ps" using set_take_subset largest_first_perm(1) unfolding rows by fast
  have all: "\<exists>p. project_invoice u raw now = Inr p \<and> (eligible min_days min_amount p \<longrightarrow>
      (\<exists>q. dict_get ''id'' q = dict_get ''id'' p \<and> eligible min_days min_amount q
        \<and> (q \<in> set rows \<or> length rows = nat (max 0 limit) \<and> (\<forall>r \<in> set rows. invoice_amount q \<le> invoice_amount r))))"
    if "raw \<in> set raws" for raw
  proof -
    from pick_complete [OF ps that] obtain p where p: "project_invoice u raw now = Inr p"
      "eligible min_days min_amount p \<longrightarrow> dict_get ''id'' p \<in> dict_get ''id'' ` set ps" by auto
    have "\<exists>q. dict_get ''id'' q = dict_get ''id'' p \<and> eligible min_days min_amount q
        \<and> (q \<in> set rows \<or> length rows = nat (max 0 limit) \<and> (\<forall>r \<in> set rows. invoice_amount q \<le> invoice_amount r))"
      if "eligible min_days min_amount p"
    proof -
      from p(2) that obtain q where q: "q \<in> set ps" "dict_get ''id'' q = dict_get ''id'' p" by auto
      have "q \<in> set (largest_first ps)" using q(1) by (simp add: largest_first_perm(1))
      from cut_off [OF largest_first_sorted this, of "nat (max 0 limit)"] q sound show ?thesis unfolding rows by blast
    qed
    with p(1) show ?thesis by blast
  qed
  have "length rows \<le> nat (max 0 limit)" unfolding rows by simp
  with sorted once sub sound all show ?thesis by blast
qed

section \<open>Days and addresses\<close>

lemma whole_days_bounds:
  assumes "since \<le> til"
  shows "0 \<le> whole_days since til" and "since + whole_days since til * day_us \<le> til"
    and "til < since + (whole_days since til + 1) * day_us"
proof -
  have pos: "0 < day_us" by (simp add: day_us_def)
  have "0 \<le> (til - since) div day_us" using assms pos by (simp add: pos_imp_zdiv_nonneg_iff)
  then have w: "whole_days since til = (til - since) div day_us" by (simp add: whole_days_def)
  have m: "til - since = (til - since) div day_us * day_us + (til - since) mod day_us" by simp
  have "0 \<le> (til - since) mod day_us" "(til - since) mod day_us < day_us" using pos by simp_all
  with m w \<open>0 \<le> (til - since) div day_us\<close> show "0 \<le> whole_days since til"
    "since + whole_days since til * day_us \<le> til" "til < since + (whole_days since til + 1) * day_us"
    by (simp_all add: distrib_right, linarith+)
qed

text \<open>
  The days overdue of an invoice are the whole days between its due date and now: none when it is
  not due yet, otherwise that many days have passed since and one more has not.
\<close>

lemma days_overdue_bounds:
  assumes "days_overdue (PInt due) now = Inr (PInt n)"
  shows "0 \<le> n \<and> (now < from_epoch due \<longrightarrow> n = 0)
    \<and> (from_epoch due \<le> now \<longrightarrow> from_epoch due + n * day_us \<le> now \<and> now < from_epoch due + (n + 1) * day_us)"
proof -
  have n: "n = whole_days (from_epoch due) now"
    using assms by (auto simp: days_overdue_def instant_def result_simps split: if_splits)
  have "n = 0" if "now < from_epoch due"
  proof -
    have "(now - from_epoch due) div day_us \<le> 0" using that by (simp add: day_us_def)
    then show ?thesis unfolding n whole_days_def by simp
  qed
  with whole_days_bounds [of "from_epoch due" now] show ?thesis unfolding n by (fastforce simp: whole_days_def)
qed

lemma remaining_keys:
  "remaining u raw currency = Inr d \<Longrightarrow> k \<notin> {''amount_remaining'', ''amount_remaining_display''} \<Longrightarrow> map_of d k = None"
  by (auto simp: remaining_def Let_def result_simps split: if_splits)

lemma project_invoice_fields:
  assumes "project_invoice u raw now = Inr p"
  shows "dict_get ''id'' p = get_path raw [''id'']"
    and "dict_get ''customer_email'' p = current_email raw"
    and "dict_get ''deliverable'' p = PBool (truthy (current_email raw))"
    and "\<exists>i. dict_get ''amount_due'' p = PInt i \<and> int_or_0 (get_path raw [''amount_due'']) = Inr i
      \<and> display u i (get_or raw [''currency''] (PStr ''usd'')) = Inr (dict_get ''amount_due_display'' p)"
    and "days_overdue (get_path raw [''due_date'']) now = Inr (dict_get ''days_overdue'' p)"
    and "iso_date_of (get_path raw [''due_date'']) = Inr (dict_get ''due_date'' p)"
proof -
  let ?g = "get_path raw" and ?c = "get_or raw [''currency''] (PStr ''usd'')"
  from assms obtain amount shown due days attempts final left where
    amount: "int_or_0 (?g [''amount_due'']) = Inr amount" and shown: "display u amount ?c = Inr shown"
    and due: "iso_date_of (?g [''due_date'']) = Inr due" and days: "days_overdue (?g [''due_date'']) now = Inr days"
    and left: "remaining u raw ?c = Inr left"
    and p: "p = [(''id'', ?g [''id'']), (''number'', ?g [''number'']), (''status'', ?g [''status'']),
        (''customer_id'', if is_pstr (?g [''customer'']) then ?g [''customer''] else get_path (?g [''customer'']) [''id'']),
        (''customer_name'', py_or (?g [''customer_name'']) (get_path (?g [''customer'']) [''name''])),
        (''customer_email'', current_email raw), (''amount_due'', PInt amount), (''amount_due_display'', shown),
        (''currency'', lowered ?c), (''due_date'', due), (''days_overdue'', days),
        (''hosted_invoice_url'', ?g [''hosted_invoice_url'']), (''collection_method'', ?g [''collection_method'']),
        (''attempt_count'', PInt attempts), (''finalized_at'', final)] @ left
      @ [(''customer_email_source'', PStr (if is_expanded (?g [''customer'']) then ''customer'' else ''invoice_snapshot''))]
      @ deliverability u raw @ retry_note (?g [''collection_method'']) attempts"
    unfolding project_invoice_def Let_def and_then_eq_Inr by blast
  show "dict_get ''id'' p = ?g [''id'']" "dict_get ''customer_email'' p = current_email raw"
    by (simp_all add: p dict_get_def del: get_path.simps)
  show "\<exists>i. dict_get ''amount_due'' p = PInt i \<and> int_or_0 (?g [''amount_due'']) = Inr i
      \<and> display u i ?c = Inr (dict_get ''amount_due_display'' p)"
    using amount shown by (simp add: p dict_get_def del: get_path.simps)
  show "days_overdue (?g [''due_date'']) now = Inr (dict_get ''days_overdue'' p)"
    "iso_date_of (?g [''due_date'']) = Inr (dict_get ''due_date'' p)"
    using due days by (simp_all add: p dict_get_def del: get_path.simps)
  have "map_of left ''deliverable'' = None" by (rule remaining_keys [OF left]) simp
  then have "map_of p ''deliverable'' = map_of (deliverability u raw @ retry_note (?g [''collection_method'']) attempts) ''deliverable''"
    by (simp add: p map_add_def del: get_path.simps map_of_append) (simp add: map_of_append map_add_def)
  then show "dict_get ''deliverable'' p = PBool (truthy (current_email raw))"
    by (simp add: dict_get_def deliverability_def)
qed

text \<open>
  An invoice is deliverable exactly when the customer has an address today: of an expanded customer
  only its own counts, whatever address the invoice carries from when it was finalized.
\<close>

lemma deliverable_means_current_address:
  assumes "project_invoice u raw now = Inr p"
  shows "dict_get ''deliverable'' p = PBool (truthy (dict_get ''customer_email'' p))
    \<and> dict_get ''customer_email'' p =
        (if is_expanded (get_path raw [''customer'']) then get_path raw [''customer'', ''email'']
         else get_path raw [''customer_email''])"
  using project_invoice_fields(2,3) [OF assms] by (simp add: current_email_def)

end
