(* ===== verification/LetterReview.thy ===== *)
theory LetterReview
  imports Guardrails
begin

text \<open>
  What the letter checks of \<^verbatim>\<open>app/agent/guardrails.py\<close> establish, stated of the letter's text and not of
  the regular expressions: which letters are refused as forbidden claims, what an accepted letter
  contains, which figures and links it may use, and when the review itself raises.
\<close>

section \<open>Forbidden claims\<close>

text \<open>The text says a phrase: as whole words, in any case.\<close>

definition says :: "unicode \<Rightarrow> string \<Rightarrow> string \<Rightarrow> bool" where
  "says u ph text \<longleftrightarrow>
     (\<exists>pre m a. codepoints text = pre @ m @ a \<and> same_letters ph m
        \<and> at_boundary (word_char u) (rev pre, m @ a) \<and> at_boundary (word_char u) (rev m @ rev pre, a))"

text \<open>The codes a reader would report: for each text the rules of which it says a phrase.\<close>

definition codes_claimed :: "unicode \<Rightarrow> string list \<Rightarrow> string list" where
  "codes_claimed u texts =
     concat (map (\<lambda>text. map fb_code
       (filter (\<lambda>rule. \<exists>ph \<in> set (fb_phrases rule). says u ph text) forbidden_patterns)) texts)"

lemma same_letters_length: "same_letters t m \<Longrightarrow> length m = length t"
  unfolding same_letters_def by (metis length_cps_of length_map)

lemma run_phrase:
  assumes "ps \<noteq> []"
  shows "run w (phrase ps) (b, s) \<noteq> [] \<longleftrightarrow>
    (\<exists>ph \<in> set ps. \<exists>m a. s = m @ a \<and> same_letters ph m \<and> at_boundary w (b, s) \<and> at_boundary w (rev m @ b, a))"
  (is "?l \<longleftrightarrow> ?r")
proof
  assume ?l
  then obtain y where y: "y \<in> set (run w (phrase ps) (b, s))" by (cases "run w (phrase ps) (b, s)") auto
  then obtain ph where ph: "ph \<in> set ps" "y \<in> set (run w (ilit ph) (b, s))"
    and at: "at_boundary w (b, s)" "at_boundary w y"
    using assms by (auto simp: phrase_def run_alts split: if_splits)
  then have "same_letters ph (take (length ph) s)" "y = shift (length ph) (b, s)"
    by (auto simp: run_ilit split: if_splits)
  with ph(1) at show ?r
    by (intro bexI [of _ ph] exI [of _ "take (length ph) s"] exI [of _ "drop (length ph) s"])
      (simp_all add: shift_def)
next
  assume ?r
  then obtain ph m a where ph: "ph \<in> set ps" "s = m @ a" "same_letters ph m"
    and at: "at_boundary w (b, s)" "at_boundary w (rev m @ b, a)" by blast
  have "run w (ilit ph) (b, s) = [(rev m @ b, a)]"
    using ph same_letters_length [OF ph(3)] by (simp add: run_ilit shift_def)
  then have "(rev m @ b, a) \<in> set (run w (phrase ps) (b, s))"
    using assms ph(1) at by (auto simp: phrase_def run_alts intro!: bexI [of _ ph])
  then show ?l by auto
qed

lemma search_phrase:
  assumes "ps \<noteq> []"
  shows "search (word_char u) (phrase ps) (codepoints text) \<noteq> None \<longleftrightarrow> (\<exists>ph \<in> set ps. says u ph text)"
  unfolding search_None says_def
proof
  assume "\<not> (\<forall>pre post. codepoints text = pre @ post \<longrightarrow> run (word_char u) (phrase ps) (rev pre, post) = [])"
  then obtain pre post where "codepoints text = pre @ post" "run (word_char u) (phrase ps) (rev pre, post) \<noteq> []" by blast
  with run_phrase [OF assms, of "word_char u" "rev pre" post]
  show "\<exists>ph \<in> set ps. \<exists>pre m a. codepoints text = pre @ m @ a \<and> same_letters ph m
      \<and> at_boundary (word_char u) (rev pre, m @ a) \<and> at_boundary (word_char u) (rev m @ rev pre, a)"
    by blast
next
  assume "\<exists>ph \<in> set ps. \<exists>pre m a. codepoints text = pre @ m @ a \<and> same_letters ph m
      \<and> at_boundary (word_char u) (rev pre, m @ a) \<and> at_boundary (word_char u) (rev m @ rev pre, a)"
  then obtain ph pre m a where "ph \<in> set ps" and split: "codepoints text = pre @ m @ a" and "same_letters ph m"
    "at_boundary (word_char u) (rev pre, m @ a)" "at_boundary (word_char u) (rev m @ rev pre, a)" by blast
  then have "run (word_char u) (phrase ps) (rev pre, m @ a) \<noteq> []" unfolding run_phrase [OF assms] by blast
  with split show "\<not> (\<forall>pre post. codepoints text = pre @ post \<longrightarrow> run (word_char u) (phrase ps) (rev pre, post) = [])"
    by blast
qed

lemma patterns_nonempty: "rule \<in> set forbidden_patterns \<Longrightarrow> fb_phrases rule \<noteq> [] \<and> [] \<notin> set (fb_phrases rule)"
  by (auto simp: forbidden_patterns_def)

lemma forbidden_in_code:
  assumes "rule \<in> set forbidden_patterns"
  shows "map vl_code (forbidden_in u text rule)
    = (if \<exists>ph \<in> set (fb_phrases rule). says u ph text then [fb_code rule] else [])"
  using search_phrase [of "fb_phrases rule" u "text"] patterns_nonempty [OF assms]
  by (auto simp: forbidden_in_def split: option.splits)

lemma nothing_said: "ph \<noteq> [] \<Longrightarrow> \<not> says u ph []"
  using same_letters_length [of ph "[]"] by (auto simp: says_def)

lemma codes_of_rules:
  "set rules \<subseteq> set forbidden_patterns \<Longrightarrow>
   map vl_code (concat (map (forbidden_in u text) rules))
   = map fb_code (filter (\<lambda>rule. \<exists>ph \<in> set (fb_phrases rule). says u ph text) rules)"
  by (induction rules) (simp_all add: forbidden_in_code)

lemma no_codes_of_nothing: "filter (\<lambda>rule. \<exists>ph \<in> set (fb_phrases rule). says u ph []) forbidden_patterns = []"
  by (auto simp: filter_empty_conv) (metis nothing_said patterns_nonempty)

lemma codes_of_texts: "map vl_code (find_forbidden_claims u texts) = codes_claimed u texts"
  unfolding find_forbidden_claims_def codes_claimed_def
  by (induction texts) (simp_all add: codes_of_rules no_codes_of_nothing)

text \<open>
  C10: The forbidden-claim check reports, in the order of the texts and of the rules, the code of
  exactly those rules of which the text says some phrase as whole words in any case.
\<close>

theorem forbidden_iff_said: "map vl_code (find_forbidden_claims u texts) = codes_claimed u texts"
  by (rule codes_of_texts)

section \<open>Required facts\<close>

text \<open>A number standing as a whole word, and a text shaped like an e-mail address.\<close>

definition states_number :: "unicode \<Rightarrow> int \<Rightarrow> string \<Rightarrow> bool" where
  "states_number u i text \<longleftrightarrow>
     (\<exists>pre a. codepoints text = pre @ cps_of (int_str i) @ a
        \<and> at_boundary (word_char u) (rev pre, cps_of (int_str i) @ a)
        \<and> at_boundary (word_char u) (rev (cps_of (int_str i)) @ rev pre, a))"

definition address_shaped :: "unicode \<Rightarrow> cps \<Rightarrow> bool" where
  "address_shaped u m \<longleftrightarrow>
     (\<exists>x y z. m = x @ [64] @ y @ [46] @ z \<and> x \<noteq> [] \<and> y \<noteq> [] \<and> z \<noteq> [] \<and> list_all (local_char u) x
        \<and> list_all (\<lambda>n. word_char u n \<or> n = 45) y \<and> list_all (\<lambda>n. word_char u n \<or> n = 46) z)"

definition invites_reply :: "unicode \<Rightarrow> string \<Rightarrow> bool" where
  "invites_reply u text \<longleftrightarrow>
     (\<exists>pre m a. codepoints text = pre @ m @ a
        \<and> (address_shaped u m \<or> (\<exists>ph \<in> set dispute_phrases. same_letters ph m)))"

lemma search_number:
  assumes "search (word_char u) (number_pattern i) (codepoints text) \<noteq> None"
  shows "states_number u i text"
proof -
  from assms obtain pre post where split: "codepoints text = pre @ post"
    and "run (word_char u) (number_pattern i) (rev pre, post) \<noteq> []" by (auto simp: search_None)
  then obtain a where "post = cps_of (int_str i) @ a" "at_boundary (word_char u) (rev pre, post)"
    "at_boundary (word_char u) (rev (cps_of (int_str i)) @ rev pre, a)"
    by (auto simp: number_pattern_def run_lit prefix_def drop_append split: if_splits)
  with split show ?thesis unfolding states_number_def by blast
qed

lemma run_many1: "y \<in> set (run w (many1 P) (b, s)) \<Longrightarrow>
    \<exists>m a. s = m @ a \<and> y = (rev m @ b, a) \<and> list_all P m \<and> m \<noteq> []"
  unfolding many1_def using run_rep [of y w 1 None P b s] by fastforce

lemma run_email:
  assumes "y \<in> set (run w (email_pattern u) (b, s))"
  shows "\<exists>m a. s = m @ a \<and> address_shaped u m"
proof -
  from assms obtain y1 y2 y3 y4 where y1: "y1 \<in> set (run w (many1 (local_char u)) (b, s))"
    and y2: "y2 \<in> set (run w (lit ''@'') y1)"
    and y3: "y3 \<in> set (run w (many1 (\<lambda>n. word_char u n \<or> n = 45)) y2)"
    and y4: "y4 \<in> set (run w (lit ''.'') y3)"
    and y: "y \<in> set (run w (many1 (\<lambda>n. word_char u n \<or> n = 46)) y4)"
    by (auto simp: email_pattern_def)
  from run_many1 [OF y1] obtain x a1 where x: "s = x @ a1" "y1 = (rev x @ b, a1)" "list_all (local_char u) x" "x \<noteq> []"
    by blast
  from y2 x obtain a2 where a2: "a1 = 64 # a2" "y2 = (64 # rev x @ b, a2)"
    by (auto simp: run_lit cps_of_def prefix_def split: if_splits)
  from run_many1 [of y3 w _ "64 # rev x @ b" a2] y3 a2 obtain v a3 where v: "a2 = v @ a3"
    "y3 = (rev v @ 64 # rev x @ b, a3)" "list_all (\<lambda>n. word_char u n \<or> n = 45) v" "v \<noteq> []" by blast
  from y4 v obtain a4 where a4: "a3 = 46 # a4" "y4 = (46 # rev v @ 64 # rev x @ b, a4)"
    by (auto simp: run_lit cps_of_def prefix_def split: if_splits)
  from run_many1 [of y w _ "46 # rev v @ 64 # rev x @ b" a4] y a4 obtain z a where z: "a4 = z @ a"
    "list_all (\<lambda>n. word_char u n \<or> n = 46) z" "z \<noteq> []" by blast
  have "address_shaped u (x @ [64] @ v @ [46] @ z)" unfolding address_shaped_def using x v z by blast
  then show ?thesis using x a2 v a4 z by (intro exI [of _ "x @ [64] @ v @ [46] @ z"] exI [of _ a]) simp
qed

lemma search_dispute:
  assumes "search (word_char u) (dispute_route u) (codepoints text) \<noteq> None"
  shows "invites_reply u text"
proof -
  from assms obtain pre post where split: "codepoints text = pre @ post"
    and "run (word_char u) (dispute_route u) (rev pre, post) \<noteq> []" by (auto simp: search_None)
  then obtain y where "y \<in> set (run (word_char u) (dispute_route u) (rev pre, post))"
    by (cases "run (word_char u) (dispute_route u) (rev pre, post)") auto
  then consider ph where "ph \<in> set dispute_phrases" "y \<in> set (run (word_char u) (ilit ph) (rev pre, post))"
    | "y \<in> set (run (word_char u) (email_pattern u) (rev pre, post))"
    by (auto simp: dispute_route_def run_alts)
  then show ?thesis
  proof cases
    case 1
    then have "same_letters ph (take (length ph) post)" by (auto simp: run_ilit split: if_splits)
    with 1 split show ?thesis unfolding invites_reply_def
      by (intro exI [of _ pre] exI [of _ "take (length ph) post"] exI [of _ "drop (length ph) post"]) auto
  next
    case 2
    from run_email [OF this] split show ?thesis unfolding invites_reply_def by blast
  qed
qed

lemma any_of_True: "any_of f xs = Inr True \<Longrightarrow> \<exists>x \<in> set xs. f x = Inr True"
  by (induction xs) (auto simp: result_simps split: if_splits)

lemma links_match_True: "links_match u a b = Inr True \<longleftrightarrow>
    a \<noteq> [] \<and> b \<noteq> [] \<and> (\<exists>i. link_identity u a = Inr i \<and> link_identity u b = Inr i)"
  by (auto simp: links_match_def result_simps)

text \<open>The letter states a fact when the fact is there.\<close>

definition states_facts :: "unicode \<Rightarrow> string \<Rightarrow> pydict \<Rightarrow> bool" where
  "states_facts u body facts \<longleftrightarrow>
     (\<forall>s. dict_get ''customer_name'' facts = PStr s \<longrightarrow> contains s body)
     \<and> (truthy (dict_get ''invoice_number'' facts) \<longrightarrow> contains (py_str u (dict_get ''invoice_number'' facts)) body)
     \<and> (\<forall>s. dict_get ''amount_display'' facts = PStr s \<longrightarrow> contains s body)
     \<and> (truthy (dict_get ''due_date'' facts) \<longrightarrow>
          (\<exists>v \<in> set (date_variants (py_str u (dict_get ''due_date'' facts))). contains v body))
     \<and> (\<forall>i. dict_get ''days_overdue'' facts = PInt i \<longrightarrow> states_number u i body)
     \<and> (truthy (dict_get ''hosted_invoice_url'' facts) \<longrightarrow>
          (\<exists>l \<in> set (found_urls u body). \<exists>i. link_identity u l = Inr i
             \<and> link_identity u (py_str u (dict_get ''hosted_invoice_url'' facts)) = Inr i))
     \<and> invites_reply u body"

lemma absent_False: "absent (PStr s) t = Inr False \<Longrightarrow> contains s t"
  by (cases "s = []") (auto simp: absent_def contains_iff)

lemma no_missing_facts: "find_missing_facts u body facts = Inr [] \<Longrightarrow> states_facts u body facts"
proof -
  assume "find_missing_facts u body facts = Inr []"
  then have name: "absent (dict_get ''customer_name'' facts) body = Inr False"
    and number: "\<not> (truthy (dict_get ''invoice_number'' facts) \<and> \<not> contains (py_str u (dict_get ''invoice_number'' facts)) body)"
    and amount: "absent (dict_get ''amount_display'' facts) body = Inr False"
    and due: "\<not> (truthy (dict_get ''due_date'' facts) \<and>
      \<not> list_ex (\<lambda>v. contains v body) (date_variants (py_str u (dict_get ''due_date'' facts))))"
    and days: "days_missing u body (dict_get ''days_overdue'' facts) = Inr False"
    and link: "link_missing u body (dict_get ''hosted_invoice_url'' facts) = Inr False"
    and route: "search (word_char u) (dispute_route u) (codepoints body) \<noteq> None"
    unfolding find_missing_facts_def Let_def by (auto simp: result_simps note_if_def split: if_splits)
  have "states_number u i body" if "dict_get ''days_overdue'' facts = PInt i" for i
    using days that by (intro search_number) (auto simp: days_missing_def py_int_def)
  moreover have "\<exists>l \<in> set (found_urls u body). \<exists>i. link_identity u l = Inr i
      \<and> link_identity u (py_str u (dict_get ''hosted_invoice_url'' facts)) = Inr i"
    if "truthy (dict_get ''hosted_invoice_url'' facts)"
  proof -
    from link that have "any_of (\<lambda>l. links_match u l (py_str u (dict_get ''hosted_invoice_url'' facts)))
        (found_urls u body) = Inr True"
      by (auto simp: link_missing_def result_simps)
    from any_of_True [OF this] show ?thesis unfolding links_match_True by blast
  qed
  ultimately show ?thesis unfolding states_facts_def
    using name number amount due search_dispute [OF route] absent_False by (auto simp: list_ex_iff)
qed

section \<open>No invented figures\<close>

text \<open>
  What is used of Python's Unicode tables: a decimal digit is no white space and no currency sign.
\<close>

definition digits_plain :: "unicode \<Rightarrow> bool" where
  "digits_plain u \<longleftrightarrow> (\<forall>n. uc_digit u n \<longrightarrow> \<not> space_char n \<and> \<not> currency_sign n)"

lemma digit_plain: "digits_plain u \<Longrightarrow> digit_char_class u n \<Longrightarrow> \<not> space_char n \<and> \<not> currency_sign n"
  by (auto simp: digits_plain_def digit_char_class_def ascii_digit_def space_char_def currency_sign_def split: if_splits)

lemma figure_plain: "digits_plain u \<Longrightarrow> figure_char u n \<Longrightarrow> \<not> space_char n \<and> \<not> currency_sign n"
  using digit_plain [of u n] by (auto simp: figure_char_def space_char_def currency_sign_def)

lemma currency_no_space: "currency_sign n \<Longrightarrow> \<not> space_char n"
  by (auto simp: currency_sign_def space_char_def)

text \<open>A currency sign can only be the first character of an amount.\<close>

lemma money_tail:
  assumes "digits_plain u" and "y \<in> set (run w (money_pattern u) (b, s))"
  shows "\<exists>m a. s = m @ a \<and> y = (rev m @ b, a) \<and> m \<noteq> [] \<and> list_all (\<lambda>n. \<not> currency_sign n) (tl m)"
proof -
  let ?Q = "\<lambda>n. \<not> currency_sign n"
  let ?r = "seqs [Rep 0 (Some 1) space_char, many1 (figure_char u),
            Opt (Seq (lit ''.'') (Rep 1 (Some 3) (digit_char_class u)))]"
  let ?q = "seqs [Bound, many1 (figure_char u), lit ''.'', Rep 2 (Some 2) (digit_char_class u),
            Rep 0 (Some 1) space_char, Rep 3 (Some 3) ascii_upper_letter, Bound]"
  have classes: "figure_char u n \<Longrightarrow> ?Q n" "digit_char_class u n \<Longrightarrow> ?Q n" "space_char n \<Longrightarrow> ?Q n"
    "ascii_upper_letter n \<Longrightarrow> ?Q n" "n = 46 \<Longrightarrow> ?Q n" for n
    using figure_plain [OF assms(1)] digit_plain [OF assms(1)] currency_no_space
    by (auto simp: currency_sign_def ascii_upper_letter_def)
  have r: "draws ?Q ?r" and q: "draws ?Q ?q" and eats: "eats ?q"
    using classes by (auto simp: many1_def lit_def)
  have "run w (money_pattern u) (b, s) = run w (Seq (Cls currency_sign) ?r) (b, s) @ run w ?q (b, s)"
    unfolding money_pattern_def by (simp only: run.simps seqs.simps)
  with assms(2) consider "y \<in> set (run w (Seq (Cls currency_sign) ?r) (b, s))" | "y \<in> set (run w ?q (b, s))"
    by (metis Un_iff set_append)
  then show ?thesis
  proof cases
    case 1
    then obtain c t where s: "s = c # t" and "y \<in> set (run w ?r (c # b, t))"
      by (cases s) (simp_all add: first_is_def shift_def del: seqs.simps split: if_splits)
    from run_draws [OF r this(2)] obtain m a where "t = m @ a" "y = (rev m @ c # b, a)" "list_all ?Q m" by blast
    with s show ?thesis by (intro exI [of _ "c # m"] exI [of _ a]) simp
  next
    case 2
    from run_draws [OF q 2] obtain m a where m: "s = m @ a" "y = (rev m @ b, a)" "list_all ?Q m" by blast
    moreover have "m \<noteq> []" using run_eats [OF eats 2] m by auto
    moreover have "list_all ?Q (tl m)" using m(3) by (cases m) simp_all
    ultimately show ?thesis by blast
  qed
qed

lemma money_first:
  assumes "digits_plain u" and "currency_sign c" and "length sp \<le> 1" and "list_all space_char sp" and "ds \<noteq> []"
    and "list_all (figure_char u) ds" and "\<not> first_is (figure_char u) a"
  shows "\<exists>m y. matched_at w (money_pattern u) (b, c # sp @ ds @ a) = Some (m, y) \<and> prefix (c # sp @ ds) m"
proof -
  let ?opt = "Opt (Seq (lit ''.'') (Rep 1 (Some 3) (digit_char_class u)))"
  have no_space: "\<not> first_is space_char (ds @ a)"
    using assms(1,5,6) figure_plain by (cases ds) (auto simp: first_is_def)
  then have "takeWhile space_char (sp @ ds @ a) = sp"
    using assms(4) assms(5) by (cases ds) (auto simp: list_all_iff first_is_def takeWhile_append)
  moreover have "\<exists>r. tries 0 (Some 1) (length sp) = length sp # r"
    using assms(3) by (cases sp) (auto simp: tries_def)
  ultimately obtain r where sp: "run w (Rep 0 (Some 1) space_char) (c # b, sp @ ds @ a) = (rev sp @ c # b, ds @ a) # r"
    by (auto simp: shift_def)
  obtain r2 where ds: "run w (many1 (figure_char u)) (rev sp @ c # b, ds @ a) = (rev ds @ rev sp @ c # b, a) # r2"
    using run_many1_first [OF assms(6,5,7)] by blast
  obtain z zs where z: "run w (seqs [?opt]) (rev ds @ rev sp @ c # b, a) = z # zs"
    by (cases "run w (seqs [?opt]) (rev ds @ rev sp @ c # b, a)") simp_all
  from run_Seq_first [OF ds z] obtain r3 where "run w (Seq (many1 (figure_char u)) (seqs [?opt])) (rev sp @ c # b, ds @ a) = z # r3"
    by blast
  from run_Seq_first [OF sp this] obtain r4 where
    r4: "run w (Seq (Rep 0 (Some 1) space_char) (Seq (many1 (figure_char u)) (seqs [?opt]))) (c # b, sp @ ds @ a) = z # r4"
    by blast
  have "run w (Cls currency_sign) (b, c # sp @ ds @ a) = (c # b, sp @ ds @ a) # []"
    using assms(2) by (simp add: first_is_def shift_def)
  from run_Seq_first [OF this r4] obtain r5 where "run w (money_pattern u) (b, c # sp @ ds @ a) = z # r5"
    by (auto simp: money_pattern_def)
  moreover have "z \<in> set (run w (seqs [?opt]) (rev ds @ rev sp @ c # b, a))" using z by simp
  from run_splits [OF this] obtain m2 a2 where "a = m2 @ a2" "z = (rev m2 @ rev ds @ rev sp @ c # b, a2)" by auto
  ultimately show ?thesis by (simp add: matched_at_def prefix_def)
qed

lemma amount_found:
  assumes "digits_plain u" and "s = pre @ c # sp @ ds @ a" and "currency_sign c" and "length sp \<le> 1"
    and "list_all space_char sp" and "ds \<noteq> []" and "list_all (figure_char u) ds" and "\<not> first_is (figure_char u) a"
  shows "\<exists>m \<in> set (find_all w (money_pattern u) s). prefix (c # sp @ ds) m"
proof -
  from money_first [OF assms(1,3-8)] obtain m y where
    m: "matched_at w (money_pattern u) (rev pre @ [], c # sp @ ds @ a) = Some (m, y)" "prefix (c # sp @ ds) m"
    by (metis append_Nil2)
  have "m \<in> set (find_from (length s) w (money_pattern u) ([], s))"
  proof (rule find_from_complete [OF _ _ assms(2) m(1) le_refl])
    show "length (snd y) < length (snd x)" if "y \<in> set (run w (money_pattern u) x)" for x y
      using run_eats [OF _ that] by (simp add: money_pattern_def many1_def)
  next
    fix pre' m' a'
    assume h: "s = pre' @ m' @ a'" "length pre' < length pre"
      "(rev m' @ rev pre' @ [], a') \<in> set (run w (money_pattern u) (rev pre' @ [], m' @ a'))"
    from money_tail [OF assms(1) h(3)] have clean: "list_all (\<lambda>n. \<not> currency_sign n) (tl m')" by auto
    show "length (pre' @ m') \<le> length pre"
    proof (rule ccontr)
      assume over: "\<not> length (pre' @ m') \<le> length pre"
      let ?i = "length pre - length pre'"
      have "s ! length pre = c" using assms(2) by simp
      moreover have "s ! length pre = m' ! ?i" 
      proof -
        have "?i < length m'" using h(2) over by simp
        then show ?thesis using h(2) unfolding h(1) by (simp add: nth_append)
      qed
      moreover have "m' ! ?i \<in> set (tl m')" using h(2) over 
        by (cases m') (simp, cases ?i, auto)
      ultimately show False using clean assms(3) by (auto simp: list_all_iff)
    qed
  qed
  with m(2) show ?thesis unfolding find_all_def by blast
qed

lemma fact_value: "s \<in> set (fact_values ending u facts) \<Longrightarrow>
    \<exists>k v. (k, v) \<in> set facts \<and> suffix ending k \<and> truthy v \<and> s = py_str u v"
  by (force simp: fact_values_def)

lemma no_invented_amount:
  assumes "digits_plain u" and "invented_amounts u body facts = []" and "codepoints body = pre @ c # sp @ ds @ a"
    and "currency_sign c" and "length sp \<le> 1" and "list_all space_char sp" and "ds \<noteq> []"
    and "list_all (figure_char u) ds" and "\<not> first_is (figure_char u) a"
  shows "\<exists>k v. (k, v) \<in> set facts \<and> suffix ''_display'' k \<and> truthy v
    \<and> prefix (c # ds) (normalise_money (codepoints (py_str u v)))"
proof -
  from amount_found [OF assms(1,3-9)] obtain m where m: "m \<in> set (find_all (word_char u) (money_pattern u) (codepoints body))"
    and p: "prefix (c # sp @ ds) m" by blast
  from m assms(2) have "normalise_money m \<in> set (allowed_money u facts)"
    by (auto simp: invented_amounts_def filter_empty_conv)
  then obtain s where s: "normalise_money m = normalise_money (codepoints s)" "s \<in> set (fact_values ''_display'' u facts)"
    by (auto simp: allowed_money_def)
  from fact_value [OF s(2)] obtain k v where "(k, v) \<in> set facts" "suffix ''_display'' k" "truthy v" "s = py_str u v" by blast
  moreover have "filter (\<lambda>n. \<not> space_char n) ds = ds"
    using assms(1,8) figure_plain by (simp add: filter_id_conv list_all_iff)
  moreover have "filter (\<lambda>n. \<not> space_char n) sp = []"
    using assms(6) by (simp add: filter_empty_conv list_all_iff)
  moreover from p obtain zs where "m = c # sp @ ds @ zs" by (auto simp: prefix_def)
  ultimately have "normalise_money (codepoints (py_str u v)) = (c # ds) @ normalise_money zs"
    using s(1) currency_no_space [OF assms(4)] by (simp add: normalise_money_def)
  then show ?thesis
    using \<open>(k, v) \<in> set facts\<close> \<open>suffix ''_display'' k\<close> \<open>truthy v\<close> by (metis prefixI)
qed

lemma unmatched_links_none:
  "unmatched_links u allowed ls = Inr [] \<Longrightarrow> l \<in> set ls \<Longrightarrow> any_of (links_match u l) allowed = Inr True"
  by (induction ls) (auto simp: result_simps split: if_splits)

lemma no_invented_link:
  assumes "invented_links u body facts = Inr []" and "l \<in> set (found_urls u body)"
  shows "\<exists>k v i. (k, v) \<in> set facts \<and> suffix ''_url'' k \<and> truthy v
    \<and> link_identity u l = Inr i \<and> link_identity u (py_str u v) = Inr i"
proof -
  from assms(1) have "unmatched_links u (fact_values ''_url'' u facts) (found_urls u body) = Inr []"
    by (auto simp: invented_links_def result_simps)
  from unmatched_links_none [OF this assms(2)] have "any_of (links_match u l) (fact_values ''_url'' u facts) = Inr True" .
  from any_of_True [OF this] obtain s i where s: "s \<in> set (fact_values ''_url'' u facts)"
    "link_identity u l = Inr i" "link_identity u s = Inr i" by (auto simp: links_match_True)
  from fact_value [OF s(1)] s(2,3) show ?thesis by blast
qed

text \<open>A number standing alone: not glued to a word, a point, a hyphen or a currency sign.\<close>

definition stands_alone :: "unicode \<Rightarrow> string \<Rightarrow> string \<Rightarrow> bool" where
  "stands_alone u digits text \<longleftrightarrow>
     (\<exists>pre a. codepoints text = pre @ cps_of digits @ a \<and> \<not> first_is (glued_before u) (rev pre)
        \<and> \<not> first_is (digit_char_class u) a \<and> \<not> (first_is (\<lambda>n. n = 46) a \<and> first_is (digit_char_class u) (tl a))
        \<and> \<not> first_is (\<lambda>n. ascii_upper_letter n \<or> ascii_lower_letter n \<or> n = 95) a)"

lemma run_standalone:
  "run w (standalone u digits) (b, s) \<noteq> [] \<longleftrightarrow>
   \<not> first_is (glued_before u) b \<and> (\<exists>a. s = cps_of digits @ a
     \<and> \<not> first_is (digit_char_class u) a \<and> \<not> (first_is (\<lambda>n. n = 46) a \<and> first_is (digit_char_class u) (tl a))
     \<and> \<not> first_is (\<lambda>n. ascii_upper_letter n \<or> ascii_lower_letter n \<or> n = 95) a)"
proof -
  have point: "run w (Seq (lit ''.'') (Cls P)) (b', a) = [] \<longleftrightarrow> \<not> (first_is (\<lambda>n. n = 46) a \<and> first_is P (tl a))" for P b' a
    by (cases a) (auto simp: run_lit cps_of_def first_is_def prefix_def)
  have single: "run w (Cls P) (b', a) = [] \<longleftrightarrow> \<not> first_is P a" for P b' a by simp
  have after: "run w (Seq (NotAfter P) q) (b', a) \<noteq> [] \<longleftrightarrow> \<not> first_is P b' \<and> run w q (b', a) \<noteq> []" for P q b' a
    by simp
  have ahead: "run w (Seq (NotBefore p) q) x \<noteq> [] \<longleftrightarrow> run w p x = [] \<and> run w q x \<noteq> []" for p q x by simp
  have literal: "run w (Seq (lit t) q) (b', s') \<noteq> [] \<longleftrightarrow>
      (\<exists>a. s' = cps_of t @ a \<and> run w q (rev (cps_of t) @ b', a) \<noteq> [])" for t q b' s'
    by (auto simp: run_lit prefix_def)
  have stop: "run w Empty x \<noteq> []" for x by simp
  show ?thesis unfolding standalone_def seqs.simps after literal ahead point single using stop by blast
qed

lemma search_standalone: "search (word_char u) (standalone u digits) (codepoints text) \<noteq> None \<longleftrightarrow> stands_alone u digits text"
proof -
  have "search (word_char u) (standalone u digits) (codepoints text) \<noteq> None \<longleftrightarrow>
      (\<exists>pre post. codepoints text = pre @ post \<and> run (word_char u) (standalone u digits) (rev pre, post) \<noteq> [])"
    unfolding search_None by blast
  then show ?thesis unfolding run_standalone stands_alone_def by blast
qed

lemma no_raw_minor_units:
  assumes "raw_minor_units u body facts = []" and "dict_get ''amount_due'' facts = PInt minor"
    and "4 \<le> length (nat_str (nat \<bar>minor\<bar>))"
  shows "\<not> stands_alone u (nat_str (nat \<bar>minor\<bar>)) body"
  using assms search_standalone [of u _ body] by (auto simp: raw_minor_units_def Let_def split: if_splits)

section \<open>The review\<close>

lemma review_ok:
  assumes "review_letter u subject body facts = Inr r" and "report_ok r"
  shows "find_forbidden_claims u [subject, body] = []" and "find_missing_facts u body facts = Inr []"
    and "invented_amounts u body facts = []" and "invented_links u body facts = Inr []"
    and "raw_minor_units u body facts = []"
  using assms by (auto simp: review_letter_def report_ok_def find_invented_figures_def result_simps)

text \<open>
  C11: An accepted letter says no forbidden phrase and states its facts: the customer, the invoice
  number, the amount, the due date in one of its renderings, the days overdue as a number of their
  own, a link of the invoice's identity, and a way to answer.
\<close>

theorem accepted_letter_states_facts:
  assumes "review_letter u subject body facts = Inr r" and "report_ok r"
  shows "states_facts u body facts \<and> codes_claimed u [subject, body] = []"
  using no_missing_facts [OF review_ok(2) [OF assms]] codes_of_texts [of u "[subject, body]"] review_ok(1) [OF assms]
  by simp



section \<open>A link the review cannot read\<close>

lemma found_url_nonempty:
  assumes "l \<in> set (found_urls u body)"
  shows "l \<noteq> []"
proof -
  from assms obtain m where m: "m \<in> set (find_all (word_char u) url_pattern (codepoints body))" "l = cps_text m"
    by (auto simp: found_urls_def)
  from find_all_sound [OF m(1)] obtain pre a where
    h: "(rev m @ rev pre, a) \<in> set (run (word_char u) url_pattern (rev pre, m @ a))" by blast
  have shape: "url_pattern = Seq (lit ''http'') (seqs [Opt (lit ''s''), lit ''://'', many1 url_char])"
    by (simp add: url_pattern_def)
  from h have "run (word_char u) (lit ''http'') (rev pre, m @ a) \<noteq> []" unfolding shape by auto
  then have "prefix (cps_of ''http'') (m @ a)" by (simp add: run_lit split: if_splits)
  moreover have "length a < length (m @ a)" using run_eats [OF _ h] by (simp add: url_pattern_def many1_def)
  ultimately have "m \<noteq> []" "hd m = 104" by (cases m; simp add: cps_of_def)+
  then have "utf8_encode (hd m) \<noteq> []" by (simp add: utf8_encode_def bytes_def)
  with \<open>m \<noteq> []\<close> show ?thesis unfolding m(2) cps_text_def by (cases m) simp_all
qed

lemma unpaired_bracket:
  assumes "rev (dropWhile link_trail (rev l)) = ''https://'' @ h" and "list_all (\<lambda>c. 32 < byte_of c) h"
    and "CHR ''['' \<in> set (takeWhile (\<lambda>c. \<not> netloc_end c) h)" and "CHR '']'' \<notin> set h"
  shows "link_identity u l = Inl (ValueError ''Invalid IPv6 URL'')"
proof -
  have "clean_url (''https://'' @ h) = ''https://'' @ h"
    using assms(2) by (auto simp: clean_url_def filter_id_conv list_all_iff)
  moreover have "split_scheme (''https://'' @ h) = (''https'', ''//'' @ h)"
    by (simp add: split_scheme_def is_letter_def scheme_char_def ascii_lower_def)
  moreover have "split_netloc (''//'' @ h) = (takeWhile (\<lambda>c. \<not> netloc_end c) h, dropWhile (\<lambda>c. \<not> netloc_end c) h)"
    by (simp add: split_netloc_def)
  moreover have "CHR '']'' \<notin> set (takeWhile (\<lambda>c. \<not> netloc_end c) h)" using assms(4) by (auto dest: set_takeWhileD)
  ultimately show ?thesis
    using assms(1,3) by (simp add: link_identity_def urlsplit_def check_netloc_def)
qed

text \<open>The review of a letter whose only link cannot be read raises what reading the link raises.\<close>

lemma unreadable_link_raises:
  assumes "found_urls u body = [l]" and "link_identity u l = Inl e"
    and "dict_get ''customer_name'' facts = PStr name" and "dict_get ''amount_display'' facts = PStr amount"
    and "dict_get ''days_overdue'' facts = PInt days" and "dict_get ''hosted_invoice_url'' facts = PStr h" and "h \<noteq> []"
  shows "review_letter u subject body facts = Inl e"
proof -
  have "l \<noteq> []" using found_url_nonempty [of l u body] assms(1) by simp
  then have "link_missing u body (PStr h) = Inl e"
    using assms(1,2,7) by (simp add: link_missing_def links_match_def py_str_def)
  moreover obtain b1 where "absent (PStr name) body = Inr b1" unfolding absent_def by (cases "name = []") auto
  moreover obtain b2 where "absent (PStr amount) body = Inr b2" unfolding absent_def by (cases "amount = []") auto
  ultimately have "find_missing_facts u body facts = Inl e"
    using assms(3-6) by (simp add: find_missing_facts_def Let_def days_missing_def py_int_def)
  then show ?thesis by (simp add: review_letter_def)
qed

end
