(* ===== verification/AgentTools.thy ===== *)
theory AgentTools
  imports Tools Boundary InvoiceReading LetterReview
begin

text \<open>
  What the toolset of \<^verbatim>\<open>app/agent/tools/\<close> guarantees: the five tools there are and their classes, that
  reading changes no row, what a proposal took, and that every call is, for the database, a sequence of
  the agent service's units of work.
\<close>

section \<open>Effects\<close>

lemma tool_pure_Inr [result_simps]: "tool_pure r a = (Inr y, a') \<longleftrightarrow> r = Inr y \<and> a' = a"
  by (auto simp: tool_pure_def split: sum.splits)

lemma fail_if_Inr [result_simps]: "fail_if b p k a = (Inr y, a') \<longleftrightarrow> \<not> b \<and> k a = (Inr y, a')"
  by (simp add: fail_if_def)

text \<open>
  A relation on databases that a tool stays within. The laws are those of a preorder that lets time
  pass; a tool built from parts that stay within it does so too.
\<close>

locale database_relation =
  fixes R :: "world \<Rightarrow> world \<Rightarrow> bool"
  assumes stays: "R w w" and onwards: "R w v \<Longrightarrow> R v x \<Longrightarrow> R w x" and time: "R w (tick w)"
begin

definition within :: "'a tool_work \<Rightarrow> bool" where
  "within m \<longleftrightarrow> (\<forall>a. R (ag_world a) (ag_world (snd (m a))))"

lemma within_pure: "within (tool_pure r)"
  by (auto simp: within_def tool_pure_def stays split: sum.splits)

lemma within_guard: "within (guard m)"
  by (auto simp: within_def guard_def stays split: prod.splits sum.splits read_exn.splits)

lemma within_return: "within (Pair r)"
  by (simp add: within_def stays)

lemma within_then:
  assumes "within m" and "\<And>x. within (f x)"
  shows "within (then_with m f)"
  unfolding within_def
proof
  fix a
  obtain r a1 where m: "m a = (r, a1)" by fastforce
  have "R (ag_world a) (ag_world a1)" using assms(1) m unfolding within_def by (metis snd_conv)
  moreover have "R (ag_world a1) (ag_world (snd (f x a1)))" for x using assms(2) unfolding within_def by blast
  ultimately show "R (ag_world a) (ag_world (snd (then_with m f a)))"
    using m onwards by (cases r) (auto simp: then_with_def)
qed

lemma within_fail_if: "within k \<Longrightarrow> within (fail_if b p k)"
  by (auto simp: within_def fail_if_def stays)

lemma within_look: "(\<And>b. within (f b)) \<Longrightarrow> within (tool_look f)"
  by (simp add: within_def tool_look_def)

lemma within_clock: "within (clock_read env)"
  by (simp add: within_def clock_read_def time)

lemmas within_intros = within_then within_pure within_guard within_clock within_return within_fail_if within_look

lemma within_arguments: "(\<And>vs. within (h vs)) \<Longrightarrow> within (with_arguments ps h args)"
  unfolding with_arguments_def by (intro within_intros)

lemma within_handlers:
  "within (list_overdue_handler env ts a b c)" "within (get_invoice_handler env ts a)"
  "within (get_customer_handler ts a)" "within (get_payment_history_handler env ts a b)"
  unfolding list_overdue_handler_def get_invoice_handler_def get_customer_handler_def
    get_payment_history_handler_def by (intro within_intros)+

lemma within_read_tools:
  assumes "t \<in> set (read_tools env ts)"
  shows "within (tp_handler t args)"
  using assms
  by (auto simp: read_tools_def intro!: within_arguments within_handlers)

text \<open>The draft tool stays within it when storing a proposal does.\<close>

lemma within_draft_tool:
  assumes "\<And>i facts payload reason amount days. within (store_proposal env ts i facts payload reason amount days)"
  shows "within (tp_handler (draft_tool env ts) args)"
proof -
  have "within (draft_letter env ts i subject body tone rationale facts)" for i subject body tone rationale facts
    unfolding draft_letter_def
    by (intro within_intros assms)
  then have "within (propose_handler env ts i subject body tone rationale)" for i subject body tone rationale
    unfolding propose_handler_def by (auto intro!: within_intros split: option.split)
  then show ?thesis unfolding draft_tool_def by (auto intro!: within_arguments)
qed

text \<open>Any call through the registry.\<close>

lemma within_execute:
  assumes "\<And>t. t \<in> snd ` set reg \<Longrightarrow> within (tp_handler t args)"
  shows "within (execute_tool u reg name args)"
  unfolding within_def
proof
  fix a
  show "R (ag_world a) (ag_world (snd (execute_tool u reg name args a)))"
  proof (cases "map_of reg name")
    case None
    then show ?thesis by (simp add: execute_tool_def stays)
  next
    case (Some t)
    then have "t \<in> snd ` set reg" by (force dest: map_of_SomeD)
    from assms [OF this] have "R (ag_world a) (ag_world (snd (tp_handler t args a)))" by (simp add: within_def)
    then show ?thesis using Some
      by (auto simp: execute_tool_def harvest_def split: prod.splits sum.splits tool_exn.splits exn.splits)
  qed
qed

end

section \<open>The tools there are\<close>

lemma build_registry_eq:
  "build_registry env ts
    = Inr (map (\<lambda>t. (tp_name t, t)) (read_tools env ts) @ [(''propose_collection_letter'', draft_tool env ts)])"
  by (simp add: build_registry_def build_read_tools_def read_tools_def tool_spec_init_def draft_tool_def
      registry_init_def raise_if_def)

lemma registry_tools:
  assumes "build_registry env ts = Inr reg" and "t \<in> snd ` set reg"
  shows "t \<in> set (read_tools env ts) \<or> t = draft_tool env ts"
  using assms unfolding build_registry_eq by auto

lemma registry_lookup:
  assumes "build_registry env ts = Inr reg" and "map_of reg name = Some t" and "name \<noteq> ''propose_collection_letter''"
  shows "t \<in> set (read_tools env ts)"
  using assms map_of_SomeD [OF assms(2)] unfolding build_registry_eq by auto

lemma registry_draft:
  assumes "build_registry env ts = Inr reg"
  shows "map_of reg ''propose_collection_letter'' = Some (draft_tool env ts)"
  using assms unfolding build_registry_eq by (auto simp: read_tools_def)


section \<open>Reading changes no row\<close>

definition same_rows :: "world \<Rightarrow> world \<Rightarrow> bool" where
  "same_rows w w' \<longleftrightarrow> (\<exists>n. w' = w\<lparr>ticks := n\<rparr>)"

interpretation reading: database_relation same_rows
proof unfold_locales
  show "same_rows w w" for w :: world unfolding same_rows_def by (intro exI [of _ "ticks w"]) simp
  show "same_rows w x" if "same_rows w v" "same_rows v x" for w v x using that by (auto simp: same_rows_def)
  show "same_rows w (tick w)" for w by (auto simp: same_rows_def tick_def)
qed

lemma execute_read:
  assumes "build_registry env ts = Inr reg" and "name \<noteq> ''propose_collection_letter''"
  shows "same_rows (ag_world a) (ag_world (snd (execute_tool u reg name args a)))"
proof (cases "map_of reg name")
  case None
  then show ?thesis using reading.stays by (simp add: execute_tool_def)
next
  case (Some t)
  have "reading.within (tp_handler t args)"
    by (rule reading.within_read_tools [OF registry_lookup [OF assms(1) Some assms(2)]])
  then have "same_rows (ag_world a) (ag_world (snd (tp_handler t args a)))" by (simp add: reading.within_def)
  then show ?thesis using Some
    by (auto simp: execute_tool_def harvest_def split: prod.splits sum.splits tool_exn.splits exn.splits)
qed

section \<open>Every call is a sequence of units of work\<close>

interpretation working: database_relation "rtranclp (app_step env s)" for env s
  by unfold_locales (auto intro: app_step.time_passed)

lemma session_is_work:
  assumes "\<And>x w'. work w = Inr (x, w') \<Longrightarrow> app_step env s w w'"
  shows "app_step env s w (snd (session_scope work w))"
  using assms by (cases "work w") (auto simp: session_scope_def rolled_back_def intro: app_step.time_passed)

lemma store_proposal_works: "working.within env s (store_proposal env ts i f p r m d)"
  unfolding working.within_def
proof
  fix a :: agent
  let ?work = "create_proposal env (ts_run_id ts) p r (py_str (ts_unicode ts) i)
      (py_str (ts_unicode ts) (dict_get ''customer_email'' f)) m
      (py_str (ts_unicode ts) (py_or (dict_get ''currency'' f) (PStr ''usd''))) d (ts_ttl_hours ts)"
  have "app_step env s (ag_world a) (snd (session_scope ?work (ag_world a)))"
    by (rule session_is_work) (rule app_step.proposed)
  then show "rtranclp (app_step env s) (ag_world a) (ag_world (snd (store_proposal env ts i f p r m d a)))"
    by (auto simp: store_proposal_def split: prod.splits sum.splits exn.splits)
qed

lemma execute_works:
  assumes "build_registry env ts = Inr reg"
  shows "working.within env s (execute_tool u reg name args)"
proof (rule working.within_execute)
  fix t assume "t \<in> snd ` set reg"
  from registry_tools [OF assms this] show "working.within env s (tp_handler t args)"
    using working.within_read_tools working.within_draft_tool [OF store_proposal_works] by blast
qed

section \<open>Proposals\<close>

lemma store_proposal_Inr:
  assumes "store_proposal env ts (PStr i) facts payload reason amount days a = (Inr x, a')"
  shows "\<exists>p. proposals (ag_world a') = proposals (ag_world a) @ [p] \<and> pr_id p = x \<and> pr_status p = Pending
    \<and> pr_run_id p = ts_run_id ts \<and> pr_invoice_id p = i \<and> pr_payload p = payload \<and> pr_rationale p = reason
    \<and> pr_payload_hash p = hash_payload env (PDict payload)"
proof -
  let ?p = "new_proposal env (ts_run_id ts) payload reason i (py_str (ts_unicode ts) (dict_get ''customer_email'' facts))
      amount (py_str (ts_unicode ts) (py_or (dict_get ''currency'' facts) (PStr ''usd''))) days (ts_ttl_hours ts) (ag_world a)"
  from assms obtain w where "create_proposal env (ts_run_id ts) payload reason i
      (py_str (ts_unicode ts) (dict_get ''customer_email'' facts)) amount
      (py_str (ts_unicode ts) (py_or (dict_get ''currency'' facts) (PStr ''usd''))) days (ts_ttl_hours ts) (ag_world a)
      = Inr (x, w)" and w: "ag_world a' = w"
    by (auto simp: store_proposal_def session_scope_def py_str_def split: sum.splits exn.splits prod.splits)
  then obtain w1 where ins: "insert_proposal ?p (tick (tick (tick (ag_world a)))) = Inr w1" and x: "x = pr_id ?p"
    and app: "\<exists>actor event st si d. append_event env actor event st si d w1 = Inr w"
    by (auto simp: create_proposal_def Let_def result_simps quiet.flush_proposal_Inr) blast
  from app have "proposals w = proposals w1" using append_event_frame(3) by blast
  moreover have "proposals w1 = proposals (ag_world a) @ [?p]"
    using ins by (auto simp: insert_proposal_def result_simps tick_def)
  ultimately show ?thesis using w x by (intro exI [of _ ?p]) (simp add: new_proposal_def)
qed

text \<open>What the draft tool has checked when it returns.\<close>

lemma draft_letter_Inr:
  assumes "draft_letter env ts (PStr i) subject body tone rationale facts a = (Inr v, a')"
  shows "truthy (dict_get ''deliverable'' facts) \<and> tone \<in> PStr ` set tones
    \<and> (\<exists>reason. rationale = PStr reason \<and> strip reason \<noteq> [])
    \<and> int (proposal_count (ts_run_id ts) (ag_world a)) < ts_max_proposals ts
    \<and> (\<exists>st bt report. letter_text subject = Inr st \<and> letter_text body = Inr bt
        \<and> review_letter (ts_unicode ts) st bt facts = Inr report \<and> report_ok report)
    \<and> (\<exists>p. proposals (ag_world a') = proposals (ag_world a) @ [p] \<and> pr_status p = Pending
        \<and> pr_run_id p = ts_run_id ts \<and> pr_invoice_id p = i
        \<and> pr_payload p = letter_payload (PStr i) facts subject body tone
        \<and> v = proposal_ref (pr_id p) tone (PStr i) facts)"
proof -
  from assms obtain reason report amount days x where
    deliverable: "truthy (dict_get ''deliverable'' facts)" and tone: "tone \<in> PStr ` set tones"
    and reason: "stripped rationale = Inr reason" "reason \<noteq> []"
    and cap: "\<not> ts_max_proposals ts \<le> int (proposal_count (ts_run_id ts) (ag_world a))"
    and review: "and_then (letter_text subject) (\<lambda>s. and_then (letter_text body) (\<lambda>b.
       review_letter (ts_unicode ts) s b facts)) = Inr report" "report_ok report"
    and stored: "store_proposal env ts (PStr i) facts (letter_payload (PStr i) facts subject body tone)
        (py_str (ts_unicode ts) rationale) amount days a = (Inr x, a')"
    and v: "v = proposal_ref x tone (PStr i) facts"
    unfolding draft_letter_def then_with_Inr tool_pure_Inr fail_if_Inr tool_look_def
    by (smt (verit) Pair_inject sum.inject(2))
  from reason have "\<exists>r. rationale = PStr r \<and> strip r \<noteq> []"
    by (auto simp: stripped_def split: if_splits pyval.splits)
  moreover from review have "\<exists>st bt. letter_text subject = Inr st \<and> letter_text body = Inr bt
      \<and> review_letter (ts_unicode ts) st bt facts = Inr report" by (auto simp: result_simps)
  ultimately show ?thesis using deliverable tone cap review(2) store_proposal_Inr [OF stored] v by fastforce
qed

lemma execute_draft:
  assumes "build_registry env ts = Inr reg"
    and "execute_tool u reg ''propose_collection_letter'' args a = (Inr v, a')"
  shows "\<exists>i subject body tone rationale facts.
    bind_arguments [(''invoice_id'', None), (''subject'', None), (''body'', None), (''tone'', None), (''rationale'', None)] args
      = Inr [PStr i, subject, body, tone, rationale]
    \<and> ag_facts a i = Some facts \<and> draft_letter env ts (PStr i) subject body tone rationale facts a = (Inr v, a')"
proof -
  let ?ps = "[(''invoice_id'', None), (''subject'', None), (''body'', None), (''tone'', None), (''rationale'', None)]
      :: (string \<times> pyval option) list"
  have "map_of reg ''propose_collection_letter'' = Some (draft_tool env ts)"
    by (rule registry_draft [OF assms(1)])
  with assms(2) have "tp_handler (draft_tool env ts) args a = (Inr v, a')"
    by (auto simp: execute_tool_def draft_tool_def split: prod.splits sum.splits tool_exn.splits exn.splits)
  then obtain vs where vs: "bind_arguments ?ps args = Inr vs"
    and h: "propose_handler env ts (vs ! 0) (vs ! 1) (vs ! 2) (vs ! 3) (vs ! 4) a = (Inr v, a')"
    by (auto simp: draft_tool_def with_arguments_def result_simps)
  then obtain i subject body tone rationale where shape: "vs = [i, subject, body, tone, rationale]"
    by (auto simp: bind_arguments_def result_simps)
  from h obtain facts where "facts_of i a = Inr (Some facts)"
    and draft: "draft_letter env ts i subject body tone rationale facts a = (Inr v, a')"
    by (auto simp: shape propose_handler_def tool_look_def result_simps split: option.splits)
  moreover from this(1) obtain j where "i = PStr j" "ag_facts a j = Some facts"
    by (auto simp: facts_of_def result_simps split: pyval.splits)
  ultimately show ?thesis using vs shape by blast
qed

text \<open>
  C7: A draft that succeeds was of an invoice the agent had read, that can be delivered, below the run's
  cap, with a rationale, a known tone and a letter the review accepts; it adds one pending proposal whose
  payload has the facts that were read and the letter as it was written.
\<close>

theorem proposals_are_reviewed:
  assumes "build_registry env ts = Inr reg"
    and "execute_tool u reg ''propose_collection_letter'' args a = (Inr v, a')"
  shows "\<exists>i facts st bt report p.
    map_of args ''invoice_id'' = Some (PStr i) \<and> ag_facts a i = Some facts
    \<and> truthy (dict_get ''deliverable'' facts) \<and> dict_get ''tone'' args \<in> PStr ` set tones
    \<and> int (proposal_count (ts_run_id ts) (ag_world a)) < ts_max_proposals ts
    \<and> letter_text (dict_get ''subject'' args) = Inr st \<and> letter_text (dict_get ''body'' args) = Inr bt
    \<and> review_letter (ts_unicode ts) st bt facts = Inr report \<and> report_ok report
    \<and> proposals (ag_world a') = proposals (ag_world a) @ [p] \<and> pr_status p = Pending
    \<and> pr_run_id p = ts_run_id ts \<and> pr_invoice_id p = i
    \<and> pr_payload p = letter_payload (PStr i) facts (dict_get ''subject'' args) (dict_get ''body'' args) (dict_get ''tone'' args)"
proof -
  from execute_draft [OF assms] obtain i subject body tone rationale facts where
    bound: "bind_arguments [(''invoice_id'', None), (''subject'', None), (''body'', None), (''tone'', None), (''rationale'', None)]
      args = Inr [PStr i, subject, body, tone, rationale]"
    and facts: "ag_facts a i = Some facts"
    and draft: "draft_letter env ts (PStr i) subject body tone rationale facts a = (Inr v, a')" by blast
  from bound have args: "map_of args ''invoice_id'' = Some (PStr i)" "dict_get ''subject'' args = subject"
    "dict_get ''body'' args = body" "dict_get ''tone'' args = tone"
    by (auto simp: bind_arguments_def argument_def dict_get_def result_simps split: option.splits)
  note drafted = draft_letter_Inr [OF draft]
  from drafted obtain st bt report where "letter_text subject = Inr st" "letter_text body = Inr bt"
    "review_letter (ts_unicode ts) st bt facts = Inr report" "report_ok report" by blast
  moreover from drafted obtain p where "proposals (ag_world a') = proposals (ag_world a) @ [p]" "pr_status p = Pending"
    "pr_run_id p = ts_run_id ts" "pr_invoice_id p = i"
    "pr_payload p = letter_payload (PStr i) facts subject body tone" by blast
  moreover from drafted have "truthy (dict_get ''deliverable'' facts)" "tone \<in> PStr ` set tones"
    "int (proposal_count (ts_run_id ts) (ag_world a)) < ts_max_proposals ts" by simp_all
  ultimately show ?thesis unfolding args(2-4)
    by (intro exI [of _ i] exI [of _ facts] exI [of _ st] exI [of _ bt] exI [of _ report] exI [of _ p])
      (simp add: facts args(1))
qed

text \<open>The number of proposals of a run grows only through a draft, and only below the cap.\<close>

lemma store_proposal_Inl:
  "store_proposal env ts i f p r m d a = (Inl e, a') \<Longrightarrow> same_rows (ag_world a) (ag_world a')"
  by (auto simp: store_proposal_def session_scope_def same_rows_def rolled_back_def tick_def
      split: sum.splits exn.splits prod.splits)

lemma tool_pure_state: "tool_pure r a = (x, a') \<Longrightarrow> a' = a"
  by (auto simp: tool_pure_def split: sum.splits)

lemma fail_if_Inl: "fail_if b p k a = (Inl e, a') \<longleftrightarrow> (if b then e = Failure p \<and> a' = a else k a = (Inl e, a'))"
  by (auto simp: fail_if_def)

lemma draft_letter_Inl:
  assumes "draft_letter env ts i subject body tone rationale facts a = (Inl e, a')"
  shows "same_rows (ag_world a) (ag_world a')"
proof -
  have refl: "same_rows w w" for w by (rule reading.stays)
  from assms show ?thesis
    unfolding draft_letter_def tool_look_def
    by (auto simp: then_with_Inl fail_if_Inl result_simps refl
        dest!: tool_pure_state store_proposal_Inl split: if_splits)
qed

lemma execute_refused:
  assumes "build_registry env ts = Inr reg" and "execute_tool u reg name args a = (Inl e, a')"
  shows "same_rows (ag_world a) (ag_world a')"
proof (cases "name = ''propose_collection_letter''")
  case False
  from execute_read [OF assms(1) this, of a u args] assms(2) show ?thesis by simp
next
  case True
  have "map_of reg name = Some (draft_tool env ts)"
    unfolding True by (rule registry_draft [OF assms(1)])
  with assms(2) obtain e' where "tp_handler (draft_tool env ts) args a = (Inl e', a')"
    by (auto simp: execute_tool_def split: prod.splits sum.splits tool_exn.splits exn.splits if_splits)
  then show ?thesis
    using reading.stays
    by (auto simp: draft_tool_def with_arguments_def propose_handler_def tool_look_def then_with_Inl result_simps
        dest!: tool_pure_state draft_letter_Inl split: option.splits)
qed

text \<open>
  A call changes a row of the database only when it is a draft that succeeds: any other tool, any
  unknown name, any refusal and any exception leave every row as it was.
\<close>

theorem only_a_draft_changes_rows:
  assumes "build_registry env ts = Inr reg" and "execute_tool u reg name args a = (r, a')"
    and "name \<noteq> ''propose_collection_letter'' \<or> isl r"
  shows "\<exists>n. ag_world a' = (ag_world a)\<lparr>ticks := n\<rparr>"
proof -
  have "same_rows (ag_world a) (ag_world a')"
    using assms(3) execute_read [OF assms(1), of name a u args] assms(2) execute_refused [OF assms(1)]
    by (cases r) auto
  then show ?thesis by (simp add: same_rows_def)
qed

lemma execute_keeps_cap:
  assumes "build_registry env ts = Inr reg" and "execute_tool u reg name args a = (r, a')"
    and "int (proposal_count (ts_run_id ts) (ag_world a)) \<le> max 0 (ts_max_proposals ts)"
  shows "int (proposal_count (ts_run_id ts) (ag_world a')) \<le> max 0 (ts_max_proposals ts)"
proof (cases "name \<noteq> ''propose_collection_letter'' \<or> isl r")
  case True
  have "same_rows (ag_world a) (ag_world a')"
    using True execute_read [OF assms(1), of name a u args] assms(2) execute_refused [OF assms(1)]
    by (cases r) auto
  then show ?thesis using assms(3) by (auto simp: same_rows_def proposal_count_def run_proposals_def)
next
  case False
  then obtain v where "execute_tool u reg ''propose_collection_letter'' args a = (Inr v, a')"
    using assms(2) by (cases r) auto
  from execute_draft [OF assms(1) this] draft_letter_Inr obtain p where
    "int (proposal_count (ts_run_id ts) (ag_world a)) < ts_max_proposals ts"
    "proposals (ag_world a') = proposals (ag_world a) @ [p]" "pr_run_id p = ts_run_id ts" by metis
  then show ?thesis by (simp add: proposal_count_def run_proposals_def)
qed

section \<open>Metadata that looks like an invoice\<close>

lemma walk_scalars: "(\<And>v. v \<in> snd ` set d \<Longrightarrow> is_pstr v) \<Longrightarrow> concat (map (\<lambda>kv. walk_result k (snd kv)) d) = []"
proof (induction d)
  case Nil
  then show ?case by simp
next
  case (Cons kv d)
  then have "is_pstr (snd kv)" by simp
  then have "walk_result k (snd kv) = []"
    by (cases k; cases "snd kv") (simp_all add: is_pstr_def looks_like_an_invoice_def dict_has_def)
  with Cons show ?case by simp
qed

text \<open>
  The capture of facts takes any nested dict for an invoice that has an id, an amount and days
  overdue, so metadata of a customer that has these keys becomes the facts of the invoice it names:
  reading the customer replaces what was retrieved of that invoice.
\<close>

theorem metadata_becomes_facts:
  assumes "build_registry env ts = Inr reg" and "rd_customers (ag_reads a) = []"
    and "sc_reply (ts_client ts) (rd_calls (ag_reads a)) ''customers.retrieve'' [(''id'', PStr c)] = Replied raw"
    and "0 < sc_max_attempts (ts_client ts)" and "project_customer raw = Inr p"
    and "get_path raw [''metadata''] = PDict m" and "looks_like_an_invoice (PDict m)"
    and "dict_get ''id'' m = PStr i" and "i \<noteq> []" and "\<forall>v \<in> snd ` set m. is_pstr v"
  shows "ag_facts (snd (execute_tool u reg ''get_customer'' [(''customer_id'', PStr c)] a)) i = Some (letter_facts m)"
proof -
  let ?a = "a\<lparr>ag_reads := (next_call (ag_reads a))\<lparr>rd_customers := [(PStr c, p)]\<rparr>\<rparr>"
  obtain k where "sc_max_attempts (ts_client ts) = Suc k" using assms(4) by (cases "sc_max_attempts (ts_client ts)") auto
  then have "stripe_call (ts_client ts) ''customers.retrieve'' [(''id'', PStr c)] (ag_reads a) = (Inr raw, next_call (ag_reads a))"
    using assms(3) by (simp add: stripe_call_def)
  then have "read_customer (ts_client ts) (PStr c) (ag_reads a)
      = (Inr p, (next_call (ag_reads a))\<lparr>rd_customers := [(PStr c, p)]\<rparr>)"
    using assms(2,5) by (simp add: read_customer_def hashable_def then_with_def read_pure_def next_call_def)
  then have read: "get_customer_handler ts (PStr c) a = (Inr (PDict p), ?a)"
    by (simp add: get_customer_handler_def then_with_def guard_def)
  have exec: "execute_tool u reg ''get_customer'' [(''customer_id'', PStr c)] a = (Inr (PDict p), harvest (PDict p) ?a)"
    using assms(1) read unfolding build_registry_eq
    by (auto simp: execute_tool_def read_tools_def with_arguments_def bind_arguments_def argument_def then_with_def tool_pure_def)
  obtain d where p: "p = d @ [(''metadata'', PDict m)]" and "\<not> looks_like_an_invoice (PDict p)"
    using assms(5,6) by (auto simp: project_customer_def result_simps plain_dict_def looks_like_an_invoice_def dict_has_def)
  then obtain before where "walk_result 5 (PDict p) = before @ walk_result 4 (PDict m)"
    by (simp add: eval_nat_numeral)
  moreover have one: "walk_result (Suc n) (PDict m) = [m]" for n
    using assms(7,10) walk_scalars [of m n] by force
  from one [of 3] have "walk_result 4 (PDict m) = [m]" by simp
  ultimately have "ag_facts (harvest (PDict p) ?a) i = Some (letter_facts m)"
    using assms(8,9) by (simp add: harvest_def capture_def letter_facts_def dict_get_def)
  then show ?thesis unfolding exec by simp
qed

section \<open>A link that cannot be read\<close>

text \<open>
  A letter whose link has an unpaired bracket in its host is not refused for the model to correct:
  the exception of the URL parser leaves the registry, and with it the loop, whatever else is right with
  the draft.
\<close>

theorem unpaired_bracket_is_no_refusal:
  assumes "build_registry env ts = Inr reg" and "ag_facts a i = Some facts"
    and "truthy (dict_get ''deliverable'' facts)" and "tone \<in> set tones" and "strip reason \<noteq> []"
    and "int (proposal_count (ts_run_id ts) (ag_world a)) < ts_max_proposals ts"
    and "found_urls (ts_unicode ts) body = [l]"
    and "rev (dropWhile link_trail (rev l)) = ''https://'' @ h" and "list_all (\<lambda>c. 32 < byte_of c) h"
    and "CHR ''['' \<in> set (takeWhile (\<lambda>c. \<not> netloc_end c) h)" and "CHR '']'' \<notin> set h"
    and "dict_get ''customer_name'' facts = PStr name" and "dict_get ''amount_display'' facts = PStr amount"
    and "dict_get ''days_overdue'' facts = PInt days" and "dict_get ''hosted_invoice_url'' facts = PStr link" and "link \<noteq> []"
  shows "execute_tool u reg ''propose_collection_letter''
      [(''invoice_id'', PStr i), (''subject'', PStr subject), (''body'', PStr body), (''tone'', PStr tone),
       (''rationale'', PStr reason)] a
    = (Inl (Raised (ValueError ''Invalid IPv6 URL'')), a)"
proof -
  let ?args = "[(''invoice_id'', PStr i), (''subject'', PStr subject), (''body'', PStr body), (''tone'', PStr tone),
       (''rationale'', PStr reason)]"
  have review: "review_letter (ts_unicode ts) st body facts = Inl (ValueError ''Invalid IPv6 URL'')" for st
    using unreadable_link_raises [OF assms(7) unpaired_bracket [OF assms(8-11)] assms(12-16)] .
  have reason: "stripped (PStr reason) = Inr (strip reason)"
    using assms(5) by (cases "reason = []") (simp_all add: stripped_def)
  have "letter_text (PStr t) = Inr t" for t by (cases "t = []") (simp_all add: letter_text_def)
  then have draft: "draft_letter env ts (PStr i) (PStr subject) (PStr body) (PStr tone) (PStr reason) facts a
      = (Inl (Raised (ValueError ''Invalid IPv6 URL'')), a)"
    using assms(3-6) review reason
    by (simp add: draft_letter_def fail_if_def then_with_def tool_pure_def tool_look_def image_iff)
  have "facts_of (PStr i) a = Inr (Some facts)" using assms(2) by (simp add: facts_of_def hashable_def)
  with draft have "propose_handler env ts (PStr i) (PStr subject) (PStr body) (PStr tone) (PStr reason) a
      = (Inl (Raised (ValueError ''Invalid IPv6 URL'')), a)"
    by (simp add: propose_handler_def then_with_def tool_look_def tool_pure_def)
  then have "tp_handler (draft_tool env ts) ?args a = (Inl (Raised (ValueError ''Invalid IPv6 URL'')), a)"
    by (simp add: draft_tool_def with_arguments_def bind_arguments_def argument_def then_with_def tool_pure_def)
  moreover have "map_of reg ''propose_collection_letter'' = Some (draft_tool env ts)"
    by (rule registry_draft [OF assms(1)])
  ultimately show ?thesis by (simp add: execute_tool_def)
qed

end
