(* ===== verification/AgentRuns.thy ===== *)
theory AgentRuns
  imports AgentLoop AgentTools
begin

text \<open>
  What a whole run of \<^verbatim>\<open>app/agent/loop.py\<close> and \<^verbatim>\<open>app/runner.py\<close> guarantees, whatever the model asks for and
  whatever Stripe answers: it ends within its budgets in a final status, it is a sequence of the agent
  service's units of work, and it decides and sends nothing.
\<close>

section \<open>A run within a relation on databases\<close>

text \<open>
  The loop stays within a relation that its calls of the registry and its own writes, the transcript and
  the status of the run, stay within.
\<close>

locale run_relation = database_relation +
  fixes env :: env
  assumes step_stays: "R w (snd (session_scope (append_step env i kind tool payload) w))"
    and status_stays: "R w (snd (session_scope (set_status env i st err) w))"
begin

definition along :: "'a talk \<Rightarrow> bool" where
  "along m \<longleftrightarrow> (\<forall>c. R (cv_world c) (cv_world (snd (m c))))"

lemma along_then:
  assumes "along m" and "\<And>x. along (f x)"
  shows "along (then_with m f)"
  unfolding along_def
proof
  fix c
  obtain r c1 where m: "m c = (r, c1)" by fastforce
  have "R (cv_world c) (cv_world c1)" using assms(1) m unfolding along_def by (metis snd_conv)
  moreover have "R (cv_world c1) (cv_world (snd (f x c1)))" for x using assms(2) unfolding along_def by blast
  ultimately show "R (cv_world c) (cv_world (snd (then_with m f c)))"
    using m onwards by (cases r) (auto simp: then_with_def)
qed

lemma along_each: "(\<And>x. along (f x)) \<Longrightarrow> along (talk_each f xs)"
proof (induction xs)
  case Nil
  then show ?case by (simp add: along_def stays)
next
  case (Cons x xs)
  have "talk_each f (x # xs) = then_with (f x) (\<lambda>y. then_with (talk_each f xs) (\<lambda>ys. Pair (Inr (y # ys))))" by auto
  then show ?case using Cons by (auto intro!: along_then) (simp add: along_def stays)
qed

lemma along_same: "(\<And>c. cv_world (snd (m c)) = cv_world c) \<Longrightarrow> along m"
  by (simp add: along_def stays)

lemma along_return: "along (Pair r)"
  by (rule along_same) simp

lemma along_say: "along (say m)"
  by (rule along_same) (simp add: say_def cv_world_def)

lemma along_ask: "along (ask_model llm system tools)"
  by (rule along_same) (simp add: ask_model_def cv_world_def split: sum.splits llm_exn.splits)

lemma along_record: "along (record_step env i kind tool payload)"
  unfolding along_def
proof
  fix c :: conversation
  show "R (cv_world c) (cv_world (snd (record_step env i kind tool payload c)))"
    using step_stays [of "cv_world c" i kind tool payload]
    by (auto simp: record_step_def set_world_def cv_world_def split: prod.splits sum.splits)
qed

lemma along_note: "along (note_text env i t)"
  unfolding note_text_def
  by (intro along_then along_record along_same) (simp add: cv_world_def)

lemma along_run_tool: "within (execute_tool u reg (tc_name call) (tc_arguments call)) \<Longrightarrow> along (run_tool u reg call)"
  by (auto simp: along_def within_def run_tool_def cv_world_def split: prod.splits) (metis snd_conv)

lemma along_execute_one:
  assumes "\<And>name args. within (execute_tool u reg name args)"
  shows "along (execute_one env u i reg call)"
  unfolding execute_one_def
  by (intro along_then along_record along_run_tool assms)
    (auto intro!: along_then along_record along_return split: sum.split tool_exn.split)

lemma along_budgeted:
  assumes "\<And>name args. within (execute_tool u reg name args)"
  shows "along (budgeted_call env u i budget reg call)"
  unfolding along_def
proof
  fix c :: conversation
  have "R (cv_world (c\<lparr>cv_calls := Suc (cv_calls c)\<rparr>))
      (cv_world (snd (execute_one env u i reg call (c\<lparr>cv_calls := Suc (cv_calls c)\<rparr>))))"
    using along_execute_one [OF assms] unfolding along_def by blast
  then show "R (cv_world c) (cv_world (snd (budgeted_call env u i budget reg call c)))"
    by (simp add: budgeted_call_def cv_world_def stays)
qed

lemma along_turn:
  assumes "\<And>name args. within (execute_tool u reg name args)"
  shows "along (take_turn env u i budget reg llm system)"
  unfolding take_turn_def
  by (intro along_then along_ask along_each along_record along_note)
    (auto intro!: along_then along_each along_budgeted assms along_say along_return)

lemma along_converse:
  assumes "\<And>name args. within (execute_tool u reg name args)"
  shows "along (converse n left env u i budget reg llm system)"
proof (induction left)
  case 0
  have "converse n 0 env u i budget reg llm system = Pair (Inl (turns_spent n))" by auto
  then show ?case by (simp add: along_return)
next
  case (Suc left)
  have "converse n (Suc left) env u i budget reg llm system
      = then_with (take_turn env u i budget reg llm system)
          (\<lambda>more. if more then converse n left env u i budget reg llm system else Pair (Inr ()))" by auto
  then show ?case using Suc by (auto intro!: along_then along_turn assms along_return)
qed

lemma along_status: "R (cv_world c) (cv_world (snd (store_status env i st err c)))"
  using status_stays [of "cv_world c" i st err]
  by (auto simp: store_status_def set_world_def cv_world_def split: prod.splits)

lemma along_end: "R (cv_world c) (cv_world (snd (end_with env i st summary err c)))"
  using along_status [of c i st err] by (auto simp: end_with_def split: prod.splits sum.splits)

lemma along_fail: "R (cv_world c) (cv_world (snd (fail_run env i why c)))"
proof -
  have "R (cv_world c) (cv_world (snd (record_step env i Message None p c)))" for p
    using along_record unfolding along_def by blast
  then show ?thesis
    using along_end onwards
    by (auto simp: fail_run_def split: stop.splits prod.splits sum.splits) (metis snd_conv)+
qed

lemma along_run:
  assumes "\<And>name args. within (execute_tool u reg name args)"
  shows "R (ag_world a) (cv_world (snd (run_agent env u s i goal llm reg n a)))"
proof -
  let ?c0 = "\<lparr>cv_agent = a, cv_calls = 0, cv_turns = 0, cv_summary = [], cv_steps = [],
      cv_messages = [message ''user'' (PStr goal)]\<rparr>"
  let ?sys = "build_system_prompt (as_operator_id s) (int (as_max_proposals s)) (int (as_max_tool_calls s))"
  obtain r c1 where start: "store_status env i RunRunning None ?c0 = (r, c1)" by fastforce
  have w0: "cv_world ?c0 = ag_world a" by (simp add: cv_world_def)
  have first: "R (ag_world a) (cv_world c1)" using along_status [of ?c0 i RunRunning None] unfolding start w0 by simp
  show ?thesis
  proof (cases r)
    case (Inl e)
    then show ?thesis using first start by (simp add: run_agent_def Let_def)
  next
    case (Inr x)
    obtain r2 c2 where loop: "converse n n env u i (as_max_tool_calls s) reg llm ?sys c1 = (r2, c2)" by fastforce
    have "R (cv_world c1) (cv_world c2)" using along_converse [OF assms] loop unfolding along_def by (metis snd_conv)
    with first have "R (ag_world a) (cv_world c2)" by (rule onwards)
    moreover have "R (cv_world c2) (cv_world (snd (fail_run env i why c2)))" for why by (rule along_fail)
    moreover have "R (cv_world c2) (cv_world (snd (finish_run env i c2)))" unfolding finish_run_def by (rule along_end)
    ultimately have "R (ag_world a) (cv_world (snd (fail_run env i why c2)))"
      and "R (ag_world a) (cv_world (snd (finish_run env i c2)))" for why by (blast intro: onwards)+
    then show ?thesis using start Inr loop by (cases r2) (simp_all add: run_agent_def Let_def)
  qed
qed

lemma along_execute:
  assumes "\<And>ts reg name args. build_registry env ts = Inr reg \<Longrightarrow> within (execute_tool u reg name args)"
  shows "R w (snd (execute_run env c u s key given anthropic j w))"
proof -
  have crash: "R v (mark_crashed env i v)" for v i unfolding mark_crashed_def by (rule status_stays)
  consider m where "(case given of Some llm \<Rightarrow> Inr llm | None \<Rightarrow> and_then (anthropic_llm (as_anthropic_api_key s)) (\<lambda>_. Inr anthropic))
      = Inl (Unavailable m)"
    | e where "(case given of Some llm \<Rightarrow> Inr llm | None \<Rightarrow> and_then (anthropic_llm (as_anthropic_api_key s)) (\<lambda>_. Inr anthropic))
      = Inl (LlmRaised e)"
    | llm where "(case given of Some llm \<Rightarrow> Inr llm | None \<Rightarrow> and_then (anthropic_llm (as_anthropic_api_key s)) (\<lambda>_. Inr anthropic))
      = (Inr llm :: llm_exn + model)"
    by (metis llm_exn.exhaust sum.exhaust)
  then show ?thesis
  proof cases
    case 1
    then show ?thesis unfolding execute_run_def by (simp add: status_stays)
  next
    case 2
    then show ?thesis unfolding execute_run_def by (simp add: stays)
  next
    case 3
    show ?thesis
    proof (cases "build_run_context env c u s key j w")
      case (Inl e)
      then show ?thesis using 3 crash unfolding execute_run_def by simp
    next
      case (Inr ra)
      then obtain reg a where ra: "build_run_context env c u s key j w = Inr (reg, a)" by (cases ra) simp
      then obtain ts where "build_registry env ts = Inr reg" and w: "ag_world a = w"
        by (auto simp: build_run_context_def split: sum.splits prod.splits)
      note run = along_run [OF assms [OF this(1)], of a s "jb_run_id j" "run_goal j" llm DEFAULT_MAX_TURNS]
      obtain r c' where go: "run_agent env u s (jb_run_id j) (run_goal j) llm reg DEFAULT_MAX_TURNS a = (r, c')" by fastforce
      from run have "R w (cv_world c')" unfolding go w by simp
      then show ?thesis using 3 ra go crash onwards unfolding execute_run_def by (cases r) auto
    qed
  qed
qed

end

section \<open>A run is a sequence of units of work\<close>

interpretation working_run: run_relation "rtranclp (app_step env s)" env for env s
proof unfold_locales
  fix w i kind tool payload st err
  have "app_step env s w (snd (session_scope (append_step env i kind tool payload) w))"
    by (rule session_is_work) (rule app_step.step_appended)
  then show "rtranclp (app_step env s) w (snd (session_scope (append_step env i kind tool payload) w))" by blast
  have "app_step env s w (snd (session_scope (set_status env i st err) w))"
    by (rule session_is_work) (rule app_step.status_set)
  then show "rtranclp (app_step env s) w (snd (session_scope (set_status env i st err) w))" by blast
qed


section \<open>A run decides and sends nothing\<close>

lemma quiet_trans:
  assumes "quiet w v" and "quiet v x"
  shows "quiet w x"
  using assms unfolding quiet_def by (metis (no_types, lifting) subset_iff)

interpretation acting: run_relation quiet env for env
proof unfold_locales
  show "quiet w w" for w by simp
  show "quiet w x" if "quiet w v" "quiet v x" for w v x using that by (rule quiet_trans)
  show "quiet w (tick w)" for w by (rule quiet.keeps_tick) simp
  show "quiet w (snd (session_scope (append_step env i kind tool payload) w))" for w i kind tool payload
    by (rule quiet.keeps_scope) (auto intro: quiet.keeps_append_step)
  show "quiet w (snd (session_scope (set_status env i st err) w))" for w i st err
    by (rule quiet.keeps_scope) (auto intro: quiet.keeps_set_status)
qed

lemma store_proposal_quiet: "acting.within (store_proposal env ts i f p r m d)"
  unfolding acting.within_def
proof
  fix a :: agent
  let ?work = "create_proposal env (ts_run_id ts) p r (py_str (ts_unicode ts) i)
      (py_str (ts_unicode ts) (dict_get ''customer_email'' f)) m
      (py_str (ts_unicode ts) (py_or (dict_get ''currency'' f) (PStr ''usd''))) d (ts_ttl_hours ts)"
  have "quiet (ag_world a) (snd (session_scope ?work (ag_world a)))"
    by (rule quiet.keeps_scope) (auto intro: quiet.keeps_create_proposal)
  then show "quiet (ag_world a) (ag_world (snd (store_proposal env ts i f p r m d a)))"
    by (auto simp: store_proposal_def split: prod.splits sum.splits exn.splits)
qed

lemma execute_quiet:
  assumes "build_registry env ts = Inr reg"
  shows "acting.within (execute_tool u reg name args)"
proof (rule acting.within_execute)
  fix t assume "t \<in> snd ` set reg"
  from registry_tools [OF assms this] show "acting.within (tp_handler t args)"
    using acting.within_read_tools acting.within_draft_tool [OF store_proposal_quiet] by blast
qed

text \<open>
  C5: Whatever the model asks for, a run adds no approval, no execution, no consumed nonce and no mail,
  removes no proposal and makes none pending that was decided: the agent cannot send and cannot approve.
\<close>

theorem run_decides_and_sends_nothing:
  "quiet w (snd (execute_run env c u s key given anthropic j w))"
  by (rule acting.along_execute) (rule execute_quiet)

section \<open>The budgets\<close>

text \<open>A part of the loop that starts no turn and stays within the budget of tool calls.\<close>

definition steady :: "nat \<Rightarrow> 'a talk \<Rightarrow> bool" where
  "steady b m \<longleftrightarrow> (\<forall>c. cv_turns (snd (m c)) = cv_turns c \<and> (cv_calls c \<le> b \<longrightarrow> cv_calls (snd (m c)) \<le> b))"

lemma steady_then:
  assumes "steady b m" and "\<And>x. steady b (f x)"
  shows "steady b (then_with m f)"
  unfolding steady_def
proof
  fix c
  obtain r c1 where m: "m c = (r, c1)" by fastforce
  have "cv_turns c1 = cv_turns c \<and> (cv_calls c \<le> b \<longrightarrow> cv_calls c1 \<le> b)"
    using assms(1) m unfolding steady_def by (metis snd_conv)
  moreover have "cv_turns (snd (f x c1)) = cv_turns c1 \<and> (cv_calls c1 \<le> b \<longrightarrow> cv_calls (snd (f x c1)) \<le> b)" for x
    using assms(2) unfolding steady_def by blast
  ultimately show "cv_turns (snd (then_with m f c)) = cv_turns c
      \<and> (cv_calls c \<le> b \<longrightarrow> cv_calls (snd (then_with m f c)) \<le> b)"
    using m by (cases r) (auto simp: then_with_def)
qed

lemma steady_each: "(\<And>x. steady b (f x)) \<Longrightarrow> steady b (talk_each f xs)"
proof (induction xs)
  case Nil
  then show ?case by (simp add: steady_def)
next
  case (Cons x xs)
  have "talk_each f (x # xs) = then_with (f x) (\<lambda>y. then_with (talk_each f xs) (\<lambda>ys. Pair (Inr (y # ys))))" by auto
  then show ?case using Cons by (auto intro!: steady_then) (simp add: steady_def)
qed

lemma steady_parts:
  "steady b (Pair r)" "steady b (say m)" "steady b (record_step env i kind tool payload)" "steady b (run_tool u reg call)"
  by (auto simp: steady_def say_def record_step_def run_tool_def set_world_def split: prod.splits sum.splits)

lemma steady_note: "steady b (note_text env i t)"
  unfolding note_text_def by (intro steady_then steady_parts) (simp add: steady_def)

lemma steady_execute_one: "steady b (execute_one env u i reg call)"
  unfolding execute_one_def
  by (intro steady_then steady_parts) (auto intro!: steady_then steady_parts split: sum.split tool_exn.split)

lemma steady_budgeted: "steady b (budgeted_call env u i b reg call)"
  unfolding steady_def
proof
  fix c :: conversation
  have "cv_turns (snd (execute_one env u i reg call c')) = cv_turns c'
      \<and> (cv_calls c' \<le> b \<longrightarrow> cv_calls (snd (execute_one env u i reg call c')) \<le> b)" for c'
    using steady_execute_one unfolding steady_def by blast
  then show "cv_turns (snd (budgeted_call env u i b reg call c)) = cv_turns c
      \<and> (cv_calls c \<le> b \<longrightarrow> cv_calls (snd (budgeted_call env u i b reg call c)) \<le> b)"
    by (simp add: budgeted_call_def)
qed

lemma turn_spends_one:
  assumes "cv_calls c \<le> b"
  shows "cv_turns (snd (take_turn env u i b reg llm system c)) = Suc (cv_turns c)
    \<and> cv_calls (snd (take_turn env u i b reg llm system c)) \<le> b"
proof -
  define rest where "rest = (\<lambda>r. then_with (talk_each (\<lambda>t. record_step env i Thought None [(''text'', PStr t)]) (lr_thinking r)) (\<lambda>_.
     then_with (talk_each (note_text env i) (lr_text r)) (\<lambda>_.
       if \<not> wants_tools r then Pair (Inr False)
       else
         then_with (say (message ''assistant'' (lr_content r))) (\<lambda>_.
         then_with (talk_each (budgeted_call env u i b reg) (lr_tool_calls r)) (\<lambda>results.
         then_with (say (message ''user'' (PList results))) (\<lambda>_. Pair (Inr True)))))))"
  have rest: "steady b (rest r)" for r
    unfolding rest_def by (auto intro!: steady_then steady_each steady_parts steady_note steady_budgeted)
  have "take_turn env u i b reg llm system = then_with (ask_model llm system (anthropic_schemas reg)) rest"
    unfolding take_turn_def rest_def by simp
  moreover obtain r c1 where ask: "ask_model llm system (anthropic_schemas reg) c = (r, c1)" by fastforce
  then have "c1 = c\<lparr>cv_turns := Suc (cv_turns c)\<rparr>"
    by (auto simp: ask_model_def split: sum.splits llm_exn.splits)
  ultimately show ?thesis using rest assms ask by (cases r) (auto simp: then_with_def steady_def)
qed

lemma converse_within_budget:
  "cv_calls c \<le> b \<Longrightarrow> cv_turns (snd (converse n left env u i b reg llm system c)) \<le> cv_turns c + left
    \<and> cv_calls (snd (converse n left env u i b reg llm system c)) \<le> b"
proof (induction left arbitrary: c)
  case 0
  then show ?case by simp
next
  case (Suc left)
  obtain r c1 where t: "take_turn env u i b reg llm system c = (r, c1)" by fastforce
  have c1: "cv_turns c1 = Suc (cv_turns c)" "cv_calls c1 \<le> b"
    using turn_spends_one [OF Suc.prems, of env u i reg llm system] t by simp_all
  show ?case using Suc.IH [OF c1(2)] c1 t by (cases r) (auto simp: then_with_def)
qed

subsection \<open>Proposals\<close>

definition capped :: "string \<Rightarrow> int \<Rightarrow> world \<Rightarrow> world \<Rightarrow> bool" where
  "capped i cap w w' \<longleftrightarrow>
     (int (proposal_count i w) \<le> max 0 cap \<longrightarrow> int (proposal_count i w') \<le> max 0 cap)"

lemma count_same: "proposals w' = proposals w \<Longrightarrow> capped i cap w w'"
  by (simp add: capped_def proposal_count_def run_proposals_def)

lemma own_writes_keep_proposals:
  "proposals (snd (session_scope (append_step env i kind tool payload) w)) = proposals w"
  "proposals (snd (session_scope (set_status env i st err) w)) = proposals w"
proof -
  have "proposals w' = proposals w" if "append_step env i kind tool payload w = Inr (x, w')" for x w'
    using that insert_keeps_proposals(2) by (fastforce simp: append_step_def Let_def result_simps tick_def)
  then show "proposals (snd (session_scope (append_step env i kind tool payload) w)) = proposals w"
    by (cases "append_step env i kind tool payload w") (auto simp: session_scope_def rolled_back_def tick_def)
  have "proposals w' = proposals w" if "set_status env i st err w = Inr (x, w')" for x w'
    using that append_event_frame(3)
    by (fastforce simp: set_status_def Let_def result_simps tick_def update_run_def split: option.splits if_splits)
  then show "proposals (snd (session_scope (set_status env i st err) w)) = proposals w"
    by (cases "set_status env i st err w") (auto simp: session_scope_def rolled_back_def tick_def)
qed

interpretation capping: run_relation "capped rid cap" env for rid cap env
proof unfold_locales
  show "capped rid cap w w" for w by (rule count_same) simp
  show "capped rid cap w x" if "capped rid cap w v" "capped rid cap v x" for w v x using that by (simp add: capped_def)
  show "capped rid cap w (tick w)" for w by (rule count_same) (simp add: tick_def)
qed (auto intro: count_same own_writes_keep_proposals)

lemma execute_capped:
  assumes "build_registry env ts = Inr reg"
  shows "capping.within (ts_run_id ts) (ts_max_proposals ts) (execute_tool u reg name args)"
  unfolding capping.within_def capped_def
proof
  fix a :: agent
  obtain r a' where "execute_tool u reg name args a = (r, a')" by fastforce
  from execute_keeps_cap [OF assms this]
  show "int (proposal_count (ts_run_id ts) (ag_world a)) \<le> max 0 (ts_max_proposals ts) \<longrightarrow>
      int (proposal_count (ts_run_id ts) (ag_world (snd (execute_tool u reg name args a)))) \<le> max 0 (ts_max_proposals ts)"
    using \<open>execute_tool u reg name args a = (r, a')\<close> by simp
qed

subsection \<open>The outcome\<close>

lemma end_with_Inr:
  assumes "end_with env i st summary err c = (Inr r, c')"
  shows "ro_status r = st" and "cv_calls c' = cv_calls c" and "cv_turns c' = cv_turns c"
    and "ro_tool_calls r = cv_calls c'" and "ro_turns r = cv_turns c'" and "ro_proposals r = proposal_count i (cv_world c')"
  using assms by (auto simp: end_with_def store_status_def outcome_of_def set_world_def split: prod.splits sum.splits)

lemma fail_run_Inr:
  assumes "fail_run env i why c = (Inr r, c')"
  shows "ro_status r = RunFailed \<and> cv_calls c' = cv_calls c \<and> cv_turns c' = cv_turns c
    \<and> ro_tool_calls r = cv_calls c' \<and> ro_turns r = cv_turns c' \<and> ro_proposals r = proposal_count i (cv_world c')"
proof -
  from assms obtain c1 m where c1: "end_with env i RunFailed [] (Some m) c1 = (Inr r, c')"
    and same: "cv_calls c1 = cv_calls c" "cv_turns c1 = cv_turns c"
    by (auto simp: fail_run_def record_step_def set_world_def split: stop.splits prod.splits sum.splits)
  from end_with_Inr [OF c1] same show ?thesis by simp
qed

text \<open>
  C9: A run that returns has ended, in one of the three final states, after at most the turns and the tool
  calls it was given, and with at most the proposals the settings allow: the loop cannot run on.
\<close>

theorem run_ends_within_budget:
  assumes "build_registry env (run_toolset client u s j) = Inr reg"
    and "int (proposal_count (jb_run_id j) (ag_world a)) \<le> int (as_max_proposals s)"
    and "run_agent env u s (jb_run_id j) goal llm reg max_turns a = (Inr r, c)"
  shows "ro_status r \<in> {RunAwaiting, RunCompleted, RunFailed} \<and> ro_turns r \<le> max_turns
    \<and> ro_tool_calls r \<le> as_max_tool_calls s \<and> ro_proposals r \<le> as_max_proposals s"
proof -
  let ?i = "jb_run_id j" and ?b = "as_max_tool_calls s"
  let ?c0 = "\<lparr>cv_agent = a, cv_calls = 0, cv_turns = 0, cv_summary = [], cv_steps = [],
      cv_messages = [message ''user'' (PStr goal)]\<rparr>"
  let ?sys = "build_system_prompt (as_operator_id s) (int (as_max_proposals s)) (int ?b)"
  from assms(3) obtain x c1 where start: "store_status env ?i RunRunning None ?c0 = (Inr x, c1)"
    by (auto simp: run_agent_def Let_def split: prod.splits sum.splits)
  then have c1: "cv_calls c1 = 0" "cv_turns c1 = 0" by (auto simp: store_status_def set_world_def split: prod.splits)
  obtain y c2 where loop: "converse max_turns max_turns env u ?i ?b reg llm ?sys c1 = (y, c2)" by fastforce
  have c2: "cv_turns c2 \<le> max_turns" "cv_calls c2 \<le> ?b"
    using converse_within_budget [of c1 ?b max_turns max_turns env u ?i reg llm ?sys] c1 loop by simp_all
  have "ro_status r \<in> {RunAwaiting, RunCompleted, RunFailed} \<and> cv_calls c = cv_calls c2 \<and> cv_turns c = cv_turns c2
      \<and> ro_tool_calls r = cv_calls c \<and> ro_turns r = cv_turns c \<and> ro_proposals r = proposal_count ?i (cv_world c)"
  proof (cases y)
    case (Inl why)
    then have "fail_run env ?i why c2 = (Inr r, c)" using assms(3) start loop by (simp add: run_agent_def Let_def)
    from fail_run_Inr [OF this] show ?thesis by simp
  next
    case (Inr z)
    then have "finish_run env ?i c2 = (Inr r, c)" using assms(3) start loop by (simp add: run_agent_def Let_def)
    from end_with_Inr [OF this [unfolded finish_run_def]] show ?thesis by simp
  qed
  moreover have "capped ?i (int (as_max_proposals s)) (ag_world a)
      (cv_world (snd (run_agent env u s ?i goal llm reg max_turns a)))"
    using capping.along_run [OF execute_capped [OF assms(1)], where a = a and s = s and i = ?i and goal = goal and llm = llm and n = max_turns]
    by (simp add: run_toolset_def)
  then have "capped ?i (int (as_max_proposals s)) (ag_world a) (cv_world c)" using assms(3) by simp
  then have "proposal_count ?i (cv_world c) \<le> as_max_proposals s" using assms(2) by (simp add: capped_def)
  ultimately show ?thesis using c2 by simp
qed

end
