(* ===== verification/AgentScenario.thy ===== *)
theory AgentScenario
  imports Scenario AgentRuns
begin

text \<open>
  A concrete run of the agent: an invoice Stripe returns, a letter the review accepts, the draft that
  stores it, and a model that ends its run at once. The witnesses of the properties about the letter
  checks, the Stripe client, the tools and the loop are stated of it.
\<close>

section \<open>A letter that is accepted\<close>

definition u0 :: unicode where
  "u0 = \<lparr>uc_word = (\<lambda>_. False), uc_digit = (\<lambda>_. False), uc_nfkc_delimiters = (\<lambda>_. False),
     uc_bracket_ok = (\<lambda>_. True), uc_repr = (\<lambda>_. [])\<rparr>"

definition facts0 :: pydict where
  "facts0 = [(''customer_name'', PStr ''Xy''), (''deliverable'', PBool True), (''amount_display'', PStr ''$5''),
     (''amount_due'', PInt 5), (''days_overdue'', PInt 7), (''hosted_invoice_url'', PStr ''https://h'')]"

definition body0 :: string where
  "body0 = ''Xy x@y.z $5 7 https://h''"

definition vowels :: "nat list" where
  "vowels = [97, 101, 105, 111, 117]"

lemma phrases_have_vowels:
  "rule \<in> set forbidden_patterns \<Longrightarrow> ph \<in> set (fb_phrases rule) \<Longrightarrow> list_ex (\<lambda>n. fold_case n \<in> set vowels) (cps_of ph)"
  by (auto simp: forbidden_patterns_def cps_of_def fold_case_def vowels_def ascii_upper_letter_def)

lemma says_needs_vowel:
  assumes "says u ph t" and "list_ex (\<lambda>n. fold_case n \<in> set vowels) (cps_of ph)"
  shows "list_ex (\<lambda>n. fold_case n \<in> set vowels) (codepoints t)"
proof -
  from assms(1) obtain pre m a where t: "codepoints t = pre @ m @ a" and m: "map fold_case m = map fold_case (cps_of ph)"
    by (auto simp: says_def same_letters_def)
  have "list_ex (\<lambda>n. n \<in> set vowels) (map fold_case m)" unfolding m using assms(2) by (simp add: list_ex_iff)
  then show ?thesis unfolding t by (auto simp: list_ex_iff)
qed

lemma no_vowels_no_claims:
  assumes "\<And>t. t \<in> set ts \<Longrightarrow> \<not> list_ex (\<lambda>n. fold_case n \<in> set vowels) (codepoints t)"
  shows "find_forbidden_claims u ts = []"
proof -
  have "filter (\<lambda>rule. \<exists>ph \<in> set (fb_phrases rule). says u ph t) forbidden_patterns = []" if "t \<in> set ts" for t
    using assms [OF that] says_needs_vowel phrases_have_vowels by (auto simp: filter_empty_conv)
  then have "codes_claimed u ts = []" by (simp add: codes_claimed_def)
  then show ?thesis using codes_of_texts [of u ts] by simp
qed

lemma body0_points: "codepoints body0
    = [88, 121, 32, 120, 64, 121, 46, 122, 32, 36, 53, 32, 55, 32, 104, 116, 116, 112, 115, 58, 47, 47, 104]"
  by (simp add: body0_def)

lemma clean0: "find_forbidden_claims u [''X'', body0] = []"
  by (rule no_vowels_no_claims) (auto simp: body0_points fold_case_def vowels_def ascii_upper_letter_def)

lemmas pattern_simps =
  many1_def lit_def first_is_def shift_def at_boundary_def tries_def word_char_def u0_def ascii_digit_def
  ascii_upper_letter_def ascii_lower_letter_def url_char_def space_char_def matched_at_def currency_sign_def
  figure_char_def digit_char_class_def

lemma chars0: "char_of (104 :: nat) = CHR ''h''" "char_of (116 :: nat) = CHR ''t''" "char_of (112 :: nat) = CHR ''p''"
  "char_of (115 :: nat) = CHR ''s''" "char_of (58 :: nat) = CHR '':''" "char_of (47 :: nat) = CHR ''/''"
  by (rule char_of_byte; simp)+

lemma urls0: "found_urls u0 body0 = [''https://h'']"
  by (simp add: found_urls_def body0_points find_all_def url_pattern_def pattern_simps cps_text_def utf8_encode_def bytes_def chars0)

lemma dispute0: "search (word_char u0) (dispute_route u0) (codepoints body0) \<noteq> None"
proof
  let ?rest = "[120, 64, 121, 46, 122, 32, 36, 53, 32, 55, 32, 104, 116, 116, 112, 115, 58, 47, 47, 104] :: cps"
  assume "search (word_char u0) (dispute_route u0) (codepoints body0) = None"
  moreover have "codepoints body0 = [88, 121, 32] @ ?rest" by (simp add: body0_points)
  ultimately have "run (word_char u0) (dispute_route u0) (rev [88, 121, 32], ?rest) = []"
    unfolding search_None by blast
  moreover have "set (run w (email_pattern u0) x) \<subseteq> set (run w (dispute_route u0) x)" for w x
    by (auto simp: dispute_route_def run_alts)
  ultimately have "run (word_char u0) (email_pattern u0) ([32, 121, 88], ?rest) = []"
    by (metis append_Nil append_Cons empty_subsetI rev.simps set_empty subset_antisym)
  then show False by (simp add: email_pattern_def local_char_def pattern_simps)
qed

lemma same0: "links_match u0 ''https://h'' ''https://h'' = Inr True"
  by (simp add: links_match_def link_identity_def urlsplit_def link_trail_def clean_url_def split_scheme_def
      scheme_char_def is_letter_def split_netloc_def netloc_end_def check_netloc_def)

lemma days0: "search (word_char u0) (number_pattern 7) (codepoints body0) \<noteq> None"
  by (simp add: body0_points search_def number_pattern_def int_str_def nat_str.simps digit_char_def pattern_simps)

lemma facts0_get [simp]:
  "dict_get ''customer_name'' facts0 = PStr ''Xy''" "dict_get ''invoice_number'' facts0 = PNone"
  "dict_get ''amount_display'' facts0 = PStr ''$5''" "dict_get ''due_date'' facts0 = PNone"
  "dict_get ''days_overdue'' facts0 = PInt 7" "dict_get ''hosted_invoice_url'' facts0 = PStr ''https://h''"
  "dict_get ''amount_due'' facts0 = PInt 5" "dict_get ''deliverable'' facts0 = PBool True"
  by (simp_all add: facts0_def dict_get_def)

lemma complete0: "find_missing_facts u0 body0 facts0 = Inr []"
proof -
  have "absent (PStr ''Xy'') body0 = Inr False" "absent (PStr ''$5'') body0 = Inr False"
    by (simp_all add: absent_def body0_def)
  then show ?thesis
    using dispute0 days0 urls0 same0
    by (simp add: find_missing_facts_def Let_def days_missing_def py_int_def link_missing_def note_if_def py_str_def)
qed

lemma money0: "find_all (word_char u0) (money_pattern u0) (codepoints body0) = [[36, 53]]"
  by (simp add: body0_points find_all_def money_pattern_def pattern_simps)

lemma invented0: "find_invented_figures u0 body0 facts0 = Inr []"
proof -
  have "fact_values ''_url'' u0 facts0 = [''https://h'']" "fact_values ''_display'' u0 facts0 = [''$5'']"
    by (simp_all add: fact_values_def facts0_def py_str_def suffix_def)
  then show ?thesis
    using urls0 same0 money0
    by (simp add: find_invented_figures_def invented_amounts_def invented_links_def allowed_money_def normalise_money_def
        raw_minor_units_def space_char_def nat_str.simps)
qed

definition report0 :: guardrail_report where
  "report0 = \<lparr>gr_forbidden = [], gr_missing_facts = [], gr_invented = []\<rparr>"

lemma accepted0: "review_letter u0 ''X'' body0 facts0 = Inr report0" "report_ok report0"
  using clean0 complete0 invented0 by (simp_all add: review_letter_def report0_def report_ok_def)


section \<open>An invoice and a customer of Stripe\<close>

definition raw1 :: pyval where
  "raw1 = PDict [(''id'', PStr ''in_1''), (''amount_due'', PInt 500),
     (''customer'', PDict [(''id'', PStr ''cus_1''), (''name'', PStr ''Xy''), (''email'', PStr ''c@d.e'')])]"

definition metadata1 :: pydict where
  "metadata1 = [(''id'', PStr ''in_1''), (''amount_due'', PStr ''1''), (''days_overdue'', PStr ''9'')]"

definition customer1 :: pyval where
  "customer1 = PDict [(''id'', PStr ''cus_1''), (''metadata'', PDict metadata1)]"

definition client0 :: stripe_client where
  "client0 = \<lparr>sc_reply = (\<lambda>n what params.
       if what = ''invoices.list'' then Replied (PDict [(''data'', PList [raw1])])
       else if what = ''customers.retrieve'' then Replied customer1 else RateLimited),
     sc_live = True, sc_max_attempts = 3, sc_include_clocks = False, sc_max_clocks = 20\<rparr>"

definition reads0 :: reads where
  "reads0 = \<lparr>rd_calls = 0, rd_pauses = [], rd_customers = []\<rparr>"

lemma client0_sel [simp]: "sc_max_attempts client0 = 3" "sc_include_clocks client0 = False" "sc_live client0 = True"
  "sc_reply client0 n ''invoices.list'' p = Replied (PDict [(''data'', PList [raw1])])"
  "sc_reply client0 n ''customers.retrieve'' p = Replied customer1"
  by (simp_all add: client0_def)

lemma fetch0: "fetch_overdue client0 now reads0 = (Inr [raw1], next_call reads0)"
  by (simp add: fetch_overdue_def then_with_def stripe_call_def eval_nat_numeral page_data_def dict_get_def)

lemma display_some: "normalise code \<noteq> None \<Longrightarrow> \<exists>t. display u i (PStr code) = Inr (PStr t)"
  by (auto simp: display_def format_amount_def)

lemma usd_ok: "normalise ''usd'' = Some ''usd''"
proof -
  have "strip ''usd'' = ''usd''" by (rule strip_id) (simp_all add: printable_def)
  then show ?thesis by (simp add: normalise_def is_letter_def ascii_lower_def Let_def)
qed

lemma project1: "\<exists>p. project_invoice u raw1 now = Inr p"
proof -
  obtain t where "display u 500 (PStr ''usd'') = Inr (PStr t)" using display_some [of "''usd''" u 500] usd_ok by auto
  then show ?thesis
    by (simp add: project_invoice_def raw1_def get_or_def dict_get_def int_or_0_def py_int_def iso_date_of_def
        days_overdue_def remaining_def Let_def)
qed

definition invoice1 :: pydict where
  "invoice1 = (case project_invoice u0 raw1 0 of Inr p \<Rightarrow> p | Inl _ \<Rightarrow> [])"

lemma invoice1: "project_invoice u0 raw1 0 = Inr invoice1"
  using project1 [of u0 0] by (auto simp: invoice1_def)

lemma invoice1_eligible: "eligible 0 None invoice1"
proof -
  have "days_overdue (get_path raw1 [''due_date'']) 0 = Inr (dict_get ''days_overdue'' invoice1)"
    by (rule project_invoice_fields(5) [OF invoice1])
  then have "dict_get ''days_overdue'' invoice1 = PNone" by (simp add: raw1_def dict_get_def days_overdue_def)
  then show ?thesis by (simp add: eligible_def too_recent_def too_small_def)
qed

lemma overdue0: "list_overdue_invoices client0 u0 0 0 25 None reads0 = (Inr [invoice1], next_call reads0)"
  using fetch0 [of 0] invoice1 invoice1_eligible
  by (simp add: list_overdue_invoices_def then_with_def read_pure_def remember_customer_def is_mapping_def
      eligible_def largest_first_def Let_def split: pyval.splits)

section \<open>A draft\<close>

definition ts0 :: toolset where
  "ts0 = \<lparr>ts_client = client0, ts_unicode = u0, ts_run_id = uuid0 1, ts_floor = 0, ts_max_proposals = 5, ts_ttl_hours = 72\<rparr>"

definition reg0 :: registry where
  "reg0 = (case build_registry env0 ts0 of Inr r \<Rightarrow> r | Inl _ \<Rightarrow> [])"

lemma reg0: "build_registry env0 ts0 = Inr reg0"
  by (simp add: reg0_def build_registry_eq)

definition agent0 :: agent where
  "agent0 = \<lparr>ag_reads = reads0, ag_facts = (\<lambda>_. None)(''in_1'' \<mapsto> facts0), ag_world = world1\<rparr>"

lemma agent0_sel [simp]: "ag_reads agent0 = reads0" "ag_facts agent0 ''in_1'' = Some facts0" "ag_world agent0 = world1"
  by (simp_all add: agent0_def)

lemma ts0_sel [simp]: "ts_client ts0 = client0" "ts_unicode ts0 = u0" "ts_run_id ts0 = uuid0 1"
  "ts_max_proposals ts0 = 5" "ts_ttl_hours ts0 = 72"
  by (simp_all add: ts0_def)

definition draft0 :: "string \<Rightarrow> pydict" where
  "draft0 body = [(''invoice_id'', PStr ''in_1''), (''subject'', PStr ''X''), (''body'', PStr body), (''tone'', PStr ''firm''),
     (''rationale'', PStr ''r'')]"

lemma none_proposed: "proposal_count (uuid0 1) world1 = 0"
  by (simp add: proposal_count_def run_proposals_def world1_def)

lemma strip_r: "strip ''r'' = ''r''"
  by (rule strip_id) (simp_all add: printable_def)

lemma stored0: "\<exists>i a'. store_proposal env0 ts0 (PStr ''in_1'') facts0 payload ''r'' 5 7 agent0 = (Inr i, a')"
  by (simp add: store_proposal_def session_scope_def create_proposal_def flush_proposal_def insert_proposal_def
      new_proposal_def world1_def run0_def Let_def tick_def action_types_def)

lemma drafted0: "\<exists>v a'. execute_tool u0 reg0 ''propose_collection_letter'' (draft0 body0) agent0 = (Inr v, a')"
proof -
  obtain i a' where stored: "store_proposal env0 ts0 (PStr ''in_1'') facts0
      (letter_payload (PStr ''in_1'') facts0 (PStr ''X'') (PStr body0) (PStr ''firm'')) ''r'' 5 7 agent0 = (Inr i, a')"
    using stored0 by blast
  have "body0 \<noteq> []" by (simp add: body0_def)
  then have "draft_letter env0 ts0 (PStr ''in_1'') (PStr ''X'') (PStr body0) (PStr ''firm'') (PStr ''r'') facts0 agent0
      = (Inr (proposal_ref i (PStr ''firm'') (PStr ''in_1'') facts0), a')"
    using accepted0 stored none_proposed strip_r
    by (simp add: draft_letter_def fail_if_def then_with_def tool_pure_def tool_look_def tones_def stripped_def
        letter_text_def int_or_0_def py_int_def py_str_def)
  then have "tp_handler (draft_tool env0 ts0) (draft0 body0) agent0 = (Inr (proposal_ref i (PStr ''firm'') (PStr ''in_1'') facts0), a')"
    by (simp add: draft_tool_def with_arguments_def bind_arguments_def argument_def then_with_def tool_pure_def draft0_def
        propose_handler_def tool_look_def facts_of_def hashable_def)
  moreover have "map_of reg0 ''propose_collection_letter'' = Some (draft_tool env0 ts0)"
    by (rule registry_draft [OF reg0])
  ultimately show ?thesis by (simp add: execute_tool_def draft_tool_def)
qed

section \<open>A run\<close>

definition silent :: model where
  "silent n system messages tools =
     Inr \<lparr>lr_stop_reason = None, lr_thinking = [], lr_text = [], lr_tool_calls = [], lr_content = PNone\<rparr>"

definition job0 :: job where
  "job0 = \<lparr>jb_run_id = uuid0 1, jb_goal = ''g'', jb_min_days = 0, jb_max_proposals = 5\<rparr>"

definition reg1 :: registry where
  "reg1 = (case build_registry env0 (run_toolset client0 u0 as0 job0) of Inr r \<Rightarrow> r | Inl _ \<Rightarrow> [])"

lemma reg1: "build_registry env0 (run_toolset client0 u0 as0 job0) = Inr reg1"
  by (simp add: reg1_def build_registry_eq)

lemma run0_ends: "\<exists>r c. run_agent env0 u0 as0 (uuid0 1) ''g'' silent reg1 40 agent0 = (Inr r, c)"
proof -
  have "intact0 (events world1)" by (simp add: world1_def)
  then show ?thesis
    by (simp add: run_agent_def Let_def store_status_def session_scope_def set_status_def cv_world_def set_world_def
        world1_def run0_def update_run_def ends_run_def eval_nat_numeral then_with_def take_turn_def ask_model_def
        silent_def wants_tools_def finish_run_def end_with_def proposal_count_def run_proposals_def tick_def)
qed

end
