(* ===== verification/AgentWitnesses.thy ===== *)
theory AgentWitnesses
  imports AgentScenario
begin

text \<open>
  The properties of the letter checks, the Stripe client, the tools and the loop that have hypotheses,
  applied to the run of \<open>AgentScenario\<close>.
\<close>

lemma accepted_letter_states_facts_witness:
  "review_letter u0 ''X'' body0 facts0 = Inr report0 \<and> states_facts u0 body0 facts0 \<and> codes_claimed u0 [''X'', body0] = []"
  using accepted_letter_states_facts [OF accepted0] accepted0 by blast



lemma overdue_query_returns_largest_witness:
  "distinct (map (dict_get ''id'') [invoice1]) \<and> eligible 0 None invoice1"
  using overdue_query_returns_largest [OF fetch0 overdue0] by simp

lemma only_a_draft_changes_rows_witness:
  "\<exists>n. ag_world (snd (execute_tool u0 reg0 ''send'' [] agent0)) = world1\<lparr>ticks := n\<rparr>"
proof -
  obtain r a' where e: "execute_tool u0 reg0 ''send'' [] agent0 = (r, a')" by fastforce
  from only_a_draft_changes_rows [OF reg0 e] e show ?thesis by simp
qed

lemma proposals_are_reviewed_witness:
  "\<exists>p v a'. execute_tool u0 reg0 ''propose_collection_letter'' (draft0 body0) agent0 = (Inr v, a')
     \<and> proposals (ag_world a') = [p] \<and> pr_status p = Pending \<and> pr_invoice_id p = ''in_1''"
proof -
  from drafted0 obtain v a' where e: "execute_tool u0 reg0 ''propose_collection_letter'' (draft0 body0) agent0 = (Inr v, a')"
    by blast
  from proposals_are_reviewed [OF reg0 e] obtain i p where "map_of (draft0 body0) ''invoice_id'' = Some (PStr i)"
    "proposals (ag_world a') = proposals world1 @ [p]" "pr_status p = Pending" "pr_invoice_id p = i" by auto
  with e show ?thesis by (auto simp: draft0_def world1_def)
qed

lemma metadata_becomes_facts_witness:
  "ag_facts (snd (execute_tool u0 reg0 ''get_customer'' [(''customer_id'', PStr ''cus_1'')] agent0)) ''in_1''
     = Some (letter_facts metadata1)
   \<and> ag_facts agent0 ''in_1'' = Some facts0 \<and> letter_facts metadata1 \<noteq> facts0"
proof -
  obtain p where p: "project_customer customer1 = Inr p"
    by (simp add: project_customer_def customer1_def dict_get_def iso_date_of_def lower_or_none_def)
  have "get_path customer1 [''metadata''] = PDict metadata1" by (simp add: customer1_def dict_get_def)
  moreover have "looks_like_an_invoice (PDict metadata1)" "dict_get ''id'' metadata1 = PStr ''in_1''"
    "\<forall>v \<in> snd ` set metadata1. is_pstr v"
    by (simp_all add: metadata1_def looks_like_an_invoice_def dict_get_def dict_has_def is_pstr_def)
  moreover have "rd_customers (ag_reads agent0) = []" by (simp add: reads0_def)
  ultimately have "ag_facts (snd (execute_tool u0 reg0 ''get_customer'' [(''customer_id'', PStr ''cus_1'')] agent0)) ''in_1''
     = Some (letter_facts metadata1)"
    using p by (intro metadata_becomes_facts [OF reg0]) simp_all
  then show ?thesis by (simp add: letter_facts_def metadata1_def facts0_def dict_get_def)
qed

lemma unpaired_bracket_is_no_refusal_witness:
  "execute_tool u0 reg0 ''propose_collection_letter'' (draft0 ''https://['') agent0
     = (Inl (Raised (ValueError ''Invalid IPv6 URL'')), agent0)"
proof -
  have urls: "found_urls u0 ''https://['' = [''https://['']"
  proof -
    have "char_of (91 :: nat) = CHR ''[''" by (rule char_of_byte) simp
    then show ?thesis
      by (simp add: found_urls_def find_all_def url_pattern_def pattern_simps cps_text_def utf8_encode_def bytes_def chars0)
  qed
  show ?thesis
    unfolding draft0_def
    by (rule unpaired_bracket_is_no_refusal [OF reg0, where facts = facts0 and h = "''[''" and l = "''https://[''"
        and name = "''Xy''" and amount = "''$5''" and days = 7 and link = "''https://h''"])
      (simp_all add: none_proposed [simplified] strip_r urls tones_def link_trail_def netloc_end_def)
qed

lemma run_ends_within_budget_witness:
  "\<exists>r c. run_agent env0 u0 as0 (uuid0 1) ''g'' silent reg1 40 agent0 = (Inr r, c) \<and> ro_turns r \<le> 40
     \<and> ro_tool_calls r \<le> as_max_tool_calls as0"
proof -
  from run0_ends obtain r c where e: "run_agent env0 u0 as0 (uuid0 1) ''g'' silent reg1 40 agent0 = (Inr r, c)" by blast
  have "int (proposal_count (jb_run_id job0) (ag_world agent0)) \<le> int (as_max_proposals as0)"
    by (simp add: job0_def none_proposed [simplified])
  moreover have "run_agent env0 u0 as0 (jb_run_id job0) ''g'' silent reg1 40 agent0 = (Inr r, c)" using e by (simp add: job0_def)
  ultimately show ?thesis using run_ends_within_budget [OF reg1] e by blast
qed

end
