(* ===== verification/Queries.thy ===== *)
theory Queries
  imports StripeRead Store
begin

text \<open>
  \<^verbatim>\<open>app/api/queries.py\<close>: the read models behind the public API and the pages. A dict with fixed keys is a
  record; \<^verbatim>\<open>ORDER BY\<close> is a stable sort, so that rows with equal keys come in the order of the table.
\<close>

section \<open>Runs\<close>

record count_row =
  rc_tool_calls :: nat
  rc_proposals :: nat
  rc_pending :: nat

definition no_counts :: count_row where
  "no_counts = \<lparr>rc_tool_calls = 0, rc_proposals = 0, rc_pending = 0\<rparr>"

text \<open>One \<^verbatim>\<open>SELECT run_id, count(*) ... WHERE run_id IN (...) GROUP BY run_id\<close>, and the loop over its rows.\<close>

definition count_by_run :: "string list \<Rightarrow> string list \<Rightarrow> (string \<times> nat) list" where
  "count_by_run run_ids keys = group_counts (filter (\<lambda>i. i \<in> set run_ids) keys)"

definition put_counts ::
  "(nat \<Rightarrow> count_row \<Rightarrow> count_row) \<Rightarrow> (string \<times> nat) list \<Rightarrow> (string \<Rightarrow> count_row option) \<Rightarrow> string \<Rightarrow> count_row option" where
  "put_counts put rows counts = fold (\<lambda>(i, total) m. m(i := map_option (put total) (m i))) rows counts"

definition run_counts :: "string list \<Rightarrow> world \<Rightarrow> string \<Rightarrow> count_row option" where
  "run_counts run_ids w =
     (if run_ids = [] then (\<lambda>_. None)
      else
        put_counts (\<lambda>n c. c\<lparr>rc_pending := n\<rparr>)
          (count_by_run run_ids (map pr_run_id (filter (\<lambda>p. pr_status p = Pending) (proposals w))))
       (put_counts (\<lambda>n c. c\<lparr>rc_proposals := n\<rparr>)
          (count_by_run run_ids (map pr_run_id (proposals w)))
       (put_counts (\<lambda>n c. c\<lparr>rc_tool_calls := n\<rparr>)
          (count_by_run run_ids (map st_run_id (filter (\<lambda>s. st_type s = ToolCall) (steps w))))
       (\<lambda>i. if i \<in> set run_ids then Some no_counts else None))))"

record run_info =
  ri_id :: string
  ri_goal :: string
  ri_status :: run_status
  ri_started_at :: int
  ri_ended_at :: "int option"
  ri_operator_id :: string
  ri_error :: "string option"
  ri_params :: pydict
  ri_tool_calls :: nat
  ri_proposals :: nat
  ri_pending :: nat

definition run_dict :: "run_row \<Rightarrow> count_row option \<Rightarrow> run_info" where
  "run_dict r found =
     (let c = (case found of None \<Rightarrow> no_counts | Some c \<Rightarrow> c) in
      \<lparr>ri_id = rn_id r, ri_goal = rn_goal r, ri_status = rn_status r, ri_started_at = rn_started_at r,
       ri_ended_at = rn_ended_at r, ri_operator_id = rn_operator_id r, ri_error = rn_error r,
       ri_params = rn_params r, ri_tool_calls = rc_tool_calls c, ri_proposals = rc_proposals c,
       ri_pending = rc_pending c\<rparr>)"

definition page_of :: "nat \<Rightarrow> nat \<Rightarrow> 'r list \<Rightarrow> 'r list" where
  "page_of limit offset rows = take limit (drop offset rows)"

definition newest_runs :: "run_row list \<Rightarrow> run_row list" where
  "newest_runs rs = sort_key (\<lambda>r. - rn_started_at r) rs"

definition list_runs :: "env \<Rightarrow> nat \<Rightarrow> nat \<Rightarrow> run_info list work" where
  "list_runs env limit offset w =
     and_then (settle_decided_runs env w) (\<lambda>(_, w1).
     let page = page_of limit offset (newest_runs (runs w1));
         counts = run_counts (map rn_id page) w1
     in Inr (map (\<lambda>r. run_dict r (counts (rn_id r))) page, w1))"

section \<open>The names behind the ids\<close>

text \<open>
  \<open>hash_key\<close> is what Python's dicts compare: a list or a dict is no key, and \<^verbatim>\<open>True\<close> is the key \<^verbatim>\<open>1\<close>.
\<close>

definition unhashable :: exn where
  "unhashable = TypeError ''unhashable type''"

definition hash_key :: "pyval \<Rightarrow> exn + pyval" where
  "hash_key v =
     (if \<not> hashable v then Inl unhashable
      else Inr (case v of PBool b \<Rightarrow> PInt (if b then 1 else 0) | _ \<Rightarrow> v))"

record names =
  nm_customers :: "pyval \<Rightarrow> pyval option"
  nm_invoices :: "pyval \<Rightarrow> pydict option"

definition no_names :: names where
  "no_names = \<lparr>nm_customers = (\<lambda>_. None), nm_invoices = (\<lambda>_. None)\<rparr>"

text \<open>What \<^verbatim>\<open>for row in rows\<close> goes through: a list's elements, a dict's keys, a string's characters.\<close>

fun iterate :: "pyval \<Rightarrow> exn + pyval list" where
  "iterate (PList xs) = Inr xs"
| "iterate (PDict d) = Inr (map (\<lambda>kv. PStr (fst kv)) d)"
| "iterate (PStr s) = Inr (map (\<lambda>n. PStr (utf8_encode n)) (codepoints s))"
| "iterate _ = Inl (TypeError ''object is not iterable'')"

definition result_rows :: "pydict \<Rightarrow> exn + pyval list" where
  "result_rows result =
     and_then (iterate (py_or (py_or (dict_get ''invoices'' result) (dict_get ''history'' result)) (PList []))) (\<lambda>rows.
     Inr (case dict_get ''invoice'' result of PDict d \<Rightarrow> rows @ [PDict d] | _ \<Rightarrow> rows))"

definition learn :: "string \<times> pyval \<Rightarrow> pydict \<Rightarrow> pydict" where
  "learn kv known =
     (case kv of (key, v) \<Rightarrow> if truthy v \<and> \<not> truthy (dict_get key known) then dict_set key v known else known)"

definition learn_invoice :: "pydict \<Rightarrow> names \<Rightarrow> exn + names" where
  "learn_invoice row ns =
     (let invoice_id = py_or (dict_get ''id'' row) (dict_get ''invoice_id'' row) in
      if \<not> truthy invoice_id then Inr ns
      else
        and_then (hash_key invoice_id) (\<lambda>k.
        let known = (case nm_invoices ns k of None \<Rightarrow> [] | Some d \<Rightarrow> d) in
        Inr (ns\<lparr>nm_invoices := (nm_invoices ns)(k \<mapsto>
          fold learn [(''number'', dict_get ''number'' row), (''customer'', dict_get ''customer_name'' row),
                      (''amount'', dict_get ''amount_due_display'' row)] known)\<rparr>)))"

definition learn_customer :: "pydict \<Rightarrow> names \<Rightarrow> exn + names" where
  "learn_customer row ns =
     (if truthy (dict_get ''customer_id'' row) \<and> truthy (dict_get ''customer_name'' row)
      then and_then (hash_key (dict_get ''customer_id'' row)) (\<lambda>k.
           Inr (ns\<lparr>nm_customers := (nm_customers ns)(k \<mapsto> dict_get ''customer_name'' row)\<rparr>))
      else Inr ns)"

fun each_in :: "('x \<Rightarrow> 's \<Rightarrow> exn + 's) \<Rightarrow> 'x list \<Rightarrow> 's \<Rightarrow> exn + 's" where
  "each_in f [] s = Inr s"
| "each_in f (x # xs) s = and_then (f x s) (each_in f xs)"

definition learn_row :: "pyval \<Rightarrow> names \<Rightarrow> exn + names" where
  "learn_row row ns =
     (case row of PDict d \<Rightarrow> and_then (learn_invoice d ns) (learn_customer d) | _ \<Rightarrow> Inr ns)"

definition learn_step :: "step_row \<Rightarrow> names \<Rightarrow> exn + names" where
  "learn_step s ns =
     (case dict_get ''result'' (st_payload s) of
        PDict result \<Rightarrow> and_then (result_rows result) (\<lambda>rows. each_in learn_row rows ns)
      | _ \<Rightarrow> Inr ns)"

definition transcript_index :: "string \<Rightarrow> world \<Rightarrow> exn + names" where
  "transcript_index run_id w =
     each_in learn_step (filter (\<lambda>s. st_type s = ToolResult) (run_steps run_id w)) no_names"

text \<open>What a call was about.\<close>

definition about_customer :: "names \<Rightarrow> pydict \<Rightarrow> exn + pydict" where
  "about_customer ns arguments =
     (let customer_id = dict_get ''customer_id'' arguments in
      if \<not> truthy customer_id then Inr []
      else and_then (hash_key customer_id) (\<lambda>k.
        Inr [(''customer'', py_or (case nm_customers ns k of None \<Rightarrow> PNone | Some v \<Rightarrow> v) customer_id)]))"

definition about_invoice :: "names \<Rightarrow> pydict \<Rightarrow> pydict \<Rightarrow> exn + pydict" where
  "about_invoice ns arguments about =
     (let invoice_id = dict_get ''invoice_id'' arguments in
      if \<not> truthy invoice_id then Inr about
      else and_then (hash_key invoice_id) (\<lambda>k.
        let known = (case nm_invoices ns k of None \<Rightarrow> [] | Some d \<Rightarrow> d) in
        Inr (dict_update about
          [(''customer'', py_or (dict_get ''customer'' known) (dict_get ''customer'' about)),
           (''invoice'', py_or (dict_get ''number'' known) invoice_id),
           (''amount'', dict_get ''amount'' known)])))"

definition step_about :: "pydict \<Rightarrow> names \<Rightarrow> exn + pydict" where
  "step_about payload ns =
     (case py_or (dict_get ''arguments'' payload) (PDict []) of
        PDict arguments \<Rightarrow>
          and_then (about_customer ns arguments) (\<lambda>about.
          and_then (about_invoice ns arguments about) (\<lambda>about.
          let about = (if truthy (dict_get ''tone'' arguments)
                       then dict_set ''tone'' (dict_get ''tone'' arguments) about else about)
          in Inr (filter (\<lambda>kv. truthy (snd kv)) about)))
      | _ \<Rightarrow> Inr [])"

record step_view =
  sv_seq :: nat
  sv_type :: step_type
  sv_tool_name :: "string option"
  sv_tool_class :: pyval
  sv_payload :: pydict
  sv_about :: pydict
  sv_created_at :: int

definition step_dict :: "names option \<Rightarrow> step_row \<Rightarrow> exn + step_view" where
  "step_dict index s =
     and_then (case index of
         Some ns \<Rightarrow> if st_type s = ToolCall then step_about (st_payload s) ns else Inr []
       | None \<Rightarrow> Inr []) (\<lambda>about.
     Inr \<lparr>sv_seq = st_seq s, sv_type = st_type s, sv_tool_name = st_tool_name s,
          sv_tool_class = dict_get ''tool_class'' (st_payload s), sv_payload = st_payload s,
          sv_about = about, sv_created_at = st_created_at s\<rparr>)"

text \<open>The rows of a run's transcript after a sequence number, in order.\<close>

definition tail_of :: "string \<Rightarrow> nat \<Rightarrow> world \<Rightarrow> step_row list" where
  "tail_of run_id after_seq w = sort_key st_seq (filter (\<lambda>s. after_seq < st_seq s) (run_steps run_id w))"

definition largest_proposals :: "proposal_row list \<Rightarrow> proposal_row list" where
  "largest_proposals ps = sort_key (\<lambda>p. - pr_amount_due p) ps"

record run_detail =
  rd_run :: run_info
  rd_transcript :: "step_view list"
  rd_proposal_ids :: "string list"

definition get_run :: "env \<Rightarrow> string \<Rightarrow> nat \<Rightarrow> run_detail option work" where
  "get_run env run_id after_seq w =
     and_then (expire_stale_proposals env w) (\<lambda>(_, w1).
     and_then (settle_run_if_decided env run_id w1) (\<lambda>(_, w2).
     case find_run run_id w2 of
       None \<Rightarrow> Inr (None, w2)
     | Some r \<Rightarrow>
         and_then (transcript_index run_id w2) (\<lambda>ns.
         and_then (collect (step_dict (Some ns)) (tail_of run_id after_seq w2)) (\<lambda>transcript.
         Inr (Some \<lparr>rd_run = run_dict r (run_counts [run_id] w2 run_id), rd_transcript = transcript,
                    rd_proposal_ids = map pr_id (largest_proposals (run_proposals run_id w2))\<rparr>, w2)))))"

definition steps_after :: "string \<Rightarrow> nat \<Rightarrow> world \<Rightarrow> exn + step_view list" where
  "steps_after run_id after_seq w =
     and_then (transcript_index run_id w) (\<lambda>ns. collect (step_dict (Some ns)) (tail_of run_id after_seq w))"

definition run_status_of :: "string \<Rightarrow> world \<Rightarrow> run_status option" where
  "run_status_of run_id w = map_option rn_status (find_run run_id w)"


section \<open>Proposals\<close>

record proposal_summary =
  ps_id :: string
  ps_run_id :: string
  ps_action_type :: string
  ps_status :: proposal_status
  ps_customer_name :: pyval
  ps_customer_email :: string
  ps_invoice_number :: pyval
  ps_invoice_id :: string
  ps_amount_due :: int
  ps_amount_display :: pyval
  ps_currency :: string
  ps_days_overdue :: int
  ps_tone :: pyval
  ps_rationale :: string
  ps_subject :: pyval
  ps_created_at :: int
  ps_expires_at :: int

definition proposal_summary_of :: "proposal_row \<Rightarrow> proposal_summary" where
  "proposal_summary_of p =
     (let payload = pr_payload p in
      \<lparr>ps_id = pr_id p, ps_run_id = pr_run_id p, ps_action_type = pr_action_type p, ps_status = pr_status p,
       ps_customer_name = dict_get ''customer_name'' payload, ps_customer_email = pr_customer_email p,
       ps_invoice_number = dict_get ''invoice_number'' payload, ps_invoice_id = pr_invoice_id p,
       ps_amount_due = pr_amount_due p,
       ps_amount_display = py_or (dict_get ''amount_display'' payload) (PStr (int_str (pr_amount_due p))),
       ps_currency = pr_currency p, ps_days_overdue = pr_days_overdue p, ps_tone = dict_get ''tone'' payload,
       ps_rationale = pr_rationale p, ps_subject = dict_get ''subject'' payload,
       ps_created_at = pr_created_at p, ps_expires_at = pr_expires_at p\<rparr>)"

text \<open>A filter that is absent or empty filters nothing.\<close>

definition wanted :: "string option \<Rightarrow> string \<Rightarrow> bool" where
  "wanted choice value = (case choice of None \<Rightarrow> True | Some s \<Rightarrow> s = [] \<or> value = s)"

definition list_proposals :: "env \<Rightarrow> string option \<Rightarrow> string option \<Rightarrow> nat \<Rightarrow> proposal_summary list work" where
  "list_proposals env status run_id limit w =
     and_then (expire_stale_proposals env w) (\<lambda>(_, w1).
     let rows = filter (\<lambda>p. wanted status (proposal_status_str (pr_status p)) \<and> wanted run_id (pr_run_id p)) (proposals w1)
     in Inr (map proposal_summary_of (take limit (largest_proposals rows)), w1))"

subsection \<open>The payment history the agent read\<close>

text \<open>\<^verbatim>\<open>x.get(k)\<close> on a value that may be no dict, and Python's \<^verbatim>\<open>==\<close>, for which \<^verbatim>\<open>True == 1\<close>.\<close>

definition attr_get :: "pyval \<Rightarrow> string \<Rightarrow> exn + pyval" where
  "attr_get v k =
     (case v of PDict d \<Rightarrow> Inr (dict_get k d) | _ \<Rightarrow> Inl (OtherError ''AttributeError'' ''get''))"

fun bools_as_ints :: "pyval \<Rightarrow> pyval" where
  "bools_as_ints (PBool b) = PInt (if b then 1 else 0)"
| "bools_as_ints (PList xs) = PList (map bools_as_ints xs)"
| "bools_as_ints (PDict d) = PDict (map (\<lambda>kv. (fst kv, bools_as_ints (snd kv))) d)"
| "bools_as_ints v = v"

definition py_eq :: "pyval \<Rightarrow> pyval \<Rightarrow> bool" where
  "py_eq v w = same_value (bools_as_ints v) (bools_as_ints w)"

text \<open>The loop's variables: the last call's customer and id, and the history found so far.\<close>

record look =
  lk_asked_about :: pyval
  lk_asked_id :: pyval
  lk_found :: "pyval list"

definition forget :: "look \<Rightarrow> look" where
  "forget l = l\<lparr>lk_asked_about := PNone, lk_asked_id := PNone\<rparr>"

definition history_in :: "pydict \<Rightarrow> pyval list option" where
  "history_in payload =
     (case py_or (dict_get ''result'' payload) (PDict []) of
        PDict result \<Rightarrow> (case dict_get ''history'' result of PList h \<Rightarrow> Some h | _ \<Rightarrow> None)
      | _ \<Rightarrow> None)"

definition look_at :: "pyval \<Rightarrow> step_row \<Rightarrow> look \<Rightarrow> exn + look" where
  "look_at customer_id s l =
     (let payload = st_payload s; result_id = dict_get ''tool_use_id'' payload in
      if st_type s = ToolCall then
        and_then (attr_get (py_or (dict_get ''arguments'' payload) (PDict [])) ''customer_id'') (\<lambda>asked.
        Inr (l\<lparr>lk_asked_about := asked, lk_asked_id := dict_get ''tool_use_id'' payload\<rparr>))
      else if st_type s \<noteq> ToolResult \<or> truthy (dict_get ''is_error'' payload) then Inr (forget l)
      else if truthy (lk_asked_id l) \<and> truthy result_id \<and> \<not> py_eq (lk_asked_id l) result_id then Inr (forget l)
      else if py_eq (lk_asked_about l) customer_id then
        Inr (forget (case history_in payload of None \<Rightarrow> l | Some h \<Rightarrow> l\<lparr>lk_found := h\<rparr>))
      else Inr (forget l))"

definition history_steps :: "string \<Rightarrow> world \<Rightarrow> step_row list" where
  "history_steps run_id w =
     sort_key st_seq (filter (\<lambda>s. st_tool_name s = Some ''get_payment_history'') (run_steps run_id w))"

definition payment_history_seen :: "string \<Rightarrow> pyval \<Rightarrow> world \<Rightarrow> exn + pyval list" where
  "payment_history_seen run_id customer_id w =
     (if \<not> truthy customer_id then Inr []
      else and_then (each_in (look_at customer_id) (history_steps run_id w)
             \<lparr>lk_asked_about = PNone, lk_asked_id = PNone, lk_found = []\<rparr>) (\<lambda>l. Inr (lk_found l)))"

subsection \<open>One proposal\<close>

record approval_view =
  av_id :: nat
  av_decision :: decision
  av_actor :: string
  av_note :: "string option"
  av_edited :: bool
  av_decided_at :: int

definition approval_view_of :: "approval_row \<Rightarrow> approval_view" where
  "approval_view_of a =
     \<lparr>av_id = ap_id a, av_decision = ap_decision a, av_actor = ap_actor a, av_note = ap_note a,
      av_edited = (ap_edited_body a \<noteq> None), av_decided_at = ap_decided_at a\<rparr>"

record execution_view =
  ev_id :: nat
  ev_status :: execution_status
  ev_key :: string
  ev_result :: "pydict option"
  ev_error :: "string option"
  ev_executed_at :: int

definition execution_view_of :: "execution_row \<Rightarrow> execution_view" where
  "execution_view_of e =
     \<lparr>ev_id = ex_id e, ev_status = ex_status e, ev_key = ex_key e, ev_result = ex_result e,
      ev_error = ex_error e, ev_executed_at = ex_executed_at e\<rparr>"

definition invoice_fact_keys :: "string list" where
  "invoice_fact_keys =
     [''invoice_id'', ''invoice_number'', ''customer_name'', ''customer_email'', ''amount_display'',
      ''amount_due'', ''currency'', ''due_date'', ''days_overdue'', ''hosted_invoice_url'']"

record proposal_detail =
  pd_summary :: proposal_summary
  pd_body :: pyval
  pd_payload :: pydict
  pd_payload_hash :: string
  pd_invoice_facts :: pydict
  pd_approvals :: "approval_view list"
  pd_executions :: "execution_view list"
  pd_payment_history :: "pyval list"

definition get_proposal :: "env \<Rightarrow> string \<Rightarrow> proposal_detail option work" where
  "get_proposal env proposal_id w =
     and_then (expire_stale_proposals env w) (\<lambda>(_, w1).
     case find_proposal proposal_id w1 of
       None \<Rightarrow> Inr (None, w1)
     | Some p \<Rightarrow>
         and_then (payment_history_seen (pr_run_id p) (dict_get ''customer_id'' (pr_payload p)) w1) (\<lambda>history.
         Inr (Some \<lparr>pd_summary = proposal_summary_of p,
           pd_body = dict_get_or ''body'' (PStr []) (pr_payload p), pd_payload = pr_payload p,
           pd_payload_hash = pr_payload_hash p,
           pd_invoice_facts = map (\<lambda>k. (k, dict_get k (pr_payload p))) invoice_fact_keys,
           pd_approvals = map approval_view_of
             (sort_key ap_id (filter (\<lambda>a. ap_proposal_id a = proposal_id) (approvals w1))),
           pd_executions = map execution_view_of
             (sort_key ex_id (filter (\<lambda>e. ex_proposal_id e = proposal_id) (executions w1))),
           pd_payment_history = history\<rparr>, w1)))"

section \<open>Counters\<close>

definition count_of :: "proposal_status \<Rightarrow> (proposal_status \<times> nat) list \<Rightarrow> pyval" where
  "count_of s rows = PInt (int (case map_of rows s of None \<Rightarrow> 0 | Some n \<Rightarrow> n))"

text \<open>The clock is read for the start of the day before the sweep reads it.\<close>

definition proposal_counters :: "env \<Rightarrow> pydict work" where
  "proposal_counters env w =
     (let since = start_of_utc_day (now_utc env w) in
      and_then (expire_stale_proposals env (tick w)) (\<lambda>(_, w1).
      let by_status = group_counts (map pr_status (proposals w1));
          approved_today = length (filter (\<lambda>a. ap_decision a = Approve \<and> since \<le> ap_decided_at a) (approvals w1));
          sent_today = length (filter (\<lambda>e. ex_status e = ExSucceeded \<and> since \<le> ex_executed_at e) (executions w1))
      in Inr ([(''pending'', count_of Pending by_status), (''approved_today'', PInt (int approved_today)),
               (''sent_today'', PInt (int sent_today)), (''approved'', count_of Approved by_status),
               (''rejected'', count_of Rejected by_status), (''executed'', count_of Executed by_status),
               (''failed'', count_of Failed by_status), (''expired'', count_of Expired by_status),
               (''sent_total'', PInt (int (length (outbox w1))))], w1)))"

text \<open>
  The overdue counter: the cache, the readings of the monotonic clock in microseconds before and after
  the query, and the client, whose errors become "unknown".
\<close>

record overdue_cache =
  oc_count :: "nat option"
  oc_at :: int

definition fresh_cache :: overdue_cache where
  "fresh_cache = \<lparr>oc_count = None, oc_at = 0\<rparr>"

definition OVERDUE_CACHE_SECONDS :: int where "OVERDUE_CACHE_SECONDS = 60"

definition overdue_invoice_count ::
  "stripe_client \<Rightarrow> unicode \<Rightarrow> int \<Rightarrow> string \<Rightarrow> bool \<Rightarrow> int \<Rightarrow> int \<Rightarrow> overdue_cache \<Rightarrow> nat option \<times> overdue_cache" where
  "overdue_invoice_count c u now read_key force before after cache =
     (if \<not> force \<and> before - oc_at cache < OVERDUE_CACHE_SECONDS * second_us then (oc_count cache, cache)
      else
        let count = (case stripe_read_client c read_key of
              Inl e \<Rightarrow> None
            | Inr (client, s) \<Rightarrow>
                (case fst (list_overdue_invoices client u now 1 100 None s) of
                   Inl e \<Rightarrow> None
                 | Inr invoices \<Rightarrow> Some (length invoices)))
        in (count, cache\<lparr>oc_count := count, oc_at := after\<rparr>))"

section \<open>The audit log and the outbox\<close>

definition audit_filter :: "string option \<Rightarrow> string option \<Rightarrow> audit_row \<Rightarrow> bool" where
  "audit_filter actor event r = (wanted actor (actor_str (au_actor r)) \<and> wanted event (au_event r))"

record audit_view =
  pg_events :: "audit_row list"
  pg_total :: nat
  pg_limit :: nat
  pg_offset :: nat
  pg_chain :: pydict

definition audit_page :: "env \<Rightarrow> nat \<Rightarrow> nat \<Rightarrow> string option \<Rightarrow> string option \<Rightarrow> world \<Rightarrow> audit_view" where
  "audit_page env limit offset actor event w =
     (let rows = filter (audit_filter actor event) (events w) in
      \<lparr>pg_events = page_of limit offset (sort_key (\<lambda>r. - au_id r) rows), pg_total = length rows,
       pg_limit = limit, pg_offset = offset, pg_chain = chain_status_dict (verify_chain env w)\<rparr>)"

definition audit_filters :: "world \<Rightarrow> string list \<times> string list" where
  "audit_filters w =
     (sort (remdups (map (\<lambda>r. actor_str (au_actor r)) (events w))), sort (remdups (map au_event (events w))))"

text \<open>An outbox page shows the whole row but its metadata.\<close>

record outbox_view =
  ov_id :: string
  ov_proposal_id :: string
  ov_to_email :: string
  ov_subject :: string
  ov_body :: string
  ov_adapter :: string
  ov_file_path :: "string option"
  ov_created_at :: int

definition outbox_view_of :: "outbox_row \<Rightarrow> outbox_view" where
  "outbox_view_of m =
     \<lparr>ov_id = ob_id m, ov_proposal_id = ob_proposal_id m, ov_to_email = ob_to_email m, ov_subject = ob_subject m,
      ov_body = ob_body m, ov_adapter = ob_adapter m, ov_file_path = ob_file_path m, ov_created_at = ob_created_at m\<rparr>"

definition outbox_page :: "nat \<Rightarrow> world \<Rightarrow> outbox_view list" where
  "outbox_page limit w = map outbox_view_of (take limit (sort_key (\<lambda>m. - ob_created_at m) (outbox w)))"

end
