(* ===== verification/Api.thy ===== *)
theory Api
  imports Queries AgentLoop
begin

text \<open>
  \<^verbatim>\<open>app/api/v1.py\<close> and \<^verbatim>\<open>app/api/schemas.py\<close>: the public API. A request comes parsed, as a record of its
  fields; what the declared bounds refuse is \<open>Invalid\<close>, FastAPI's 422. The handler of \<^verbatim>\<open>app/main.py\<close> turns an
  \<^verbatim>\<open>ApiError\<close> into its status and envelope, and any other exception is a 500. The event stream reads the
  database again and again; what it sees at each reading is an argument.
\<close>

section \<open>Answers\<close>

datatype 'b answer = Answer nat 'b | ErrorAnswer nat pyval | Invalid | ServerError exn

definition respond :: "nat \<Rightarrow> exn + 'b \<Rightarrow> 'b answer" where
  "respond status r =
     (case r of
        Inr b \<Rightarrow> Answer status b
      | Inl (ApiError e) \<Rightarrow> ErrorAnswer (ae_status e) (error_envelope e)
      | Inl e \<Rightarrow> ServerError e)"

definition no_such :: "string \<Rightarrow> string \<Rightarrow> error_code \<Rightarrow> exn" where
  "no_such kind identifier code =
     ApiError (api_err (code_str code) (''No '' @ kind @ '' '' @ identifier @ ''.'') 404 [])"

definition found :: "exn \<Rightarrow> exn + 'b option \<Rightarrow> exn + 'b" where
  "found missing r = and_then r (\<lambda>o_b. case o_b of None \<Rightarrow> Inl missing | Some b \<Rightarrow> Inr b)"

text \<open>The gateway's own status when it refused.\<close>

definition mirror_status :: "decision_result \<Rightarrow> nat" where
  "mirror_status d =
     (case dc_outcome d of
        Some g \<Rightarrow> if \<not> go_executed g \<and> 400 \<le> go_http_status g then go_http_status g else 200
      | None \<Rightarrow> 200)"

definition respond_decision :: "exn + decision_result \<Rightarrow> pydict answer" where
  "respond_decision r =
     respond (case r of Inr d \<Rightarrow> mirror_status d | Inl e \<Rightarrow> 200) (and_then r (\<lambda>d. Inr (decision_dict d)))"

section \<open>Requests\<close>

definition longest :: "nat \<Rightarrow> string option \<Rightarrow> bool" where
  "longest n v = (case v of None \<Rightarrow> True | Some t \<Rightarrow> py_len t \<le> n)"

record start_request =
  sq_goal :: "string option"
  sq_min_days_overdue :: int
  sq_max_proposals :: "int option"

definition start_request_ok :: "start_request \<Rightarrow> bool" where
  "start_request_ok q =
     (longest 4000 (sq_goal q) \<and> 0 \<le> sq_min_days_overdue q \<and> sq_min_days_overdue q \<le> 3650
      \<and> (case sq_max_proposals q of None \<Rightarrow> True | Some n \<Rightarrow> 1 \<le> n \<and> n \<le> 100))"

record approve_request =
  aq_actor :: "string option"
  aq_note :: "string option"
  aq_edited_body :: "string option"

definition approve_request_ok :: "approve_request \<Rightarrow> bool" where
  "approve_request_ok q = (longest 4000 (aq_note q) \<and> longest 100000 (aq_edited_body q))"

record reject_request =
  jq_actor :: "string option"
  jq_note :: string

definition reject_request_ok :: "reject_request \<Rightarrow> bool" where
  "reject_request_ok q = (1 \<le> py_len (jq_note q) \<and> py_len (jq_note q) \<le> 4000)"

record edit_request =
  eq_actor :: "string option"
  eq_body :: string

definition edit_request_ok :: "edit_request \<Rightarrow> bool" where
  "edit_request_ok q = (1 \<le> py_len (eq_body q) \<and> py_len (eq_body q) \<le> 100000)"

section \<open>Runs\<close>

text \<open>The answer, the work handed to the pool, and the database.\<close>

definition api_start_run :: "env \<Rightarrow> app_settings \<Rightarrow> start_request \<Rightarrow> world \<Rightarrow> pydict answer \<times> job option \<times> world" where
  "api_start_run env s q w =
     (if \<not> start_request_ok q then (Invalid, None, w)
      else case start_run env s (sq_goal q) (sq_min_days_overdue q) (sq_max_proposals q) None w of
        (Inl e, w') \<Rightarrow> (respond 202 (Inl e), None, w')
      | (Inr (started, j), w') \<Rightarrow> (Answer 202 started, Some j, w'))"

definition api_list_runs :: "env \<Rightarrow> nat \<Rightarrow> nat \<Rightarrow> world \<Rightarrow> run_info list answer \<times> world" where
  "api_list_runs env limit offset w =
     (if limit < 1 \<or> 200 < limit then (Invalid, w)
      else case session_scope (list_runs env limit offset) w of (r, w') \<Rightarrow> (respond 200 r, w'))"

text \<open>The published transcript leaves out the names that the pages show.\<close>

record transcript_step =
  pt_seq :: nat
  pt_type :: step_type
  pt_tool_name :: "string option"
  pt_tool_class :: pyval
  pt_payload :: pydict
  pt_created_at :: int

definition transcript_step_of :: "step_view \<Rightarrow> transcript_step" where
  "transcript_step_of v =
     \<lparr>pt_seq = sv_seq v, pt_type = sv_type v, pt_tool_name = sv_tool_name v, pt_tool_class = sv_tool_class v,
      pt_payload = sv_payload v, pt_created_at = sv_created_at v\<rparr>"

record public_run =
  pu_run :: run_info
  pu_transcript :: "transcript_step list"
  pu_proposal_ids :: "string list"

definition public_run_of :: "run_detail \<Rightarrow> public_run" where
  "public_run_of d =
     \<lparr>pu_run = rd_run d, pu_transcript = map transcript_step_of (rd_transcript d), pu_proposal_ids = rd_proposal_ids d\<rparr>"

definition api_get_run :: "env \<Rightarrow> string \<Rightarrow> world \<Rightarrow> public_run answer \<times> world" where
  "api_get_run env run_id w =
     (case session_scope (get_run env run_id 0) w of
        (r, w') \<Rightarrow>
          (respond 200 (and_then (found (no_such ''run'' run_id RunNotFoundCode) r) (\<lambda>d. Inr (public_run_of d))), w'))"

section \<open>The event stream\<close>

definition terminal_run :: "run_status option \<Rightarrow> bool" where
  "terminal_run st = (st \<in> {Some RunCompleted, Some RunFailed, Some RunAwaiting})"

text \<open>
  One turn of the stream's loop: whether the client is gone, and the database as its three reads find it.
  Each read is a session of its own, and the run's worker may write between them.
\<close>

record poll =
  pl_gone :: bool
  pl_steps :: world
  pl_status :: world
  pl_detail :: world

datatype sse = StepEvent step_view | DoneEvent "run_status option" nat nat "string option"

datatype ending = StillOpen | ClientLeft | Finished | StreamBroke exn

definition done_event :: "run_status option \<Rightarrow> run_detail option \<Rightarrow> sse" where
  "done_event st detail =
     (case detail of
        None \<Rightarrow> DoneEvent st 0 0 None
      | Some d \<Rightarrow> DoneEvent st (ri_tool_calls (rd_run d)) (ri_proposals (rd_run d)) (ri_error (rd_run d)))"

definition last_seq :: "nat \<Rightarrow> step_view list \<Rightarrow> nat" where
  "last_seq seq views = (if views = [] then seq else sv_seq (last views))"

fun stream_events :: "env \<Rightarrow> string \<Rightarrow> nat \<Rightarrow> poll list \<Rightarrow> sse list \<times> ending" where
  "stream_events env run_id seq [] = ([], StillOpen)"
| "stream_events env run_id seq (p # ps) =
     (if pl_gone p then ([], ClientLeft)
      else case steps_after run_id seq (pl_steps p) of
        Inl e \<Rightarrow> ([], StreamBroke e)
      | Inr views \<Rightarrow>
          let st = run_status_of run_id (pl_status p) in
          if terminal_run st \<and> views = [] then
            (case fst (session_scope (get_run env run_id 0) (pl_detail p)) of
               Inl e \<Rightarrow> ([], StreamBroke e)
             | Inr detail \<Rightarrow> ([done_event st detail], Finished))
          else case stream_events env run_id (last_seq seq views) ps of
            (later, how) \<Rightarrow> (map StepEvent views @ later, how))"

definition api_stream_run :: "env \<Rightarrow> string \<Rightarrow> nat \<Rightarrow> poll list \<Rightarrow> world \<Rightarrow> (sse list \<times> ending) answer" where
  "api_stream_run env run_id seq polls w =
     (if run_status_of run_id w = None then respond 200 (Inl (no_such ''run'' run_id RunNotFoundCode))
      else Answer 200 (stream_events env run_id seq polls))"

section \<open>Proposals\<close>

definition api_list_proposals ::
  "env \<Rightarrow> string option \<Rightarrow> string option \<Rightarrow> nat \<Rightarrow> world \<Rightarrow> proposal_summary list answer \<times> world" where
  "api_list_proposals env status run_id limit w =
     (if limit < 1 \<or> 500 < limit then (Invalid, w)
      else
        let status = (if status = Some ''all'' \<or> status = Some [] then None else status)
        in case session_scope (list_proposals env status run_id limit) w of (r, w') \<Rightarrow> (respond 200 r, w'))"

definition api_get_proposal :: "env \<Rightarrow> string \<Rightarrow> world \<Rightarrow> proposal_detail answer \<times> world" where
  "api_get_proposal env proposal_id w =
     (case session_scope (get_proposal env proposal_id) w of
        (r, w') \<Rightarrow> (respond 200 (found (no_such ''proposal'' proposal_id ProposalNotFoundCode) r), w'))"

definition api_approve ::
  "env \<Rightarrow> io \<Rightarrow> gateway_settings \<Rightarrow> (nat \<Rightarrow> transport) \<Rightarrow> app_settings \<Rightarrow> string \<Rightarrow> approve_request \<Rightarrow> world \<Rightarrow>
     pydict answer \<times> world" where
  "api_approve env io gs net s proposal_id q w =
     (if \<not> approve_request_ok q then (Invalid, w)
      else case approve env io gs net s proposal_id (operator_or (aq_actor q) (as_operator_id s)) (aq_note q)
                  (aq_edited_body q) w of (r, w') \<Rightarrow> (respond_decision r, w'))"

definition api_reject :: "env \<Rightarrow> app_settings \<Rightarrow> string \<Rightarrow> reject_request \<Rightarrow> world \<Rightarrow> pydict answer \<times> world" where
  "api_reject env s proposal_id q w =
     (if \<not> reject_request_ok q then (Invalid, w)
      else case reject env proposal_id (operator_or (jq_actor q) (as_operator_id s)) (jq_note q) w of
        (r, w') \<Rightarrow> (respond 200 (and_then r (\<lambda>d. Inr (decision_dict d))), w'))"

definition api_save_edit :: "env \<Rightarrow> app_settings \<Rightarrow> string \<Rightarrow> edit_request \<Rightarrow> world \<Rightarrow> pydict answer \<times> world" where
  "api_save_edit env s proposal_id q w =
     (if \<not> edit_request_ok q then (Invalid, w)
      else case session_scope (save_edit env proposal_id (eq_body q) (operator_or (eq_actor q) (as_operator_id s))) w of
        (r, w') \<Rightarrow> (respond 200 r, w'))"

definition api_attempt_unapproved ::
  "env \<Rightarrow> io \<Rightarrow> gateway_settings \<Rightarrow> (nat \<Rightarrow> transport) \<Rightarrow> app_settings \<Rightarrow> string \<Rightarrow> world \<Rightarrow> pydict answer \<times> world" where
  "api_attempt_unapproved env io gs net s proposal_id w =
     (case attempt_unapproved env io gs net s proposal_id (as_operator_id s) w of
        (r, w') \<Rightarrow> (respond_decision r, w'))"

section \<open>Invoices, the audit log and the outbox\<close>

definition invoices_body :: "pydict list \<Rightarrow> pydict" where
  "invoices_body invoices =
     [(''count'', PInt (int (length invoices))),
      (''undeliverable'', PInt (int (length (filter (\<lambda>r. \<not> truthy (dict_get ''deliverable'' r)) invoices)))),
      (''invoices'', PList (map PDict invoices))]"

definition api_overdue_invoices ::
  "stripe_client \<Rightarrow> unicode \<Rightarrow> int \<Rightarrow> string \<Rightarrow> int \<Rightarrow> int \<Rightarrow> pydict answer" where
  "api_overdue_invoices c u now read_key min_days limit =
     (if min_days < 0 \<or> limit < 1 \<or> 200 < limit then Invalid
      else
        case (case stripe_read_client c read_key of
                Inl e \<Rightarrow> Inl e
              | Inr (client, s) \<Rightarrow> fst (list_overdue_invoices client u now min_days limit None s)) of
          Inr invoices \<Rightarrow> Answer 200 (invoices_body invoices)
        | Inl (ReadError why code detail) \<Rightarrow>
            ErrorAnswer 502 (PDict [(''error'',
              PDict (dict_update [(''code'', PStr code), (''message'', PStr why)] detail))])
        | Inl (ReadRaised e) \<Rightarrow> ServerError e)"

definition api_audit :: "env \<Rightarrow> nat \<Rightarrow> nat \<Rightarrow> string option \<Rightarrow> string option \<Rightarrow> world \<Rightarrow> audit_view answer" where
  "api_audit env limit offset actor event w =
     (if limit < 1 \<or> 500 < limit then Invalid else Answer 200 (audit_page env limit offset actor event w))"

definition verify_audit_chain :: "env \<Rightarrow> world \<Rightarrow> pydict answer" where
  "verify_audit_chain env w = Answer 200 (pg_chain (audit_page env 1 0 None None w))"

definition api_outbox :: "nat \<Rightarrow> world \<Rightarrow> (nat \<times> outbox_view list) answer" where
  "api_outbox limit w =
     (if limit < 1 \<or> 200 < limit then Invalid
      else let messages = outbox_page limit w in Answer 200 (length messages, messages))"

end
