(* ===== verification/Web.thy ===== *)
theory Web
  imports Api
begin

text \<open>
  \<^verbatim>\<open>app/web/routes.py\<close>: the four screens and the fragments behind them. A handler is the sequence of the
  sessions it opens, and what it hands to its template is a record; the templates only show it. An
  \<^verbatim>\<open>ApiError\<close> of a decision becomes part of the fragment, any other exception is a 500.
\<close>

section \<open>Handlers\<close>

type_synonym 'a handler = "world \<Rightarrow> (exn + 'a) \<times> world"

definition answer_with :: "nat \<Rightarrow> 'a handler \<Rightarrow> world \<Rightarrow> 'a answer \<times> world" where
  "answer_with status m w = (case m w of (r, w') \<Rightarrow> (respond status r, w'))"

record page_context =
  cx_counters :: pydict
  cx_unapproved_demo :: bool

definition base_context :: "env \<Rightarrow> app_settings \<Rightarrow> page_context handler" where
  "base_context env s =
     then_with (session_scope (proposal_counters env)) (\<lambda>counters w.
       (Inr \<lparr>cx_counters = counters, cx_unapproved_demo = as_enable_unapproved_demo s\<rparr>, w))"

section \<open>The dashboard\<close>

record dashboard =
  db_context :: page_context
  db_runs :: "run_info list"
  db_max_proposals :: nat
  db_overdue :: "nat option"
  db_today :: int

definition dashboard_page :: "env \<Rightarrow> app_settings \<Rightarrow> nat option \<Rightarrow> world \<Rightarrow> dashboard answer \<times> world" where
  "dashboard_page env s overdue =
     answer_with 200
      (then_with (session_scope (list_runs env 15 0)) (\<lambda>recent w.
        then_with (base_context env s) (\<lambda>c w'.
          (Inr \<lparr>db_context = c, db_runs = recent, db_max_proposals = as_max_proposals s, db_overdue = overdue,
                db_today = now_utc env w\<rparr>, w')) (tick w)))"

subsection \<open>A number typed into a form\<close>

text \<open>
  \<^verbatim>\<open>int(text)\<close> refuses more than 4300 digits. \<^verbatim>\<open>float(text)\<close> is a sign, a mantissa and a power of ten, or one
  of the words; \<^verbatim>\<open>int\<close> of it cuts the fraction of the nearest double off, and refuses what no double holds.
\<close>

definition form_int :: "string \<Rightarrow> int option" where
  "form_int t = (if 4300 < length (filter is_digit t) then None else int_of_text t)"

datatype decimal = Decimal bool nat int | Infinite | NotANumber

definition split_at :: "(char \<Rightarrow> bool) \<Rightarrow> string \<Rightarrow> string \<times> string option" where
  "split_at p s = (takeWhile (\<lambda>c. \<not> p c) s, case dropWhile (\<lambda>c. \<not> p c) s of [] \<Rightarrow> None | _ # rest \<Rightarrow> Some rest)"

definition sign_of :: "string \<Rightarrow> bool \<times> string" where
  "sign_of s =
     (case s of [] \<Rightarrow> (False, []) | c # cs \<Rightarrow> if c = CHR ''-'' then (True, cs) else if c = CHR ''+'' then (False, cs) else (False, s))"

definition digits_of :: "string \<Rightarrow> nat" where
  "digits_of s = read_digits (filter is_digit s)"

definition mantissa :: "string \<Rightarrow> (nat \<times> int) option" where
  "mantissa s =
     (case split_at (\<lambda>c. c = CHR ''.'') s of
        (a, None) \<Rightarrow> if digits_ok a then Some (digits_of a, 0) else None
      | (a, Some b) \<Rightarrow>
          if (a = [] \<or> digits_ok a) \<and> (b = [] \<or> digits_ok b) \<and> (a \<noteq> [] \<or> b \<noteq> [])
          then Some (digits_of (a @ b), - int (length (filter is_digit b))) else None)"

definition exponent_part :: "string option \<Rightarrow> int option" where
  "exponent_part o_s =
     (case o_s of
        None \<Rightarrow> Some 0
      | Some s \<Rightarrow> (case sign_of s of (neg, ds) \<Rightarrow>
          if digits_ok ds then Some (if neg then - int (digits_of ds) else int (digits_of ds)) else None))"

definition float_of_text :: "string \<Rightarrow> decimal option" where
  "float_of_text t =
     (case sign_of (map ascii_lower (strip t)) of (neg, s) \<Rightarrow>
        if s \<in> {''inf'', ''infinity''} then Some Infinite
        else if s = ''nan'' then Some NotANumber
        else
          (case split_at (\<lambda>c. c = CHR ''e'') s of (m, x) \<Rightarrow>
            (case (mantissa m, exponent_part x) of
               (Some (n, scale), Some e) \<Rightarrow> Some (Decimal neg n (scale + e))
             | _ \<Rightarrow> None)))"

text \<open>Rounding a quotient to the nearest whole number, ties to even, and the integer part of the nearest double.\<close>

definition round_even :: "nat \<Rightarrow> nat \<Rightarrow> nat" where
  "round_even n d =
     (let q = n div d; r = n mod d in if 2 * r > d \<or> (2 * r = d \<and> odd q) then q + 1 else q)"

fun bit_count :: "nat \<Rightarrow> nat" where
  "bit_count n = (if n = 0 then 0 else Suc (bit_count (n div 2)))"

declare bit_count.simps [simp del]

definition double_floor :: "nat \<Rightarrow> nat \<Rightarrow> nat option" where
  "double_floor n d =
     (let whole = n div d; b = bit_count whole in
      if b \<le> 53 then Some (round_even (n * 2 ^ (53 - b)) d div 2 ^ (53 - b))
      else let r = round_even n (d * 2 ^ (b - 53)) * 2 ^ (b - 53) in if 2 ^ 1024 \<le> r then None else Some r)"

fun int_of_float :: "decimal \<Rightarrow> exn + int" where
  "int_of_float Infinite = Inl (OtherError ''OverflowError'' ''cannot convert float infinity to integer'')"
| "int_of_float NotANumber = Inl (ValueError ''cannot convert float NaN to integer'')"
| "int_of_float (Decimal neg m e) =
     (case (if 0 \<le> e then double_floor (m * 10 ^ nat e) 1 else double_floor m (10 ^ nat (- e))) of
        None \<Rightarrow> Inl (OtherError ''OverflowError'' ''cannot convert float infinity to integer'')
      | Some n \<Rightarrow> Inr (if neg then - int n else int n))"

definition whole_number :: "string \<Rightarrow> int \<Rightarrow> int \<Rightarrow> int \<Rightarrow> exn + int" where
  "whole_number raw dflt low high =
     (let clamp = (\<lambda>v. max low (min high v)) in
      case form_int (strip raw) of
        Some v \<Rightarrow> Inr (clamp v)
      | None \<Rightarrow>
          (case float_of_text (strip raw) of
             None \<Rightarrow> Inr dflt
           | Some x \<Rightarrow>
               (case int_of_float x of
                  Inr v \<Rightarrow> Inr (clamp v)
                | Inl (ValueError m) \<Rightarrow> Inr dflt
                | Inl (TypeError m) \<Rightarrow> Inr dflt
                | Inl e \<Rightarrow> Inl e)))"

text \<open>The redirect's target and the work for the pool.\<close>

definition start_run_form ::
  "env \<Rightarrow> app_settings \<Rightarrow> string \<Rightarrow> string \<Rightarrow> string \<Rightarrow> world \<Rightarrow> (string \<times> job) answer \<times> world" where
  "start_run_form env s goal min_days max_proposals w =
     (let cap = int (as_max_proposals s) in
      case and_then (whole_number min_days 1 0 3650) (\<lambda>d.
           and_then (whole_number max_proposals cap 1 cap) (\<lambda>n. Inr (d, n))) of
        Inl e \<Rightarrow> (respond 303 (Inl e), w)
      | Inr (d, n) \<Rightarrow>
          (case start_run env s (Some goal) d (Some n) None w of
             (Inl e, w') \<Rightarrow> (respond 303 (Inl e), w')
           | (Inr (started, j), w') \<Rightarrow> (Answer 303 (''/runs/'' @ jb_run_id j, j), w')))"

section \<open>A run\<close>

record shown_step =
  sh_step :: step_view
  sh_answer :: "step_view option"

definition answers_the_row_above :: "shown_step list \<Rightarrow> step_view \<Rightarrow> bool" where
  "answers_the_row_above shown s =
     (sv_type s = ToolResult \<and> shown \<noteq> [] \<and> sv_type (sh_step (last shown)) = ToolCall
      \<and> sv_tool_name (sh_step (last shown)) = sv_tool_name s \<and> sh_answer (last shown) = None)"

definition fold_step :: "step_view \<Rightarrow> shown_step list \<Rightarrow> shown_step list" where
  "fold_step s shown =
     (if answers_the_row_above shown s then butlast shown @ [(last shown)\<lparr>sh_answer := Some s\<rparr>]
      else shown @ [\<lparr>sh_step = s, sh_answer = None\<rparr>])"

definition fold_results_into_calls :: "step_view list \<Rightarrow> shown_step list" where
  "fold_results_into_calls transcript = fold fold_step transcript []"

record run_page =
  rp_context :: page_context
  rp_run :: run_info
  rp_transcript :: "shown_step list"
  rp_proposal_ids :: "string list"
  rp_proposals :: "proposal_summary list"

datatype shown_run = RunShown run_page | NoSuchRun page_context string

definition run_detail_page :: "env \<Rightarrow> app_settings \<Rightarrow> string \<Rightarrow> world \<Rightarrow> shown_run answer \<times> world" where
  "run_detail_page env s run_id w =
     (case session_scope (get_run env run_id 0) w of
        (Inl e, w1) \<Rightarrow> (respond 200 (Inl e), w1)
      | (Inr None, w1) \<Rightarrow>
          answer_with 404 (then_with (base_context env s) (\<lambda>c w'. (Inr (NoSuchRun c (''run '' @ run_id)), w'))) w1
      | (Inr (Some d), w1) \<Rightarrow>
          answer_with 200
           (then_with (session_scope (list_proposals env None (Some run_id) 100)) (\<lambda>ps.
            then_with (base_context env s) (\<lambda>c w'.
              (Inr (RunShown \<lparr>rp_context = c, rp_run = rd_run d,
                 rp_transcript = fold_results_into_calls (rd_transcript d), rp_proposal_ids = rd_proposal_ids d,
                 rp_proposals = ps\<rparr>), w')))) w1)"

definition run_proposals_fragment :: "env \<Rightarrow> string \<Rightarrow> world \<Rightarrow> proposal_summary list answer \<times> world" where
  "run_proposals_fragment env run_id = answer_with 200 (session_scope (list_proposals env None (Some run_id) 100))"

section \<open>The approval queue\<close>

record queue_page =
  qp_context :: page_context
  qp_queue :: "proposal_summary list"
  qp_detail :: "proposal_detail option"
  qp_status_filter :: string

definition proposal_or_none :: "env \<Rightarrow> string option \<Rightarrow> proposal_detail option handler" where
  "proposal_or_none env chosen w =
     (case chosen of
        None \<Rightarrow> (Inr None, w)
      | Some i \<Rightarrow> if i = [] then (Inr None, w) else session_scope (get_proposal env i) w)"

definition proposal_queue ::
  "env \<Rightarrow> app_settings \<Rightarrow> string option \<Rightarrow> string \<Rightarrow> world \<Rightarrow> queue_page answer \<times> world" where
  "proposal_queue env s selected status =
     answer_with 200
      (then_with (session_scope (list_proposals env (if status = ''all'' then None else Some status) None 100)) (\<lambda>queue.
        let first = (case queue of [] \<Rightarrow> None | p # _ \<Rightarrow> Some (ps_id p));
            chosen = (case selected of None \<Rightarrow> first | Some i \<Rightarrow> if i = [] then first else Some i)
        in then_with (proposal_or_none env chosen) (\<lambda>detail.
           then_with (base_context env s) (\<lambda>c w.
             (Inr \<lparr>qp_context = c, qp_queue = queue, qp_detail = detail, qp_status_filter = status\<rparr>, w)))))"

record decision_fragment =
  df_result :: pyval
  df_detail :: "proposal_detail option"
  df_counters :: pydict

definition decision_fragment_of :: "env \<Rightarrow> string \<Rightarrow> pyval \<Rightarrow> decision_fragment handler" where
  "decision_fragment_of env proposal_id outcome =
     then_with (session_scope (get_proposal env proposal_id)) (\<lambda>detail.
     then_with (session_scope (proposal_counters env)) (\<lambda>counters w.
     (Inr \<lparr>df_result = outcome, df_detail = detail, df_counters = counters\<rparr>, w)))"

definition after_decision :: "env \<Rightarrow> string \<Rightarrow> pyval handler \<Rightarrow> decision_fragment handler" where
  "after_decision env proposal_id decide w =
     (case decide w of
        (Inr v, w') \<Rightarrow> decision_fragment_of env proposal_id v w'
      | (Inl (ApiError e), w') \<Rightarrow> decision_fragment_of env proposal_id (error_envelope e) w'
      | (Inl e, w') \<Rightarrow> (Inl e, w'))"

text \<open>A form field left empty is \<^verbatim>\<open>None\<close>.\<close>

definition or_none :: "string \<Rightarrow> string option" where
  "or_none t = (if t = [] then None else Some t)"

definition decided :: "decision_result handler \<Rightarrow> pyval handler" where
  "decided m = then_with m (\<lambda>d w. (Inr (PDict (decision_dict d)), w))"

definition ui_approve ::
  "env \<Rightarrow> io \<Rightarrow> gateway_settings \<Rightarrow> (nat \<Rightarrow> transport) \<Rightarrow> app_settings \<Rightarrow> string \<Rightarrow> string \<Rightarrow> string \<Rightarrow> world \<Rightarrow>
     decision_fragment answer \<times> world" where
  "ui_approve env io gs net s proposal_id remark body =
     answer_with 200 (after_decision env proposal_id
       (decided (approve env io gs net s proposal_id (as_operator_id s) (or_none remark) (or_none body))))"

definition ui_reject :: "env \<Rightarrow> app_settings \<Rightarrow> string \<Rightarrow> string \<Rightarrow> world \<Rightarrow> decision_fragment answer \<times> world" where
  "ui_reject env s proposal_id remark =
     answer_with 200 (after_decision env proposal_id (decided (reject env proposal_id (as_operator_id s) remark)))"

text \<open>The body of this form is required.\<close>

definition ui_save_edit :: "env \<Rightarrow> app_settings \<Rightarrow> string \<Rightarrow> string \<Rightarrow> world \<Rightarrow> decision_fragment answer \<times> world" where
  "ui_save_edit env s proposal_id body w =
     (if body = [] then (Invalid, w)
      else answer_with 200 (after_decision env proposal_id
        (then_with (session_scope (save_edit env proposal_id body (as_operator_id s)))
          (\<lambda>saved w'. (Inr (PDict [(''edit'', PDict saved)]), w')))) w)"

definition ui_attempt_unapproved ::
  "env \<Rightarrow> io \<Rightarrow> gateway_settings \<Rightarrow> (nat \<Rightarrow> transport) \<Rightarrow> app_settings \<Rightarrow> string \<Rightarrow> world \<Rightarrow>
     decision_fragment answer \<times> world" where
  "ui_attempt_unapproved env io gs net s proposal_id =
     answer_with 200 (after_decision env proposal_id
       (decided (attempt_unapproved env io gs net s proposal_id (as_operator_id s))))"

section \<open>The audit log and the outbox\<close>

record audit_log =
  al_context :: page_context
  al_page :: audit_view
  al_filters :: "string list \<times> string list"
  al_actor :: "string option"
  al_event :: "string option"

definition audit_log_page ::
  "env \<Rightarrow> app_settings \<Rightarrow> string option \<Rightarrow> string option \<Rightarrow> int \<Rightarrow> world \<Rightarrow> audit_log answer \<times> world" where
  "audit_log_page env s actor event offset w =
     (let page = audit_page env 100 (nat (max 0 offset)) actor event w; filters = audit_filters w in
      answer_with 200 (then_with (base_context env s) (\<lambda>c w'.
        (Inr \<lparr>al_context = c, al_page = page, al_filters = filters, al_actor = actor, al_event = event\<rparr>, w'))) w)"

definition ui_verify_chain :: "env \<Rightarrow> world \<Rightarrow> pydict answer" where
  "ui_verify_chain env w = Answer 200 (pg_chain (audit_page env 1 0 None None w))"

definition outbox_view_page :: "env \<Rightarrow> app_settings \<Rightarrow> world \<Rightarrow> (page_context \<times> outbox_view list) answer \<times> world" where
  "outbox_view_page env s w =
     (let messages = outbox_page 50 w in
      answer_with 200 (then_with (base_context env s) (\<lambda>c w'. (Inr (c, messages), w'))) w)"

end
