(* ===== verification/WebFacts.thy ===== *)
theory WebFacts
  imports Web
begin

text \<open>
  What the pages guarantee: folding the answers into the calls loses and moves nothing, and a number typed
  into the form stays within its bounds or, when it is too large for a double, breaks the request.
\<close>

section \<open>Folding the answers into the calls\<close>

definition laid_out :: "shown_step list \<Rightarrow> step_view list" where
  "laid_out shown = concat (map (\<lambda>r. sh_step r # (case sh_answer r of None \<Rightarrow> [] | Some a \<Rightarrow> [a])) shown)"

definition answered_call :: "shown_step \<Rightarrow> bool" where
  "answered_call r =
     (case sh_answer r of None \<Rightarrow> True
      | Some a \<Rightarrow> sv_type (sh_step r) = ToolCall \<and> sv_type a = ToolResult \<and> sv_tool_name a = sv_tool_name (sh_step r))"

lemma laid_out_append [simp]: "laid_out (xs @ ys) = laid_out xs @ laid_out ys"
  by (simp add: laid_out_def)

lemma fold_step_lays_out: "laid_out (fold_step s shown) = laid_out shown @ [s]"
proof (cases "answers_the_row_above shown s")
  case True
  then obtain rows r where shown: "shown = rows @ [r]" and none: "sh_answer r = None"
    by (cases shown rule: rev_cases) (auto simp: answers_the_row_above_def)
  with True show ?thesis by (simp add: fold_step_def) (simp add: laid_out_def)
next
  case False
  then show ?thesis by (simp add: fold_step_def) (simp add: laid_out_def)
qed

lemma fold_step_answers:
  assumes "\<forall>r \<in> set shown. answered_call r"
  shows "\<forall>r \<in> set (fold_step s shown). answered_call r"
proof (cases "answers_the_row_above shown s")
  case True
  then have "answered_call ((last shown)\<lparr>sh_answer := Some s\<rparr>)"
    by (simp add: answers_the_row_above_def answered_call_def)
  with True assms show ?thesis by (auto simp: fold_step_def dest: in_set_butlastD)
next
  case False
  with assms show ?thesis by (auto simp: fold_step_def answered_call_def)
qed

text \<open>
  The rows of the run's page, laid out again, are the transcript itself: folding the answers into
  their calls drops, repeats and moves no step; and an answer is folded only into a call of its tool.
\<close>

theorem folding_keeps_the_transcript:
  "laid_out (fold_results_into_calls transcript) = transcript
   \<and> list_all answered_call (fold_results_into_calls transcript)"
proof -
  have "laid_out (fold fold_step ss shown) = laid_out shown @ ss
      \<and> ((\<forall>r \<in> set shown. answered_call r) \<longrightarrow> (\<forall>r \<in> set (fold fold_step ss shown). answered_call r))" for ss shown
  proof (induction ss arbitrary: shown)
    case Nil
    then show ?case by simp
  next
    case (Cons s ss)
    have "laid_out (fold fold_step (s # ss) shown) = laid_out shown @ s # ss"
      using Cons.IH [of "fold_step s shown"] fold_step_lays_out [of s shown] by simp
    moreover have "\<forall>r \<in> set (fold fold_step (s # ss) shown). answered_call r" if "\<forall>r \<in> set shown. answered_call r"
      using Cons.IH [of "fold_step s shown"] fold_step_answers [OF that] by simp
    ultimately show ?case by blast
  qed
  from this [of transcript "[]"] show ?thesis by (simp add: fold_results_into_calls_def laid_out_def list_all_iff)
qed

section \<open>A number typed into a form\<close>

definition overflow :: exn where
  "overflow = OtherError ''OverflowError'' ''cannot convert float infinity to integer''"

lemma int_of_float_raises: "int_of_float x = Inl e \<Longrightarrow> e = overflow \<or> (\<exists>m. e = ValueError m)"
  by (cases x rule: int_of_float.cases) (auto simp: overflow_def split: option.splits if_splits)

text \<open>
  C33: A number typed into the form is within its bounds, whatever was typed, or the request fails: the only
  way to fail is a number that is no integer and larger than any double.
\<close>

theorem form_number_in_bounds:
  assumes "low \<le> dflt" and "dflt \<le> high"
  shows "case whole_number raw dflt low high of
      Inr v \<Rightarrow> low \<le> v \<and> v \<le> high
    | Inl e \<Rightarrow> e = overflow \<and> form_int (strip raw) = None
        \<and> (\<exists>x. float_of_text (strip raw) = Some x \<and> int_of_float x = Inl overflow)"
proof (cases "form_int (strip raw)")
  case (Some v)
  then show ?thesis using assms by (simp add: whole_number_def Let_def)
next
  case None
  then show ?thesis using assms int_of_float_raises
    by (auto simp: whole_number_def Let_def overflow_def split: option.splits sum.splits exn.splits) 
qed

subsection \<open>Beyond the doubles\<close>

lemma bit_count_bounds: "n < 2 ^ bit_count n \<and> (0 < n \<longrightarrow> 2 ^ (bit_count n - 1) \<le> n)"
proof (induction n rule: bit_count.induct)
  case (1 n)
  show ?case
  proof (cases "n = 0")
    case True
    then show ?thesis by (simp add: bit_count.simps)
  next
    case False
    then have b: "bit_count n = Suc (bit_count (n div 2))" by (subst bit_count.simps) simp
    show ?thesis
    proof (cases "n div 2 = 0")
      case True
      then have "n = 1" using False by auto
      then show ?thesis using b by (simp add: bit_count.simps)
    next
      case half: False
      then obtain k where k: "bit_count (n div 2) = Suc k" by (subst (asm) bit_count.simps) (auto simp: bit_count.simps [of "n div 2"])
      from 1 [OF False] half have "n div 2 < 2 ^ Suc k" "2 ^ k \<le> n div 2" by (simp_all add: k)
      then show ?thesis by (simp add: b k) linarith
    qed
  qed
qed

lemma double_floor_overflow:
  assumes "2 ^ 1024 \<le> n"
  shows "double_floor n 1 = None"
proof -
  let ?b = "bit_count n"
  have "(2::nat) ^ 1024 < 2 ^ ?b" using assms bit_count_bounds [of n] by linarith
  then have b: "1024 < ?b" by (rule power_less_imp_less_exp [rotated]) simp
  have "0 < n" using assms by (metis gr0I le_zero_eq power_not_zero zero_neq_numeral)
  then have "2 ^ (?b - 1) \<le> n" using bit_count_bounds [of n] by simp
  moreover have "?b - 1 = 52 + (?b - 53)" using b by simp
  then have "(2::nat) ^ (?b - 1) = 2 ^ 52 * 2 ^ (?b - 53)" by (simp only: power_add)
  ultimately have "2 ^ 52 \<le> n div 2 ^ (?b - 53)" by (simp add: less_eq_div_iff_mult_less_eq)
  also have "\<dots> \<le> round_even n (2 ^ (?b - 53))" by (simp add: round_even_def Let_def)
  finally have "2 ^ 52 * 2 ^ (?b - 53) \<le> round_even n (2 ^ (?b - 53)) * 2 ^ (?b - 53)" by (rule mult_le_mono1)
  moreover have "(2::nat) ^ 1024 \<le> 2 ^ (52 + (?b - 53))" using b by (intro power_increasing) simp_all
  then have "(2::nat) ^ 1024 \<le> 2 ^ 52 * 2 ^ (?b - 53)" by (simp only: power_add)
  ultimately have "2 ^ 1024 \<le> round_even n (2 ^ (?b - 53)) * 2 ^ (?b - 53)" by (rule order_trans [rotated])
  moreover have "\<not> ?b \<le> 53" using b by simp
  ultimately show ?thesis by (simp only: double_floor_def Let_def div_by_1 mult_1 if_True if_False)
qed

lemma huge_form_number: "float_of_text ''1e999'' = Some (Decimal False 1 999)"
  by (simp add: float_of_text_def strip_id printable_def sign_of_def split_at_def ascii_lower_def mantissa_def
      digits_of_def is_digit_def read_digits_def digit_val_def exponent_part_def)

text \<open>
  The form's handler reads a number too large for a double with \<^verbatim>\<open>int(float(...))\<close> and does not catch what
  that raises: such a number, which a browser's number input submits, is answered with a 500 and starts no
  run, where the comment promises the default.
\<close>

theorem huge_number_breaks_the_form:
  "start_run_form env s goal ''1e999'' max_proposals w = (ServerError overflow, w)"
proof -
  have "\<not> digits_ok ''1e999''" by (simp add: is_digit_def)
  then have "int_of_text ''1e999'' = None" by (simp add: int_of_text_def strip_id printable_def Let_def del: digits_ok.simps)
  then have whole: "form_int ''1e999'' = None" by (simp only: form_int_def if_cancel)
  have big: "double_floor (1 * 10 ^ nat 999) 1 = None"
  proof (rule double_floor_overflow)
    have "(2::nat) ^ 1024 \<le> 2 ^ (3 * nat 999)" by (rule power_increasing) simp_all
    also have "\<dots> = (2 ^ 3) ^ nat 999" by (rule power_mult)
    also have "\<dots> \<le> 10 ^ nat 999" by (rule power_mono) simp_all
    finally show "2 ^ 1024 \<le> (1::nat) * 10 ^ nat 999" unfolding nat_mult_1 .
  qed
  have "(0::int) \<le> 999" by simp
  then have inf: "int_of_float (Decimal False 1 999) = Inl overflow"
    by (simp only: int_of_float.simps big if_True option.case overflow_def)
  have "strip ''1e999'' = ''1e999''" by (simp add: strip_id printable_def)
  then have "whole_number ''1e999'' 1 0 3650 = Inl overflow"
    unfolding whole_number_def Let_def
    by (simp only: whole huge_form_number inf option.case sum.case) (simp add: overflow_def)
  then show ?thesis by (simp add: start_run_form_def Let_def respond_def overflow_def)
qed

end
