(* ===== verification/QueryFacts.thy ===== *)
theory QueryFacts
  imports Queries Approval
begin

text \<open>
  What the read models of \<^verbatim>\<open>app/api/queries.py\<close> show: the queue holds the largest proposals that can
  still be decided, a run that is shown waiting has something to wait for, the pages of the audit log lose
  and repeat nothing, and the payment history beside a letter is the one that the agent read.
\<close>

section \<open>Sorting\<close>

lemma insort_key_last: "f a \<le> f x \<Longrightarrow> insort_key f a (ys @ [x]) = insort_key f a ys @ [x]"
  by (induction ys) auto

lemma sort_key_last:
  assumes "\<And>y. y \<in> set xs \<Longrightarrow> f y \<le> f x"
  shows "sort_key f (xs @ [x]) = sort_key f xs @ [x]"
  using assms by (induction xs) (simp_all add: insort_key_last)

lemma take_sorted_best:
  fixes f :: "'r \<Rightarrow> 'k::linorder"
  assumes "r \<in> set xs" and "r \<notin> set (take n (sort_key f xs))" and "s \<in> set (take n (sort_key f xs))"
  shows "n \<le> length xs \<and> f s \<le> f r"
proof -
  let ?ys = "sort_key f xs"
  have "r \<in> set (drop n ?ys)" using assms(1,2) by (metis Un_iff append_take_drop_id set_append set_sort)
  moreover from this have "n < length ?ys" by (metis drop_eq_Nil2 empty_iff empty_set not_le_imp_less)
  moreover have "sorted (map f (take n ?ys) @ map f (drop n ?ys))"
    by (metis append_take_drop_id map_append sorted_sort_key)
  ultimately show ?thesis using assms(3) by (auto simp: sorted_append)
qed

lemma filter_map_same:
  assumes "\<And>x. Q (g x) = D x" and "\<And>x. D x \<Longrightarrow> g x = x"
  shows "filter Q (map g xs) = filter D xs"
  using assms by (induction xs) auto

section \<open>The queue\<close>

definition expired :: "string set \<Rightarrow> proposal_row \<Rightarrow> proposal_row" where
  "expired gone p = (if pr_id p \<in> gone then p\<lparr>pr_status := Expired\<rparr> else p)"

lemma each_expire_one:
  assumes "each (expire_one env) ps w = Inr (ys, w')"
  shows "proposals w' = map (expired (pr_id ` set ps)) (proposals w)"
  using assms
proof (induction ps arbitrary: w ys)
  case Nil
  then show ?case by (simp add: expired_def)
next
  case (Cons p ps)
  then obtain w1 zs where one: "expire_one env p w = Inr ((), w1)" and rest: "each (expire_one env) ps w1 = Inr (zs, w')"
    by (auto simp: result_simps)
  have "proposals w1 = map (expired {pr_id p}) (proposals w)"
    using one by (auto simp: expire_one_def result_simps append_event_frame set_proposal_status_def
        update_proposal_def update_by_def expired_def)
  with Cons.IH [OF rest] show ?case by (auto simp: expired_def)
qed

lemma expire_proposals:
  assumes "wf_world w" and "expire_stale_proposals env w = Inr (n, w')"
  shows "proposals w' = map (\<lambda>p. if stale (now_utc env w) p then p\<lparr>pr_status := Expired\<rparr> else p) (proposals w)"
proof -
  let ?gone = "filter (stale (now_utc env w)) (proposals w)"
  from assms(2) obtain ys where "each (expire_one env) ?gone (tick w) = Inr (ys, w')"
    by (auto simp: expire_stale_proposals_def Let_def result_simps)
  then have "proposals w' = map (expired (pr_id ` set ?gone)) (proposals w)"
    using each_expire_one by (fastforce simp: tick_def)
  moreover have "distinct (map pr_id (proposals w))" using assms(1) by (simp add: wf_world_def)
  ultimately show ?thesis
    by (auto simp: expired_def distinct_map inj_on_def intro!: map_cong)
qed

lemma expire_frame_more:
  assumes "expire_stale_proposals env w = Inr (n, w')"
  shows "steps w' = steps w"
proof -
  from assms obtain ys where e: "each (expire_one env) (filter (stale (now_utc env w)) (proposals w)) (tick w) = Inr (ys, w')"
    by (auto simp: expire_stale_proposals_def Let_def result_simps)
  have "steps w' = steps (tick w)"
    by (rule each_frame [OF e]) (auto simp: expire_one_def result_simps append_event_frame set_proposal_status_def update_proposal_def)
  then show ?thesis by (simp add: tick_def)
qed

text \<open>A proposal that can still be decided.\<close>

definition decidable :: "int \<Rightarrow> proposal_row \<Rightarrow> bool" where
  "decidable now p = (pr_status p = Pending \<and> now < pr_expires_at p)"

lemma summary_sel [simp]:
  "ps_id (proposal_summary_of p) = pr_id p" "ps_amount_due (proposal_summary_of p) = pr_amount_due p"
  "ps_status (proposal_summary_of p) = pr_status p" "ps_expires_at (proposal_summary_of p) = pr_expires_at p"
  by (simp_all add: proposal_summary_of_def Let_def)

lemma pending_str: "proposal_status_str s = ''pending'' \<longleftrightarrow> s = Pending"
  by (cases s) simp_all

lemma queue_rows:
  assumes "wf_world w" and "list_proposals env (Some ''pending'') None limit w = Inr (shown, w')"
  shows "shown = map proposal_summary_of (take limit (largest_proposals (filter (decidable (now_utc env w)) (proposals w))))"
proof -
  from assms(2) obtain n w1 where e: "expire_stale_proposals env w = Inr (n, w1)"
    and s: "shown = map proposal_summary_of (take limit (largest_proposals
        (filter (\<lambda>p. wanted (Some ''pending'') (proposal_status_str (pr_status p)) \<and> wanted None (pr_run_id p)) (proposals w1))))"
    by (auto simp: list_proposals_def Let_def result_simps)
  have "filter (\<lambda>p. wanted (Some ''pending'') (proposal_status_str (pr_status p)) \<and> wanted None (pr_run_id p)) (proposals w1)
      = filter (decidable (now_utc env w)) (proposals w)"
    unfolding expire_proposals [OF assms(1) e]
    by (rule filter_map_same) (auto simp: wanted_def pending_str stale_def decidable_def)
  with s show ?thesis by simp
qed

text \<open>
  C28: The approval queue shows exactly the largest proposals that can still be decided, largest first: each
  one shown is pending and not expired, and a decidable one that is not shown is no larger than any that
  is, with the page full.
\<close>

theorem queue_shows_largest:
  assumes "wf_world w" and "list_proposals env (Some ''pending'') None limit w = Inr (shown, w')"
  shows "length shown \<le> limit \<and> sorted (rev (map ps_amount_due shown)) \<and> distinct (map ps_id shown)
    \<and> (\<forall>s \<in> set shown. \<exists>p \<in> set (proposals w). s = proposal_summary_of p \<and> decidable (now_utc env w) p)
    \<and> (\<forall>p \<in> set (proposals w). decidable (now_utc env w) p \<and> pr_id p \<notin> ps_id ` set shown \<longrightarrow>
         length shown = limit \<and> (\<forall>s \<in> set shown. pr_amount_due p \<le> ps_amount_due s))"
proof -
  let ?D = "filter (decidable (now_utc env w)) (proposals w)"
  let ?T = "take limit (largest_proposals ?D)"
  have shown: "shown = map proposal_summary_of ?T" by (rule queue_rows [OF assms])
  have sub: "set ?T \<subseteq> set ?D" by (metis largest_proposals_def set_sort set_take_subset)
  have "distinct (map pr_id ?D)" using assms(1) by (simp add: wf_world_def distinct_map inj_on_def)
  then have "distinct (map pr_id (largest_proposals ?D))" by (simp add: largest_proposals_def distinct_map)
  then have dist: "distinct (map pr_id ?T)" by (metis distinct_take take_map)
  have "sorted (map (\<lambda>p. - pr_amount_due p) ?T)"
    unfolding largest_proposals_def take_map [symmetric] by (intro sorted_wrt_take sorted_sort_key)
  then have sorted: "sorted (rev (map pr_amount_due ?T))"
    by (simp add: sorted_map sorted_wrt_rev rev_map [symmetric] sorted_wrt_map)
  have "length ?T = limit \<and> (\<forall>s \<in> set ?T. pr_amount_due p \<le> pr_amount_due s)"
    if p: "p \<in> set (proposals w)" "decidable (now_utc env w) p" "pr_id p \<notin> pr_id ` set ?T" for p
  proof -
    from p have "p \<in> set ?D" "p \<notin> set ?T" by auto
    then have best: "s \<in> set ?T \<Longrightarrow> limit \<le> length ?D \<and> - pr_amount_due s \<le> - pr_amount_due p" for s
      unfolding largest_proposals_def by (rule take_sorted_best)
    have "largest_proposals ?D \<noteq> []" using \<open>p \<in> set ?D\<close> by (metis empty_iff empty_set largest_proposals_def set_sort)
    then have "?T = [] \<longrightarrow> limit = 0" by simp
    moreover have "length ?T = limit" if "s \<in> set ?T" for s
      using best [OF that] by (simp add: largest_proposals_def min_def)
    moreover have "\<forall>s \<in> set ?T. pr_amount_due p \<le> pr_amount_due s" using best by auto
    ultimately show ?thesis by (metis last_in_set list.size(3))
  qed
  with sub dist sorted show ?thesis unfolding shown by (auto simp: comp_def image_image)
qed


section \<open>The counts of a run\<close>

lemma group_counts_lookup:
  "map_of (group_counts ks) i = (if i \<in> set ks then Some (count_list ks i) else None)"
proof -
  have "map_of (map (\<lambda>k. (k, g k)) ls) i = (if i \<in> set ls then Some (g i) else None)" for g :: "'a \<Rightarrow> nat" and ls
    by (induction ls) auto
  then show ?thesis by (simp add: group_counts_def)
qed

lemma group_counts_keys: "map fst (group_counts ks) = remdups ks"
  by (simp add: group_counts_def comp_def)

lemma put_counts_lookup:
  assumes "distinct (map fst rows)"
  shows "put_counts put rows counts i
    = (case map_of rows i of None \<Rightarrow> counts i | Some n \<Rightarrow> map_option (put n) (counts i))"
  using assms
proof (induction rows arbitrary: counts)
  case Nil
  then show ?case by (simp add: put_counts_def)
next
  case (Cons row rows)
  obtain j n where row: "row = (j, n)" by (cases row)
  let ?c = "counts(j := map_option (put n) (counts j))"
  have "put_counts put (row # rows) counts i = put_counts put rows ?c i" by (simp add: put_counts_def row)
  also have "\<dots> = (case map_of rows i of None \<Rightarrow> ?c i | Some m \<Rightarrow> map_option (put m) (?c i))"
    using Cons by simp
  finally show ?case using Cons.prems by (auto simp: row map_of_eq_None_iff [symmetric] split: option.splits)
qed

lemma count_by_run_lookup:
  "map_of (count_by_run ids keys) i
    = (if i \<in> set ids \<and> i \<in> set keys then Some (count_list keys i) else None)"
proof -
  have "i \<in> set ids \<Longrightarrow> count_list (filter (\<lambda>i. i \<in> set ids) keys) i = count_list keys i"
    by (induction keys) auto
  then show ?thesis by (auto simp: count_by_run_def group_counts_lookup)
qed

lemma count_by_run_distinct: "distinct (map fst (count_by_run ids keys))"
  by (simp add: count_by_run_def group_counts_keys)

lemma count_list_map: "count_list (map f xs) i = length (filter (\<lambda>x. f x = i) xs)"
  by (induction xs) auto

lemma run_counts_exact:
  assumes "i \<in> set ids"
  shows "run_counts ids w i = Some
    \<lparr>rc_tool_calls = length (filter (\<lambda>s. st_type s = ToolCall) (run_steps i w)),
     rc_proposals = proposal_count i w, rc_pending = length (pending_in i w)\<rparr>"
proof -
  have zero: "i \<notin> set keys \<Longrightarrow> count_list keys i = 0" for keys by (simp add: count_list_0_iff)
  have "run_counts ids w i = Some
    \<lparr>rc_tool_calls = count_list (map st_run_id (filter (\<lambda>s. st_type s = ToolCall) (steps w))) i,
     rc_proposals = count_list (map pr_run_id (proposals w)) i,
     rc_pending = count_list (map pr_run_id (filter (\<lambda>p. pr_status p = Pending) (proposals w))) i\<rparr>"
    using assms zero
    by (auto simp: run_counts_def put_counts_lookup count_by_run_distinct count_by_run_lookup no_counts_def
        split: option.splits if_splits)
  then show ?thesis
    by (simp add: count_list_map conj_commute run_steps_def proposal_count_def run_proposals_def pending_in_def)
qed

lemma lookup_distinct: "distinct (map key rows) \<Longrightarrow> q \<in> set rows \<Longrightarrow> lookup_by key (key q) rows = Some q"
  by (induction rows) (auto simp: rev_image_eqI)

section \<open>A waiting run has something to wait for\<close>

definition waits_in_vain :: "world \<Rightarrow> run_row \<Rightarrow> bool" where
  "waits_in_vain w r = (rn_status r = RunAwaiting \<and> pending_in (rn_id r) w = [])"

lemma settle_one_waits:
  assumes "wf_world w" and "settle_run_if_decided env i w = Inr (b, w')"
    and "r \<in> set (runs w')" and "waits_in_vain w' r"
  shows "r \<in> set (runs w) \<and> waits_in_vain w r \<and> rn_id r \<noteq> i"
proof -
  have dist: "distinct (map rn_id (runs w))" using assms(1) by (simp add: wf_world_def)
  have found: "find_run (rn_id q) w = Some q" if "q \<in> set (runs w)" for q
    using dist that by (rule lookup_distinct)
  show ?thesis
  proof (cases b)
    case False
    then show ?thesis using assms found [of r]
      by (auto simp: settle_run_if_decided_def Let_def result_simps waits_in_vain_def split: option.splits if_splits)
  next
    case True
    with assms(2) obtain f where runs: "runs w' = update_by rn_id i f (runs w)" and "proposals w' = proposals w"
      and "\<And>q. rn_status (f q) = RunCompleted"
      by (auto simp: settle_run_if_decided_def Let_def result_simps append_event_frame update_run_def tick_def
          split: option.splits if_splits)
    then show ?thesis using assms(3,4)
      by (auto simp: update_by_def waits_in_vain_def pending_in_def run_proposals_def split: if_splits)
  qed
qed

lemma settle_each_waits:
  assumes "each (settle_run_if_decided env) is w = Inr (bs, w')" and "wf_world w"
    and "r \<in> set (runs w')" and "waits_in_vain w' r"
  shows "r \<in> set (runs w) \<and> waits_in_vain w r \<and> rn_id r \<notin> set is"
  using assms
proof (induction "is" arbitrary: w bs)
  case Nil
  then show ?case by simp
next
  case (Cons i "is")
  then obtain b w1 cs where one: "settle_run_if_decided env i w = Inr (b, w1)"
    and rest: "each (settle_run_if_decided env) is w1 = Inr (cs, w')" by (auto simp: result_simps)
  have "wf_world w1" using one Cons.prems(2) by (rule wf.keeps_settle_run)
  with Cons.IH [OF rest] Cons.prems have "r \<in> set (runs w1) \<and> waits_in_vain w1 r \<and> rn_id r \<notin> set is" by blast
  with settle_one_waits [OF Cons.prems(2) one] show ?case by auto
qed

lemma settled_waits:
  assumes "wf_world w" and "settle_decided_runs env w = Inr (n, w')" and "r \<in> set (runs w')"
  shows "\<not> waits_in_vain w' r"
proof
  assume vain: "waits_in_vain w' r"
  from assms(2) obtain m w1 bs where e: "expire_stale_proposals env w = Inr (m, w1)"
    and s: "each (settle_run_if_decided env) (map rn_id (filter (\<lambda>r. rn_status r = RunAwaiting) (runs w1))) w1 = Inr (bs, w')"
    by (auto simp: settle_decided_runs_def Let_def result_simps)
  have "wf_world w1" using e assms(1) by (rule wf.keeps_expire)
  from settle_each_waits [OF s this assms(3) vain] show False by (auto simp: waits_in_vain_def)
qed

text \<open>
  C29: A run that the list shows as awaiting approval has a pending proposal, and the counts shown beside
  every run are those of its tool calls, its proposals and its pending proposals in the database that the
  request leaves.
\<close>

theorem listed_runs_wait_for_something:
  assumes "wf_world w" and "list_runs env limit offset w = Inr (shown, w')" and "i \<in> set shown"
  shows "(ri_status i = RunAwaiting \<longrightarrow> 0 < ri_pending i)
    \<and> ri_pending i = length (pending_in (ri_id i) w') \<and> ri_proposals i = proposal_count (ri_id i) w'
    \<and> ri_tool_calls i = length (filter (\<lambda>s. st_type s = ToolCall) (run_steps (ri_id i) w'))"
proof -
  let ?page = "page_of limit offset (newest_runs (runs w'))"
  from assms(2) obtain n where s: "settle_decided_runs env w = Inr (n, w')"
    and shown: "shown = map (\<lambda>r. run_dict r (run_counts (map rn_id ?page) w' (rn_id r))) ?page"
    by (auto simp: list_runs_def Let_def result_simps)
  from assms(3) shown obtain r where r: "r \<in> set ?page"
    and i: "i = run_dict r (run_counts (map rn_id ?page) w' (rn_id r))" by auto
  have "r \<in> set (runs w')"
    using r by (auto simp: page_of_def newest_runs_def dest!: in_set_takeD in_set_dropD)
  then have "\<not> waits_in_vain w' r" by (rule settled_waits [OF assms(1) s])
  moreover have "rn_id r \<in> set (map rn_id ?page)" using r by simp
  ultimately show ?thesis unfolding i
    by (simp add: run_counts_exact run_dict_def Let_def waits_in_vain_def)
qed


section \<open>The pages of the audit log\<close>

lemma concat_pages: "concat (map (\<lambda>k. page_of limit (k * limit) xs) [0..<n]) = take (n * limit) xs"
  by (induction n) (simp_all add: page_of_def take_add [symmetric] add.commute)

text \<open>
  Reading the audit log page by page, each matching event comes exactly once, newest first, and the
  total beside every page is their number.
\<close>

theorem audit_pages_lose_nothing:
  assumes "wf_world w" and "pg_total (audit_page env limit 0 actor event w) \<le> n * limit"
  defines "seen \<equiv> concat (map (\<lambda>k. pg_events (audit_page env limit (k * limit) actor event w)) [0..<n])"
  shows "set seen = {r \<in> set (events w). audit_filter actor event r}
    \<and> sorted_wrt (\<lambda>r s. au_id s < au_id r) seen \<and> length seen = pg_total (audit_page env limit 0 actor event w)"
proof -
  let ?rows = "filter (audit_filter actor event) (events w)"
  let ?new = "sort_key (\<lambda>r. - au_id r) ?rows"
  have "seen = take (n * limit) ?new" by (simp add: seen_def audit_page_def Let_def concat_pages)
  also have "\<dots> = ?new" using assms(2) by (simp add: audit_page_def Let_def)
  finally have seen: "seen = ?new" .
  have "distinct (map au_id ?new)" using assms(1) by (simp add: wf_world_def distinct_map inj_on_def)
  then have "distinct (map (\<lambda>r. - au_id r) ?new)" by (simp add: distinct_map inj_on_def)
  moreover have "sorted (map (\<lambda>r. - au_id r) ?new)" by simp
  ultimately have "sorted_wrt (<) (map (\<lambda>r. - au_id r) ?new)" by (simp add: strict_sorted_iff)
  then have "sorted_wrt (\<lambda>r s. au_id s < au_id r) ?new" by (simp add: sorted_wrt_map)
  then show ?thesis by (auto simp: seen audit_page_def Let_def)
qed

section \<open>The payment history beside a letter\<close>

lemma each_in_append: "each_in f (xs @ ys) s = and_then (each_in f xs s) (each_in f ys)"
proof (induction xs arbitrary: s)
  case Nil
  then show ?case by simp
next
  case (Cons x xs)
  then show ?case by (cases "f x s") simp_all
qed

text \<open>A call and the answer behind it, as the loop writes them.\<close>

definition asked :: "step_row \<Rightarrow> pyval" where
  "asked c = dict_get ''customer_id'' (items_of (dict_get ''arguments'' (st_payload c)))"

definition is_call :: "step_row \<Rightarrow> bool" where
  "is_call c = (st_type c = ToolCall \<and> dict_get ''arguments'' (st_payload c) = PDict (items_of (dict_get ''arguments'' (st_payload c))))"

definition exchange :: "step_row \<times> step_row \<Rightarrow> bool" where
  "exchange x = (is_call (fst x) \<and> st_type (snd x) = ToolResult
     \<and> dict_get ''tool_use_id'' (st_payload (snd x)) = dict_get ''tool_use_id'' (st_payload (fst x)))"

text \<open>The history that an exchange shows of a customer: a successful answer to a question about them.\<close>

definition shown_of :: "pyval \<Rightarrow> step_row \<times> step_row \<Rightarrow> pyval list option" where
  "shown_of customer x =
     (if py_eq (asked (fst x)) customer \<and> \<not> truthy (dict_get ''is_error'' (st_payload (snd x)))
      then history_in (st_payload (snd x)) else None)"

definition transcript_of :: "(step_row \<times> step_row) list \<Rightarrow> step_row list" where
  "transcript_of looks = concat (map (\<lambda>x. [fst x, snd x]) looks)"

lemma py_eq_refl [simp]: "py_eq v v"
  by (simp add: py_eq_def same_value_def)

definition idle :: "pyval list \<Rightarrow> look" where
  "idle h = \<lparr>lk_asked_about = PNone, lk_asked_id = PNone, lk_found = h\<rparr>"

lemma look_at_call:
  assumes "is_call c"
  shows "look_at customer c l =
    Inr (l\<lparr>lk_asked_about := asked c, lk_asked_id := dict_get ''tool_use_id'' (st_payload c)\<rparr>)"
proof -
  obtain d where "dict_get ''arguments'' (st_payload c) = PDict d" using assms by (auto simp: is_call_def)
  then show ?thesis using assms
    by (auto simp: look_at_def Let_def is_call_def asked_def py_or_def attr_get_def dict_get_def)
qed

lemma look_at_exchange:
  assumes "exchange (c, r)"
  shows "each_in (look_at customer) [c, r] (idle h)
    = Inr (idle (case shown_of customer (c, r) of None \<Rightarrow> h | Some g \<Rightarrow> g))"
proof -
  have c: "is_call c" and r: "st_type r = ToolResult"
    and i: "dict_get ''tool_use_id'' (st_payload r) = dict_get ''tool_use_id'' (st_payload c)"
    using assms by (simp_all add: exchange_def)
  let ?l = "(idle h)\<lparr>lk_asked_about := asked c, lk_asked_id := dict_get ''tool_use_id'' (st_payload c)\<rparr>"
  have "look_at customer r ?l = Inr (idle (case shown_of customer (c, r) of None \<Rightarrow> h | Some g \<Rightarrow> g))"
    using r i by (simp add: look_at_def Let_def shown_of_def idle_def forget_def split: option.splits)
  then show ?thesis by (simp add: look_at_call [OF c])
qed

lemma look_at_transcript:
  assumes "\<forall>x \<in> set looks. exchange x"
  shows "each_in (look_at customer) (transcript_of looks) (idle h)
    = Inr (idle (last (h # List.map_filter (shown_of customer) looks)))"
  using assms
proof (induction looks arbitrary: h)
  case Nil
  then show ?case by (simp add: transcript_of_def map_filter_simps)
next
  case (Cons x looks)
  obtain c r where x: "x = (c, r)" by (cases x)
  have "transcript_of (x # looks) = [c, r] @ transcript_of looks" by (simp add: transcript_of_def x)
  then show ?case
    using Cons look_at_exchange [of c r customer h]
    by (simp only: each_in_append) (auto simp: x map_filter_simps split: option.splits)
qed

text \<open>The transcript of the tool is exchanges, and perhaps a last call that was never answered.\<close>

definition paired :: "string \<Rightarrow> world \<Rightarrow> (step_row \<times> step_row) list \<Rightarrow> step_row list \<Rightarrow> bool" where
  "paired run_id w looks rest =
     (history_steps run_id w = transcript_of looks @ rest \<and> (\<forall>x \<in> set looks. exchange x)
      \<and> (rest = [] \<or> (\<exists>c. rest = [c] \<and> is_call c)))"

lemma history_of_paired:
  assumes "paired run_id w looks rest" and "truthy customer"
  shows "payment_history_seen run_id customer w = Inr (last ([] # List.map_filter (shown_of customer) looks))"
proof -
  have start: "\<lparr>lk_asked_about = PNone, lk_asked_id = PNone, lk_found = []\<rparr> = idle []" by (simp add: idle_def)
  have rest: "\<exists>l. each_in (look_at customer) rest (idle h) = Inr l \<and> lk_found l = h" for h
    using assms(1) by (auto simp: paired_def look_at_call idle_def)
  obtain l where "each_in (look_at customer) rest (idle (last ([] # List.map_filter (shown_of customer) looks))) = Inr l"
    and "lk_found l = last ([] # List.map_filter (shown_of customer) looks)" using rest by blast
  moreover have "each_in (look_at customer) (history_steps run_id w) (idle [])
      = and_then (each_in (look_at customer) (transcript_of looks) (idle [])) (each_in (look_at customer) rest)"
    using assms(1) by (simp only: paired_def each_in_append)
  moreover have "\<forall>x \<in> set looks. exchange x" using assms(1) by (simp add: paired_def)
  ultimately show ?thesis
    using assms(2) by (simp add: payment_history_seen_def start look_at_transcript del: last.simps)
qed

end
