(* ===== verification/AgentTranscript.thy ===== *)
theory AgentTranscript
  imports QueryFacts AgentRuns
begin

text \<open>
  The transcript that a run of \<^verbatim>\<open>app/agent/loop.py\<close> leaves, as \<^verbatim>\<open>app/api/queries.py\<close> reads it back: behind
  every recorded call stands its answer, so that the payment history beside a proposal is the one that
  the tool returned for that customer.
\<close>

abbreviation HISTORY_TOOL :: string where "HISTORY_TOOL \<equiv> ''get_payment_history''"

section \<open>What one write adds\<close>

lemma next_seq_greatest: "s \<in> set (run_steps i w) \<Longrightarrow> st_seq s < next_seq i w"
proof -
  assume s: "s \<in> set (run_steps i w)"
  then obtain m where m: "last_by st_seq (run_steps i w) = Some m" by (cases "last_by st_seq (run_steps i w)") auto
  with s last_by_Some [OF m] show ?thesis by (auto simp: next_seq_def)
qed

text \<open>The row that \<^verbatim>\<open>append_step\<close> adds, up to its rowid and its time.\<close>

definition written :: "string \<Rightarrow> step_type \<Rightarrow> string option \<Rightarrow> pydict \<Rightarrow> step_row \<Rightarrow> bool" where
  "written i kind tool payload s =
     (st_run_id s = i \<and> st_type s = kind \<and> st_tool_name s = tool \<and> st_payload s = payload)"

lemma append_step_rows:
  assumes "append_step env i kind tool payload w = Inr (n, w')"
  shows "\<exists>s. written i kind tool payload s \<and> st_seq s = next_seq i w \<and> steps w' = steps w @ [s]"
  using assms by (auto simp: append_step_def Let_def result_simps insert_step_def written_def tick_def)

lemma history_appended:
  assumes "append_step env i kind tool payload w = Inr (n, w')"
  shows "\<exists>s. written i kind tool payload s
    \<and> history_steps i w' = history_steps i w @ (if tool = Some HISTORY_TOOL then [s] else [])"
proof -
  from append_step_rows [OF assms] obtain s where s: "written i kind tool payload s" "st_seq s = next_seq i w"
    and w': "steps w' = steps w @ [s]" by blast
  have "run_steps i w' = run_steps i w @ [s]" using s(1) w' by (simp add: run_steps_def written_def)
  moreover have "st_seq t \<le> st_seq s" if "t \<in> set (run_steps i w)" for t
    using next_seq_greatest [OF that] s(2) by simp
  ultimately have "history_steps i w' = history_steps i w @ (if tool = Some HISTORY_TOOL then [s] else [])"
    using s(1) by (auto simp: history_steps_def written_def intro!: sort_key_last)
  with s(1) show ?thesis by blast
qed

lemma history_same: "steps w' = steps w \<Longrightarrow> history_steps i w' = history_steps i w"
  by (simp add: history_steps_def run_steps_def)

text \<open>\<open>record_step\<close>: either it stops and nothing is added, or the row is.\<close>

lemma record_history:
  obtains (stops) e c' where "record_step env i kind tool payload c = (Inl e, c')"
      and "history_steps i (cv_world c') = history_steps i (cv_world c)"
  | (adds) c' s where "record_step env i kind tool payload c = (Inr (), c')" and "written i kind tool payload s"
      and "history_steps i (cv_world c') = history_steps i (cv_world c) @ (if tool = Some HISTORY_TOOL then [s] else [])"
proof (cases "append_step env i kind tool payload (cv_world c)")
  case (Inl e)
  then have "record_step env i kind tool payload c = (Inl (Crashed e), set_world (rolled_back (cv_world c)) c)"
    by (simp add: record_step_def session_scope_def)
  then show ?thesis
    by (rule stops) (rule history_same, simp add: set_world_def cv_world_def rolled_back_def tick_def)
next
  case (Inr nw)
  then obtain n w' where a: "append_step env i kind tool payload (cv_world c) = Inr (n, w')" by (cases nw) simp
  then have r: "record_step env i kind tool payload c = (Inr (), (set_world w' c)\<lparr>cv_steps := cv_steps c @ [n]\<rparr>)"
    by (simp add: record_step_def session_scope_def)
  from history_appended [OF a] obtain s where "written i kind tool payload s"
    "history_steps i w' = history_steps i (cv_world c) @ (if tool = Some HISTORY_TOOL then [s] else [])" by blast
  then show ?thesis using adds [OF r] by (simp add: set_world_def cv_world_def)
qed

text \<open>The tools write no steps.\<close>

interpretation stepless: database_relation "\<lambda>w w'. steps w' = steps w"
  by unfold_locales (simp_all add: tick_def)

lemma create_proposal_steps:
  assumes "create_proposal env i payload rat invo email amt cur days ttl w = Inr (x, w')"
  shows "steps w' = steps w"
  using assms
  by (auto simp: create_proposal_def Let_def result_simps flush_proposal_def insert_proposal_def append_event_frame tick_def
      split: sum.splits exn.splits if_splits)


lemma store_proposal_steps: "stepless.within (store_proposal env ts i f p r m d)"
  unfolding stepless.within_def
  by (auto simp: store_proposal_def session_scope_def rolled_back_def tick_def create_proposal_steps
      split: prod.splits sum.splits exn.splits)

lemma execute_steps:
  assumes "build_registry env ts = Inr reg"
  shows "stepless.within (execute_tool u reg name args)"
proof (rule stepless.within_execute)
  fix t assume "t \<in> snd ` set reg"
  from registry_tools [OF assms this] show "stepless.within (tp_handler t args)"
    using stepless.within_read_tools stepless.within_draft_tool [OF store_proposal_steps] by blast
qed

section \<open>A part of the loop leaves every question answered\<close>

definition answered :: "string \<Rightarrow> world \<Rightarrow> bool" where
  "answered i w = (\<exists>looks. paired i w looks [])"

definition readable :: "string \<Rightarrow> world \<Rightarrow> bool" where
  "readable i w = (\<exists>looks rest. paired i w looks rest)"

lemma answered_readable: "answered i w \<Longrightarrow> readable i w"
  by (auto simp: answered_def readable_def)

lemma same_history:
  assumes "history_steps i w' = history_steps i w"
  shows "answered i w' = answered i w" "readable i w' = readable i w"
  using assms by (simp_all add: answered_def readable_def paired_def)

definition pairing :: "string \<Rightarrow> 'a talk \<Rightarrow> bool" where
  "pairing i m \<longleftrightarrow> (\<forall>c. answered i (cv_world c) \<longrightarrow>
     (isl (fst (m c)) \<or> answered i (cv_world (snd (m c)))) \<and> readable i (cv_world (snd (m c))))"

lemma pairingD:
  assumes "pairing i m" and "answered i (cv_world c)" and "m c = (r, c')"
  shows "isl r \<or> answered i (cv_world c')" and "readable i (cv_world c')"
proof -
  have "fst (m c) = r" "snd (m c) = c'" using assms(3) by simp_all
  with assms(1,2) show "isl r \<or> answered i (cv_world c')" "readable i (cv_world c')"
    unfolding pairing_def by blast+
qed

lemma pairing_then:
  assumes "pairing i m" and "\<And>x. pairing i (f x)"
  shows "pairing i (then_with m f)"
  unfolding pairing_def
proof (intro allI impI)
  fix c assume c: "answered i (cv_world c)"
  obtain r c1 where m: "m c = (r, c1)" by fastforce
  note one = pairingD [OF assms(1) c m]
  show "(isl (fst (then_with m f c)) \<or> answered i (cv_world (snd (then_with m f c))))
      \<and> readable i (cv_world (snd (then_with m f c)))"
  proof (cases r)
    case (Inl e)
    then show ?thesis using one m by (simp add: then_with_def)
  next
    case (Inr x)
    then have "then_with m f c = f x c1" using m by (simp add: then_with_def)
    moreover have "answered i (cv_world c1)" using one(1) Inr by simp
    ultimately show ?thesis using assms(2) [of x] unfolding pairing_def by simp
  qed
qed

lemma pairing_same: "(\<And>c. history_steps i (cv_world (snd (m c))) = history_steps i (cv_world c)) \<Longrightarrow> pairing i m"
  unfolding pairing_def using same_history answered_readable by metis

lemma pairing_return: "pairing i (Pair r)"
  by (rule pairing_same) simp

lemma pairing_each: "(\<And>x. pairing i (f x)) \<Longrightarrow> pairing i (talk_each f xs)"
proof (induction xs)
  case Nil
  have "talk_each f [] = Pair (Inr [])" by auto
  then show ?case by (simp add: pairing_return)
next
  case (Cons x xs)
  have "talk_each f (x # xs) = then_with (f x) (\<lambda>y. then_with (talk_each f xs) (\<lambda>ys. Pair (Inr (y # ys))))" by auto
  then show ?case using Cons by (auto intro!: pairing_then pairing_return)
qed

lemma pairing_say: "pairing i (say m)"
  by (rule pairing_same) (simp add: say_def cv_world_def)

lemma pairing_ask: "pairing i (ask_model llm system tools)"
  by (rule pairing_same) (simp add: ask_model_def cv_world_def split: sum.splits llm_exn.splits)

lemma other_record_history:
  assumes "tool \<noteq> Some HISTORY_TOOL"
  shows "history_steps i (cv_world (snd (record_step env i kind tool payload c))) = history_steps i (cv_world c)"
  by (rule record_history [of env i kind tool payload c]) (use assms in simp_all)

lemma pairing_record: "tool \<noteq> Some HISTORY_TOOL \<Longrightarrow> pairing i (record_step env i kind tool payload)"
  by (rule pairing_same) (rule other_record_history)

lemma pairing_note: "pairing i (note_text env i t)"
  unfolding note_text_def
  by (intro pairing_then pairing_record pairing_same) (simp_all add: cv_world_def)

lemma run_tool_history:
  assumes "stepless.within (execute_tool u reg (tc_name call) (tc_arguments call))"
  shows "history_steps i (cv_world (snd (run_tool u reg call c))) = history_steps i (cv_world c)"
proof -
  obtain r a where "execute_tool u reg (tc_name call) (tc_arguments call) (cv_agent c) = (r, a)" by fastforce
  with assms have "steps (ag_world a) = steps (ag_world (cv_agent c))"
    unfolding stepless.within_def by (metis snd_conv)
  with \<open>execute_tool u reg _ _ _ = _\<close> show ?thesis
    by (intro history_same) (simp add: run_tool_def cv_world_def)
qed

text \<open>The call and its answer.\<close>

definition call_payload :: "registry \<Rightarrow> tool_call \<Rightarrow> pydict" where
  "call_payload reg call =
     [(''tool_use_id'', PStr (tc_id call)), (''arguments'', PDict (tc_arguments call)),
      (''tool_class'', PStr (class_label reg (tc_name call)))]"

lemma written_exchange:
  assumes "written i ToolCall tool (call_payload reg call) s" and "written i ToolResult tool' (result_payload reg call failed result) t"
  shows "is_call s" and "exchange (s, t)"
  using assms by (simp_all add: written_def call_payload_def result_payload_def is_call_def exchange_def dict_get_def)

lemma paired_call:
  assumes "paired i w looks []" and "history_steps i w' = history_steps i w @ [s]" and "is_call s"
  shows "paired i w' looks [s]"
  using assms by (simp add: paired_def)

lemma paired_answer:
  assumes "paired i w looks [s]" and "history_steps i w' = history_steps i w @ [t]" and "exchange (s, t)"
  shows "paired i w' (looks @ [(s, t)]) []"
  using assms by (auto simp: paired_def transcript_of_def)


lemma execute_one_history:
  assumes "\<And>name args. stepless.within (execute_tool u reg name args)" and "tc_name call = HISTORY_TOOL"
    and "answered i (cv_world c)"
  shows "(isl (fst (execute_one env u i reg call c)) \<or> answered i (cv_world (snd (execute_one env u i reg call c))))
    \<and> readable i (cv_world (snd (execute_one env u i reg call c)))"
proof (rule record_history [of env i ToolCall "Some (tc_name call)" "call_payload reg call" c])
  fix e c' assume one: "record_step env i ToolCall (Some (tc_name call)) (call_payload reg call) c = (Inl e, c')"
    and same: "history_steps i (cv_world c') = history_steps i (cv_world c)"
  have "execute_one env u i reg call c = (Inl e, c')"
    using one by (simp add: execute_one_def call_payload_def then_with_def)
  moreover have "readable i (cv_world c')" using assms(3) answered_readable same_history(1) [OF same] by blast
  ultimately show ?thesis by simp
next
  fix c1 s assume one: "record_step env i ToolCall (Some (tc_name call)) (call_payload reg call) c = (Inr (), c1)"
    and s: "written i ToolCall (Some (tc_name call)) (call_payload reg call) s"
    and "history_steps i (cv_world c1) = history_steps i (cv_world c) @ (if Some (tc_name call) = Some HISTORY_TOOL then [s] else [])"
  then have h1: "history_steps i (cv_world c1) = history_steps i (cv_world c) @ [s]" using assms(2) by simp
  have call: "is_call s" using s by (simp add: written_def call_payload_def is_call_def dict_get_def)
  from assms(3) obtain looks where p0: "paired i (cv_world c) looks []" by (auto simp: answered_def)
  have "\<exists>r c2. run_tool u reg call c1 = (Inr r, c2)" by (simp add: run_tool_def split: prod.split)
  then obtain r c2 where tool: "run_tool u reg call c1 = (Inr r, c2)" by blast
  have "history_steps i (cv_world c2) = history_steps i (cv_world c) @ [s]"
    using run_tool_history [OF assms(1), where i = i and c = c1 and call = call] tool h1 by simp
  then have p2: "paired i (cv_world c2) looks [s]" by (rule paired_call [OF p0 _ call])
  have ends: "(isl (fst (k c2)) \<or> answered i (cv_world (snd (k c2)))) \<and> readable i (cv_world (snd (k c2)))"
    if k: "k = then_with (record_step env i ToolResult (Some (tc_name call)) (result_payload reg call failed result)) (\<lambda>_. Pair (Inr v))"
    for k failed result v
  proof (rule record_history [of env i ToolResult "Some (tc_name call)" "result_payload reg call failed result" c2])
    fix e c' assume "record_step env i ToolResult (Some (tc_name call)) (result_payload reg call failed result) c2 = (Inl e, c')"
      and "history_steps i (cv_world c') = history_steps i (cv_world c2)"
    moreover from this(2) p2 have "readable i (cv_world c')" by (auto simp: readable_def paired_def)
    ultimately show ?thesis by (simp add: k then_with_def)
  next
    fix c' t assume "record_step env i ToolResult (Some (tc_name call)) (result_payload reg call failed result) c2 = (Inr (), c')"
      and t: "written i ToolResult (Some (tc_name call)) (result_payload reg call failed result) t"
      and "history_steps i (cv_world c') = history_steps i (cv_world c2) @ (if Some (tc_name call) = Some HISTORY_TOOL then [t] else [])"
    moreover from this(3) have "history_steps i (cv_world c') = history_steps i (cv_world c2) @ [t]" using assms(2) by simp
    then have "paired i (cv_world c') (looks @ [(s, t)]) []"
      by (rule paired_answer [OF p2 _ written_exchange(2) [OF s t]])
    ultimately show ?thesis by (auto simp: k then_with_def answered_def readable_def)
  qed
  have go: "execute_one env u i reg call c
      = (case r of
           Inl (Raised e) \<Rightarrow> (\<lambda>c. (Inl (Crashed e), c))
         | Inl (Failure payload) \<Rightarrow>
             then_with (record_step env i ToolResult (Some (tc_name call)) (result_payload reg call True (PDict payload)))
               (\<lambda>_. Pair (Inr (PDict [(''type'', PStr ''tool_result''), (''tool_use_id'', PStr (tc_id call)),
                  (''content'', PStr (serialise (PDict payload))), (''is_error'', PBool True)])))
         | Inr result \<Rightarrow>
             then_with (record_step env i ToolResult (Some (tc_name call)) (result_payload reg call False result))
               (\<lambda>_. Pair (Inr (PDict [(''type'', PStr ''tool_result''), (''tool_use_id'', PStr (tc_id call)),
                  (''content'', PStr (serialise result))])))) c2"
    using one tool by (simp add: execute_one_def call_payload_def then_with_def)
  have "readable i (cv_world c2)" using p2 by (auto simp: readable_def)
  then show ?thesis unfolding go by (simp add: ends [OF refl] split: sum.split tool_exn.split)
qed

lemma pairing_execute_one:
  assumes "\<And>name args. stepless.within (execute_tool u reg name args)"
  shows "pairing i (execute_one env u i reg call)"
proof (cases "tc_name call = HISTORY_TOOL")
  case True
  then show ?thesis using execute_one_history [OF assms] by (simp add: pairing_def)
next
  case False
  have "pairing i (run_tool u reg call)" by (rule pairing_same) (rule run_tool_history [OF assms])
  with False show ?thesis unfolding execute_one_def
    by (intro pairing_then pairing_record)
      (auto intro!: pairing_then pairing_record pairing_return split: sum.split tool_exn.split)
qed

lemma pairing_budgeted:
  assumes "\<And>name args. stepless.within (execute_tool u reg name args)"
  shows "pairing i (budgeted_call env u i budget reg call)"
  unfolding pairing_def
proof (intro allI impI)
  fix c assume c: "answered i (cv_world c)"
  let ?c = "c\<lparr>cv_calls := Suc (cv_calls c)\<rparr>"
  have "answered i (cv_world ?c)" using c by (simp add: cv_world_def)
  then show "(isl (fst (budgeted_call env u i budget reg call c)) \<or> answered i (cv_world (snd (budgeted_call env u i budget reg call c))))
      \<and> readable i (cv_world (snd (budgeted_call env u i budget reg call c)))"
    using pairing_execute_one [OF assms, of i env call] c
    by (simp add: budgeted_call_def pairing_def answered_readable)
qed

lemma pairing_turn:
  assumes "\<And>name args. stepless.within (execute_tool u reg name args)"
  shows "pairing i (take_turn env u i budget reg llm system)"
  unfolding take_turn_def
  by (intro pairing_then pairing_ask pairing_each pairing_record pairing_note)
    (auto intro!: pairing_then pairing_each pairing_budgeted assms pairing_say pairing_return)

lemma pairing_converse:
  assumes "\<And>name args. stepless.within (execute_tool u reg name args)"
  shows "pairing i (converse n left env u i budget reg llm system)"
proof (induction left)
  case 0
  have "converse n 0 env u i budget reg llm system = Pair (Inl (turns_spent n))" by auto
  then show ?case by (simp add: pairing_return)
next
  case (Suc left)
  have "converse n (Suc left) env u i budget reg llm system
      = then_with (take_turn env u i budget reg llm system)
          (\<lambda>more. if more then converse n left env u i budget reg llm system else Pair (Inr ()))" by auto
  then show ?case using Suc by (auto intro!: pairing_then pairing_turn assms pairing_return)
qed

section \<open>The whole run\<close>

lemma set_status_steps: "set_status env i st err w = Inr (x, w') \<Longrightarrow> steps w' = steps w"
  by (auto simp: set_status_def Let_def result_simps append_event_frame update_run_def tick_def split: option.splits if_splits)

lemma status_session_history:
  "history_steps i (snd (session_scope (set_status env j st err) w)) = history_steps i w"
  by (rule history_same) (auto simp: session_scope_def rolled_back_def tick_def set_status_steps split: sum.splits)

lemma store_status_history:
  "history_steps i (cv_world (snd (store_status env j st err c))) = history_steps i (cv_world c)"
proof -
  obtain r w where s: "session_scope (set_status env j st err) (cv_world c) = (r, w)" by fastforce
  with status_session_history [of i env j st err "cv_world c"] show ?thesis
    by (simp add: store_status_def set_world_def cv_world_def)
qed

lemma end_history: "history_steps i (cv_world (snd (end_with env j st summary err c))) = history_steps i (cv_world c)"
  using store_status_history [of i env j st err c] by (auto simp: end_with_def split: prod.splits sum.splits)

lemma fail_history: "history_steps i (cv_world (snd (fail_run env i why c))) = history_steps i (cv_world c)"
proof (cases why)
  case (OverBudget m)
  have "history_steps i (cv_world (snd (record_step env i Message None (guardrail_step m) c))) = history_steps i (cv_world c)"
    by (rule other_record_history) simp
  then show ?thesis using OverBudget end_history
    by (auto simp: fail_run_def split: stop.splits prod.splits sum.splits)
qed (simp_all add: fail_run_def end_history)

lemma run_readable:
  assumes "\<And>name args. stepless.within (execute_tool u reg name args)" and "answered i (ag_world a)"
  shows "readable i (cv_world (snd (run_agent env u s i goal llm reg n a)))"
proof -
  let ?c0 = "\<lparr>cv_agent = a, cv_calls = 0, cv_turns = 0, cv_summary = [], cv_steps = [],
      cv_messages = [message ''user'' (PStr goal)]\<rparr>"
  let ?sys = "build_system_prompt (as_operator_id s) (int (as_max_proposals s)) (int (as_max_tool_calls s))"
  obtain r c1 where start: "store_status env i RunRunning None ?c0 = (r, c1)" by fastforce
  have "history_steps i (cv_world c1) = history_steps i (ag_world a)"
    using store_status_history [of i env i RunRunning None ?c0] start by (simp add: cv_world_def)
  then have c1: "answered i (cv_world c1)" using assms(2) same_history(1) by blast
  show ?thesis
  proof (cases r)
    case (Inl e)
    then show ?thesis using c1 start by (simp add: run_agent_def Let_def answered_readable)
  next
    case (Inr x)
    obtain r2 c2 where loop: "converse n n env u i (as_max_tool_calls s) reg llm ?sys c1 = (r2, c2)" by fastforce
    have "readable i (cv_world c2)" by (rule pairingD(2) [OF pairing_converse [OF assms(1)] c1 loop])
    then have "readable i (cv_world (snd (fail_run env i why c2)))" "readable i (cv_world (snd (finish_run env i c2)))" for why
      using same_history(2) [OF fail_history] same_history(2) [OF end_history] by (simp_all add: finish_run_def)
    then show ?thesis using start Inr loop by (cases r2) (simp_all add: run_agent_def Let_def)
  qed
qed

lemma execute_readable:
  assumes "answered (jb_run_id j) w"
  shows "readable (jb_run_id j) (snd (execute_run env c u s key given anthropic j w))"
proof -
  let ?i = "jb_run_id j"
  have crash: "readable i (mark_crashed env i v) = readable i v" for i v
    unfolding mark_crashed_def by (rule same_history(2)) (rule status_session_history)
  have set: "readable ?i (snd (session_scope (set_status env ?i RunFailed (Some m)) w))" for m
    using same_history(2) [OF status_session_history] answered_readable [OF assms] by blast
  have "readable ?i (snd (case build_run_context env c u s key j w of
       Inl e \<Rightarrow> (Inr (), mark_crashed env ?i w)
     | Inr (reg, a) \<Rightarrow>
         (case run_agent env u s ?i (run_goal j) llm reg DEFAULT_MAX_TURNS a of
            (Inl e, c') \<Rightarrow> (Inr (), mark_crashed env ?i (cv_world c'))
          | (Inr outcome, c') \<Rightarrow> (Inr (), cv_world c'))))" for llm
  proof (cases "build_run_context env c u s key j w")
    case (Inl e)
    then show ?thesis using answered_readable [OF assms] by (simp add: crash)
  next
    case (Inr ra)
    obtain reg a where ra: "ra = (reg, a)" by (cases ra)
    with Inr obtain ts where "build_registry env ts = Inr reg" and w: "ag_world a = w"
      by (auto simp: build_run_context_def split: sum.splits prod.splits)
    then have "readable ?i (cv_world (snd (run_agent env u s ?i (run_goal j) llm reg DEFAULT_MAX_TURNS a)))"
      using assms by (intro run_readable execute_steps) simp_all
    then show ?thesis using Inr ra by (auto simp: crash split: prod.splits sum.splits)
  qed
  then show ?thesis using set answered_readable [OF assms]
    by (auto simp: execute_run_def split: sum.split llm_exn.split)
qed

text \<open>
  C30: After a run of the agent, whatever the model asked for and Stripe answered, the transcript of the
  payment-history tool is calls each followed by its own answer, with at most one call at the end that was
  never answered; and the history shown beside a proposal is the last one that a successful answer to a
  question about that customer returned, and nothing when there was none.
\<close>

theorem history_shown_is_what_was_read:
  assumes "answered (jb_run_id j) w" and "w' = snd (execute_run env c u s key given anthropic j w)"
  shows "\<exists>looks rest. paired (jb_run_id j) w' looks rest
    \<and> (\<forall>customer. truthy customer \<longrightarrow>
         payment_history_seen (jb_run_id j) customer w' = Inr (last ([] # List.map_filter (shown_of customer) looks)))"
proof -
  from execute_readable [OF assms(1)] obtain looks rest where "paired (jb_run_id j) w' looks rest"
    unfolding assms(2) readable_def by blast
  with history_of_paired [OF this] show ?thesis by blast
qed

end
