(* ===== verification/ApiFacts.thy ===== *)
theory ApiFacts
  imports Api QueryFacts AgentTranscript
begin

text \<open>
  What the public API guarantees: the event stream is the transcript, in order and without gaps, and can
  be resumed; where it ends too early; which transcripts no page can show; and that the status of a
  decision's answer is the gateway's.
\<close>

section \<open>The event stream\<close>

fun steps_of :: "sse list \<Rightarrow> step_view list" where
  "steps_of [] = []"
| "steps_of (StepEvent v # es) = v # steps_of es"
| "steps_of (DoneEvent a b c d # es) = steps_of es"

lemma steps_of_append [simp]: "steps_of (xs @ ys) = steps_of xs @ steps_of ys"
  by (induction xs rule: steps_of.induct) simp_all

lemma steps_of_views [simp]: "steps_of (map StepEvent views) = views"
  by (induction views) simp_all

lemma steps_of_done [simp]: "steps_of [done_event st d] = []"
  by (simp add: done_event_def split: option.split)

text \<open>Between two readings rows may be added at the end of the run's transcript, and none are taken away.\<close>

definition grows :: "string \<Rightarrow> world \<Rightarrow> world \<Rightarrow> bool" where
  "grows i w w' = (\<exists>more. run_steps i w' = run_steps i w @ more
     \<and> (\<forall>s \<in> set (run_steps i w). \<forall>t \<in> set more. st_seq s < st_seq t))"

fun growing :: "string \<Rightarrow> world list \<Rightarrow> bool" where
  "growing i (w # v # ws) = (grows i w v \<and> growing i (v # ws))"
| "growing i _ = True"

lemma append_step_grows:
  assumes "append_step env i kind tool payload w = Inr (n, w')"
  shows "grows i w w'"
proof -
  from append_step_rows [OF assms] obtain s where "written i kind tool payload s" "st_seq s = next_seq i w"
    "steps w' = steps w @ [s]" by blast
  then show ?thesis
    by (auto simp: grows_def run_steps_def written_def intro!: exI [of _ "[s]"] dest!: next_seq_greatest [unfolded run_steps_def, simplified])
qed

lemma collect_seqs: "collect (step_dict ns) ss = Inr views \<Longrightarrow> map sv_seq views = map st_seq ss"
proof (induction ss arbitrary: views)
  case Nil
  then show ?case by simp
next
  case (Cons s ss)
  then show ?case by (auto simp: result_simps step_dict_def)
qed

lemma steps_after_seqs: "steps_after i n w = Inr views \<Longrightarrow> map sv_seq views = map st_seq (tail_of i n w)"
  by (auto simp: steps_after_def result_simps dest: collect_seqs)

lemma insort_key_front: "(\<And>z. z \<in> set zs \<Longrightarrow> f a \<le> f z) \<Longrightarrow> insort_key f a (ys @ zs) = insort_key f a ys @ zs"
  by (induction ys) (cases zs; simp)+

lemma sort_key_appended:
  assumes "\<And>x y. x \<in> set xs \<Longrightarrow> y \<in> set ys \<Longrightarrow> f x \<le> f y"
  shows "sort_key f (xs @ ys) = sort_key f xs @ sort_key f ys"
  using assms
proof (induction xs)
  case Nil
  then show ?case by simp
next
  case (Cons x xs)
  then have "sort_key f (xs @ ys) = sort_key f xs @ sort_key f ys" by simp
  moreover have "insort_key f x (sort_key f xs @ sort_key f ys) = insort_key f x (sort_key f xs) @ sort_key f ys"
    using Cons.prems by (intro insort_key_front) simp
  ultimately show ?case by simp
qed

lemma sorted_le_last: "sorted (map f xs) \<Longrightarrow> x \<in> set xs \<Longrightarrow> f x \<le> f (last xs)"
  by (induction xs) auto

lemma growth_trans:
  assumes "grows i w v" and "grows i v x"
  shows "grows i w x"
proof -
  from assms obtain m1 m2 where 1: "run_steps i v = run_steps i w @ m1"
    "\<forall>s \<in> set (run_steps i w). \<forall>t \<in> set m1. st_seq s < st_seq t"
    and 2: "run_steps i x = run_steps i v @ m2" "\<forall>s \<in> set (run_steps i v). \<forall>t \<in> set m2. st_seq s < st_seq t"
    unfolding grows_def by blast
  then have "run_steps i x = run_steps i w @ (m1 @ m2)"
    and "\<forall>s \<in> set (run_steps i w). \<forall>t \<in> set (m1 @ m2). st_seq s < st_seq t" by auto
  then show ?thesis unfolding grows_def by blast
qed

lemma growing_nth: "growing i (w # ws) \<Longrightarrow> k < length ws \<Longrightarrow> grows i w (ws ! k)"
proof (induction ws arbitrary: w k)
  case Nil
  then show ?case by simp
next
  case (Cons v ws)
  show ?case
  proof (cases k)
    case 0
    then show ?thesis using Cons.prems by simp
  next
    case (Suc j)
    then have "grows i v (ws ! j)" using Cons by simp
    then show ?thesis using Cons.prems Suc by (auto intro: growth_trans)
  qed
qed

text \<open>Reading on from the last number seen gives what is missing.\<close>

lemma tail_grows:
  assumes "grows i w w'"
  shows "tail_of i n w' = tail_of i n w @ tail_of i (if tail_of i n w = [] then n else st_seq (last (tail_of i n w))) w'"
proof -
  from assms obtain more where more: "run_steps i w' = run_steps i w @ more"
    and above: "\<And>s t. s \<in> set (run_steps i w) \<Longrightarrow> t \<in> set more \<Longrightarrow> st_seq s < st_seq t"
    unfolding grows_def by blast
  let ?T = "tail_of i n w" and ?new = "\<lambda>m. filter (\<lambda>s. m < st_seq s)"
  have split: "tail_of i n w' = ?T @ sort_key st_seq (?new n more)"
    unfolding tail_of_def more filter_append by (rule sort_key_appended) (auto intro: less_imp_le above)
  show ?thesis
  proof (cases "?T = []")
    case True
    then show ?thesis using split by simp
  next
    case False
    let ?l = "last ?T"
    have "?l \<in> set ?T" using False by simp
    then have l: "?l \<in> set (run_steps i w)" "n < st_seq ?l" by (simp_all add: tail_of_def)
    have top: "st_seq s \<le> st_seq ?l" if "s \<in> set ?T" for s
      using that by (intro sorted_le_last) (simp_all add: tail_of_def)
    have "?new (st_seq ?l) (run_steps i w) = []"
      using top l(2) by (fastforce simp: tail_of_def filter_empty_conv)
    moreover have "?new (st_seq ?l) more = ?new n more"
      by (rule filter_cong [OF refl]) (use above [OF l(1)] l(2) in fastforce)
    ultimately have "tail_of i (st_seq ?l) w' = sort_key st_seq (?new n more)"
      by (simp add: tail_of_def more)
    then show ?thesis using split False by simp
  qed
qed

lemma last_seq_tail:
  assumes "map sv_seq views = map st_seq ss"
  shows "last_seq n views = (if ss = [] then n else st_seq (last ss))"
  using assms by (auto simp: last_seq_def) (metis last_map map_is_Nil_conv)

lemma stream_steps:
  assumes "stream_events env i n polls = (got, how)" and "growing i (map pl_steps polls)"
  shows "\<exists>k \<le> length polls. map sv_seq (steps_of got) =
      (if k = 0 then [] else map st_seq (tail_of i n (pl_steps (polls ! (k - 1)))))
    \<and> (how = StillOpen \<longrightarrow> k = length polls)"
  using assms
proof (induction polls arbitrary: n got how)
  case Nil
  then show ?case by auto
next
  case (Cons p ps)
  show ?case
  proof (cases "pl_gone p \<or> (\<exists>e. steps_after i n (pl_steps p) = Inl e)")
    case True
    then have "got = []" "how \<noteq> StillOpen" using Cons.prems(1) by (auto split: if_splits)
    then show ?thesis by (intro exI [of _ 0]) simp
  next
    case False
    then obtain views where views: "steps_after i n (pl_steps p) = Inr views" and here: "\<not> pl_gone p"
      by (cases "steps_after i n (pl_steps p)") auto
    note seqs = steps_after_seqs [OF views]
    show ?thesis
    proof (cases "terminal_run (run_status_of i (pl_status p)) \<and> views = []")
      case True
      then have "steps_of got = []" "how \<noteq> StillOpen"
        using Cons.prems(1) views here by (auto simp: Let_def split: sum.splits)
      then show ?thesis by (intro exI [of _ 0]) simp
    next
      case more: False
      obtain later how' where rest: "stream_events env i (last_seq n views) ps = (later, how')" by fastforce
      then have got: "got = map StepEvent views @ later" "how = how'"
        using Cons.prems(1) views here more by (auto simp: Let_def)
      have "growing i (map pl_steps ps)" using Cons.prems(2) by (cases ps) auto
      from Cons.IH [OF rest this] obtain k where k: "k \<le> length ps"
        "map sv_seq (steps_of later) = (if k = 0 then []
           else map st_seq (tail_of i (last_seq n views) (pl_steps (ps ! (k - 1)))))"
        "how' = StillOpen \<longrightarrow> k = length ps" by blast
      have "map sv_seq (steps_of got) = map st_seq (tail_of i n (pl_steps ((p # ps) ! k)))"
      proof (cases k)
        case 0
        then show ?thesis using k(2) seqs got by simp
      next
        case (Suc j)
        then have "grows i (pl_steps p) (pl_steps (ps ! j))"
          using growing_nth [of i "pl_steps p" "map pl_steps ps" j] Cons.prems(2) k(1) by simp
        from tail_grows [OF this, of n] show ?thesis using Suc k(2) seqs got by (simp add: last_seq_tail [OF seqs])
      qed
      then show ?thesis using k(1,3) got by (intro exI [of _ "Suc k"]) simp
    qed
  qed
qed

lemma stream_resumes:
  assumes "stream_events env i n ps = (got, StillOpen)"
  shows "stream_events env i n (ps @ qs)
    = (case stream_events env i (last_seq n (steps_of got)) qs of (later, how) \<Rightarrow> (got @ later, how))"
  using assms
proof (induction ps arbitrary: n got)
  case Nil
  then show ?case by (simp add: last_seq_def)
next
  case (Cons p ps)
  then obtain views where views: "steps_after i n (pl_steps p) = Inr views" and here: "\<not> pl_gone p"
    and more: "\<not> (terminal_run (run_status_of i (pl_status p)) \<and> views = [])"
    by (cases "steps_after i n (pl_steps p)") (auto simp: Let_def split: if_splits sum.splits)
  then obtain later where rest: "stream_events env i (last_seq n views) ps = (later, StillOpen)"
    and got: "got = map StepEvent views @ later"
    using Cons.prems by (auto simp: Let_def split: prod.splits)
  have "last_seq (last_seq n views) (steps_of later) = last_seq n (steps_of got)"
    by (simp add: got last_seq_def)
  then show ?case using Cons.IH [OF rest] views here more got
    by (auto simp: Let_def split: prod.splits)
qed

text \<open>
  C31: While the run only appends to its transcript, what the stream has sent is the transcript behind the
  number it started from, in order, without a gap and without a repetition, as of one of its readings, the
  last one while it is open; and a client that comes back with the last number it received goes on as if
  it had never left.
\<close>

theorem stream_is_the_transcript:
  assumes "stream_events env i n polls = (got, how)" and "growing i (map pl_steps polls)"
  shows "(\<exists>k \<le> length polls. map sv_seq (steps_of got) =
        (if k = 0 then [] else map st_seq (tail_of i n (pl_steps (polls ! (k - 1)))))
      \<and> (how = StillOpen \<longrightarrow> k = length polls))
    \<and> (how = StillOpen \<longrightarrow> stream_events env i n (polls @ qs)
        = (case stream_events env i (last_seq n (steps_of got)) qs of (later, how') \<Rightarrow> (got @ later, how')))"
  using stream_steps [OF assms] stream_resumes [of env i n polls got qs] assms(1) by simp

text \<open>
  The stream's two reads are two sessions. When the run writes its last step and ends between them, the
  stream says done and ends, and that step is never sent: the client that was told the run is over does
  not have its end.
\<close>

theorem stream_can_miss_the_end:
  assumes "steps_after i n w = Inr []"
    and "append_step env i kind tool payload w = Inr (Suc n, w1)"
    and "set_status env i st err w1 = Inr ((), w2)" and "ends_run st"
    and "get_run env i 0 w2 = Inr (d, w3)"
  shows "stream_events env i n (\<lparr>pl_gone = False, pl_steps = w, pl_status = w2, pl_detail = w2\<rparr> # polls)
      = ([done_event (Some st) d], Finished)
    \<and> (\<exists>s \<in> set (run_steps i w2). st_seq s = Suc n \<and> written i kind tool payload s)"
proof -
  from append_step_rows [OF assms(2)] obtain s where s: "written i kind tool payload s" "st_seq s = next_seq i w"
    and w1: "steps w1 = steps w @ [s]" by blast
  have "next_seq i w = Suc n" using assms(2) by (auto simp: append_step_def Let_def result_simps)
  moreover have "s \<in> set (run_steps i w2)"
    using s w1 set_status_steps [OF assms(3)] by (simp add: run_steps_def written_def)
  ultimately have last: "\<exists>s \<in> set (run_steps i w2). st_seq s = Suc n \<and> written i kind tool payload s"
    using s by auto
  from assms(3) obtain r where "find_run i w1 = Some r" by (auto simp: set_status_def split: option.splits)
  then have "run_status_of i w2 = Some st"
    using assms(3,4) lookup_by_Some [of rn_id i "runs w1" r]
    by (auto simp: set_status_def Let_def result_simps append_event_frame update_run_def tick_def run_status_of_def
        lookup_update_same)
  moreover have "terminal_run (Some st)" using assms(4) by (auto simp: terminal_run_def ends_run_def)
  ultimately show ?thesis using assms(1,5) last by (simp add: session_scope_def)
qed

section \<open>Transcripts that no page can show\<close>

lemma collect_fails: "x \<in> set xs \<Longrightarrow> f x = Inl e \<Longrightarrow> \<exists>e. collect f xs = Inl e"
proof (induction xs)
  case Nil
  then show ?case by simp
next
  case (Cons y ys)
  then show ?case by (cases "f y"; cases "collect f ys") auto
qed

lemma and_then_fails: "\<exists>e. r = Inl e \<Longrightarrow> \<exists>e. and_then r f = Inl e"
  by auto

definition unreadable_call :: "step_row \<Rightarrow> bool" where
  "unreadable_call s = (st_type s = ToolCall \<and> (case dict_get ''arguments'' (st_payload s) of
      PDict args \<Rightarrow> truthy (dict_get ''customer_id'' args) \<and> \<not> hashable (dict_get ''customer_id'' args)
    | _ \<Rightarrow> False))"

lemma unreadable_step:
  assumes "unreadable_call s"
  shows "step_dict (Some ns) s = Inl unhashable"
proof -
  from assms obtain args where a: "dict_get ''arguments'' (st_payload s) = PDict args"
    and c: "truthy (dict_get ''customer_id'' args)" "\<not> hashable (dict_get ''customer_id'' args)" "st_type s = ToolCall"
    by (auto simp: unreadable_call_def split: pyval.splits)
  have "args \<noteq> []" using c(1) by (auto simp: dict_get_def)
  then show ?thesis using a c by (simp add: step_dict_def step_about_def py_or_def about_customer_def Let_def hash_key_def)
qed

lemma unreadable_tail:
  assumes "s \<in> set (run_steps i w)" and "unreadable_call s" and "n < st_seq s"
  shows "\<exists>e. collect (step_dict (Some ns)) (tail_of i n w) = Inl e"
  using assms unreadable_step [OF assms(2)] by (intro collect_fails [of s]) (auto simp: tail_of_def)

lemma settle_keeps:
  assumes "settle_run_if_decided env j w = Inr (b, w')"
  shows "steps w' = steps w" and "(find_run i w' = None) = (find_run i w = None)"
proof -
  have "map rn_id (runs w') = map rn_id (runs w)"
    using assms by (auto simp: settle_run_if_decided_def Let_def result_simps append_event_frame update_run_def tick_def
        keys_update_by split: option.splits if_splits)
  then have "rn_id ` set (runs w') = rn_id ` set (runs w)" by (metis list.set_map)
  then show "(find_run i w' = None) = (find_run i w = None)" by (simp add: lookup_by_None)
  show "steps w' = steps w"
    using assms by (auto simp: settle_run_if_decided_def Let_def result_simps append_event_frame update_run_def tick_def
        split: option.splits if_splits)
qed

lemma unreadable_hides:
  assumes "s \<in> set (run_steps i w)" and "unreadable_call s" and "n < st_seq s" and "find_run i w \<noteq> None"
  shows "(\<exists>e. get_run env i n w = Inl e) \<and> (\<exists>e. steps_after i n w = Inl e)
    \<and> (\<not> pl_gone p \<and> pl_steps p = w \<longrightarrow> (\<exists>e. stream_events env i n (p # polls) = ([], StreamBroke e)))"
proof -
  have after: "\<exists>e. steps_after i n w = Inl e"
    using unreadable_tail [OF assms(1-3)] by (cases "transcript_index i w") (auto simp: steps_after_def)
  have "\<exists>e. get_run env i n w = Inl e"
  proof (cases "expire_stale_proposals env w")
    case (Inl e)
    then show ?thesis by (simp add: get_run_def)
  next
    case (Inr x)
    then obtain m w1 where e: "expire_stale_proposals env w = Inr (m, w1)" by (cases x) simp
    show ?thesis
    proof (cases "settle_run_if_decided env i w1")
      case (Inl e')
      then show ?thesis using e by (simp add: get_run_def)
    next
      case (Inr y)
      then obtain b w2 where s: "settle_run_if_decided env i w1 = Inr (b, w2)" by (cases y) simp
      have "steps w2 = steps w" using settle_keeps(1) [OF s] expire_frame_more [OF e] by simp
      then have "tail_of i n w2 = tail_of i n w" by (simp add: tail_of_def run_steps_def)
      moreover have "find_run i w2 \<noteq> None"
        using settle_keeps(2) [OF s] expire_frame(5) [OF e] assms(4) by simp
      ultimately show ?thesis using e s unreadable_tail [OF assms(1-3)]
        by (cases "transcript_index i w2") (auto simp: get_run_def intro!: and_then_fails)
    qed
  qed
  with after show ?thesis by auto
qed

text \<open>
  A tool call whose customer id is a list or a dict is refused by the tool and stays in the transcript,
  and from then on, whatever the run adds, its page, its API answer and its event stream all fail: the id
  cannot be a key of the names.
\<close>

theorem unhashable_id_hides_the_run:
  assumes "append_step env i ToolCall tool (call_payload reg call) w0 = Inr (k, w1)"
    and "truthy (dict_get ''customer_id'' (tc_arguments call))" and "\<not> hashable (dict_get ''customer_id'' (tc_arguments call))"
    and "grows i w1 w" and "find_run i w \<noteq> None" and "n < k"
  shows "(\<exists>e. get_run env i n w = Inl e) \<and> (\<exists>e. steps_after i n w = Inl e)
    \<and> (\<not> pl_gone p \<and> pl_steps p = w \<longrightarrow> (\<exists>e. stream_events env i n (p # polls) = ([], StreamBroke e)))"
proof -
  from append_step_rows [OF assms(1)] obtain s where s: "written i ToolCall tool (call_payload reg call) s"
    "st_seq s = next_seq i w0" and w1: "steps w1 = steps w0 @ [s]" by blast
  have "k = next_seq i w0" using assms(1) by (auto simp: append_step_def Let_def result_simps)
  then have "n < st_seq s" using s(2) assms(6) by simp
  moreover have "s \<in> set (run_steps i w1)" using s w1 by (simp add: run_steps_def written_def)
  then have "s \<in> set (run_steps i w)" using assms(4) by (auto simp: grows_def)
  moreover have "unreadable_call s"
    using s(1) assms(2,3) by (simp add: unreadable_call_def written_def call_payload_def dict_get_def)
  ultimately show ?thesis using unreadable_hides assms(5) by blast
qed

end
