(* ===== verification/Markdown.thy ===== *)
theory Markdown
  imports Guardrails
begin

text \<open>
  \<^verbatim>\<open>app/web/markdown.py\<close>: the renderer of the agent's closing summary. The model wrote the text, so the
  renderer is a boundary: whatever the text is, the markup holds no tag but the renderer's own. \<^verbatim>\<open>escape\<close>
  is the library \<^verbatim>\<open>markupsafe\<close>'s and a parameter; of it is assumed only that no angle bracket is left.
\<close>

section \<open>Inline formatting\<close>

abbreviation star :: char where "star \<equiv> CHR ''*''"
abbreviation backtick :: char where "backtick \<equiv> CHR 0x60"

definition class_attr :: "string \<Rightarrow> string" where
  "class_attr value = '' class='' @ [quote_char] @ value @ [quote_char]"

definition tag :: "string \<Rightarrow> string" where
  "tag t = ''<'' @ t @ ''>''"

text \<open>\<^verbatim>\<open>(.+?)\*\*\<close> behind the opening stars: the shortest text of at least one character in front of two stars.\<close>

fun upto_stars :: "string \<Rightarrow> (string \<times> string) option" where
  "upto_stars [] = None"
| "upto_stars [c] = None"
| "upto_stars (c # d # cs) =
     (if c = star \<and> d = star then Some ([], cs)
      else map_option (\<lambda>(b, rest). (c # b, rest)) (upto_stars (d # cs)))"

fun bold_body :: "string \<Rightarrow> (string \<times> string) option" where
  "bold_body [] = None"
| "bold_body (c # cs) = map_option (\<lambda>(b, rest). (c # b, rest)) (upto_stars cs)"

lemma upto_stars_Some: "upto_stars s = Some (b, rest) \<Longrightarrow> s = b @ [star, star] @ rest"
  by (induction s arbitrary: b rule: upto_stars.induct) (auto split: if_splits)

lemma bold_body_Some: "bold_body s = Some (b, rest) \<Longrightarrow> s = b @ [star, star] @ rest"
  by (cases s) (auto dest: upto_stars_Some)

function bold :: "string \<Rightarrow> string" where
  "bold [] = []"
| "bold (c # cs) =
     (case (if prefix [star, star] (c # cs) then bold_body (drop 2 (c # cs)) else None) of
        Some (b, rest) \<Rightarrow> tag ''strong'' @ b @ tag ''/strong'' @ bold rest
      | None \<Rightarrow> c # bold cs)"
  by pat_completeness auto
termination
  by (relation "measure length") (auto simp: numeral_2_eq_2 split: if_splits dest!: arg_cong [of _ _ length, OF bold_body_Some])

text \<open>\<^verbatim>\<open>`([^`]+)`\<close>: what stands between two backticks, if anything does.\<close>

function code :: "string \<Rightarrow> string" where
  "code [] = []"
| "code (c # cs) =
     (let b = takeWhile (\<lambda>c. c \<noteq> backtick) cs; rest = dropWhile (\<lambda>c. c \<noteq> backtick) cs in
      if c = backtick \<and> b \<noteq> [] \<and> rest \<noteq> []
      then tag (''code'' @ class_attr ''mono text-xs'') @ b @ tag ''/code'' @ code (tl rest)
      else c # code cs)"
  by pat_completeness auto
termination
  by (relation "measure length") (auto simp: less_Suc_eq_le intro: le_trans [OF diff_le_self length_dropWhile_le])

definition inline :: "string \<Rightarrow> string" where
  "inline t = code (bold t)"

section \<open>Tables\<close>

definition strip_of :: "char \<Rightarrow> string \<Rightarrow> string" where
  "strip_of c s = rev (dropWhile (\<lambda>x. x = c) (rev (dropWhile (\<lambda>x. x = c) s)))"

definition cells :: "string \<Rightarrow> string list" where
  "cells line = map strip (split_on (CHR ''|'') (strip_of (CHR ''|'') (strip line)))"

text \<open>
  \<^verbatim>\<open>^\s*\|?[\s:|-]+\|[\s:|-]*$\<close>: white space, colons, bars and dashes, with a bar that is not the first.
\<close>

definition divider_char :: "nat \<Rightarrow> bool" where
  "divider_char n = (space_char n \<or> n \<in> {58, 124, 45})"

definition table_divider :: "string \<Rightarrow> bool" where
  "table_divider s =
     (let cs = codepoints s in list_all divider_char cs \<and> (124 :: nat) \<in> set (tl cs))"

definition th_class :: string where "th_class = ''border-b rule py-1.5 pr-4 text-left font-medium text-slate-500''"
definition td_class :: string where "td_class = ''border-b border-slate-50 py-1.5 pr-4 align-top''"

definition table_row :: "string \<Rightarrow> string" where
  "table_row row =
     tag ''tr'' @ concat (map (\<lambda>cell. tag (''td'' @ class_attr td_class) @ inline cell @ tag ''/td'') (cells row)) @ tag ''/tr''"

definition render_table :: "string list \<Rightarrow> string" where
  "render_table rows =
     tag (''div'' @ class_attr ''overflow-x-auto'') @ tag (''table'' @ class_attr ''w-full text-xs'') @ tag ''thead'' @ tag ''tr''
     @ concat (map (\<lambda>cell. tag (''th'' @ class_attr th_class) @ inline cell @ tag ''/th'') (cells (hd rows)))
     @ tag ''/tr'' @ tag ''/thead'' @ tag ''tbody''
     @ concat (map table_row (tl rows))
     @ tag ''/tbody'' @ tag ''/table'' @ tag ''/div''"

section \<open>Lines\<close>

record markdown =
  md_html :: "string list"
  md_paragraph :: "string list"
  md_bullets :: "string list"
  md_table :: "string list"

definition flush_paragraph :: "markdown \<Rightarrow> markdown" where
  "flush_paragraph m =
     (if md_paragraph m = [] then m
      else m\<lparr>md_html := md_html m @ [tag (''p'' @ class_attr ''mt-2'') @ inline (join '' '' (md_paragraph m)) @ tag ''/p''],
             md_paragraph := []\<rparr>)"

definition flush_bullets :: "markdown \<Rightarrow> markdown" where
  "flush_bullets m =
     (if md_bullets m = [] then m
      else m\<lparr>md_html := md_html m @ [tag (''ul'' @ class_attr ''mt-2 list-disc space-y-1 pl-5'')]
               @ map (\<lambda>item. tag ''li'' @ inline item @ tag ''/li'') (md_bullets m) @ [tag ''/ul''],
             md_bullets := []\<rparr>)"

definition flush_table :: "markdown \<Rightarrow> markdown" where
  "flush_table m =
     (if md_table m = [] then m
      else m\<lparr>md_html := md_html m @ [if 1 < length (md_table m) then render_table (md_table m)
               else tag ''p'' @ inline (hd (md_table m)) @ tag ''/p''],
             md_table := []\<rparr>)"

definition flush :: "markdown \<Rightarrow> markdown" where
  "flush m = flush_table (flush_bullets (flush_paragraph m))"

definition lstrip_hash :: "string \<Rightarrow> string" where
  "lstrip_hash s = dropWhile (\<lambda>c. c = CHR ''#'') s"

definition heading :: "string \<Rightarrow> string" where
  "heading s =
     (let level = length s - length (lstrip_hash s); size = (if level \<le> 2 then ''text-sm'' else ''text-xs'') in
      tag (''h3'' @ class_attr (''mt-3 '' @ size @ '' font-semibold'')) @ inline (strip (lstrip_hash s)) @ tag ''/h3'')"

definition text_line :: "string \<Rightarrow> markdown \<Rightarrow> markdown" where
  "text_line s m =
     (if s = [] then flush m
      else if prefix ''#'' s then (let m = flush m in m\<lparr>md_html := md_html m @ [heading s]\<rparr>)
      else if prefix ''- '' s \<or> prefix ''* '' s then
        (let m = (if md_paragraph m \<noteq> [] then flush m else m) in m\<lparr>md_bullets := md_bullets m @ [drop 2 s]\<rparr>)
      else
        (let m = (if md_bullets m \<noteq> [] then flush m else m) in m\<lparr>md_paragraph := md_paragraph m @ [s]\<rparr>))"

definition render_line :: "string \<Rightarrow> markdown \<Rightarrow> markdown" where
  "render_line line m =
     (let s = strip line in
      if prefix ''|'' s then
        (if table_divider s then m
         else let m = (if md_paragraph m \<noteq> [] \<or> md_bullets m \<noteq> [] then flush m else m)
              in m\<lparr>md_table := md_table m @ [s]\<rparr>)
      else text_line s (if md_table m \<noteq> [] then flush m else m))"

text \<open>\<^verbatim>\<open>replace("\r\n", "\n")\<close>.\<close>

fun unix_lines :: "string \<Rightarrow> string" where
  "unix_lines (c # d # cs) =
     (if c = CHR 0x0D \<and> d = CHR 0x0A then d # unix_lines cs else c # unix_lines (d # cs))"
| "unix_lines s = s"

definition render_summary :: "(string \<Rightarrow> string) \<Rightarrow> string option \<Rightarrow> string" where
  "render_summary escape t =
     (case t of
        None \<Rightarrow> []
      | Some t \<Rightarrow>
          if t = [] then []
          else concat (md_html (flush (fold render_line (split_on (CHR 0x0A) (unix_lines (escape t)))
                 \<lparr>md_html = [], md_paragraph = [], md_bullets = [], md_table = []\<rparr>))))"


section \<open>No tag but the renderer's own\<close>

definition own_tags :: "string list" where
  "own_tags = map tag
     [''strong'', ''/strong'', ''code'' @ class_attr ''mono text-xs'', ''/code'',
      ''div'' @ class_attr ''overflow-x-auto'', ''/div'', ''table'' @ class_attr ''w-full text-xs'', ''/table'',
      ''thead'', ''/thead'', ''tbody'', ''/tbody'', ''tr'', ''/tr'', ''th'' @ class_attr th_class, ''/th'',
      ''td'' @ class_attr td_class, ''/td'', ''p'' @ class_attr ''mt-2'', ''p'', ''/p'',
      ''ul'' @ class_attr ''mt-2 list-disc space-y-1 pl-5'', ''/ul'', ''li'', ''/li'',
      ''h3'' @ class_attr ''mt-3 text-sm font-semibold'', ''h3'' @ class_attr ''mt-3 text-xs font-semibold'', ''/h3'']"

definition no_brackets :: "string \<Rightarrow> bool" where
  "no_brackets s = (CHR ''<'' \<notin> set s \<and> CHR ''>'' \<notin> set s)"

text \<open>Markup that is characters other than angle brackets, and the renderer's tags.\<close>

inductive tame :: "string \<Rightarrow> bool" where
  tame_end: "tame []"
| tame_char: "c \<noteq> CHR ''<'' \<Longrightarrow> c \<noteq> CHR ''>'' \<Longrightarrow> tame s \<Longrightarrow> tame (c # s)"
| tame_tag: "t \<in> set own_tags \<Longrightarrow> tame s \<Longrightarrow> tame (t @ s)"

named_theorems tame_intros \<open>how tame markup is put together\<close>

lemma tame_append [tame_intros]: "tame s \<Longrightarrow> tame t \<Longrightarrow> tame (s @ t)"
  by (induction rule: tame.induct) (auto intro: tame.intros)

lemma tame_concat: "(\<And>s. s \<in> set ss \<Longrightarrow> tame s) \<Longrightarrow> tame (concat ss)"
  by (induction ss) (auto intro: tame_end tame_append)

lemma tame_own: "t \<in> set own_tags \<Longrightarrow> tame t"
  using tame_tag [OF _ tame_end] by simp

lemma tame_text: "no_brackets s \<Longrightarrow> tame s"
  by (induction s) (auto simp: no_brackets_def intro: tame.intros)

lemma tame_tags [tame_intros]:
  "tame (tag ''strong'')" "tame (tag ''/strong'')" "tame (tag (''code'' @ class_attr ''mono text-xs''))" "tame (tag ''/code'')"
  "tame (tag (''div'' @ class_attr ''overflow-x-auto''))" "tame (tag ''/div'')" "tame (tag (''table'' @ class_attr ''w-full text-xs''))"
  "tame (tag ''/table'')" "tame (tag ''thead'')" "tame (tag ''/thead'')" "tame (tag ''tbody'')" "tame (tag ''/tbody'')"
  "tame (tag ''tr'')" "tame (tag ''/tr'')" "tame (tag (''th'' @ class_attr th_class))" "tame (tag ''/th'')"
  "tame (tag (''td'' @ class_attr td_class))" "tame (tag ''/td'')" "tame (tag (''p'' @ class_attr ''mt-2''))" "tame (tag ''p'')"
  "tame (tag ''/p'')" "tame (tag (''ul'' @ class_attr ''mt-2 list-disc space-y-1 pl-5''))" "tame (tag ''/ul'')" "tame (tag ''li'')"
  "tame (tag ''/li'')" "tame (tag (''h3'' @ class_attr ''mt-3 text-sm font-semibold''))"
  "tame (tag (''h3'' @ class_attr ''mt-3 text-xs font-semibold''))" "tame (tag ''/h3'')"
  by (rule tame_own; simp add: own_tags_def)+

lemmas tame_tags_simp [tame_intros] = tame_tags [simplified]

text \<open>A text keeps its absence of brackets through everything that cuts it up.\<close>

lemma no_brackets_simps [simp]:
  "no_brackets []" "no_brackets (s @ t) \<longleftrightarrow> no_brackets s \<and> no_brackets t"
  "no_brackets (c # s) \<longleftrightarrow> c \<noteq> CHR ''<'' \<and> c \<noteq> CHR ''>'' \<and> no_brackets s"
  by (auto simp: no_brackets_def)

lemma no_brackets_mono: "no_brackets s \<Longrightarrow> set t \<subseteq> set s \<Longrightarrow> no_brackets t"
  by (auto simp: no_brackets_def)

lemma set_lstrip: "set (lstrip s) \<subseteq> set s"
proof (induction s rule: lstrip.induct)
  case (1 s)
  then show ?case by (subst lstrip.simps) (auto dest: in_set_dropD)
qed

lemma set_rstrip: "set (rstrip s) \<subseteq> set s"
proof (induction s rule: rstrip.induct)
  case (1 s)
  then show ?case by (subst rstrip.simps) (auto dest: in_set_takeD)
qed

lemma set_strip: "set (strip s) \<subseteq> set s"
  using set_lstrip set_rstrip unfolding strip_def by blast

lemma set_strip_of: "set (strip_of c s) \<subseteq> set s"
  by (auto simp: strip_of_def dest!: set_dropWhileD)

lemma set_split_on: "p \<in> set (split_on d s) \<Longrightarrow> set p \<subseteq> set s"
proof (induction s arbitrary: p)
  case Nil
  then show ?case by simp
next
  case (Cons c s)
  show ?case
  proof (cases "c = d")
    case True
    then show ?thesis using Cons by auto
  next
    case False
    obtain q qs where q: "split_on d s = q # qs" by (metis list.exhaust split_on_nonempty)
    then have "set q \<subseteq> set s" using Cons.IH [of q] by simp
    moreover have "p = c # q \<or> p \<in> set qs" using Cons.prems False q by auto
    ultimately show ?thesis using Cons.IH [of p] q by auto
  qed
qed

lemma set_join: "set (join sep ss) \<subseteq> set sep \<union> (\<Union>s \<in> set ss. set s)"
  by (induction sep ss rule: join.induct) auto

lemma set_unix_lines: "set (unix_lines s) \<subseteq> set s"
  by (induction s rule: unix_lines.induct) auto

lemma no_brackets_cells: "no_brackets s \<Longrightarrow> p \<in> set (cells s) \<Longrightarrow> no_brackets p"
  using set_strip set_strip_of set_split_on unfolding cells_def
  by (auto intro!: no_brackets_mono [of s]) blast

lemma tame_bold: "no_brackets s \<Longrightarrow> tame (bold s)"
proof (induction s rule: bold.induct)
  case 1
  then show ?case by (simp add: tame_end)
next
  case (2 c cs)
  show ?case
  proof (cases "if prefix [star, star] (c # cs) then bold_body (drop 2 (c # cs)) else None")
    case None
    then show ?thesis using 2 by (simp add: tame_char)
  next
    case (Some x)
    obtain b rest where x: "x = (b, rest)" by (cases x)
    with Some have body: "bold_body (drop 2 (c # cs)) = Some (b, rest)" by (simp split: if_splits)
    have "no_brackets (drop 2 (c # cs))" by (rule no_brackets_mono [OF "2.prems"]) (rule set_drop_subset)
    then have plain: "no_brackets b" "no_brackets rest" using bold_body_Some [OF body] by simp_all
    have "bold (c # cs) = tag ''strong'' @ b @ tag ''/strong'' @ bold rest" using Some x by simp
    moreover have "tame (bold rest)" using "2.IH"(2) Some x plain(2) by simp
    ultimately show ?thesis using tame_text [OF plain(1)] by (auto intro: tame_intros)
  qed
qed

text \<open>Backticks stand in no tag, so that markup cut at a backtick stays tame.\<close>

lemma tags_without_backticks: "t \<in> set own_tags \<Longrightarrow> backtick \<notin> set t \<and> t \<noteq> []"
proof -
  have "list_all (\<lambda>t. backtick \<notin> set t \<and> t \<noteq> []) own_tags"
    by (simp add: own_tags_def tag_def class_attr_def th_class_def td_class_def)
  then show "t \<in> set own_tags \<Longrightarrow> backtick \<notin> set t \<and> t \<noteq> []" by (simp add: list_all_iff)
qed

lemma tame_cut:
  assumes "tame (a @ backtick # b)" and "backtick \<notin> set a"
  shows "tame a \<and> tame b"
  using assms
proof (induction "a @ backtick # b" arbitrary: a rule: tame.induct)
  case tame_end
  then show ?case by simp
next
  case (tame_char c s)
  then show ?case by (cases a) (auto intro: tame.intros)
next
  case (tame_tag t s)
  have t: "backtick \<notin> set t" using tags_without_backticks [OF tame_tag(1)] by simp
  obtain us where "a = t @ us \<and> s = us @ backtick # b"
  proof (rule append_eq_append_conv2 [THEN iffD1, OF tame_tag.hyps(4), THEN exE])
    fix us assume *: "t = a @ us \<and> us @ s = backtick # b \<or> t @ us = a \<and> s = us @ backtick # b"
    have "us = []" if "us @ s = backtick # b" "t = a @ us" using that t by (cases us) auto
    then show thesis using * that by auto
  qed
  with tame_tag show ?case by (auto intro: tame.intros)
qed

lemma code_plain: "backtick \<notin> set a \<Longrightarrow> code (a @ s) = a @ code s"
  by (induction a) (auto simp: Let_def)

lemma tame_code: "tame s \<Longrightarrow> tame (code s)"
proof (induction s rule: length_induct)
  case (1 s)
  show ?case
  proof (cases "backtick \<in> set s")
    case False
    then show ?thesis using 1 code_plain [of s "[]"] by simp
  next
    case True
    then obtain a b where s: "s = a @ backtick # b" and a: "backtick \<notin> set a" by (metis split_list_first)
    from tame_cut [of a b] 1 s a have ab: "tame a" "tame b" by auto
    have plain: "tame (backtick # code b)" using 1 s ab(2) by (auto intro: tame_char)
    let ?in = "takeWhile (\<lambda>c. c \<noteq> backtick) b" and ?out = "dropWhile (\<lambda>c. c \<noteq> backtick) b"
    have "tame (code (backtick # b))"
    proof (cases "?in \<noteq> [] \<and> ?out \<noteq> []")
      case True
      then have "hd ?out = backtick" using hd_dropWhile by fast
      with True obtain rest where out: "?out = backtick # rest" by (cases ?out) auto
      have "?in @ ?out = b" by simp
      then have b: "?in @ backtick # rest = b" unfolding out .
      have "backtick \<notin> set ?in" by (auto dest: set_takeWhileD)
      from tame_cut [OF _ this, of rest] ab(2) have cut: "tame ?in" "tame rest" unfolding b by simp_all
      have "length rest < length s" using s arg_cong [OF b, of length] by simp
      then have "tame (code rest)" using 1 cut(2) by blast
      moreover have "code (backtick # b) = tag (''code'' @ class_attr ''mono text-xs'') @ ?in @ tag ''/code'' @ code rest"
        using True out by (simp add: Let_def)
      ultimately show ?thesis using cut(1) by (simp only:) (intro tame_intros)
    next
      case False
      then show ?thesis using plain by (auto simp: Let_def)
    qed
    then show ?thesis using code_plain [OF a, of "backtick # b"] s ab(1) by (auto intro: tame_append)
  qed
qed

lemma tame_inline [tame_intros]: "no_brackets s \<Longrightarrow> tame (inline s)"
  by (simp add: inline_def tame_code tame_bold)

text \<open>The state between two lines.\<close>

definition holds_text :: "markdown \<Rightarrow> bool" where
  "holds_text m = ((\<forall>h \<in> set (md_html m). tame h)
     \<and> (\<forall>t \<in> set (md_paragraph m) \<union> set (md_bullets m) \<union> set (md_table m). no_brackets t))"

lemma no_brackets_join: "(\<And>t. t \<in> set ts \<Longrightarrow> no_brackets t) \<Longrightarrow> no_brackets (join '' '' ts)"
  using set_join [of "'' ''" ts] by (auto simp: no_brackets_def)

lemma tame_cells: "no_brackets row \<Longrightarrow> (\<And>cell. no_brackets cell \<Longrightarrow> tame (f cell)) \<Longrightarrow> tame (concat (map f (cells row)))"
  by (rule tame_concat) (auto dest: no_brackets_cells)

lemma tame_row: "no_brackets row \<Longrightarrow> tame (table_row row)"
  unfolding table_row_def by (intro tame_intros tame_cells)

lemma tame_table:
  assumes "\<And>t. t \<in> set rows \<Longrightarrow> no_brackets t" and "rows \<noteq> []"
  shows "tame (render_table rows)"
proof -
  have head: "no_brackets (hd rows)" using assms by simp
  have body: "tame (concat (map table_row (tl rows)))"
    using assms by (intro tame_concat) (auto intro!: tame_row dest: list.set_sel(2))
  show ?thesis unfolding render_table_def by (intro tame_intros body tame_cells [OF head])
qed

lemma holds_flush: "holds_text m \<Longrightarrow> holds_text (flush m)"
proof -
  have p: "holds_text m \<Longrightarrow> holds_text (flush_paragraph m)" for m
    by (auto simp: holds_text_def flush_paragraph_def intro!: tame_intros no_brackets_join)
  have b: "holds_text m \<Longrightarrow> holds_text (flush_bullets m)" for m
    by (auto simp: holds_text_def flush_bullets_def intro!: tame_intros)
  have t: "holds_text m \<Longrightarrow> holds_text (flush_table m)" for m
    by (auto simp: holds_text_def flush_table_def intro!: tame_intros tame_table)
  show "holds_text m \<Longrightarrow> holds_text (flush m)" unfolding flush_def by (intro p b t)
qed

lemma tame_heading: "no_brackets s \<Longrightarrow> tame (heading s)"
proof -
  assume s: "no_brackets s"
  have "set (strip (lstrip_hash s)) \<subseteq> set s"
    using set_strip [of "lstrip_hash s"] by (auto simp: lstrip_hash_def dest!: set_dropWhileD)
  with s have "tame (inline (strip (lstrip_hash s)))" by (intro tame_inline) (rule no_brackets_mono)
  then show ?thesis using tame_tags(26,27) by (auto simp: heading_def Let_def intro!: tame_append tame_tags)
qed

lemma holds_line: "no_brackets line \<Longrightarrow> holds_text m \<Longrightarrow> holds_text (render_line line m)"
proof -
  assume line: "no_brackets line" and m: "holds_text m"
  have s: "no_brackets (strip line)" by (rule no_brackets_mono [OF line set_strip])
  have d: "no_brackets (drop 2 (strip line))" by (rule no_brackets_mono [OF s]) (rule set_drop_subset)
  have either: "holds_text a \<Longrightarrow> holds_text b \<Longrightarrow> holds_text (if c then a else b)" for a b c by simp
  have add: "holds_text m \<Longrightarrow> holds_text (m\<lparr>md_html := md_html m @ [heading (strip line)]\<rparr>)"
    "holds_text m \<Longrightarrow> holds_text (m\<lparr>md_bullets := md_bullets m @ [drop 2 (strip line)]\<rparr>)"
    "holds_text m \<Longrightarrow> holds_text (m\<lparr>md_paragraph := md_paragraph m @ [strip line]\<rparr>)"
    "holds_text m \<Longrightarrow> holds_text (m\<lparr>md_table := md_table m @ [strip line]\<rparr>)" for m
    using s d tame_heading [OF s] by (simp_all add: holds_text_def ball_Un)
  have text_line: "holds_text (text_line (strip line) m)" if "holds_text m" for m
    unfolding text_line_def Let_def by (intro either add holds_flush that)
  show ?thesis unfolding render_line_def Let_def
    by (intro either add holds_flush text_line m)
qed

definition leaves_no_brackets :: "(string \<Rightarrow> string) \<Rightarrow> bool" where
  "leaves_no_brackets escape = (\<forall>t. no_brackets (escape t))"

text \<open>
  C32: Whatever the model wrote, the rendered summary is characters other than angle brackets and the
  renderer's own tags: no markup of the model's reaches the page.
\<close>

theorem summary_holds_only_own_tags:
  assumes "leaves_no_brackets escape"
  shows "tame (render_summary escape t)"
proof (cases "t = None \<or> t = Some []")
  case True
  then show ?thesis by (auto simp: render_summary_def tame_end)
next
  case False
  then obtain s where t: "t = Some s" "s \<noteq> []" by auto
  let ?lines = "split_on (CHR 0x0A) (unix_lines (escape s))"
  let ?start = "\<lparr>md_html = [], md_paragraph = [], md_bullets = [], md_table = []\<rparr>"
  have "no_brackets (escape s)" using assms by (simp add: leaves_no_brackets_def)
  then have lines: "no_brackets line" if "line \<in> set ?lines" for line
    using set_split_on [OF that] set_unix_lines by (blast intro: no_brackets_mono)
  have "holds_text (fold render_line ls m)" if "\<forall>l \<in> set ls. no_brackets l" "holds_text m" for ls m
    using that by (induction ls arbitrary: m) (simp_all add: holds_line)
  from this [of ?lines ?start] have "holds_text (fold render_line ?lines ?start)"
    using lines by (simp add: holds_text_def)
  then have "holds_text (flush (fold render_line ?lines ?start))" by (rule holds_flush)
  then show ?thesis using t by (auto simp: render_summary_def holds_text_def intro: tame_concat)
qed

end
