(* ===== verification/Startup.thy ===== *)
theory Startup
  imports Prompts Approval
begin

text \<open>
  \<^verbatim>\<open>shared/schema.py\<close> and the start of the two services in \<^verbatim>\<open>app/main.py\<close> and \<^verbatim>\<open>gateway/main.py\<close>. The live schema
  is the list of its tables with the names of their columns and indexes. SQLAlchemy's \<^verbatim>\<open>create_all\<close> and what
  the database answers to a statement are parameters; a statement that succeeds has the effect it names.
\<close>

section \<open>Schemas\<close>

text \<open>\<^verbatim>\<open>column.type.python_type\<close>, which has no value for a type decorator such as the datetime column's.\<close>

datatype python_type = PyInt | PyFloat | PyBool | PyStr | PyDict | NoPythonType

record column =
  co_name :: string
  co_type_sql :: string
  co_python_type :: python_type
  co_nullable :: bool
  co_primary_key :: bool

record table =
  tb_name :: string
  tb_columns :: "column list"
  tb_indexes :: "string list"

record live_table =
  lv_name :: string
  lv_columns :: "string list"
  lv_indexes :: "string list"

record ddl =
  dd_create_all :: "table list \<Rightarrow> live_table list \<Rightarrow> live_table list"
  dd_alter :: "string \<Rightarrow> exn option"
  dd_index :: "string \<Rightarrow> exn option"

record applied_change =
  ch_table :: string
  ch_column :: string
  ch_ddl :: string
  ch_backfill :: string

definition change_str :: "applied_change \<Rightarrow> string" where
  "change_str c = ch_table c @ ''.'' @ ch_column c @ '' added (backfilled with '' @ ch_backfill c @ '')''"

definition backfill_literal :: "column \<Rightarrow> string" where
  "backfill_literal c =
     (if co_python_type c \<in> {PyInt, PyFloat} then ''0''
      else if co_python_type c = PyBool then ''0''
      else [CHR 0x27, CHR 0x27])"

definition schema_drift :: "string \<Rightarrow> exn" where
  "schema_drift m = OtherError ''SchemaDrift'' m"

definition quoted :: "string \<Rightarrow> string" where
  "quoted s = [quote_char] @ s @ [quote_char]"

definition alter_statement :: "table \<Rightarrow> column \<Rightarrow> string" where
  "alter_statement t c =
     ''ALTER TABLE '' @ quoted (tb_name t) @ '' ADD COLUMN '' @ quoted (co_name c) @ '' '' @ co_type_sql c
     @ (if co_nullable c then [] else '' NOT NULL DEFAULT '' @ backfill_literal c)"

definition change_for :: "table \<Rightarrow> column \<Rightarrow> applied_change" where
  "change_for t c =
     \<lparr>ch_table = tb_name t, ch_column = co_name c, ch_ddl = alter_statement t c,
      ch_backfill = (if co_nullable c then ''NULL'' else backfill_literal c)\<rparr>"

section \<open>Bringing a schema up to the models\<close>

text \<open>Each statement is a transaction of its own: what was applied stays when a later one raises.\<close>

type_synonym 'a migration = "live_table list \<Rightarrow> (exn + 'a) \<times> live_table list"

definition add_column :: "string \<Rightarrow> string \<Rightarrow> live_table list \<Rightarrow> live_table list" where
  "add_column t c live = update_by lv_name t (\<lambda>l. l\<lparr>lv_columns := lv_columns l @ [c]\<rparr>) live"

definition add_index :: "string \<Rightarrow> string \<Rightarrow> live_table list \<Rightarrow> live_table list" where
  "add_index t i live = update_by lv_name t (\<lambda>l. l\<lparr>lv_indexes := lv_indexes l @ [i]\<rparr>) live"

fun ensure_columns :: "ddl \<Rightarrow> table \<Rightarrow> string list \<Rightarrow> column list \<Rightarrow> applied_change list migration" where
  "ensure_columns d t there [] live = (Inr [], live)"
| "ensure_columns d t there (c # cs) live =
     (if co_name c \<in> set there then ensure_columns d t there cs live
      else if co_primary_key c then
        (Inl (schema_drift (tb_name t @ ''.'' @ co_name c @ '' is a new PRIMARY KEY column. SQLite ''
           @ ''cannot add one to an existing table. Recreate the database ''
           @ ''(docker compose down -v) or write a real migration.'')), live)
      else case dd_alter d (alter_statement t c) of
        Some e \<Rightarrow> (Inl e, live)
      | None \<Rightarrow>
          then_with (ensure_columns d t there cs) (\<lambda>more live. (Inr (change_for t c # more), live))
            (add_column (tb_name t) (co_name c) live))"

fun ensure_indexes :: "ddl \<Rightarrow> table \<Rightarrow> string list \<Rightarrow> string list \<Rightarrow> unit migration" where
  "ensure_indexes d t there [] live = (Inr (), live)"
| "ensure_indexes d t there (i # is) live =
     (if i \<in> set there then ensure_indexes d t there is live
      else case dd_index d i of
        Some e \<Rightarrow> (Inl e, live)
      | None \<Rightarrow> ensure_indexes d t there is (add_index (tb_name t) i live))"

definition ensure_table :: "ddl \<Rightarrow> table \<Rightarrow> applied_change list migration" where
  "ensure_table d t live =
     (case lookup_by lv_name (tb_name t) live of
        None \<Rightarrow>
          (Inl (schema_drift (''table '' @ [CHR 0x27] @ tb_name t @ [CHR 0x27] @ '' is still absent after create_all; the database is ''
             @ ''not in a state this code can repair.'')), live)
      | Some l \<Rightarrow>
          then_with (ensure_columns d t (lv_columns l) (tb_columns t)) (\<lambda>applied.
          then_with (ensure_indexes d t (lv_indexes l) (tb_indexes t)) (\<lambda>_ live. (Inr applied, live))) live)"

fun ensure_tables :: "ddl \<Rightarrow> table list \<Rightarrow> applied_change list migration" where
  "ensure_tables d [] live = (Inr [], live)"
| "ensure_tables d (t # ts) live =
     then_with (ensure_table d t) (\<lambda>applied.
     then_with (ensure_tables d ts) (\<lambda>more live. (Inr (applied @ more), live))) live"

definition ensure_schema :: "ddl \<Rightarrow> table list \<Rightarrow> applied_change list migration" where
  "ensure_schema d expected live = ensure_tables d expected (dd_create_all d expected live)"

definition record_startup :: "env \<Rightarrow> string \<Rightarrow> string \<Rightarrow> applied_change list \<Rightarrow> unit work" where
  "record_startup env service version applied w =
     and_then (if applied = [] then Inr w
       else append_event env System ''system.schema.migrated'' ''service'' service
              [(''changes'', PList (map (\<lambda>c. PStr (change_str c)) applied))] w) (\<lambda>w1.
     and_then (append_event env System ''system.started'' ''service'' service
        [(''version'', PStr version), (''schema_changes'', PInt (int (length applied)))] w1) (\<lambda>w2.
     Inr ((), w2)))"

definition init_schema_and_audit ::
  "env \<Rightarrow> (nat \<Rightarrow> world \<Rightarrow> world) \<Rightarrow> ddl \<Rightarrow> table list \<Rightarrow> string \<Rightarrow> string \<Rightarrow> live_table list \<Rightarrow> world \<Rightarrow>
     (exn + applied_change list) \<times> live_table list \<times> world" where
  "init_schema_and_audit env others d expected service version live w =
     (case ensure_schema d expected live of
        (Inl e, live') \<Rightarrow> (Inl e, live', w)
      | (Inr applied, live') \<Rightarrow>
          (case run_in_transaction others max_attempts max_attempts (record_startup env service version applied) w of
             (Inl e, w') \<Rightarrow> (Inl e, live', w')
           | (Inr _, w') \<Rightarrow> (Inr applied, live', w')))"

section \<open>The two services\<close>

definition VERSION :: string where "VERSION = ''0.1.0''"

text \<open>The agent service: the guard, the schema, the runs that no worker executes any more, the decided ones.\<close>

definition start_app ::
  "env \<Rightarrow> (nat \<Rightarrow> world \<Rightarrow> world) \<Rightarrow> ddl \<Rightarrow> table list \<Rightarrow> (string \<times> string) list \<Rightarrow> live_table list \<Rightarrow> world \<Rightarrow>
     (exn + string list \<times> nat) \<times> live_table list \<times> world" where
  "start_app env others d expected environ live w =
     (case assert_no_action_credentials environ of
        Inl e \<Rightarrow> (Inl e, live, w)
      | Inr _ \<Rightarrow>
          (case init_schema_and_audit env others d expected ''app'' VERSION live w of
             (Inl e, live', w1) \<Rightarrow> (Inl e, live', w1)
           | (Inr _, live', w1) \<Rightarrow>
               (case session_scope (abandon_orphaned_runs env None) w1 of
                  (Inl e, w2) \<Rightarrow> (Inl e, live', w2)
                | (Inr abandoned, w2) \<Rightarrow>
                    (case session_scope (settle_decided_runs env) w2 of
                       (Inl e, w3) \<Rightarrow> (Inl e, live', w3)
                     | (Inr settled, w3) \<Rightarrow> (Inr (abandoned, settled), live', w3)))))"

definition start_gateway ::
  "env \<Rightarrow> (nat \<Rightarrow> world \<Rightarrow> world) \<Rightarrow> ddl \<Rightarrow> table list \<Rightarrow> live_table list \<Rightarrow> world \<Rightarrow>
     (exn + unit) \<times> live_table list \<times> world" where
  "start_gateway env others d expected live w =
     (case init_schema_and_audit env others d expected ''gateway'' VERSION live w of
        (Inl e, live', w') \<Rightarrow> (Inl e, live', w')
      | (Inr _, live', w') \<Rightarrow> (Inr (), live', w'))"

section \<open>Health\<close>

text \<open>The probe of the gateway: the status it answers, or the failure by its name and text.\<close>

datatype probe = ProbeStatus int | ProbeFailed string string

definition probe_gateway :: "probe \<Rightarrow> pydict" where
  "probe_gateway p =
     (case p of
        ProbeStatus n \<Rightarrow> [(''status'', PStr (if n = 200 then ''ok'' else ''degraded'')), (''http_status'', PInt n)]
      | ProbeFailed name why \<Rightarrow>
          [(''status'', PStr ''unreachable''), (''error'', PStr name), (''detail'', PStr (py_take 200 why))])"

definition health_checks :: "app_settings \<Rightarrow> string \<Rightarrow> probe \<Rightarrow> (string \<times> pydict) list" where
  "health_checks s read_key p =
     [(''database'', [(''status'', PStr ''ok'')]),
      (''stripe'',
        [(''status'', PStr (if read_key \<noteq> [] then ''ok'' else ''not_configured'')),
         (''mode'', PStr (if prefix ''sk_test'' read_key then ''test'' else ''unknown'')),
         (''key_kind'', PStr (if prefix ''rk_'' read_key then ''restricted''
            else if read_key \<noteq> [] then ''standard'' else ''absent''))]),
      (''anthropic'',
        [(''status'', PStr (if as_anthropic_api_key s \<noteq> [] then ''ok'' else ''not_configured'')),
         (''model'', PStr (as_model s))]),
      (''gateway'', probe_gateway p)]"

definition healthz :: "app_settings \<Rightarrow> string \<Rightarrow> probe \<Rightarrow> pydict" where
  "healthz s read_key p =
     (let checks = health_checks s read_key p;
          healthy = list_all (\<lambda>(_, c). dict_get ''status'' c = PStr ''ok'') checks
      in [(''service'', PStr ''app''), (''version'', PStr VERSION),
          (''status'', PStr (if healthy then ''ok'' else ''degraded'')),
          (''checks'', PDict (map (\<lambda>(k, c). (k, PDict c)) checks))])"

definition gateway_healthz :: "gateway_settings \<Rightarrow> pydict" where
  "gateway_healthz s =
     [(''service'', PStr ''gateway''), (''version'', PStr VERSION), (''status'', PStr ''ok''),
      (''checks'', PDict
        [(''database'', PDict [(''status'', PStr ''ok'')]),
         (''email_adapter'', PDict [(''status'', PStr ''ok''), (''adapter'', PStr (gs_email_adapter s))]),
         (''stripe_write'', PDict
           [(''status'', PStr (if gs_stripe_api_key_write s \<noteq> [] then ''ok'' else ''not_configured'')),
            (''invoice_send_enabled'', PBool (gs_enable_stripe_invoice_send s))])])]"

end
