(* ===== verification/StartupFacts.thy ===== *)
theory StartupFacts
  imports Startup QueryFacts
begin

text \<open>
  What the start of the services leaves behind: the schema has what the models expect and a second start
  changes nothing; no run is left that nothing executes or that waits for a decision nobody can make. And
  what it does not: a column that is filled in with a text its own type cannot read back, and a migration
  that stops half-way without a trace in the audit log.
\<close>

section \<open>The schema\<close>

definition whole :: "table \<Rightarrow> live_table" where
  "whole t = \<lparr>lv_name = tb_name t, lv_columns = map co_name (tb_columns t), lv_indexes = tb_indexes t\<rparr>"

definition new_columns :: "table \<Rightarrow> string list \<Rightarrow> column list" where
  "new_columns t there = filter (\<lambda>c. co_name c \<notin> set there) (tb_columns t)"

definition brought_up :: "table \<Rightarrow> live_table \<Rightarrow> live_table" where
  "brought_up t l =
     l\<lparr>lv_columns := lv_columns l @ map co_name (new_columns t (lv_columns l)),
       lv_indexes := lv_indexes l @ filter (\<lambda>i. i \<notin> set (lv_indexes l)) (tb_indexes t)\<rparr>"

definition complete :: "live_table list \<Rightarrow> table \<Rightarrow> bool" where
  "complete live t =
     (case lookup_by lv_name (tb_name t) live of
        None \<Rightarrow> False
      | Some l \<Rightarrow> co_name ` set (tb_columns t) \<subseteq> set (lv_columns l) \<and> set (tb_indexes t) \<subseteq> set (lv_indexes l))"

text \<open>What is documented of \<^verbatim>\<open>create_all\<close>: it creates the tables that are absent and no others.\<close>

definition creates_absent :: "(table list \<Rightarrow> live_table list \<Rightarrow> live_table list) \<Rightarrow> bool" where
  "creates_absent create =
     (\<forall>ts live. distinct (map tb_name ts) \<longrightarrow>
       (\<forall>t \<in> set ts. lookup_by lv_name (tb_name t) live = None \<longrightarrow>
          lookup_by lv_name (tb_name t) (create ts live) = Some (whole t))
     \<and> (\<forall>n l. lookup_by lv_name n live = Some l \<longrightarrow> lookup_by lv_name n (create ts live) = Some l)
     \<and> ((\<forall>t \<in> set ts. lookup_by lv_name (tb_name t) live \<noteq> None) \<longrightarrow> create ts live = live))"

text \<open>The changes a migration has to make: one for each column a table that was there lacks.\<close>

definition due_changes :: "live_table list \<Rightarrow> table \<Rightarrow> applied_change list" where
  "due_changes live t =
     (case lookup_by lv_name (tb_name t) live of
        None \<Rightarrow> []
      | Some l \<Rightarrow> map (change_for t) (new_columns t (lv_columns l)))"

lemma update_by_twice:
  "(\<And>r. key (g r) = key r) \<Longrightarrow> update_by key k f (update_by key k g rows) = update_by key k (\<lambda>r. f (g r)) rows"
  by (simp add: update_by_def)

lemma update_by_same: "update_by key k (\<lambda>r. r) rows = rows"
  by (induction rows) simp_all

lemma ensure_columns_adds:
  assumes "ensure_columns d t there cs live = (Inr applied, live')"
  defines "new \<equiv> filter (\<lambda>c. co_name c \<notin> set there) cs"
  shows "applied = map (change_for t) new
    \<and> live' = update_by lv_name (tb_name t) (\<lambda>l. l\<lparr>lv_columns := lv_columns l @ map co_name new\<rparr>) live"
  using assms(1) unfolding new_def
proof (induction cs arbitrary: live applied)
  case Nil
  then show ?case by (simp add: update_by_same)
next
  case (Cons c cs)
  show ?case
  proof (cases "co_name c \<in> set there")
    case True
    with Cons show ?thesis by simp
  next
    case False
    with Cons.prems obtain more where more: "applied = change_for t c # more"
      and rest: "ensure_columns d t there cs (add_column (tb_name t) (co_name c) live) = (Inr more, live')"
      by (auto simp: result_simps split: if_splits option.splits)
    from Cons.IH [OF rest] False more show ?thesis by (simp add: add_column_def update_by_twice)
  qed
qed

lemma ensure_indexes_adds:
  assumes "ensure_indexes d t there is live = (Inr x, live')"
  defines "new \<equiv> filter (\<lambda>i. i \<notin> set there) is"
  shows "live' = update_by lv_name (tb_name t) (\<lambda>l. l\<lparr>lv_indexes := lv_indexes l @ new\<rparr>) live"
  using assms(1) unfolding new_def
proof (induction "is" arbitrary: live)
  case Nil
  then show ?case by (simp add: update_by_same)
next
  case (Cons i "is")
  show ?case
  proof (cases "i \<in> set there")
    case True
    with Cons show ?thesis by simp
  next
    case False
    with Cons.prems have "ensure_indexes d t there is (add_index (tb_name t) i live) = (Inr x, live')"
      by (auto split: option.splits)
    from Cons.IH [OF this] False show ?thesis by (simp add: add_index_def update_by_twice)
  qed
qed

lemma ensure_table_brings_up:
  assumes "ensure_table d t live = (Inr applied, live')"
  shows "\<exists>l. lookup_by lv_name (tb_name t) live = Some l \<and> applied = due_changes live t
    \<and> lookup_by lv_name (tb_name t) live' = Some (brought_up t l)
    \<and> (\<forall>n. n \<noteq> tb_name t \<longrightarrow> lookup_by lv_name n live' = lookup_by lv_name n live)"
proof -
  from assms obtain l live1 where l: "lookup_by lv_name (tb_name t) live = Some l"
    and c: "ensure_columns d t (lv_columns l) (tb_columns t) live = (Inr applied, live1)"
    and i: "ensure_indexes d t (lv_indexes l) (tb_indexes t) live1 = (Inr (), live')"
    by (auto simp: ensure_table_def result_simps split: option.splits)
  let ?new = "new_columns t (lv_columns l)" and ?idx = "filter (\<lambda>i. i \<notin> set (lv_indexes l)) (tb_indexes t)"
  let ?f = "\<lambda>r. r\<lparr>lv_columns := lv_columns r @ map co_name ?new, lv_indexes := lv_indexes r @ ?idx\<rparr>"
  have "live' = update_by lv_name (tb_name t) ?f live"
    using ensure_columns_adds [OF c] ensure_indexes_adds [OF i] by (simp add: update_by_twice new_columns_def)
  moreover have "lv_name l = tb_name t" using l by (auto dest: lookup_by_Some)
  ultimately show ?thesis using ensure_columns_adds [OF c] l
    by (auto simp: due_changes_def new_columns_def brought_up_def lookup_update_same lookup_update_other)
qed

lemma ensure_tables_bring_up:
  assumes "ensure_tables d ts live = (Inr applied, live')" and "distinct (map tb_name ts)"
  shows "applied = concat (map (due_changes live) ts)
    \<and> (\<forall>t \<in> set ts. \<exists>l. lookup_by lv_name (tb_name t) live = Some l \<and> lookup_by lv_name (tb_name t) live' = Some (brought_up t l))
    \<and> (\<forall>n. n \<notin> tb_name ` set ts \<longrightarrow> lookup_by lv_name n live' = lookup_by lv_name n live)"
  using assms
proof (induction ts arbitrary: live applied)
  case Nil
  then show ?case by simp
next
  case (Cons t ts)
  from Cons.prems(1) obtain first more live1 where one: "ensure_table d t live = (Inr first, live1)"
    and rest: "ensure_tables d ts live1 = (Inr more, live')" and app: "applied = first @ more"
    by (auto simp: result_simps)
  from ensure_table_brings_up [OF one] obtain l where l: "lookup_by lv_name (tb_name t) live = Some l"
    "first = due_changes live t" "lookup_by lv_name (tb_name t) live1 = Some (brought_up t l)"
    and other: "\<And>n. n \<noteq> tb_name t \<Longrightarrow> lookup_by lv_name n live1 = lookup_by lv_name n live" by auto
  have IH: "more = concat (map (due_changes live1) ts)"
    "\<And>u. u \<in> set ts \<Longrightarrow> \<exists>l. lookup_by lv_name (tb_name u) live1 = Some l \<and> lookup_by lv_name (tb_name u) live' = Some (brought_up u l)"
    "\<And>n. n \<notin> tb_name ` set ts \<Longrightarrow> lookup_by lv_name n live' = lookup_by lv_name n live1"
    using Cons.IH [OF rest] Cons.prems(2) by auto
  have apart: "u \<in> set ts \<Longrightarrow> tb_name u \<noteq> tb_name t" for u
    using Cons.prems(2) by (metis distinct.simps(2) image_eqI list.set_map list.simps(9))
  have "concat (map (due_changes live1) ts) = concat (map (due_changes live) ts)"
    using apart by (simp add: due_changes_def other cong: map_cong)
  moreover have "tb_name t \<notin> tb_name ` set ts" using Cons.prems(2) by simp
  moreover have "\<exists>l. lookup_by lv_name (tb_name u) live = Some l \<and> lookup_by lv_name (tb_name u) live' = Some (brought_up u l)"
    if "u \<in> set ts" for u using IH(2) [OF that] other [OF apart [OF that]] by simp
  ultimately show ?case using IH(1,3) l app other by simp
qed

lemma brought_up_complete:
  "co_name ` set (tb_columns t) \<subseteq> set (lv_columns (brought_up t l)) \<and> set (tb_indexes t) \<subseteq> set (lv_indexes (brought_up t l))
   \<and> set (lv_columns l) \<subseteq> set (lv_columns (brought_up t l))"
  by (auto simp: brought_up_def new_columns_def)

lemma ensure_columns_none:
  "co_name ` set cs \<subseteq> set there \<Longrightarrow> ensure_columns d t there cs live = (Inr [], live)"
  by (induction cs) simp_all

lemma ensure_indexes_none: "set is \<subseteq> set there \<Longrightarrow> ensure_indexes d t there is live = (Inr (), live)"
  by (induction "is") simp_all

lemma ensure_tables_none: "\<forall>t \<in> set ts. complete live t \<Longrightarrow> ensure_tables d ts live = (Inr [], live)"
proof (induction ts)
  case Nil
  then show ?case by simp
next
  case (Cons t ts)
  then obtain l where "lookup_by lv_name (tb_name t) live = Some l"
    "co_name ` set (tb_columns t) \<subseteq> set (lv_columns l)" "set (tb_indexes t) \<subseteq> set (lv_indexes l)"
    by (auto simp: complete_def split: option.splits)
  then have "ensure_table d t live = (Inr [], live)"
    by (simp add: ensure_table_def then_with_def ensure_columns_none ensure_indexes_none)
  with Cons show ?case by (simp add: then_with_def)
qed

text \<open>
  C34: After a start that succeeds, the schema has every table, column and index of the models and still
  every column it had; the changes that are reported are one for each column that a table of the old schema
  lacked; and a second start changes nothing.
\<close>

theorem schema_is_brought_up:
  assumes "creates_absent (dd_create_all d)" and "distinct (map tb_name expected)"
    and "ensure_schema d expected live = (Inr applied, live')"
  shows "list_all (complete live') expected
    \<and> applied = concat (map (due_changes live) expected)
    \<and> (\<forall>n l. lookup_by lv_name n live = Some l \<longrightarrow>
         (\<exists>l'. lookup_by lv_name n live' = Some l' \<and> set (lv_columns l) \<subseteq> set (lv_columns l')))
    \<and> ensure_schema d expected live' = (Inr [], live')"
proof -
  let ?live = "dd_create_all d expected live"
  have created: "t \<in> set expected \<Longrightarrow> lookup_by lv_name (tb_name t) live = None \<Longrightarrow> lookup_by lv_name (tb_name t) ?live = Some (whole t)"
    "lookup_by lv_name n live = Some l \<Longrightarrow> lookup_by lv_name n ?live = Some l" for t n l
    using assms(1,2) by (simp_all add: creates_absent_def)
  note up = ensure_tables_bring_up [OF assms(3) [unfolded ensure_schema_def] assms(2)]
  have done_: "complete live' t" if "t \<in> set expected" for t
    using up that brought_up_complete by (fastforce simp: complete_def)
  have "due_changes ?live t = due_changes live t" if "t \<in> set expected" for t
  proof (cases "lookup_by lv_name (tb_name t) live")
    case None
    then show ?thesis using created(1) [OF that None]
      by (auto simp: due_changes_def whole_def new_columns_def)
  next
    case (Some l)
    then show ?thesis using created(2) [OF Some] by (simp add: due_changes_def)
  qed
  then have "applied = concat (map (due_changes live) expected)" using up by (simp cong: map_cong)
  moreover have "\<exists>l'. lookup_by lv_name n live' = Some l' \<and> set (lv_columns l) \<subseteq> set (lv_columns l')"
    if "lookup_by lv_name n live = Some l" for n l
  proof (cases "n \<in> tb_name ` set expected")
    case True
    with up created(2) [OF that] brought_up_complete show ?thesis by fastforce
  next
    case False
    with up created(2) [OF that] show ?thesis by simp
  qed
  moreover have "dd_create_all d expected live' = live'"
    using assms(1,2) done_ by (force simp: creates_absent_def complete_def split: option.splits)
  ultimately show ?thesis
    using done_ by (simp add: ensure_schema_def ensure_tables_none list_all_iff)
qed


section \<open>What the schema cannot be trusted with\<close>

text \<open>
  Whatever its type, a column that is not a number and may not be null is added with the empty text for
  the rows that are there: neither the reader of an instant nor the reader of JSON accepts it.
\<close>

theorem backfill_is_not_read_back:
  "(co_nullable c \<or> co_python_type c \<in> {PyInt, PyFloat, PyBool}
    \<or> (\<exists>before. alter_statement t c = before @ '' NOT NULL DEFAULT '' @ [CHR 0x27, CHR 0x27]))
   \<and> parse_utc [] = None \<and> json_loads [] = None"
  by (auto simp: alter_statement_def backfill_literal_def parse_utc_def field_def json_loads_def)

text \<open>A table that an earlier version left with one column, under models that want two more.\<close>

definition old_note :: live_table where
  "old_note = \<lparr>lv_name = ''notes'', lv_columns = [''body''], lv_indexes = []\<rparr>"

definition note_model :: "column list \<Rightarrow> table" where
  "note_model extra =
     \<lparr>tb_name = ''notes'',
      tb_columns = [\<lparr>co_name = ''body'', co_type_sql = ''TEXT'', co_python_type = PyStr, co_nullable = False, co_primary_key = False\<rparr>,
        \<lparr>co_name = ''pinned'', co_type_sql = ''BOOLEAN'', co_python_type = PyBool, co_nullable = False, co_primary_key = False\<rparr>]
        @ extra,
      tb_indexes = []\<rparr>"

definition note_key :: column where
  "note_key = \<lparr>co_name = ''key'', co_type_sql = ''TEXT'', co_python_type = PyStr, co_nullable = False, co_primary_key = True\<rparr>"

definition statements_succeed :: ddl where
  "statements_succeed =
     \<lparr>dd_create_all = \<lambda>ts live. live @ map whole (filter (\<lambda>t. lookup_by lv_name (tb_name t) live = None) ts),
      dd_alter = \<lambda>_. None, dd_index = \<lambda>_. None\<rparr>"

lemma old_note_sel [simp]: "lv_name old_note = ''notes''" "lv_columns old_note = [''body'']" "lv_indexes old_note = []"
  by (simp_all add: old_note_def)

text \<open>
  A migration that stops keeps the columns that it has added, and the audit log, which is written only
  after the last statement, does not record them: not at this start, and not at the next one with models that
  fit, which finds nothing to add.
\<close>

theorem stopped_migration_is_unrecorded:
  "\<exists>live'. init_schema_and_audit env others statements_succeed [note_model [note_key]] service version [old_note] w
      = (Inl (schema_drift (''notes.key'' @ '' is a new PRIMARY KEY column. SQLite ''
           @ ''cannot add one to an existing table. Recreate the database ''
           @ ''(docker compose down -v) or write a real migration.'')), live', w)
    \<and> lookup_by lv_name ''notes'' live' = Some (old_note\<lparr>lv_columns := [''body'', ''pinned'']\<rparr>)
    \<and> ensure_schema statements_succeed [note_model []] live' = (Inr [], live')"
  by (simp add: init_schema_and_audit_def ensure_schema_def statements_succeed_def ensure_table_def note_model_def
      note_key_def then_with_def add_column_def)

section \<open>The runs that a start finds\<close>

lemma settle_keeps_orphans:
  assumes "settle_decided_runs env w = Inr (n, w')" and "r \<in> set (runs w')" and "orphaned r"
  shows "r \<in> set (runs w)"
proof -
  from assms(1) obtain m w1 ids bs where e: "expire_stale_proposals env w = Inr (m, w1)"
    and s: "each (settle_run_if_decided env) ids w1 = Inr (bs, w')"
    by (auto simp: settle_decided_runs_def Let_def result_simps)
  have one: "q \<in> set (runs v)" if "settle_run_if_decided env i v = Inr (b, v')" "q \<in> set (runs v')" "orphaned q" for i b v v' q
    using that by (auto simp: settle_run_if_decided_def Let_def result_simps append_event_frame update_run_def tick_def
        orphaned_def dest!: update_by_mem split: option.splits if_splits)
  have "r \<in> set (runs w1)" using s assms(2)
  proof (induction ids arbitrary: w1 bs)
    case Nil
    then show ?case by simp
  next
    case (Cons i ids)
    then show ?case using one [OF _ _ assms(3)] by (auto simp: result_simps)
  qed
  moreover from e obtain ys where "each (expire_one env) (filter (stale (now_utc env w)) (proposals w)) (tick w) = Inr (ys, w1)"
    by (auto simp: expire_stale_proposals_def Let_def result_simps)
  then have "runs w1 = runs (tick w)"
    by (rule each_frame) (auto simp: expire_one_def result_simps append_event_frame set_proposal_status_def update_proposal_def)
  ultimately show ?thesis by (simp add: tick_def)
qed

lemma abandon_one_leaves:
  assumes "abandon_one env message q w = Inr (x, w')" and "r \<in> set (runs w')" and "orphaned r"
  shows "r \<in> set (runs w) \<and> rn_id r \<noteq> rn_id q"
  using assms by (auto simp: abandon_one_def result_simps append_event_frame update_run_def update_by_def tick_def
      orphaned_def split: if_splits)

lemma abandoned_leaves_none:
  assumes "abandon_orphaned_runs env reason w = Inr (ids, w')"
  shows "\<not> list_ex orphaned (runs w')"
proof -
  have left: "r \<in> set (runs v) \<and> rn_id r \<notin> rn_id ` set qs"
    if "each (abandon_one env message) qs v = Inr (xs, w')" "r \<in> set (runs w')" "orphaned r" for message qs v xs r
    using that
  proof (induction qs arbitrary: v xs)
    case Nil
    then show ?case by simp
  next
    case (Cons q qs)
    then show ?case using abandon_one_leaves [OF _ _ \<open>orphaned r\<close>] by (fastforce simp: result_simps)
  qed
  from assms obtain message xs where "each (abandon_one env message) (filter orphaned (runs w)) w = Inr (xs, w')"
    by (auto simp: abandon_orphaned_runs_def Let_def result_simps)
  from left [OF this] show ?thesis by (auto simp: list_ex_iff)
qed

lemma run_in_transaction_keeps:
  assumes "P w" and "\<And>n v. P v \<Longrightarrow> P (others n v)" and "\<And>v. P v \<Longrightarrow> P (snd (session_scope job v))"
  shows "P (snd (run_in_transaction others attempts left job w))"
  using assms(1)
proof (induction left arbitrary: w)
  case 0
  then show ?case by simp
next
  case (Suc left)
  obtain r w1 where s: "session_scope job w = (r, w1)" by fastforce
  then have "P w1" using assms(3) [OF Suc.prems] by simp
  then show ?case using Suc.IH assms(2) by (auto simp: s split: sum.splits)
qed

lemma record_startup_wf: "record_startup env service version applied w = Inr (x, w') \<Longrightarrow> wf_world w \<Longrightarrow> wf_world w'"
  by (auto simp: record_startup_def result_simps split: if_splits dest!: wf.keeps_back)

lemma startup_keeps_wf:
  assumes "wf_world w" and "\<And>n v. wf_world v \<Longrightarrow> wf_world (others n v)"
  shows "wf_world (snd (snd (init_schema_and_audit env others d expected service version live w)))"
proof -
  have "wf_world (snd (session_scope (record_startup env service version applied) v))" if "wf_world v" for applied v
    by (rule wf.keeps_scope [OF that]) (erule record_startup_wf, rule that)
  then have "wf_world (snd (run_in_transaction others max_attempts max_attempts (record_startup env service version applied) w))" for applied
    using assms by (intro run_in_transaction_keeps [where P = wf_world])
  then show ?thesis using assms(1)
    by (auto simp: init_schema_and_audit_def split: prod.splits sum.splits) (metis snd_conv)+
qed

text \<open>
  C35: When the agent service has started, its environment holds no credential to act, no run is queued or
  running, which no worker would execute any more, and every run that awaits approval has a pending proposal.
\<close>

theorem start_leaves_no_orphans:
  assumes "wf_world w" and "\<And>n v. wf_world v \<Longrightarrow> wf_world (others n v)"
    and "start_app env others d expected environ live w = (Inr result, live', w')"
  shows "find_action_credentials environ = [] \<and> \<not> list_ex orphaned (runs w') \<and> \<not> list_ex (waits_in_vain w') (runs w')"
proof -
  from assms(3) obtain x applied w1 ids w2 n where guard: "assert_no_action_credentials environ = Inr x"
    and i: "init_schema_and_audit env others d expected ''app'' VERSION live w = (Inr applied, live', w1)"
    and a: "abandon_orphaned_runs env None w1 = Inr (ids, w2)"
    and s: "settle_decided_runs env w2 = Inr (n, w')"
    by (auto simp: start_app_def session_scope_def split: prod.splits sum.splits)
  have "wf_world w1" using startup_keeps_wf [where others = others, OF assms(1,2), of env d expected "''app''" VERSION live] i by simp
  then have "wf_world w2" by (rule wf.keeps_abandon [OF a])
  from settled_waits [OF this s] settle_keeps_orphans [OF s] abandoned_leaves_none [OF a] guard
  show ?thesis by (auto simp: list_ex_iff assert_no_action_credentials_def Let_def result_simps)
qed

end
