(* ===== verification/PageWitnesses.thy ===== *)
theory PageWitnesses
  imports AgentScenario WebFacts ApiFacts Markdown StartupFacts
begin

text \<open>
  The properties of the read models, the API, the pages and the start that have hypotheses, applied to the
  worlds of \<open>Scenario\<close>.
\<close>

section \<open>The queue, the list of runs and the audit log\<close>

lemma tables2 [simp]: "runs world2 = [run0]" "proposals world2 = [proposal0]" "steps world2 = []" "ticks world2 = 7"
  by (simp_all add: world2_def world1_def)

lemma nothing_expires: "expire_stale_proposals env0 (world2\<lparr>runs := rs\<rparr>) = Inr (0, world2\<lparr>runs := rs, ticks := 8\<rparr>)"
  using expires0 by (simp add: expire_stale_proposals_def stale_def tick_def proposal0_def Let_def)

lemma nothing_expires_yet: "expire_stale_proposals env0 world2 = Inr (0, world2\<lparr>ticks := 8\<rparr>)"
  using expires0 by (simp add: expire_stale_proposals_def stale_def tick_def proposal0_def Let_def)

lemma queue_shows_largest_witness:
  "\<exists>shown w'. list_proposals env0 (Some ''pending'') None 10 world2 = Inr (shown, w')
    \<and> map ps_id shown = [uuid0 5] \<and> sorted (rev (map ps_amount_due shown))"
proof -
  have l: "list_proposals env0 (Some ''pending'') None 10 world2 = Inr ([proposal_summary_of proposal0], world2\<lparr>ticks := 8\<rparr>)"
    using nothing_expires_yet
    by (simp add: list_proposals_def wanted_def largest_proposals_def)
  from queue_shows_largest [OF worlds_ok(2) l] l show ?thesis by (auto simp: proposal_summary_of_def Let_def)
qed

text \<open>The world with its run waiting for the decision.\<close>

definition world_waiting :: world where
  "world_waiting = world2\<lparr>runs := [run0\<lparr>rn_status := RunAwaiting\<rparr>]\<rparr>"

lemma world_waiting_wf: "wf_world world_waiting"
  using worlds_ok(2) by (simp add: wf_world_def world_waiting_def run0_def)

lemma runs_waiting: "runs world_waiting = [run0\<lparr>rn_status := RunAwaiting\<rparr>]"
  by (simp add: world_waiting_def)

lemma pending_waiting: "pending_in (uuid0 1) (world2\<lparr>runs := rs, ticks := n\<rparr>) = [proposal0]"
  by (simp add: pending_in_def run_proposals_def proposal0_def)

lemma settled_waiting: "settle_decided_runs env0 world_waiting = Inr (0, world_waiting\<lparr>ticks := 8\<rparr>)"
  using nothing_expires [of "[run0\<lparr>rn_status := RunAwaiting\<rparr>]"] pending_waiting
  by (simp add: settle_decided_runs_def settle_run_if_decided_def world_waiting_def run0_def Let_def)

lemma listed_runs_wait_for_something_witness:
  "\<exists>i w'. list_runs env0 20 0 world_waiting = Inr ([i], w') \<and> ri_status i = RunAwaiting \<and> 0 < ri_pending i"
proof -
  obtain i where l: "list_runs env0 20 0 world_waiting = Inr ([i], world_waiting\<lparr>ticks := 8\<rparr>)" and st: "ri_status i = RunAwaiting"
    using runs_waiting by (simp add: list_runs_def settled_waiting newest_runs_def page_of_def run_dict_def Let_def)
  from listed_runs_wait_for_something [OF world_waiting_wf l, of i] st l show ?thesis
    by (metis list.set_intros(1))
qed

lemma audit_pages_lose_nothing_witness:
  "length (concat (map (\<lambda>k. pg_events (audit_page env0 1 (k * 1) None None world2)) [0..<5])) = 2"
proof -
  have "pg_total (audit_page env0 1 0 None None world2) = 2"
    by (simp add: audit_page_def audit_filter_def wanted_def Let_def world2_def world1_def appended_def)
  with audit_pages_lose_nothing [OF worlds_ok(2), of env0 1 None None 5] show ?thesis by simp
qed

section \<open>Transcripts\<close>

definition step0 :: "step_type \<Rightarrow> string option \<Rightarrow> pydict \<Rightarrow> nat \<Rightarrow> step_row" where
  "step0 kind tool payload n =
     \<lparr>st_id = n, st_run_id = uuid0 1, st_seq = n, st_type = kind, st_tool_name = tool, st_payload = payload, st_created_at = 0\<rparr>"

lemma step0_sel [simp]: "st_run_id (step0 k t p n) = uuid0 1" "st_seq (step0 k t p n) = n" "st_type (step0 k t p n) = k"
  "st_tool_name (step0 k t p n) = t" "st_payload (step0 k t p n) = p"
  by (simp_all add: step0_def)

text \<open>A run that has read a customer's payment history.\<close>

definition history_call :: step_row where
  "history_call = step0 ToolCall (Some HISTORY_TOOL)
     [(''tool_use_id'', PStr ''t1''), (''arguments'', PDict [(''customer_id'', PStr ''cus_1'')])] 1"

definition history_answer :: step_row where
  "history_answer = step0 ToolResult (Some HISTORY_TOOL)
     [(''tool_use_id'', PStr ''t1''), (''is_error'', PBool False),
      (''result'', PDict [(''history'', PList [PStr ''in_9''])])] 2"

definition world_read :: world where
  "world_read = world1\<lparr>steps := [history_call, history_answer]\<rparr>"

lemma read0: "answered (uuid0 1) world_read"
proof -
  have "run_steps (uuid0 1) world_read = [history_call, history_answer]"
    by (simp add: run_steps_def world_read_def history_call_def history_answer_def)
  then have "paired (uuid0 1) world_read [(history_call, history_answer)] []"
    by (simp add: paired_def history_steps_def transcript_of_def exchange_def is_call_def history_call_def history_answer_def
        dict_get_def)
  then show ?thesis by (auto simp: answered_def)
qed

lemma history_shown_is_what_was_read_witness:
  "\<exists>looks. payment_history_seen (uuid0 1) (PStr ''cus_1'')
      (snd (execute_run env0 client0 u0 as0 ''k'' (Some silent) silent job0 world_read))
    = Inr (last ([] # List.map_filter (shown_of (PStr ''cus_1'')) looks))"
proof -
  have "jb_run_id job0 = uuid0 1" by (simp add: job0_def)
  with history_shown_is_what_was_read [of job0 world_read _ env0 client0 u0 as0 "''k''" "Some silent" silent, OF _ refl] read0
  obtain looks rest where "truthy customer \<Longrightarrow> payment_history_seen (uuid0 1) customer
      (snd (execute_run env0 client0 u0 as0 ''k'' (Some silent) silent job0 world_read))
    = Inr (last ([] # List.map_filter (shown_of customer) looks))" for customer by auto
  from this [of "PStr ''cus_1''"] show ?thesis by auto
qed

text \<open>Two readings of a growing transcript.\<close>

definition said :: "nat \<Rightarrow> step_row" where
  "said n = step0 Message None [] n"

lemma said_sel [simp]: "st_run_id (said n) = uuid0 1" "st_seq (said n) = n" "st_type (said n) = Message"
  by (simp_all add: said_def)

definition world_said :: "nat list \<Rightarrow> world" where
  "world_said ns = world2\<lparr>steps := map said ns\<rparr>"

definition poll0 :: "world \<Rightarrow> poll" where
  "poll0 w = \<lparr>pl_gone = False, pl_steps = w, pl_status = w, pl_detail = w\<rparr>"

lemma steps_said [simp]: "run_steps (uuid0 1) (world_said ns) = map said ns"
  by (simp add: run_steps_def world_said_def filter_map comp_def)

lemma still_queued: "run_status_of (uuid0 1) (world_said ns) = Some RunQueued"
  by (simp add: run_status_of_def world_said_def run0_def)

lemma after_said: "steps_after (uuid0 1) k (world_said ns)
    = collect (step_dict (Some no_names)) (tail_of (uuid0 1) k (world_said ns))"
  by (simp add: steps_after_def transcript_index_def filter_map comp_def del: One_nat_def)

lemma tails_said: "tail_of (uuid0 1) 0 (world_said [1]) = [said 1]" "tail_of (uuid0 1) 1 (world_said [1, 2]) = [said 2]"
  "tail_of (uuid0 1) 0 (world_said [1, 2]) = [said 1, said 2]"
  by (simp_all add: tail_of_def del: One_nat_def)

lemma stream_is_the_transcript_witness:
  "\<exists>got. stream_events env0 (uuid0 1) 0 [poll0 (world_said [1]), poll0 (world_said [1, 2])] = (got, StillOpen)
    \<and> map sv_seq (steps_of got) = [1, 2]"
proof -
  have poll: "pl_gone (poll0 w) = False" "pl_steps (poll0 w) = w" "pl_status (poll0 w) = w" for w
    by (simp_all add: poll0_def)
  obtain got where got: "stream_events env0 (uuid0 1) 0 [poll0 (world_said [1]), poll0 (world_said [1, 2])] = (got, StillOpen)"
    by (simp add: poll after_said tails_said still_queued terminal_run_def step_dict_def last_seq_def Let_def del: One_nat_def)
  have "growing (uuid0 1) (map pl_steps [poll0 (world_said [1]), poll0 (world_said [1, 2])])"
    by (simp add: poll grows_def del: One_nat_def)
  from stream_is_the_transcript [OF got this] tails_said got show ?thesis
    by (auto simp: poll del: One_nat_def)
qed

lemma steps_none [simp]: "run_steps i world2 = []"
  by (simp add: run_steps_def)

text \<open>The run says its last word and ends.\<close>

definition world_failed :: world where
  "world_failed = world2\<lparr>runs := [run0\<lparr>rn_status := RunFailed, rn_error := None, rn_ended_at := Some 0\<rparr>], steps := [said 1],
     events := appended Agent RUN_FAILED ''run'' (uuid0 1) [(''status'', PStr ''failed''), (''error'', PNone)] (events world2),
     ticks := 10\<rparr>"

lemma events2 [simp]: "intact0 (events world2)"
  using worlds_ok(5) by (simp add: intact0_world)

lemma said_last: "append_step env0 (uuid0 1) Message None [] world2
    = Inr (Suc 0, world2\<lparr>steps := [said 1], ticks := 8\<rparr>)"
  by (simp add: append_step_def next_seq_def insert_step_def said_def step0_def run0_def next_rowid_def Let_def tick_def del: One_nat_def)

lemma failed_last: "set_status env0 (uuid0 1) RunFailed None (world2\<lparr>steps := [said 1], ticks := 8\<rparr>)
    = Inr ((), world_failed)"
  by (simp add: set_status_def update_run_def ends_run_def run0_def world_failed_def str_or_none_def Let_def tick_def del: One_nat_def)

lemma failed_read: "\<exists>d w. get_run env0 (uuid0 1) 0 world_failed = Inr (d, w)"
proof -
  have e: "expire_stale_proposals env0 world_failed = Inr (0, world_failed\<lparr>ticks := 11\<rparr>)"
    using expires0 by (simp add: expire_stale_proposals_def stale_def tick_def proposal0_def world_failed_def Let_def)
  have "find_run (uuid0 1) (world_failed\<lparr>ticks := 11\<rparr>) = Some (run0\<lparr>rn_status := RunFailed, rn_error := None, rn_ended_at := Some 0\<rparr>)"
    "run_steps (uuid0 1) (world_failed\<lparr>ticks := 11\<rparr>) = [said 1]"
    by (simp_all add: world_failed_def run0_def run_steps_def)
  then show ?thesis
    by (simp add: get_run_def e settle_run_if_decided_def transcript_index_def tail_of_def step_dict_def del: One_nat_def)
qed

lemma stream_can_miss_the_end_witness:
  "\<exists>d. stream_events env0 (uuid0 1) 0 [\<lparr>pl_gone = False, pl_steps = world2, pl_status = world_failed, pl_detail = world_failed\<rparr>]
      = ([done_event (Some RunFailed) d], Finished)
    \<and> map st_seq (run_steps (uuid0 1) world_failed) = [1]"
proof -
  obtain d w where d: "get_run env0 (uuid0 1) 0 world_failed = Inr (d, w)" using failed_read by blast
  have none: "steps_after (uuid0 1) 0 world2 = Inr []"
    by (simp add: steps_after_def transcript_index_def tail_of_def)
  have ends: "ends_run RunFailed" by (simp add: ends_run_def)
  have "map st_seq (run_steps (uuid0 1) world_failed) = [1]" by (simp add: run_steps_def world_failed_def)
  with conjunct1 [OF stream_can_miss_the_end [OF none said_last failed_last ends d, of "[]"]] show ?thesis
    by (intro exI conjI)
qed

text \<open>A question about a list of customers.\<close>

definition odd_call :: tool_call where
  "odd_call = \<lparr>tc_id = ''t1'', tc_name = ''get_customer'', tc_arguments = [(''customer_id'', PList [PStr ''cus_1''])]\<rparr>"

lemma unhashable_id_hides_the_run_witness:
  "\<exists>w e. append_step env0 (uuid0 1) ToolCall (Some ''get_customer'') (call_payload reg0 odd_call) world2 = Inr (1, w)
    \<and> get_run env0 (uuid0 1) 0 w = Inl e"
proof -
  obtain w where w: "append_step env0 (uuid0 1) ToolCall (Some ''get_customer'') (call_payload reg0 odd_call) world2 = Inr (1, w)"
    "runs w = [run0]"
    by (simp add: append_step_def next_seq_def insert_step_def run0_def Let_def tick_def)
  have "truthy (dict_get ''customer_id'' (tc_arguments odd_call))" "\<not> hashable (dict_get ''customer_id'' (tc_arguments odd_call))"
    "grows (uuid0 1) w w" "find_run (uuid0 1) w \<noteq> None" "0 < (1 :: nat)"
    using w(2) by (simp_all add: odd_call_def dict_get_def hashable_def grows_def run0_def)
  from unhashable_id_hides_the_run [OF w(1) this] w(1) show ?thesis by blast
qed

section \<open>The pages\<close>

definition escape0 :: "string \<Rightarrow> string" where
  "escape0 t = concat (map (\<lambda>c. if c = CHR ''<'' then ''&lt;'' else if c = CHR ''>'' then ''&gt;'' else [c]) t)"

lemma summary_holds_only_own_tags_witness: "tame (render_summary escape0 (Some ''- **a** <b>''))"
proof (rule summary_holds_only_own_tags)
  show "leaves_no_brackets escape0"
    by (auto simp: leaves_no_brackets_def no_brackets_def escape0_def)
qed

lemma form_number_in_bounds_witness:
  "case whole_number ''99'' 5 1 50 of
      Inr v \<Rightarrow> 1 \<le> v \<and> v \<le> 50
    | Inl e \<Rightarrow> e = overflow \<and> form_int (strip ''99'') = None
        \<and> (\<exists>x. float_of_text (strip ''99'') = Some x \<and> int_of_float x = Inl overflow)"
  by (rule form_number_in_bounds) simp_all

section \<open>The start\<close>

lemma creates_absent0: "creates_absent (dd_create_all statements_succeed)"
  unfolding creates_absent_def statements_succeed_def
proof (intro allI impI conjI ballI)
  fix ts :: "table list" and live :: "live_table list" and t
  assume "distinct (map tb_name ts)" "t \<in> set ts" "lookup_by lv_name (tb_name t) live = None"
  moreover have "lookup_by lv_name (tb_name t) (map whole ts') = Some (whole t)"
    if "distinct (map tb_name ts')" "t \<in> set ts'" for ts'
    using that by (induction ts') (auto simp: whole_def image_iff)
  ultimately show "lookup_by lv_name (tb_name t) (dd_create_all \<lparr>dd_create_all = \<lambda>ts live. live @ map whole (filter (\<lambda>t. lookup_by lv_name (tb_name t) live = None) ts),
      dd_alter = \<lambda>_. None, dd_index = \<lambda>_. None\<rparr> ts live) = Some (whole t)"
    by (simp add: lookup_by_append distinct_map inj_on_def)
qed (auto simp: lookup_by_append filter_empty_conv)

lemma schema_is_brought_up_witness:
  "\<exists>live'. ensure_schema statements_succeed [note_model []] [old_note] = (Inr (concat (map (due_changes [old_note]) [note_model []])), live')
    \<and> list_all (complete live') [note_model []]"
proof -
  have one: "distinct (map tb_name [note_model []])" by simp
  obtain applied live' where e: "ensure_schema statements_succeed [note_model []] [old_note] = (Inr applied, live')"
    by (simp add: ensure_schema_def statements_succeed_def ensure_table_def note_model_def then_with_def add_column_def)
  from schema_is_brought_up [OF creates_absent0 one e] e show ?thesis by blast
qed

lemma started0: "\<exists>w1. record_startup env0 service version applied world2 = Inr ((), w1)
    \<and> runs w1 = [run0] \<and> proposals w1 = [proposal0] \<and> intact0 (events w1)"
  by (simp add: record_startup_def)

lemma abandoned0:
  assumes "runs w = [run0]" and "intact0 (events w)"
  shows "\<exists>w1. abandon_orphaned_runs env0 None w = Inr ([uuid0 1], w1)
    \<and> map rn_status (runs w1) = [RunFailed] \<and> proposals w1 = proposals w"
  using assms by (simp add: abandon_orphaned_runs_def abandon_one_def orphaned_def run0_def update_run_def Let_def tick_def)

lemma settled0:
  assumes "map rn_status (runs w) = [RunFailed]" and "proposals w = [proposal0]"
  shows "\<exists>w1. settle_decided_runs env0 w = Inr (0, w1)"
proof -
  have "expire_stale_proposals env0 w = Inr (0, tick w)"
    using expires0 assms(2) by (simp add: expire_stale_proposals_def stale_def tick_def proposal0_def Let_def)
  moreover have "filter (\<lambda>r. rn_status r = RunAwaiting) (runs (tick w)) = []" using assms(1) by (auto simp: tick_def)
  ultimately show ?thesis by (simp add: settle_decided_runs_def)
qed

lemma ensured0: "\<exists>applied live'. ensure_schema statements_succeed [note_model []] [old_note] = (Inr applied, live')"
  by (simp add: ensure_schema_def statements_succeed_def ensure_table_def note_model_def then_with_def add_column_def)

lemma start_leaves_no_orphans_witness:
  "\<exists>result live' w'. start_app env0 (\<lambda>_ w. w) statements_succeed [note_model []] [] [old_note] world2 = (Inr result, live', w')
    \<and> list_ex orphaned (runs world2) \<and> \<not> list_ex orphaned (runs w')"
proof -
  have guard: "assert_no_action_credentials [] = Inr ()"
    by (simp add: assert_no_action_credentials_def find_action_credentials_def env_value_def Let_def)
  obtain applied live' where e: "ensure_schema statements_succeed [note_model []] [old_note] = (Inr applied, live')"
    using ensured0 by blast
  obtain w1 where w1: "record_startup env0 ''app'' VERSION applied world2 = Inr ((), w1)"
    "runs w1 = [run0]" "proposals w1 = [proposal0]" "intact0 (events w1)" using started0 by blast
  obtain w2 where w2: "abandon_orphaned_runs env0 None w1 = Inr ([uuid0 1], w2)" "map rn_status (runs w2) = [RunFailed]"
    "proposals w2 = [proposal0]" using abandoned0 [OF w1(2,4)] w1(3) by auto
  obtain w3 where w3: "settle_decided_runs env0 w2 = Inr (0, w3)" using settled0 [OF w2(2,3)] by blast
  have "run_in_transaction (\<lambda>_ w. w) max_attempts max_attempts (record_startup env0 ''app'' VERSION applied) world2 = (Inr (), w1)"
    using w1(1) by (simp add: max_attempts_def eval_nat_numeral session_scope_def)
  then have s: "start_app env0 (\<lambda>_ w. w) statements_succeed [note_model []] [] [old_note] world2 = (Inr ([uuid0 1], 0), live', w3)"
    using guard e w2(1) w3 by (simp add: start_app_def init_schema_and_audit_def session_scope_def)
  have "list_ex orphaned (runs world2)" by (simp add: orphaned_def run0_def)
  with start_leaves_no_orphans [OF worlds_ok(2) _ s] s show ?thesis by blast
qed

end
