(* ===== verification/Seed.thy ===== *)
theory Seed
  imports Prompts StripeRead
begin

text \<open>
  \<^verbatim>\<open>scripts/seed_stripe_test_data.py\<close>: the script that builds the fixture of overdue invoices in Stripe's test
  mode. What it does is the sequence of its calls; Stripe's replies (the ids of what is created, the clocks
  there are, the status of a clock) and the time are parameters, indexed by the call. What it prints is left out.
\<close>

section \<open>The fixture\<close>

definition CLOCK_NAME :: string where "CLOCK_NAME = ''stripe-collections-agent-seed''"
definition CLOCK_START_DAYS_AGO :: int where "CLOCK_START_DAYS_AGO = 400"
definition CUSTOMERS_PER_CLOCK :: nat where "CUSTOMERS_PER_CLOCK = 3"

record seed_customer =
  sc_key :: string
  sc_name :: string
  sc_email :: "string option"
  sc_note :: string

definition creation_email :: "seed_customer \<Rightarrow> string" where
  "creation_email c =
     (case sc_email c of
        Some e \<Rightarrow> if e \<noteq> [] then e else ''placeholder-'' @ sc_key c @ ''@example.invalid''
      | None \<Rightarrow> ''placeholder-'' @ sc_key c @ ''@example.invalid'')"

record seed_invoice =
  si_customer :: string
  si_amount :: int
  si_description :: string
  si_days_overdue :: "int option"
  si_due_offset_days :: "int option"
  si_paid_offset_days :: "int option"
  si_note :: string

definition customer_spec :: "string \<Rightarrow> string \<Rightarrow> string option \<Rightarrow> string \<Rightarrow> seed_customer" where
  "customer_spec key name email remark = \<lparr>sc_key = key, sc_name = name, sc_email = email, sc_note = remark\<rparr>"

definition CUSTOMERS :: "seed_customer list" where
  "CUSTOMERS =
     [customer_spec ''acme'' ''Acme Industries'' (Some ''ap@acme.test'') ''clean payment history'',
      customer_spec ''borealis'' ''Borealis Systems'' (Some ''accounts@borealis.test'') [],
      customer_spec ''corvus'' ''Corvus Logistics'' (Some ''finance@corvus.test'') [],
      customer_spec ''delta'' ''Delta Fabrication'' None ''NO EMAIL -- the agent must not propose a letter for this one'',
      customer_spec ''eastwind'' ''Eastwind Retail'' (Some ''ar@eastwind.test'') [],
      customer_spec ''ferrolux'' ''Ferrolux Metals'' (Some ''billing@ferrolux.test'') ''two open invoices'']"

definition open_spec :: "string \<Rightarrow> int \<Rightarrow> string \<Rightarrow> int \<Rightarrow> string \<Rightarrow> seed_invoice" where
  "open_spec customer amount description days remark =
     \<lparr>si_customer = customer, si_amount = amount, si_description = description, si_days_overdue = Some days,
      si_due_offset_days = None, si_paid_offset_days = None, si_note = remark\<rparr>"

definition INVOICES :: "seed_invoice list" where
  "INVOICES =
     [\<lparr>si_customer = ''acme'', si_amount = 120000, si_description = ''Q1 maintenance retainer'', si_days_overdue = None,
       si_due_offset_days = Some 30, si_paid_offset_days = Some 28, si_note = ''already paid, on time''\<rparr>,
      open_spec ''acme'' 25000 ''March consumables'' 3 ''friendly territory'',
      open_spec ''borealis'' 124050 ''Licence renewal'' 9 [],
      open_spec ''corvus'' 480000 ''Freight - February'' 18 [],
      open_spec ''delta'' 330000 ''Tooling batch 47'' 27 ''no email on file -- must be skipped'',
      open_spec ''eastwind'' 87500 ''Shelf fittings'' 47 [],
      open_spec ''ferrolux'' 2340000 ''Alloy supply - January'' 62 ''$23,400.00 -- makes a currency error obvious'',
      open_spec ''ferrolux'' 865000 ''Alloy supply - December'' 95 ''final notice'']"

section \<open>The key\<close>

definition system_exit :: "string \<Rightarrow> exn" where
  "system_exit m = OtherError ''SystemExit'' m"

fun first_key :: "(string \<times> string) list \<Rightarrow> string list \<Rightarrow> exn + string" where
  "first_key environ [] =
     Inl (system_exit (''Set STRIPE_API_KEY_SEED (a standard sk_test_... key) in your .env.'' @ newline
       @ ''The services never read it: seeding needs write access, and no service has any.''))"
| "first_key environ (name # names) =
     (let value = strip (env_value environ name) in
      if value \<noteq> [] then
        raise_if (\<not> prefix ''sk_test'' value \<and> \<not> prefix ''rk_test'' value)
          (system_exit (name @ '' is not a test-mode key. This script only runs in test mode.'')) (Inr value)
      else first_key environ names)"

definition api_key :: "(string \<times> string) list \<Rightarrow> exn + string" where
  "api_key environ = first_key environ [''STRIPE_API_KEY_SEED'', ''STRIPE_API_KEY_WRITE'']"

section \<open>The calls\<close>

text \<open>Of an invoice's parameters that are always the same, the collection method is part of the call's name.\<close>

datatype seed_call =
  ListClocks
| DeleteClock string
| CreateClock int string
| RetrieveClock string
| AdvanceClock string int
| CreateCustomer string string string string
| UpdateEmail string string
| SendInvoice string int
| CreateItem string string int string string
| FinalizeInvoice string
| PayInvoice string

text \<open>What Stripe and the clock answer, by the number of the call; the time is in microseconds.\<close>

record stripe_write =
  sw_id :: "nat \<Rightarrow> string"
  sw_clocks :: "nat \<Rightarrow> (string \<times> string) list"
  sw_status :: "nat \<Rightarrow> string"
  sw_time :: "nat \<Rightarrow> int"

type_synonym 'a seeding = "seed_call list \<Rightarrow> (exn + 'a) \<times> seed_call list"

definition asks :: "(nat \<Rightarrow> 'a) \<Rightarrow> seed_call \<Rightarrow> 'a seeding" where
  "asks reply call done_calls = (Inr (reply (length done_calls)), done_calls @ [call])"

fun for_each :: "('x \<Rightarrow> 'a seeding) \<Rightarrow> 'x list \<Rightarrow> 'a list seeding" where
  "for_each f [] = (\<lambda>calls. (Inr [], calls))"
| "for_each f (x # xs) = then_with (f x) (\<lambda>y. then_with (for_each f xs) (\<lambda>ys calls. (Inr (y # ys), calls)))"

text \<open>Each turn sleeps a second, so that 121 turns are more than the two minutes hold.\<close>

fun poll_clock :: "stripe_write \<Rightarrow> string \<Rightarrow> int \<Rightarrow> nat \<Rightarrow> unit seeding" where
  "poll_clock sw clock deadline 0 = (\<lambda>calls. (Inl (OtherError ''Fuel'' []), calls))"
| "poll_clock sw clock deadline (Suc fuel) =
     (\<lambda>calls.
       if sw_time sw (length calls) < deadline then
         then_with (asks (sw_status sw) (RetrieveClock clock)) (\<lambda>status calls.
           if status = ''ready'' then (Inr (), calls)
           else if status = ''internal_failure'' then
             (Inl (system_exit (''test clock '' @ clock @ '' failed while advancing'')), calls)
           else poll_clock sw clock deadline fuel calls) calls
       else (Inl (system_exit (''test clock '' @ clock @ '' did not become ready within 120s'')), calls))"

definition wait_until_ready :: "stripe_write \<Rightarrow> string \<Rightarrow> unit seeding" where
  "wait_until_ready sw clock calls = poll_clock sw clock (sw_time sw (length calls) + 120 * second_us) 121 calls"

definition find_our_clocks :: "stripe_write \<Rightarrow> string list seeding" where
  "find_our_clocks sw =
     then_with (asks (sw_clocks sw) ListClocks) (\<lambda>clocks calls.
       (Inr (map fst (filter (\<lambda>c. snd c = CLOCK_NAME) clocks)), calls))"

definition destroy :: "stripe_write \<Rightarrow> nat seeding" where
  "destroy sw =
     then_with (find_our_clocks sw) (\<lambda>clocks.
     then_with (for_each (\<lambda>c. asks (\<lambda>_. ()) (DeleteClock c)) clocks) (\<lambda>_ calls. (Inr (length clocks), calls)))"

section \<open>Seeding\<close>

function chunks :: "nat \<Rightarrow> 'x list \<Rightarrow> 'x list list" where
  "chunks n xs = (if n = 0 \<or> xs = [] then [] else take n xs # chunks n (drop n xs))"
  by pat_completeness auto
termination by (relation "measure (\<lambda>(n, xs). length xs)") auto

declare chunks.simps [simp del]

definition seed_customer_on :: "stripe_write \<Rightarrow> string \<Rightarrow> seed_customer \<Rightarrow> (string \<times> string \<times> string) seeding" where
  "seed_customer_on sw clock spec =
     then_with (asks (sw_id sw) (CreateCustomer (sc_name spec) (creation_email spec) clock (sc_key spec))) (\<lambda>i calls.
       (Inr (sc_key spec, i, clock), calls))"

definition seed_group :: "stripe_write \<Rightarrow> int \<Rightarrow> seed_customer list \<Rightarrow> (string \<times> (string \<times> string \<times> string) list) seeding" where
  "seed_group sw clock_start people =
     then_with (asks (sw_id sw) (CreateClock clock_start CLOCK_NAME)) (\<lambda>clock.
     then_with (for_each (seed_customer_on sw clock) people) (\<lambda>made calls. (Inr (clock, made), calls)))"

definition lookup_key :: "(string \<times> string) list \<Rightarrow> string \<Rightarrow> string seeding" where
  "lookup_key d k calls = (case map_of d k of None \<Rightarrow> (Inl (KeyError k), calls) | Some v \<Rightarrow> (Inr v, calls))"

text \<open>Stripe answers the finalising of an invoice with the same invoice, so under the same id.\<close>

definition build_invoice :: "stripe_write \<Rightarrow> (string \<times> string) list \<Rightarrow> seed_invoice \<Rightarrow> int \<Rightarrow> string seeding" where
  "build_invoice sw customers spec due_epoch =
     then_with (lookup_key customers (si_customer spec)) (\<lambda>customer.
     then_with (asks (sw_id sw) (SendInvoice customer due_epoch)) (\<lambda>draft.
     then_with (asks (sw_id sw) (CreateItem customer draft (si_amount spec) ''usd'' (si_description spec))) (\<lambda>_.
     then_with (asks (\<lambda>_. draft) (FinalizeInvoice draft)) (\<lambda>final calls. (Inr final, calls)))))"

definition offset_or_0 :: "int option \<Rightarrow> int" where
  "offset_or_0 d = (case d of None \<Rightarrow> 0 | Some n \<Rightarrow> n)"

definition paid_specs :: "seed_invoice list" where
  "paid_specs = filter (\<lambda>s. si_paid_offset_days s \<noteq> None) INVOICES"

definition open_specs :: "seed_invoice list" where
  "open_specs = filter (\<lambda>s. si_days_overdue s \<noteq> None) INVOICES"

definition settle_invoice ::
  "stripe_write \<Rightarrow> (string \<times> string) list \<Rightarrow> int \<Rightarrow> string \<times> seed_invoice \<Rightarrow> unit seeding" where
  "settle_invoice sw clock_of clock_start p =
     then_with (lookup_key clock_of (si_customer (snd p))) (\<lambda>clock.
     then_with (asks (\<lambda>_. ()) (AdvanceClock clock (clock_start + offset_or_0 (si_paid_offset_days (snd p)) * 86400))) (\<lambda>_.
     then_with (wait_until_ready sw clock) (\<lambda>_.
     asks (\<lambda>_. ()) (PayInvoice (fst p)))))"

definition strip_email :: "(string \<times> string) list \<Rightarrow> seed_customer \<Rightarrow> unit seeding" where
  "strip_email customers spec =
     (if sc_email spec = None
      then then_with (lookup_key customers (sc_key spec)) (\<lambda>i. asks (\<lambda>_. ()) (UpdateEmail i []))
      else (\<lambda>calls. (Inr (), calls)))"

definition seed :: "stripe_write \<Rightarrow> int \<Rightarrow> (nat \<times> nat \<times> nat) seeding" where
  "seed sw now =
     (let clock_start = now - CLOCK_START_DAYS_AGO * 86400 in
      then_with (for_each (seed_group sw clock_start) (chunks CUSTOMERS_PER_CLOCK CUSTOMERS)) (\<lambda>groups.
      let clocks = map fst groups; made = concat (map snd groups);
          customers = rev (map (\<lambda>(k, i, c). (k, i)) made); clock_of = rev (map (\<lambda>(k, i, c). (k, c)) made)
      in then_with (for_each (\<lambda>spec. then_with
              (build_invoice sw customers spec (clock_start + offset_or_0 (si_due_offset_days spec) * 86400))
              (\<lambda>i calls. (Inr (i, spec), calls))) paid_specs) (\<lambda>paid.
         then_with (for_each (settle_invoice sw clock_of clock_start)
              (sort_key (\<lambda>p. offset_or_0 (si_paid_offset_days (snd p))) paid)) (\<lambda>_.
         then_with (for_each (\<lambda>spec. build_invoice sw customers spec (now - offset_or_0 (si_days_overdue spec) * 86400))
              (sort_key (\<lambda>s. offset_or_0 (si_days_overdue s)) open_specs)) (\<lambda>_.
         then_with (for_each (strip_email customers) CUSTOMERS) (\<lambda>_ calls.
           (Inr (length clocks, length (remdups (map fst customers)), length INVOICES), calls)))))))"

section \<open>The command line\<close>

text \<open>What is listed is the overdue query of the agent itself; the script adds which rows are the fixture's.\<close>

record overdue_listing =
  ol_rows :: "pydict list"
  ol_ours :: nat
  ol_undeliverable :: nat
  ol_spread :: "int list"

definition days_shown :: "pydict \<Rightarrow> int list" where
  "days_shown r = (case dict_get ''days_overdue'' r of PInt n \<Rightarrow> if n \<noteq> 0 then [n] else [] | _ \<Rightarrow> [])"

definition show_overdue :: "stripe_client \<Rightarrow> unicode \<Rightarrow> int \<Rightarrow> string \<Rightarrow> read_exn + overdue_listing" where
  "show_overdue c u now key =
     (case stripe_read_client c key of
        Inl e \<Rightarrow> Inl e
      | Inr (client, s) \<Rightarrow>
          and_then (fst (list_overdue_invoices client u now 1 100 None s)) (\<lambda>rows.
          Inr \<lparr>ol_rows = rows,
               ol_ours = length (filter (\<lambda>r. py_or (dict_get ''customer_name'' r) (PStr []) \<in> set (map (PStr \<circ> sc_name) CUSTOMERS)) rows),
               ol_undeliverable = length (filter (\<lambda>r. \<not> truthy (dict_get ''deliverable'' r)) rows),
               ol_spread = sorted_list_of_set (set (concat (map days_shown rows)))\<rparr>))"

text \<open>The action the flags choose: \<^verbatim>\<open>--destroy\<close> first, then \<^verbatim>\<open>--list\<close>, then \<^verbatim>\<open>--recreate\<close>, which seeds again.\<close>

record flags =
  fl_recreate :: bool
  fl_destroy :: bool
  fl_list :: bool

datatype seed_end = Destroyed nat | Listed | AlreadyThere | SeededAll nat nat nat

definition seed_main :: "stripe_write \<Rightarrow> int \<Rightarrow> (string \<times> string) list \<Rightarrow> flags \<Rightarrow> seed_end seeding" where
  "seed_main sw now environ fl =
     (case api_key environ of
        Inl e \<Rightarrow> (\<lambda>calls. (Inl e, calls))
      | Inr key \<Rightarrow>
          if fl_destroy fl then then_with (destroy sw) (\<lambda>n calls. (Inr (Destroyed n), calls))
          else if fl_list fl then (\<lambda>calls. (Inr Listed, calls))
          else
            then_with (if fl_recreate fl then then_with (destroy sw) (\<lambda>_ calls. (Inr False, calls))
               else then_with (find_our_clocks sw) (\<lambda>ours calls. (Inr (ours \<noteq> []), calls))) (\<lambda>there.
            if there then (\<lambda>calls. (Inr AlreadyThere, calls))
            else then_with (seed sw now) (\<lambda>(a, b, c) calls. (Inr (SeededAll a b c), calls))))"

text \<open>The exit status; the listing at the end may still raise.\<close>

fun seed_status :: "seed_end \<Rightarrow> nat" where
  "seed_status AlreadyThere = 1"
| "seed_status (Destroyed n) = 0"
| "seed_status Listed = 0"
| "seed_status (SeededAll a b c) = 0"

end
