(* ===== verification/Fixture.thy ===== *)
theory Fixture
  imports AgentLoop Queries
begin

text \<open>
  \<^verbatim>\<open>scripts/dev_seed_run.py\<close>, which drives the real loop, tools and store with a fixed script in the model's
  place, and the scripted model of \<^verbatim>\<open>app/agent/llm.py\<close> that replays it. What is printed is left out.
\<close>

section \<open>The scripted model\<close>

definition synthesise_content :: "llm_response \<Rightarrow> pyval" where
  "synthesise_content r =
     PList (map (\<lambda>t. PDict [(''type'', PStr ''thinking''), (''thinking'', PStr t)]) (lr_thinking r)
       @ map (\<lambda>t. PDict [(''type'', PStr ''text''), (''text'', PStr t)]) (lr_text r)
       @ map (\<lambda>c. PDict [(''type'', PStr ''tool_use''), (''id'', PStr (tc_id c)), (''name'', PStr (tc_name c)),
            (''input'', PDict (tc_arguments c))]) (lr_tool_calls r))"

definition scripted_llm :: "llm_response list \<Rightarrow> model" where
  "scripted_llm turns n system messages tools =
     (if length turns \<le> n then Inl (LlmRaised AssertionError)
      else Inr (let t = turns ! n in if lr_content t = PNone then t\<lparr>lr_content := synthesise_content t\<rparr> else t))"

text \<open>A turn as the script writes it; the ids of its calls are of one counter.\<close>

record turn_spec =
  ts_thinking :: "string list"
  ts_text :: "string list"
  ts_tools :: "(string \<times> pydict) list"

definition scripted_id :: "nat \<Rightarrow> string" where
  "scripted_id n = ''toolu_'' @ replicate (4 - length (nat_str n)) (CHR ''0'') @ nat_str n"

fun number_calls :: "nat \<Rightarrow> (string \<times> pydict) list \<Rightarrow> tool_call list" where
  "number_calls n [] = []"
| "number_calls n ((name, arguments) # rest) =
     \<lparr>tc_id = scripted_id n, tc_name = name, tc_arguments = arguments\<rparr> # number_calls (Suc n) rest"

definition turn_of :: "nat \<Rightarrow> turn_spec \<Rightarrow> llm_response" where
  "turn_of n t =
     (let calls = number_calls n (ts_tools t) in
      \<lparr>lr_stop_reason = Some (if calls \<noteq> [] then ''tool_use'' else ''end_turn''), lr_thinking = ts_thinking t,
       lr_text = ts_text t, lr_tool_calls = calls, lr_content = PNone\<rparr>)"

fun number_turns :: "nat \<Rightarrow> turn_spec list \<Rightarrow> llm_response list" where
  "number_turns n [] = []"
| "number_turns n (t # ts) = turn_of n t # number_turns (n + length (ts_tools t)) ts"

section \<open>Which invoices, and in what tone\<close>

definition TONE_FOR_DAYS :: "(int \<times> string) list" where
  "TONE_FOR_DAYS = [(14, ''friendly''), (59, ''firm''), (10 ^ 9, ''final'')]"

definition tone_for :: "int \<Rightarrow> string" where
  "tone_for days = (case find (\<lambda>(ceiling, tone). days \<le> ceiling) TONE_FOR_DAYS of Some (_, tone) \<Rightarrow> tone | None \<Rightarrow> ''final'')"

text \<open>The days overdue of a projected invoice are a number or \<^verbatim>\<open>None\<close>.\<close>

definition row_tone :: "pydict \<Rightarrow> string" where
  "row_tone row = tone_for (case dict_get ''days_overdue'' row of PInt n \<Rightarrow> n | _ \<Rightarrow> 0)"

definition among :: "pydict \<Rightarrow> pydict list \<Rightarrow> bool" where
  "among row chosen = list_ex (\<lambda>c. py_eq (PDict c) (PDict row)) chosen"

definition by_amount :: "pydict list \<Rightarrow> pydict list" where
  "by_amount rows = sort_key (\<lambda>r. - invoice_amount r) rows"

definition pick_one :: "pydict list \<Rightarrow> string \<Rightarrow> pydict list \<Rightarrow> pydict list" where
  "pick_one rows tone chosen =
     (case find (\<lambda>r. \<not> among r chosen \<and> row_tone r = tone) rows of None \<Rightarrow> chosen | Some r \<Rightarrow> chosen @ [r])"

definition top_up :: "nat \<Rightarrow> pydict \<Rightarrow> pydict list \<Rightarrow> pydict list" where
  "top_up limit row chosen = (if limit \<le> length chosen \<or> among row chosen then chosen else chosen @ [row])"

definition ladder :: "string list" where
  "ladder = [''friendly'', ''firm'', ''final'']"

definition pick_across_the_tone_ladder :: "nat \<Rightarrow> pydict list \<Rightarrow> pydict list" where
  "pick_across_the_tone_ladder limit rows =
     take limit (by_amount (fold (top_up limit) (by_amount rows) (fold (pick_one (by_amount rows)) ladder [])))"

section \<open>The letters\<close>

definition opener :: "string \<Rightarrow> string" where
  "opener tone =
     (if tone = ''friendly'' then ''We think this one may simply have been overlooked.''
      else if tone = ''firm'' then ''This balance is now well past its due date and we need a payment date.''
      else ''This is a final notice before the account is escalated internally.'')"

definition closer :: "string \<Rightarrow> string" where
  "closer tone =
     (if tone = ''friendly'' then ''Thank you -- and apologies if this has crossed with your payment.''
      else if tone = ''firm'' then ''If the timing is difficult, reply and we will discuss terms.''
      else ''Please treat this as a priority and reply with a payment date.'')"

definition compose :: "unicode \<Rightarrow> pydict \<Rightarrow> string \<Rightarrow> string \<times> string" where
  "compose u facts tone =
     (let fact = (\<lambda>k. py_str u (dict_get k facts)) in
      (if tone \<noteq> ''final'' then ''Invoice '' @ fact ''invoice_number'' @ '' is '' @ fact ''days_overdue'' @ '' days past due''
       else ''Final notice: invoice '' @ fact ''invoice_number'' @ '', '' @ fact ''days_overdue'' @ '' days past due'',
       join newline
         [''Dear '' @ fact ''customer_name'' @ '','', [],
          ''Invoice '' @ fact ''invoice_number'' @ '' for '' @ fact ''amount_display'' @ '', originally due ''
            @ ''on '' @ fact ''due_date'' @ '', is now '' @ fact ''days_overdue'' @ '' days past due.'', [],
          opener tone, [],
          ''You can settle it here: '' @ fact ''hosted_invoice_url'', [],
          ''If this has already been paid, or you believe it is in error, reply to this ''
            @ ''email and we will look into it straight away.'', [],
          closer tone, [], ''Kind regards,'', ''Servicia Collections'']))"

definition rationale_for :: "unicode \<Rightarrow> pydict \<Rightarrow> string \<Rightarrow> pydict \<Rightarrow> string" where
  "rationale_for u facts tone history =
     (let summary = items_of (dict_get_or ''summary'' (PDict []) history);
          unpaid = (case dict_get ''still_unpaid'' summary of PInt n \<Rightarrow> n | _ \<Rightarrow> 0)
      in join ''; ''
          ([py_str u (dict_get ''days_overdue'' facts) @ '' days overdue at '' @ py_str u (dict_get ''amount_display'' facts)]
           @ (if history = [] then []
              else if truthy (dict_get ''paid_on_time'' summary)
                \<and> py_eq (dict_get ''paid_on_time'' summary) (dict_get ''paid'' summary)
              then [''every one of '' @ py_str u (dict_get ''paid'' summary) @ '' prior invoice(s) paid on time, so a ''
                      @ ''courteous reminder rather than a firmer notice'']
              else if 1 < unpaid
              then [int_str unpaid @ '' invoices still unpaid, so the firmer tone is '' @ ''warranted regardless of the day count'']
              else [])
           @ [''tone: '' @ tone]) @ ''.'')"

section \<open>The refusals of a run\<close>

definition refusal_reasons :: "string \<Rightarrow> world \<Rightarrow> pyval list" where
  "refusal_reasons run_id w =
     map (\<lambda>s. dict_get_or ''error'' (PStr ''unknown'') (items_of (py_or (dict_get ''result'' (st_payload s)) (PDict []))))
       (filter (\<lambda>s. st_type s = ToolResult \<and> st_tool_name s = Some ''propose_collection_letter''
          \<and> truthy (dict_get ''is_error'' (st_payload s))) (run_steps run_id w))"

section \<open>The script\<close>

datatype fixture_exn = NoContext read_exn | ToolBroke tool_exn | StoreBroke exn

definition fixture_goal :: string where
  "fixture_goal =
     ''[SCRIPTED FIXTURE - no model was called] Review the overdue invoices and draft ''
     @ ''a collection letter for each one worth pursuing.''"

definition SCRIPTED_NOTICE :: string where
  "SCRIPTED_NOTICE =
     ''This run was produced by scripts/dev_seed_run.py. No model was called: the tool calls, ''
     @ ''the reasoning and the letters below came from a fixed script, so the approval flow can ''
     @ ''be reviewed before an Anthropic key is available. A real run looks the same in shape ''
     @ ''and is driven by the model's own choices.''"

definition list_arguments :: pydict where
  "list_arguments = [(''min_days_overdue'', PInt 1), (''limit'', PInt 25), (''min_amount_cents'', PNone)]"

definition history_arguments :: "pydict \<Rightarrow> pydict" where
  "history_arguments facts = [(''customer_id'', dict_get ''customer_id'' facts), (''limit'', PInt 10)]"

definition facts_for :: "pydict \<Rightarrow> pydict tool_work" where
  "facts_for row a =
     (case dict_get ''id'' row of
        PStr i \<Rightarrow> (case ag_facts a i of Some f \<Rightarrow> (Inr f, a) | None \<Rightarrow> (Inl (Raised (KeyError i)), a))
      | _ \<Rightarrow> (Inl (Raised (KeyError [])), a))"

text \<open>The turn for one invoice: its history is read now, and the script asks for it again in the run.\<close>

definition draft_turn :: "unicode \<Rightarrow> registry \<Rightarrow> pydict \<Rightarrow> turn_spec tool_work" where
  "draft_turn u reg row =
     then_with (facts_for row) (\<lambda>facts.
     then_with (execute_tool u reg ''get_payment_history'' (history_arguments facts)) (\<lambda>history a.
     let tone = row_tone facts; (subject, body) = compose u facts tone;
         summary = items_of (dict_get ''summary'' (items_of history))
     in (Inr \<lparr>ts_thinking =
                [py_str u (dict_get ''customer_name'' facts) @ '' is '' @ py_str u (dict_get ''days_overdue'' facts)
                 @ '' days overdue for '' @ py_str u (dict_get ''amount_display'' facts) @ ''. Payment history: ''
                 @ py_str u (dict_get ''paid_on_time'' summary) @ '' of '' @ py_str u (dict_get ''paid'' summary) @ '' ''
                 @ ''prior invoices paid on time. A '' @ tone @ '' letter is appropriate.''],
              ts_text = [],
              ts_tools = [(''get_payment_history'', history_arguments facts),
                (''propose_collection_letter'',
                 [(''invoice_id'', dict_get ''id'' row), (''subject'', PStr subject), (''body'', PStr body),
                  (''tone'', PStr tone), (''rationale'', PStr (rationale_for u facts tone (items_of history)))])]\<rparr>, a)))"

fun draft_turns :: "unicode \<Rightarrow> registry \<Rightarrow> pydict list \<Rightarrow> turn_spec list tool_work" where
  "draft_turns u reg [] = (\<lambda>a. (Inr [], a))"
| "draft_turns u reg (row # rows) =
     then_with (draft_turn u reg row) (\<lambda>t. then_with (draft_turns u reg rows) (\<lambda>ts a. (Inr (t # ts), a)))"

definition closing :: "unicode \<Rightarrow> agent \<Rightarrow> pydict list \<Rightarrow> pydict list \<Rightarrow> string" where
  "closing u a candidates skipped =
     (let facts = (\<lambda>row. case fst (facts_for row a) of Inr f \<Rightarrow> f | Inl _ \<Rightarrow> []) in
      join (newline @ newline)
        ([''I drafted '' @ nat_str (length candidates) @ '' letters: ''
            @ join '', '' (map (\<lambda>row. py_str u (dict_get ''customer_name'' (facts row)) @ '' '' @ ''('' @ row_tone (facts row) @ '')'') candidates)
            @ ''.'']
         @ (if skipped = [] then []
            else [''I left '' @ nat_str (length skipped) @ '' overdue invoice(s) alone because there is no email ''
                    @ ''address on file, so no letter could be delivered.''])
         @ [''Nothing has been sent. Each letter is waiting for a human decision.'']))"

definition script_of :: "unicode \<Rightarrow> registry \<Rightarrow> pydict list \<Rightarrow> pydict list \<Rightarrow> turn_spec list tool_work" where
  "script_of u reg candidates skipped =
     then_with (draft_turns u reg candidates) (\<lambda>drafts a.
       (Inr ([\<lparr>ts_thinking = [], ts_text = [SCRIPTED_NOTICE], ts_tools = [(''list_overdue_invoices'', list_arguments)]\<rparr>]
          @ drafts
          @ [\<lparr>ts_thinking = [], ts_text = [closing u a candidates skipped], ts_tools = []\<rparr>]), a))"

definition listed_invoices :: "pyval \<Rightarrow> pydict list" where
  "listed_invoices listing = map items_of (elems_of (dict_get_or ''invoices'' (PList []) (items_of listing)))"

text \<open>What the script decides when the run is over: the exit status.\<close>

definition fixture_status :: "run_outcome \<Rightarrow> world \<Rightarrow> nat" where
  "fixture_status outcome w =
     (if ro_proposals outcome = 0
      then if PStr ''duplicate_pending_proposal'' \<in> set (refusal_reasons (ro_run_id outcome) w) then 0 else 1
      else 0)"

definition run_script ::
  "env \<Rightarrow> unicode \<Rightarrow> app_settings \<Rightarrow> string \<Rightarrow> registry \<Rightarrow> agent \<Rightarrow> (fixture_exn + nat) \<times> world" where
  "run_script env u s run_id reg a =
     (case execute_tool u reg ''list_overdue_invoices'' list_arguments a of
        (Inl e, a1) \<Rightarrow> (Inl (ToolBroke e), ag_world a1)
      | (Inr listing, a1) \<Rightarrow>
          let rows = listed_invoices listing;
              candidates = pick_across_the_tone_ladder 3 (filter (\<lambda>r. truthy (dict_get ''deliverable'' r)) rows);
              skipped = filter (\<lambda>r. \<not> truthy (dict_get ''deliverable'' r)) rows
          in if candidates = [] then
               (case session_scope (set_status env run_id RunFailed (Some ''no overdue invoices to work with'')) (ag_world a1) of
                  (Inl e, w) \<Rightarrow> (Inl (StoreBroke e), w)
                | (Inr _, w) \<Rightarrow> (Inr 1, w))
             else
               (case script_of u reg candidates skipped a1 of
                  (Inl e, a2) \<Rightarrow> (Inl (ToolBroke e), ag_world a2)
                | (Inr script, a2) \<Rightarrow>
                    (case run_agent env u s run_id ''[SCRIPTED FIXTURE] Draft collection letters for the overdue invoices.''
                            (scripted_llm (number_turns 1 script)) reg DEFAULT_MAX_TURNS a2 of
                       (Inl e, c) \<Rightarrow> (Inl (StoreBroke e), cv_world c)
                     | (Inr outcome, c) \<Rightarrow> (Inr (fixture_status outcome (cv_world c)), cv_world c))))"

text \<open>The script first brings the schema up (\<open>Startup\<close>), which changes no row.\<close>

definition fixture_main ::
  "env \<Rightarrow> stripe_client \<Rightarrow> unicode \<Rightarrow> app_settings \<Rightarrow> string \<Rightarrow> world \<Rightarrow> (fixture_exn + nat) \<times> world" where
  "fixture_main env c u s read_key w =
     (case session_scope (create_run env fixture_goal (as_operator_id s)
             [(''min_days_overdue'', PInt 1), (''max_proposals'', PInt (int (as_max_proposals s))), (''scripted'', PBool True)]) w of
        (Inl e, w1) \<Rightarrow> (Inl (StoreBroke e), w1)
      | (Inr run_id, w1) \<Rightarrow>
          (case build_run_context env c u s read_key
                  \<lparr>jb_run_id = run_id, jb_goal = fixture_goal, jb_min_days = 1, jb_max_proposals = int (as_max_proposals s)\<rparr> w1 of
             Inl e \<Rightarrow> (Inl (NoContext e), w1)
           | Inr (reg, a) \<Rightarrow> run_script env u s run_id reg a))"

end
