(* ===== verification/FixtureFacts.thy ===== *)
theory FixtureFacts
  imports Fixture QueryFacts LetterReview
begin

text \<open>
  The scripted fixture: the invoices it picks span the ladder of tones, and its letters state the facts that
  the review of a letter asks for.
\<close>

section \<open>The pick\<close>

text \<open>Rows that Python's \<^verbatim>\<open>in\<close> tells apart.\<close>

definition told_apart :: "pydict list \<Rightarrow> bool" where
  "told_apart rows = (distinct rows \<and> (\<forall>r \<in> set rows. \<forall>s \<in> set rows. py_eq (PDict r) (PDict s) \<longrightarrow> r = s))"

lemma among_iff:
  assumes "told_apart rows" and "set chosen \<subseteq> set rows" and "row \<in> set rows"
  shows "among row chosen \<longleftrightarrow> row \<in> set chosen"
proof
  assume "among row chosen"
  then show "row \<in> set chosen" using assms by (auto simp: among_def told_apart_def list_ex_iff)
next
  assume "row \<in> set chosen"
  then show "among row chosen" unfolding among_def list_ex_iff by (meson py_eq_refl)
qed

lemma tone_on_ladder: "row_tone r \<in> set ladder"
  by (auto simp: row_tone_def tone_for_def TONE_FOR_DAYS_def ladder_def)

text \<open>The largest row of a tone, or none: what \<open>find\<close> gives on the rows by amount.\<close>

lemma find_largest:
  assumes "find P (by_amount rows) = Some r"
  shows "r \<in> set rows \<and> P r \<and> (\<forall>s \<in> set rows. P s \<longrightarrow> invoice_amount s \<le> invoice_amount r)"
proof -
  let ?ys = "by_amount rows"
  have sorted: "sorted (map (\<lambda>r. - invoice_amount r) ?ys)" by (simp add: by_amount_def)
  from assms obtain i where i: "i < length ?ys" "P (?ys ! i)" "r = ?ys ! i" "\<forall>j < i. \<not> P (?ys ! j)"
    unfolding find_Some_iff by blast
  have "invoice_amount s \<le> invoice_amount r" if s: "s \<in> set rows" "P s" for s
  proof -
    from s(1) obtain j where j: "j < length ?ys" "?ys ! j = s" by (metis by_amount_def in_set_conv_nth set_sort)
    with i(4) s(2) have "i \<le> j" by (metis not_le)
    from sorted_nth_mono [OF sorted this] j i(1) show ?thesis by (simp add: i(3))
  qed
  moreover have "r \<in> set rows" using i(1,3) by (metis by_amount_def nth_mem set_sort)
  ultimately show ?thesis using i(2,3) by blast
qed

text \<open>What holds of the chosen rows all along, and the tones that have had their turn.\<close>

definition picked :: "pydict list \<Rightarrow> string set \<Rightarrow> pydict list \<Rightarrow> bool" where
  "picked rows voices chosen =
     (set chosen \<subseteq> set rows \<and> distinct chosen \<and> row_tone ` set chosen \<subseteq> voices
      \<and> (\<forall>r \<in> set rows. row_tone r \<in> voices \<longrightarrow> (\<exists>c \<in> set chosen. row_tone c = row_tone r \<and> invoice_amount r \<le> invoice_amount c)))"

lemma pick_one_picked:
  assumes "told_apart rows" and p: "picked rows voices chosen" and "tone \<notin> voices"
  shows "picked rows (insert tone voices) (pick_one (by_amount rows) tone chosen)
    \<and> length (pick_one (by_amount rows) tone chosen) \<le> Suc (length chosen)"
proof -
  let ?P = "\<lambda>r. \<not> among r chosen \<and> row_tone r = tone"
  have sub: "set chosen \<subseteq> set rows" and voices: "row_tone ` set chosen \<subseteq> voices" using p by (simp_all add: picked_def)
  have P: "?P r \<longleftrightarrow> row_tone r = tone" if "r \<in> set rows" for r
    using among_iff [OF assms(1) sub that] voices assms(3) by auto
  show ?thesis
  proof (cases "find ?P (by_amount rows)")
    case None
    then have "\<forall>r \<in> set rows. row_tone r \<noteq> tone" using P by (auto simp: find_None_iff by_amount_def)
    then show ?thesis using p None by (auto simp: picked_def pick_one_def)
  next
    case (Some r)
    have r: "r \<in> set rows" "row_tone r = tone" "r \<notin> set chosen"
      using find_largest [OF Some] among_iff [OF assms(1) sub] by auto
    have most: "s \<in> set rows \<Longrightarrow> row_tone s = tone \<Longrightarrow> invoice_amount s \<le> invoice_amount r" for s
      using find_largest [OF Some] P by blast
    from p r most show ?thesis by (auto simp: picked_def pick_one_def Some)
  qed
qed

lemma ladder_picked:
  assumes "told_apart rows"
  shows "picked rows (set ladder) (fold (pick_one (by_amount rows)) ladder [])
    \<and> length (fold (pick_one (by_amount rows)) ladder []) \<le> 3"
proof -
  have "picked rows {} []" by (simp add: picked_def)
  note one = pick_one_picked [OF assms this, of "''friendly''"]
  then have "picked rows {''friendly''} (pick_one (by_amount rows) ''friendly'' [])" by simp
  note two = pick_one_picked [OF assms this, of "''firm''"]
  then have "picked rows {''firm'', ''friendly''} (pick_one (by_amount rows) ''firm'' (pick_one (by_amount rows) ''friendly'' []))" by simp
  note three = pick_one_picked [OF assms this, of "''final''"]
  have "set ladder = {''final'', ''firm'', ''friendly''}" by (auto simp: ladder_def)
  then show ?thesis using one two three by (simp add: ladder_def)
qed

lemma top_up_fills:
  assumes "told_apart rows" and "set left \<subseteq> set rows"
    and "set chosen \<subseteq> set rows" and "distinct chosen" and "length chosen \<le> limit"
  defines "full \<equiv> fold (top_up limit) left chosen"
  shows "set chosen \<subseteq> set full \<and> set full \<subseteq> set rows \<and> distinct full \<and> length full \<le> limit
    \<and> (length full < limit \<longrightarrow> set left \<subseteq> set full)"
  using assms(2-5) unfolding full_def
proof (induction left arbitrary: chosen)
  case Nil
  then show ?case by simp
next
  case (Cons row left)
  have row: "among row chosen \<longleftrightarrow> row \<in> set chosen"
    using Cons.prems among_iff [OF assms(1)] by simp
  let ?c = "top_up limit row chosen" and ?full = "fold (top_up limit) left (top_up limit row chosen)"
  have c: "set ?c \<subseteq> set rows" "distinct ?c" "length ?c \<le> limit" "set chosen \<subseteq> set ?c"
    "row \<in> set ?c \<or> limit \<le> length chosen"
    using Cons.prems row by (auto simp: top_up_def)
  have full: "set ?c \<subseteq> set ?full \<and> set ?full \<subseteq> set rows \<and> distinct ?full \<and> length ?full \<le> limit
      \<and> (length ?full < limit \<longrightarrow> set left \<subseteq> set ?full)"
    by (rule Cons.IH) (use Cons.prems(1) c in auto)
  have "length chosen \<le> length ?full"
    using full c(4) Cons.prems(3) by (metis card_mono distinct_card finite_set order_trans)
  then have "length ?full < limit \<Longrightarrow> row \<in> set ?full" using c(5) full by auto
  with full c(4) show ?case by auto
qed

text \<open>
  The invoices that the fixture picks are of those it was given, once each, largest first, as many as
  there are up to its limit; and of every tone that an invoice calls for, the largest such invoice is among them.
\<close>

theorem pick_spans_the_ladder:
  assumes "told_apart rows" and "3 \<le> limit"
  defines "chosen \<equiv> pick_across_the_tone_ladder limit rows"
  shows "set chosen \<subseteq> set rows \<and> distinct chosen \<and> length chosen = min limit (length rows)
    \<and> sorted_wrt (\<lambda>r s. invoice_amount s \<le> invoice_amount r) chosen
    \<and> (\<forall>r \<in> set rows. \<exists>c \<in> set chosen. row_tone c = row_tone r \<and> invoice_amount r \<le> invoice_amount c)"
proof -
  let ?bands = "fold (pick_one (by_amount rows)) ladder []"
  let ?full = "fold (top_up limit) (by_amount rows) ?bands"
  have bands: "picked rows (set ladder) ?bands" "length ?bands \<le> limit" using ladder_picked [OF assms(1)] assms(2) by auto
  have rows: "set (by_amount rows) = set rows" "distinct rows" using assms(1) by (simp_all add: by_amount_def told_apart_def)
  have full: "set ?bands \<subseteq> set ?full" "set ?full \<subseteq> set rows" "distinct ?full" "length ?full \<le> limit"
    "length ?full < limit \<Longrightarrow> set rows \<subseteq> set ?full"
    using top_up_fills [OF assms(1), of "by_amount rows" ?bands limit] bands rows by (auto simp: picked_def)
  have chosen: "chosen = by_amount ?full"
    using full(4) by (simp add: chosen_def pick_across_the_tone_ladder_def by_amount_def)
  have "length ?full \<le> length rows" using full(2,3) rows(2) by (metis card_mono distinct_card finite_set)
  moreover have "length rows \<le> length ?full" if "length ?full < limit"
    using full(3) full(5) [OF that] rows(2) by (metis card_mono distinct_card finite_set)
  ultimately have "length ?full = min limit (length rows)" using full(4) by linarith
  moreover have "sorted (map (\<lambda>r. - invoice_amount r) chosen)" by (simp add: chosen by_amount_def)
  then have "sorted_wrt (\<lambda>r s. invoice_amount s \<le> invoice_amount r) chosen" by (simp add: sorted_map)
  moreover have "\<exists>c \<in> set chosen. row_tone c = row_tone r \<and> invoice_amount r \<le> invoice_amount c" if "r \<in> set rows" for r
    using that bands(1) full(1) tone_on_ladder by (fastforce simp: picked_def chosen by_amount_def)
  ultimately show ?thesis using full by (simp add: chosen by_amount_def)
qed

section \<open>The letters\<close>

lemma codepoints_1: "byte_of a < 192 \<Longrightarrow> codepoints (a # s) = byte_of a # codepoints s"
  by (cases s; cases "tl s"; cases "tl (tl s)") auto

lemma codepoints_2:
  "\<not> byte_of a < 192 \<Longrightarrow> byte_of a < 224 \<Longrightarrow>
   codepoints (a # b # s) = ((byte_of a - 192) * 64 + cont b) # codepoints s"
  by (cases s; cases "tl s") auto

lemma codepoints_3:
  "\<not> byte_of a < 224 \<Longrightarrow> byte_of a < 240 \<Longrightarrow>
   codepoints (a # b # c # s) = (((byte_of a - 224) * 64 + cont b) * 64 + cont c) # codepoints s"
  by (cases s) auto

text \<open>Decoding goes through a valid text, whatever follows it.\<close>

lemma codepoints_append: "valid_utf8 s \<Longrightarrow> codepoints (s @ t) = codepoints s @ codepoints t"
proof (induction s rule: valid_utf8.induct)
  case 1
  then show ?case by simp
next
  case (2 a s)
  let ?n = "byte_of a"
  let ?k = "if ?n < 128 then 0 else if 194 \<le> ?n \<and> ?n < 224 then 1
      else if 224 \<le> ?n \<and> ?n < 240 then 2 else if 240 \<le> ?n \<and> ?n < 245 then 3 else (4 :: nat)"
  have k: "?k < 4" "?k \<le> length s" and "valid_utf8 (drop ?k s)" using "2.prems" unfolding valid_utf8.simps Let_def by blast+
  then have IH: "codepoints (drop ?k s @ t) = codepoints (drop ?k s) @ codepoints t" using "2.IH" [OF refl refl] by blast
  consider "?n < 128" | "194 \<le> ?n" "?n < 224" | "224 \<le> ?n" "?n < 240" | "240 \<le> ?n" "?n < 245"
    using k(1) by (auto split: if_splits)
  then show ?case
  proof cases
    case 1
    then show ?thesis using IH by (simp add: codepoints_1)
  next
    case 2
    then obtain b s' where "s = b # s'" using k(2) by (cases s) auto
    then show ?thesis using IH 2 by (simp add: codepoints_2)
  next
    case 3
    then obtain b c s' where "s = b # c # s'" using k(2) by (cases s; cases "tl s") auto
    then show ?thesis using IH 3 by (simp add: codepoints_3)
  next
    case 4
    then obtain b c d s' where "s = b # c # d # s'" using k(2) by (cases s; cases "tl s"; cases "tl (tl s)") auto
    then show ?thesis using IH 4 by simp
  qed
qed

lemma valid_utf8_append: "valid_utf8 s \<Longrightarrow> valid_utf8 t \<Longrightarrow> valid_utf8 (s @ t)"
proof (induction s rule: valid_utf8.induct)
  case 1
  then show ?case by simp
next
  case (2 a s)
  let ?n = "byte_of a"
  let ?k = "if ?n < 128 then 0 else if 194 \<le> ?n \<and> ?n < 224 then 1
      else if 224 \<le> ?n \<and> ?n < 240 then 2 else if 240 \<le> ?n \<and> ?n < 245 then 3 else (4 :: nat)"
  have k: "?k \<le> length s" and "valid_utf8 (drop ?k s)" using "2.prems"(1) unfolding valid_utf8.simps Let_def by blast+
  then have "valid_utf8 (drop ?k s @ t)" using "2.IH" [OF refl refl] "2.prems"(2) by blast
  then have "valid_utf8 (drop ?k (s @ t))" using k by simp
  moreover have "take ?k (s @ t) = take ?k s" using k by simp
  moreover have "0 < ?k \<Longrightarrow> (s @ t) ! 0 = s ! 0" using k by (cases s) (auto split: if_splits)
  ultimately show ?case using "2.prems"(1) k unfolding append_Cons valid_utf8.simps Let_def by auto
qed

text \<open>What stands between two texts is found by the searches of the review.\<close>

lemma found_number:
  assumes "valid_utf8 before" and "0 \<le> i"
  shows "search (word_char u) (number_pattern i) (codepoints (before @ '' '' @ int_str i @ '' '' @ rest)) \<noteq> None"
proof -
  let ?n = "int_str i"
  have digits: "?n = nat_str (nat i)" using assms(2) by (simp add: int_str_def)
  have n: "is_ascii ?n" "?n \<noteq> []" by (simp_all add: digits is_ascii_nat_str nat_str_nonempty)
  have d: "c \<in> set ?n \<Longrightarrow> word_char u (byte_of c)" for c
    using nat_str_digits [of "nat i"] by (auto simp: digits list_all_iff is_digit_def word_char_def ascii_digit_def)
  let ?pre = "codepoints before @ [32]" and ?a = "32 # codepoints rest"
  have split: "codepoints (before @ '' '' @ ?n @ '' '' @ rest) = ?pre @ cps_of ?n @ ?a"
    using assms(1) n by (simp add: codepoints_append codepoints_1 ascii_valid_utf8 codepoints_ascii cps_of_def)
  have space: "\<not> word_char u 32" by (simp add: word_char_def ascii_digit_def ascii_upper_letter_def ascii_lower_letter_def)
  have "at_boundary (word_char u) (rev ?pre, cps_of ?n @ ?a)"
    using n(2) d space by (cases ?n) (auto simp: at_boundary_def first_is_def cps_of_def)
  moreover have "at_boundary (word_char u) (rev (cps_of ?n) @ rev ?pre, ?a)"
    using n(2) d space by (cases ?n rule: rev_cases) (auto simp: at_boundary_def first_is_def cps_of_def)
  ultimately have "run (word_char u) (number_pattern i) (rev ?pre, cps_of ?n @ ?a) \<noteq> []"
    by (simp add: number_pattern_def run_lit cps_of_def drop_append)
  then show ?thesis unfolding split search_None by blast
qed

lemma found_phrase:
  assumes "valid_utf8 before" and "is_ascii ph" and "ph \<in> set dispute_phrases"
  shows "search (word_char u) (dispute_route u) (codepoints (before @ ph @ rest)) \<noteq> None"
proof -
  have split: "codepoints (before @ ph @ rest) = codepoints before @ cps_of ph @ codepoints rest"
    using assms by (simp add: codepoints_append ascii_valid_utf8 codepoints_ascii cps_of_def)
  have "run (word_char u) (ilit ph) (rev (codepoints before), cps_of ph @ codepoints rest) \<noteq> []"
    by (simp add: run_ilit same_letters_def cps_of_def)
  then have "run (word_char u) (dispute_route u) (rev (codepoints before), cps_of ph @ codepoints rest) \<noteq> []"
    using assms(3) by (auto simp: dispute_route_def run_alts)
  then show ?thesis unfolding split search_None by blast
qed

lemma contains_in: "contains s (x @ s @ y)"
  by (auto simp: contains_iff)

definition letter_keys :: "string list" where
  "letter_keys = [''customer_name'', ''invoice_number'', ''amount_display'', ''due_date'', ''days_overdue'', ''hosted_invoice_url'']"

lemma opener_ascii: "is_ascii (opener tone)"
  by (simp add: opener_def)

text \<open>The days stand between two spaces in the body, and so stands the invitation to reply behind a valid text.\<close>

lemma days_in_body:
  assumes "\<And>key. key \<in> set letter_keys \<Longrightarrow> valid_utf8 (py_str u (dict_get key facts))"
  obtains before rest where "valid_utf8 before"
    and "snd (compose u facts tone) = before @ '' '' @ py_str u (dict_get ''days_overdue'' facts) @ '' '' @ rest"
proof -
  let ?fact = "\<lambda>k. py_str u (dict_get k facts)"
  let ?before = "''Dear '' @ ?fact ''customer_name'' @ '','' @ newline @ newline @ ''Invoice '' @ ?fact ''invoice_number'' @ '' for ''
       @ ?fact ''amount_display'' @ '', originally due on '' @ ?fact ''due_date'' @ '', is now''"
  have "valid_utf8 ?before"
    using assms by (intro valid_utf8_append) (simp_all add: letter_keys_def newline_def ascii_valid_utf8)
  moreover have "\<exists>rest. snd (compose u facts tone) = ?before @ '' '' @ ?fact ''days_overdue'' @ '' '' @ rest"
    by (simp add: compose_def Let_def)
  ultimately show thesis using that by blast
qed

lemma reply_in_body:
  assumes "\<And>key. key \<in> set letter_keys \<Longrightarrow> valid_utf8 (py_str u (dict_get key facts))"
  obtains before rest where "valid_utf8 before" and "snd (compose u facts tone) = before @ ''in error'' @ rest"
proof -
  let ?fact = "\<lambda>k. py_str u (dict_get k facts)"
  let ?before = "''Dear '' @ ?fact ''customer_name'' @ '','' @ newline @ newline @ ''Invoice '' @ ?fact ''invoice_number'' @ '' for ''
       @ ?fact ''amount_display'' @ '', originally due on '' @ ?fact ''due_date'' @ '', is now '' @ ?fact ''days_overdue''
       @ '' days past due.'' @ newline @ newline @ opener tone @ newline @ newline @ ''You can settle it here: ''
       @ ?fact ''hosted_invoice_url'' @ newline @ newline @ ''If this has already been paid, or you believe it is ''"
  have "valid_utf8 ?before"
    using assms opener_ascii by (intro valid_utf8_append) (simp_all add: letter_keys_def newline_def ascii_valid_utf8)
  moreover have "\<exists>rest. snd (compose u facts tone) = ?before @ ''in error'' @ rest"
    by (simp add: compose_def Let_def)
  ultimately show thesis using that by blast
qed

lemma contains_between: "s = x @ k @ y \<Longrightarrow> contains k s"
  using contains_in by metis

lemma facts_in_body:
  shows "contains (py_str u (dict_get ''customer_name'' facts)) (snd (compose u facts tone))"
    and "contains (py_str u (dict_get ''invoice_number'' facts)) (snd (compose u facts tone))"
    and "contains (py_str u (dict_get ''amount_display'' facts)) (snd (compose u facts tone))"
    and "contains (py_str u (dict_get ''due_date'' facts)) (snd (compose u facts tone))"
proof -
  let ?fact = "\<lambda>k. py_str u (dict_get k facts)" and ?body = "snd (compose u facts tone)"
  let ?name = "''Dear '' @ ?fact ''customer_name''" and ?number = "'','' @ newline @ newline @ ''Invoice '' @ ?fact ''invoice_number''"
    and ?amount = "'' for '' @ ?fact ''amount_display''" and ?due = "'', originally due on '' @ ?fact ''due_date''"
  have "\<exists>rest. ?body = ?name @ ?number @ ?amount @ ?due @ rest" by (simp add: compose_def Let_def)
  then obtain rest where b: "?body = ?name @ ?number @ ?amount @ ?due @ rest" by blast
  show "contains (?fact ''customer_name'') ?body"
    by (rule contains_between [of _ "''Dear ''" _ "?number @ ?amount @ ?due @ rest"]) (simp only: b append_assoc)
  show "contains (?fact ''invoice_number'') ?body"
    by (rule contains_between [of _ "?name @ '','' @ newline @ newline @ ''Invoice ''" _ "?amount @ ?due @ rest"]) (simp only: b append_assoc)
  show "contains (?fact ''amount_display'') ?body"
    by (rule contains_between [of _ "?name @ ?number @ '' for ''" _ "?due @ rest"]) (simp only: b append_assoc)
  show "contains (?fact ''due_date'') ?body"
    by (rule contains_between [of _ "?name @ ?number @ ?amount @ '', originally due on ''" _ rest]) (simp only: b append_assoc)
qed

text \<open>
  Of the facts that the review of a letter asks for, a letter of the script lacks none but perhaps the
  payment link, whatever the invoice: its name, number, amount, due date and days overdue are in the body,
  and so is a way to answer.
\<close>

theorem scripted_letter_states_facts:
  fixes u facts tone days
  assumes "\<And>key. key \<in> set letter_keys \<Longrightarrow> valid_utf8 (py_str u (dict_get key facts))"
    and "is_pstr (dict_get ''customer_name'' facts)" and "is_pstr (dict_get ''amount_display'' facts)"
    and "dict_get ''days_overdue'' facts = PInt days" and "0 \<le> days"
  defines "body \<equiv> snd (compose u facts tone)"
  shows "find_missing_facts u body facts
    = and_then (link_missing u body (dict_get ''hosted_invoice_url'' facts)) (\<lambda>no_link. Inr (note_if no_link ''hosted payment link''))"
proof -
  let ?fact = "\<lambda>k. py_str u (dict_get k facts)"
  note valid = assms(1)
  obtain before rest where before: "valid_utf8 before" and b: "body = before @ '' '' @ int_str days @ '' '' @ rest"
    using days_in_body [OF valid, of tone] assms(4) by (auto simp: body_def py_str_def)
  have "search (word_char u) (number_pattern days) (codepoints body) \<noteq> None"
    unfolding b by (rule found_number [OF before assms(5)])
  then have "days_missing u body (dict_get ''days_overdue'' facts) = Inr False"
    by (simp add: assms(4) days_missing_def py_int_def)
  moreover obtain before' rest' where "valid_utf8 before'" and b': "body = before' @ ''in error'' @ rest'"
    using reply_in_body [OF valid, of tone] by (auto simp: body_def)
  then have "search (word_char u) (dispute_route u) (codepoints body) \<noteq> None"
    unfolding b' by (intro found_phrase) (simp_all add: dispute_phrases_def)
  moreover have "absent (dict_get ''customer_name'' facts) body = Inr False" "absent (dict_get ''amount_display'' facts) body = Inr False"
    using assms(2,3) facts_in_body(1,3) [of u facts tone]
    by (auto simp: body_def absent_def is_pstr_def py_str_def split: pyval.splits)
  moreover have "contains (?fact ''invoice_number'') body" by (simp add: body_def facts_in_body)
  moreover have "list_ex (\<lambda>v. contains v body) (date_variants (?fact ''due_date''))"
    using facts_in_body(4) [of u facts tone] by (auto simp: body_def date_variants_def Let_def split: option.splits)
  ultimately show ?thesis by (simp add: find_missing_facts_def Let_def note_if_def del: not_None_eq)
qed

end
