(* ===== verification/ScriptWitnesses.thy ===== *)
theory ScriptWitnesses
  imports SeedFacts FixtureFacts
begin

text \<open>The properties of the scripts that have hypotheses, applied to concrete replies, accounts and invoices.\<close>

section \<open>Seeding\<close>

definition ready_stripe :: "(string \<times> string) list \<Rightarrow> stripe_write" where
  "ready_stripe clocks =
     \<lparr>sw_id = (\<lambda>n. replicate n (CHR ''a'')), sw_clocks = (\<lambda>_. clocks), sw_status = (\<lambda>_. ''ready''), sw_time = (\<lambda>_. 0)\<rparr>"

lemma ready_ids: "inj (sw_id (ready_stripe clocks))"
  by (rule injI) (simp add: ready_stripe_def)


definition two_clocks :: test_mode where
  "two_clocks = empty_account\<lparr>tm_clocks := [\<lparr>fc_id = ''c1'', fc_name = CLOCK_NAME, fc_time = 0\<rparr>,
     \<lparr>fc_id = ''c2'', fc_name = ''mine'', fc_time = 0\<rparr>]\<rparr>"

lemma destroying_removes_the_fixture_witness:
  "\<exists>n calls. destroy (ready_stripe [(''c1'', CLOCK_NAME), (''c2'', ''mine'')]) [] = (Inr n, calls)
    \<and> accept_all (sw_id (ready_stripe [(''c1'', CLOCK_NAME), (''c2'', ''mine'')])) 0 calls two_clocks
      = Some (removed {''c1''} two_clocks)"
proof -
  have "distinct (map fc_id (tm_clocks two_clocks))" by (simp add: two_clocks_def)
  moreover have "sw_clocks (ready_stripe [(''c1'', CLOCK_NAME), (''c2'', ''mine'')]) 0
      = map (\<lambda>k. (fc_id k, fc_name k)) (tm_clocks two_clocks)"
    by (simp add: two_clocks_def ready_stripe_def)
  moreover have "{fc_id k | k. k \<in> set (tm_clocks two_clocks) \<and> fc_name k = CLOCK_NAME} = {''c1''}"
    unfolding two_clocks_def CLOCK_NAME_def by (force simp: empty_account_def)
  ultimately show ?thesis
    using destroying_removes_the_fixture [of two_clocks "ready_stripe [(''c1'', CLOCK_NAME), (''c2'', ''mine'')]"] by simp
qed

section \<open>Letters\<close>

definition row_of :: "int \<Rightarrow> int \<Rightarrow> pydict" where
  "row_of amount days = [(''amount_due'', PInt amount), (''days_overdue'', PInt days)]"

lemma pick_spans_the_ladder_witness:
  "length (pick_across_the_tone_ladder 3 [row_of 5 3, row_of 9 4, row_of 7 20, row_of 1 90]) = 3"
proof -
  let ?rows = "[row_of 5 3, row_of 9 4, row_of 7 20, row_of 1 90]"
  have "told_apart ?rows" by (simp add: told_apart_def row_of_def py_eq_def same_value_def)
  from pick_spans_the_ladder [OF this, of 3] show ?thesis by simp
qed

definition facts_of_7 :: pydict where
  "facts_of_7 =
     [(''invoice_number'', PStr ''INV-7''), (''customer_name'', PStr ''Acme''), (''amount_display'', PStr ''$25.00''),
      (''due_date'', PStr ''2026-08-01''), (''days_overdue'', PInt 9), (''hosted_invoice_url'', PStr ''https://pay.test/7'')]"

lemma scripted_letter_states_facts_witness:
  "\<forall>u. find_missing_facts u (snd (compose u facts_of_7 ''friendly'')) facts_of_7
    = and_then (link_missing u (snd (compose u facts_of_7 ''friendly'')) (PStr ''https://pay.test/7''))
        (\<lambda>no_link. Inr (note_if no_link ''hosted payment link''))"
proof
  fix u
  have "valid_utf8 (py_str u (dict_get key facts_of_7))" if "key \<in> set letter_keys" for key
    using that by (auto simp: letter_keys_def facts_of_7_def dict_get_def py_str_def ascii_valid_utf8 is_ascii_int_str)
  moreover have "is_pstr (dict_get ''customer_name'' facts_of_7)" "is_pstr (dict_get ''amount_display'' facts_of_7)"
    "dict_get ''days_overdue'' facts_of_7 = PInt 9" "dict_get ''hosted_invoice_url'' facts_of_7 = PStr ''https://pay.test/7''"
    by (simp_all add: facts_of_7_def dict_get_def is_pstr_def)
  ultimately show "find_missing_facts u (snd (compose u facts_of_7 ''friendly'')) facts_of_7
    = and_then (link_missing u (snd (compose u facts_of_7 ''friendly'')) (PStr ''https://pay.test/7''))
        (\<lambda>no_link. Inr (note_if no_link ''hosted payment link''))"
    using scripted_letter_states_facts [where u = u and facts = facts_of_7 and days = 9 and tone = "''friendly''"] by simp
qed

end
