(* ===== verification/Demo.thy ===== *)
theory Demo
  imports Approval
begin

text \<open>
  \<^verbatim>\<open>scripts/demo_boundary.py\<close>: nine requests and looks at the running gateway, eight of them with a
  correctly signed token, and what each must answer. The script runs in the agent's container: it writes to the
  shared database as the agent service does and posts to the gateway, whose handler is \<open>handle_execute\<close>. What is
  printed is left out, and so is bringing up the schema, which changes no row.
\<close>

section \<open>Steps of the script\<close>

type_synonym 'a script = "world \<Rightarrow> (exn + 'a) \<times> world"

text \<open>\<^verbatim>\<open>text.replace(old, new)\<close> for an \<open>old\<close> that is not empty.\<close>

fun replace_from :: "nat \<Rightarrow> string \<Rightarrow> string \<Rightarrow> string \<Rightarrow> string" where
  "replace_from n old new [] = []"
| "replace_from (Suc n) old new (c # s) = replace_from n old new s"
| "replace_from 0 old new (c # s) =
     (if prefix old (c # s) then new @ replace_from (length old - 1) old new s else c # replace_from 0 old new s)"

definition replace_text :: "string \<Rightarrow> string \<Rightarrow> string \<Rightarrow> string" where
  "replace_text old new s = replace_from 0 old new s"

definition demo_letter :: "string \<Rightarrow> pydict" where
  "demo_letter invoice_id =
     [(''action_type'', PStr ''send_collection_letter''), (''invoice_id'', PStr invoice_id),
      (''invoice_number'', PStr (''INV-'' @ drop (length invoice_id - 4) invoice_id)),
      (''customer_name'', PStr ''Acme Industries''), (''customer_email'', PStr ''ap@acme.test''),
      (''amount_display'', PStr ''$250.00''), (''amount_due_minor'', PInt 25000), (''currency'', PStr ''usd''),
      (''due_date'', PStr ''2026-08-01''), (''days_overdue'', PInt 9),
      (''hosted_invoice_url'', PStr (''https://invoice.stripe.com/i/test_'' @ invoice_id)),
      (''subject'', PStr ''Invoice is 9 days past due''),
      (''body'', PStr (''Dear Acme Industries,'' @ [CHR 0x0A, CHR 0x0A] @ ''Invoice INV-1001 for $250.00 is 9 days past due.'' @ [CHR 0x0A])),
      (''tone'', PStr ''friendly'')]"

definition demo_operator :: string where "demo_operator = ''operator@servicia.ai''"

text \<open>The run the letters belong to: the first there is, or one of the script's own.\<close>

definition demo_run :: "env \<Rightarrow> run_row work" where
  "demo_run env w =
     (case runs w of
        r # _ \<Rightarrow> Inr (r, w)
      | [] \<Rightarrow>
          let r = \<lparr>rn_id = new_uuid env w, rn_goal = ''Boundary demonstration'', rn_status = RunAwaiting,
                   rn_started_at = now_utc env w, rn_ended_at = None, rn_operator_id = demo_operator,
                   rn_error = None, rn_params = []\<rparr>
          in and_then (insert_run r (tick w)) (\<lambda>w1. Inr (r, w1)))"

definition demo_proposal :: "env \<Rightarrow> string \<Rightarrow> string \<Rightarrow> world \<Rightarrow> proposal_row" where
  "demo_proposal env run_id invoice_id w =
     \<lparr>pr_id = new_uuid env (tick w), pr_run_id = run_id, pr_action_type = ''send_collection_letter'',
      pr_status = Pending, pr_payload = demo_letter invoice_id,
      pr_payload_hash = hash_payload env (PDict (demo_letter invoice_id)),
      pr_rationale = ''Nine days late with a clean history, so a courteous reminder.'',
      pr_invoice_id = invoice_id, pr_customer_email = ''ap@acme.test'', pr_amount_due = 25000, pr_currency = ''usd'',
      pr_days_overdue = 9, pr_created_at = now_utc env (tick w), pr_expires_at = seconds_from (now_utc env w) 3600\<rparr>"

definition make_proposal :: "env \<Rightarrow> string \<Rightarrow> proposal_row work" where
  "make_proposal env invoice_id w =
     and_then (demo_run env w) (\<lambda>(r, w1).
     let p = demo_proposal env (rn_id r) invoice_id w1 in
     and_then (insert_proposal p (tick (tick w1))) (\<lambda>w2. Inr (p, w2)))"

text \<open>An approve record with a nonce of its own, and the token of it, for fifteen minutes.\<close>

definition sign_off :: "env \<Rightarrow> string \<Rightarrow> proposal_row \<Rightarrow> string work" where
  "sign_off env secret p w =
     (let a = new_approval env (pr_id p) demo_operator None None w in
      and_then (insert_approval a (tick w)) (\<lambda>w1.
      and_then (mint_for_approval env p a secret 900 (now_utc env w1)) (\<lambda>token. Inr (token, tick w1))))"

text \<open>What a session does to the letter besides signing it off; the order within a session is not visible.\<close>

definition staged :: "env \<Rightarrow> string \<Rightarrow> string \<Rightarrow> proposal_status option \<Rightarrow> (string \<times> proposal_row) work" where
  "staged env secret invoice_id status w =
     and_then (make_proposal env invoice_id w) (\<lambda>(p, w1).
     and_then (sign_off env secret p w1) (\<lambda>(token, w2).
     Inr ((token, p), case status of None \<Rightarrow> w2 | Some s \<Rightarrow> set_proposal_status s (pr_id p) w2)))"

text \<open>The letter of a stored proposal, altered behind the approval, with its hash recomputed.\<close>

definition altered_letter :: "pydict \<Rightarrow> pydict" where
  "altered_letter payload =
     (case dict_get ''body'' payload of
        PStr body \<Rightarrow> dict_set ''body'' (PStr (replace_text ''$250.00'' ''$25,000.00'' body)) payload
      | _ \<Rightarrow> payload)"

definition alter :: "env \<Rightarrow> string \<Rightarrow> string work" where
  "alter env proposal_id w =
     (case find_proposal proposal_id w of
        None \<Rightarrow> Inl (OtherError ''AttributeError'' ''payload'')
      | Some p \<Rightarrow>
          Inr (hash_payload env (PDict (altered_letter (pr_payload p))),
               update_proposal proposal_id (\<lambda>p. p\<lparr>pr_payload := altered_letter (pr_payload p),
                 pr_payload_hash := hash_payload env (PDict (altered_letter (pr_payload p)))\<rparr>) w))"

text \<open>A token of the script's own making, for a letter it names.\<close>

definition handmade :: "env \<Rightarrow> string \<Rightarrow> string \<Rightarrow> int \<Rightarrow> int \<Rightarrow> string \<Rightarrow> string script" where
  "handmade env proposal_id payload_hash since until secret w =
     (mint env \<lparr>cl_proposal_id = proposal_id, cl_payload_hash = payload_hash, cl_action_type = ''send_collection_letter'',
        cl_approver = demo_operator, cl_nonce = new_uuid env w, cl_iat = to_epoch (now_utc env w) + since,
        cl_exp = to_epoch (now_utc env (tick w)) + until\<rparr> secret, tick (tick w))"

definition fresh_key :: "env \<Rightarrow> string script" where
  "fresh_key env w = (Inr (new_uuid env w), tick w)"

definition post :: "env \<Rightarrow> io \<Rightarrow> gateway_settings \<Rightarrow> (nat \<Rightarrow> transport) \<Rightarrow> string \<Rightarrow> string \<Rightarrow> string \<Rightarrow> string \<Rightarrow> response script" where
  "post env io gs net token proposal_id payload_hash key w =
     (let handled = handle_execute env io gs
            \<lparr>rq_token = Some token, rq_key = Some key, rq_body_proposal_id = Some proposal_id,
             rq_body_payload_hash = Some payload_hash\<rparr> w
      in case net (ticks w) of
           Answered \<Rightarrow> (Inr (fst handled), snd handled)
         | NeverArrived name \<Rightarrow> (Inl (OtherError name []), w)
         | AnswerLost name \<Rightarrow> (Inl (OtherError name []), snd handled))"

text \<open>\<^verbatim>\<open>outcome\<close>: whether the answer is the expected one; an answer that is no JSON object raises.\<close>

definition outcome :: "string \<Rightarrow> response \<Rightarrow> bool script" where
  "outcome expected r w =
     (case rs_body r of
        PDict body \<Rightarrow>
          (Inr (py_or (dict_get ''code'' (items_of (dict_get ''error'' body)))
             (py_or (dict_get ''status'' body) (PStr ''?'')) = PStr expected), w)
      | _ \<Rightarrow> (Inl (OtherError ''JSONDecodeError'' []), w))"

definition try_out :: "env \<Rightarrow> io \<Rightarrow> gateway_settings \<Rightarrow> (nat \<Rightarrow> transport) \<Rightarrow> string \<Rightarrow> string \<Rightarrow> string \<Rightarrow> string \<Rightarrow> bool script" where
  "try_out env io gs net expected token proposal_id payload_hash =
     then_with (fresh_key env) (\<lambda>key.
     then_with (post env io gs net token proposal_id payload_hash key) (outcome expected))"

section \<open>The script\<close>

definition demo_suffix :: "string \<Rightarrow> string" where
  "demo_suffix uuid = take 6 (filter (\<lambda>c. c \<noteq> CHR ''-'') uuid)"

definition demo_invoice :: "string \<Rightarrow> string \<Rightarrow> string" where
  "demo_invoice letter_of ending = ''in_demo_'' @ letter_of @ ''_'' @ ending"

definition demonstration :: "env \<Rightarrow> io \<Rightarrow> gateway_settings \<Rightarrow> (nat \<Rightarrow> transport) \<Rightarrow> string \<Rightarrow> bool list script" where
  "demonstration env io gs net secret =
     then_with (fresh_key env) (\<lambda>uuid.
     let session = (\<lambda>letter_of status. session_scope (staged env secret (demo_invoice letter_of (demo_suffix uuid)) status));
         attempt = try_out env io gs net
     in
     then_with (session ''a'' None) (\<lambda>(pending_token, pending).
     then_with (attempt ''not_approved'' pending_token (pr_id pending) (pr_payload_hash pending)) (\<lambda>r1.
     then_with (handmade env (pr_id pending) (pr_payload_hash pending) 0 900 ''an-attackers-secret'') (\<lambda>forged.
     then_with (attempt ''invalid_signature'' forged (pr_id pending) (pr_payload_hash pending)) (\<lambda>r2.
     then_with (handmade env (pr_id pending) (pr_payload_hash pending) (- 3600) (- 1800) secret) (\<lambda>stale_token.
     then_with (attempt ''token_expired'' stale_token (pr_id pending) (pr_payload_hash pending)) (\<lambda>r3.
     then_with (session ''b'' (Some Rejected)) (\<lambda>(rejected_token, rejected).
     then_with (attempt ''not_approved'' rejected_token (pr_id rejected) (pr_payload_hash rejected)) (\<lambda>r4.
     then_with (session ''c'' (Some Approved)) (\<lambda>(edited_token, edited).
     then_with (session_scope (alter env (pr_id edited))) (\<lambda>edited_hash.
     then_with (attempt ''payload_modified'' edited_token (pr_id edited) edited_hash) (\<lambda>r5.
     then_with (session ''d'' (Some Approved)) (\<lambda>(good_token, good).
     then_with (fresh_key env) (\<lambda>key.
     then_with (post env io gs net good_token (pr_id good) (pr_payload_hash good) key) (\<lambda>answer.
     then_with (outcome ''executed'' answer) (\<lambda>r6.
     then_with (attempt ''token_replayed'' good_token (pr_id good) (pr_payload_hash good)) (\<lambda>r7.
     then_with (post env io gs net good_token (pr_id good) (pr_payload_hash good) key) (\<lambda>again.
     then_with (outcome ''already_executed'' again) (\<lambda>r8 w.
     (Inr [r1, r2, r3, r4, r5, r6, r7, r8, cs_intact (verify_chain env w)], w))))))))))))))))))))"

definition demo_main :: "env \<Rightarrow> io \<Rightarrow> gateway_settings \<Rightarrow> (nat \<Rightarrow> transport) \<Rightarrow> string \<Rightarrow> nat script" where
  "demo_main env io gs net secret =
     then_with (demonstration env io gs net secret) (\<lambda>results w. (Inr (if list_all (\<lambda>r. r) results then 0 else 1), w))"

end
