(* ===== verification/DemoFacts.thy ===== *)
theory DemoFacts
  imports Demo
begin

text \<open>
  What the demonstration shows: every request is answered as the script expects, and one letter is handed to
  the adapter, that of the one properly approved proposal.
\<close>

section \<open>The state between the steps\<close>

text \<open>No uuid that is still to be drawn is a key of any table.\<close>

definition keys_of :: "world \<Rightarrow> string set" where
  "keys_of w = rn_id ` set (runs w) \<union> pr_id ` set (proposals w) \<union> nc_nonce ` set (nonces w) \<union> nc_key ` set (nonces w)
     \<union> ex_key ` set (executions w) \<union> ob_id ` set (outbox w)"

definition good_uuids :: "env \<Rightarrow> bool" where
  "good_uuids env \<longleftrightarrow> inj (uuid_at env)
     \<and> (\<forall>n. is_ascii (uuid_at env n) \<and> uuid_at env n \<noteq> [] \<and> strip (uuid_at env n) = uuid_at env n)"

definition undrawn :: "env \<Rightarrow> world \<Rightarrow> bool" where
  "undrawn env w = (\<forall>n. ticks w \<le> n \<longrightarrow> uuid_at env n \<notin> keys_of w)"

definition drawn :: "env \<Rightarrow> world \<Rightarrow> string \<Rightarrow> bool" where
  "drawn env w k = (\<exists>m < ticks w. k = uuid_at env m)"

definition sound :: "env \<Rightarrow> world \<Rightarrow> world \<Rightarrow> bool" where
  "sound env w0 w \<longleftrightarrow> wf_world w \<and> chain_intact env w \<and> prefix (events w0) (events w) \<and> undrawn env w
     \<and> ticks w0 \<le> ticks w"

text \<open>The rows of two databases agree but for the log, the runs and the letters captured.\<close>

definition same_decisions :: "world \<Rightarrow> world \<Rightarrow> bool" where
  "same_decisions w w' \<longleftrightarrow> approvals w' = approvals w \<and> executions w' = executions w \<and> nonces w' = nonces w
     \<and> mails w' = mails w"

lemma undrawn_new:
  assumes "good_uuids env" and "undrawn env w" and "ticks w \<le> ticks w'"
    and "\<And>k. k \<in> keys_of w' \<Longrightarrow> k \<in> keys_of w \<or> (\<exists>m < ticks w'. k = uuid_at env m)"
  shows "undrawn env w'"
  unfolding undrawn_def
proof (intro allI impI notI)
  fix n assume n: "ticks w' \<le> n" "uuid_at env n \<in> keys_of w'"
  have "uuid_at env n \<notin> keys_of w" using assms(2,3) n(1) by (simp add: undrawn_def)
  with assms(4) [OF n(2)] obtain m where "m < ticks w'" "uuid_at env n = uuid_at env m" by blast
  with assms(1) n(1) show False by (simp add: good_uuids_def inj_eq)
qed

section \<open>A letter and its run\<close>

lemma demo_run_ok:
  assumes "good_uuids env" and "sound env w0 w"
  obtains r w' where "demo_run env w = Inr (r, w')" and "sound env w0 w'" and "r \<in> set (runs w')"
    and "proposals w' = proposals w" and "same_decisions w w'"
proof (cases "runs w")
  case Nil
  define r where "r = \<lparr>rn_id = new_uuid env w, rn_goal = ''Boundary demonstration'', rn_status = RunAwaiting,
     rn_started_at = now_utc env w, rn_ended_at = None, rn_operator_id = demo_operator, rn_error = None, rn_params = []\<rparr>"
  define w' where "w' = (tick w)\<lparr>runs := [r]\<rparr>"
  have ins: "insert_run r (tick w) = Inr w'" by (simp add: insert_run_def tick_def w'_def Nil)
  have "demo_run env w = Inr (r, w')"
    unfolding demo_run_def using Nil ins by (simp add: r_def [symmetric] Let_def)
  moreover have "wf_world w'" using wf_insert_run [OF _ ins] assms(2) by (simp add: sound_def)
  moreover have "chain_intact env w'" using chain.keeps_run [OF _ ins] chain.keeps_tick assms(2) by (simp add: sound_def)
  moreover have "undrawn env w'"
    by (rule undrawn_new [OF assms(1)])
      (use assms(2) in \<open>auto simp: sound_def w'_def tick_def keys_of_def r_def new_uuid_def Nil\<close>)
  ultimately show thesis using that assms(2)
    by (simp add: sound_def w'_def tick_def same_decisions_def)
next
  case (Cons r rs)
  then have "demo_run env w = Inr (r, w)" by (simp add: demo_run_def)
  then show thesis using that assms(2) Cons by (simp add: same_decisions_def)
qed

lemma make_proposal_ok:
  assumes "good_uuids env" and "sound env w0 w" and "\<And>p. p \<in> set (proposals w) \<Longrightarrow> \<not> pending_for invoice p"
  obtains p w' rid v where "make_proposal env invoice w = Inr (p, w')" and "sound env w0 w'"
    and "p = demo_proposal env rid invoice v" and "ticks w \<le> ticks v"
    and "proposals w' = proposals w @ [p]" and "same_decisions w w'" and "pr_id p \<notin> pr_id ` set (proposals w)"
    and "ticks v \<le> ticks w'"
proof -
  from demo_run_ok [OF assms(1,2)] obtain r v where r: "demo_run env w = Inr (r, v)" "sound env w0 v" "r \<in> set (runs v)"
    "proposals v = proposals w" "same_decisions w v" .
  define p where "p = demo_proposal env (rn_id r) invoice v"
  define w' where "w' = (tick (tick v))\<lparr>proposals := proposals v @ [p]\<rparr>"
  have new: "pr_id p \<notin> pr_id ` set (proposals v)"
    using r(2) by (auto simp: sound_def undrawn_def keys_of_def p_def demo_proposal_def new_uuid_def tick_def)
  have ins: "insert_proposal p (tick (tick v)) = Inr w'"
    using new assms(3) r(3,4)
    by (auto simp: insert_proposal_def tick_def w'_def p_def demo_proposal_def action_types_def list_ex_iff)
  have "make_proposal env invoice w = Inr (p, w')" using r(1) ins by (simp add: make_proposal_def p_def Let_def)
  moreover have "wf_world w'" using wf_insert_proposal [OF _ ins] r(2) by (simp add: sound_def)
  moreover have "chain_intact env w'"
    using r(2) chain.keeps_proposal [OF _ _ ins, of env] by (simp add: sound_def chain.keeps_tick hash_ok_def p_def demo_proposal_def)
  moreover have "undrawn env w'"
    by (rule undrawn_new [OF assms(1), of v])
      (use r(2) in \<open>auto simp: sound_def w'_def tick_def keys_of_def p_def demo_proposal_def new_uuid_def\<close>)
  moreover have "ticks w \<le> ticks v" using r(1) by (auto simp: demo_run_def insert_run_def tick_def Let_def split: list.splits)
  ultimately show thesis using that r new
    by (simp add: sound_def w'_def tick_def same_decisions_def p_def)
qed

section \<open>A letter signed off\<close>

text \<open>The token of a stored letter, as the database and the token say it; the nonce is not used yet.\<close>

definition signed :: "env \<Rightarrow> string \<Rightarrow> world \<Rightarrow> string \<Rightarrow> proposal_row \<Rightarrow> claims \<Rightarrow> bool" where
  "signed env secret w token p c \<longleftrightarrow>
     (\<forall>fresh. decode env fresh (Some token) secret = Inr c) \<and> cl_proposal_id c = pr_id p \<and> cl_payload_hash c = pr_payload_hash p
     \<and> hash_ok env p \<and> cl_exp c = cl_iat c + 900
     \<and> (\<exists>a. latest_approval (pr_id p) w = Some a \<and> ap_actor a = cl_approver c \<and> ap_token_nonce a = Some (cl_nonce c))
     \<and> find_nonce (cl_nonce c) w = None"

lemma sign_off_ok:
  assumes "good_uuids env" and "ints_accepted env" and "digests_nonempty env" and "secret \<noteq> []"
    and "sound env w0 w" and "p \<in> set (proposals w)" and "hash_ok env p" and "pr_id p = uuid_at env m"
  obtains token w' c k where "sign_off env secret p w = Inr (token, w')" and "sound env w0 w'"
    and "signed env secret w' token p c" and "ticks w \<le> k" and "cl_iat c = to_epoch (time_at env k)"
    and "proposals w' = proposals w" and "executions w' = executions w" and "nonces w' = nonces w" and "mails w' = mails w"
    and "ticks w \<le> ticks w'" and "drawn env w' (cl_nonce c)"
proof -
  define a where "a = new_approval env (pr_id p) demo_operator None None w"
  define v where "v = (tick w)\<lparr>approvals := approvals w @ [a]\<rparr>"
  define c where "c = new_claims p (pr_payload_hash p) demo_operator (new_uuid env w) (to_epoch (now_utc env v)) 900"
  have wf: "wf_world w" and und: "undrawn env w" using assms(5) by (simp_all add: sound_def)
  have ins: "insert_approval a (tick w) = Inr v"
    using assms(6) by (auto simp: insert_approval_def v_def tick_def a_def new_approval_def)
  have action: "pr_action_type p = ''send_collection_letter''"
    using wf assms(6) by (auto simp: wf_world_def action_types_def)
  obtain token where token: "mint env c secret = Inr token" using mint_succeeds [OF assms(4)] by blast
  have hash: "hash_payload env (PDict (pr_payload p)) = pr_payload_hash p" using assms(7) by (simp add: hash_ok_def)
  have "mint_for_approval env p a secret 900 (now_utc env v) = Inr token"
    using token assms(1) hash_payload_nonempty [of env "PDict (pr_payload p)"] hash_payload_ascii [of env "PDict (pr_payload p)"]
    by (simp add: mint_for_approval_def Let_def c_def a_def new_approval_def new_uuid_def hashes_equal_Some hash good_uuids_def)
  then have run: "sign_off env secret p w = Inr (token, tick v)"
    using ins by (simp add: sign_off_def a_def [symmetric] Let_def)
  have "claims_ascii c"
    using assms(1,8) hash hash_payload_ascii [of env "PDict (pr_payload p)"]
    by (simp add: claims_ascii_def c_def new_claims_def action new_uuid_def demo_operator_def good_uuids_def)
  then have dec: "decode env fresh (Some token) secret = Inr c" for fresh using assms(2,3) token by (intro mint_then_decode)
  have latest: "latest_approval (pr_id p) (tick v) = Some a"
    using next_rowid_gt [of _ "approvals w" ap_id]
    by (auto simp: latest_approval_def v_def tick_def a_def new_approval_def intro!: last_by_snoc)
  have "new_uuid env w \<notin> nc_nonce ` set (nonces w)"
    using und by (auto simp: undrawn_def keys_of_def new_uuid_def)
  then have "find_nonce (cl_nonce c) (tick v) = None"
    by (simp add: lookup_by_None v_def tick_def c_def new_claims_def)
  with dec latest have "signed env secret (tick v) token p c"
    using assms(7) by (simp add: signed_def c_def new_claims_def a_def new_approval_def)
  moreover have "sound env w0 (tick v)"
  proof -
    have "wf_world v" using wf_insert_approval [OF _ ins] wf by simp
    moreover have "chain_intact env v"
      using chain.keeps_approval [OF _ ins] chain.keeps_tick assms(5) by (simp add: sound_def)
    moreover have "undrawn env (tick v)"
      by (rule undrawn_new [OF assms(1) und]) (auto simp: v_def tick_def keys_of_def)
    ultimately show ?thesis using assms(5) by (simp add: sound_def chain.keeps_tick) (simp add: v_def tick_def)
  qed
  moreover have "cl_iat c = to_epoch (time_at env (ticks v))" "ticks w \<le> ticks v"
    by (simp_all add: c_def new_claims_def now_utc_def v_def tick_def)
  moreover have "drawn env (tick v) (cl_nonce c)"
    unfolding drawn_def by (rule exI [of _ "ticks w"]) (simp add: c_def new_claims_def new_uuid_def v_def tick_def)
  ultimately show thesis using that [of token "tick v" c "ticks v"] run by (simp add: v_def tick_def)
qed

text \<open>How a session leaves a letter: stored last, in its status, signed off, with an hour to live.\<close>

definition status_or_pending :: "proposal_status option \<Rightarrow> proposal_status" where
  "status_or_pending s = (case s of None \<Rightarrow> Pending | Some s \<Rightarrow> s)"

definition staged_well :: "env \<Rightarrow> string \<Rightarrow> world \<Rightarrow> world \<Rightarrow> string \<Rightarrow> proposal_status option \<Rightarrow> string \<Rightarrow> proposal_row \<Rightarrow> claims \<Rightarrow> bool" where
  "staged_well env secret w w' invoice s token p c \<longleftrightarrow>
     find_proposal (pr_id p) w' = Some (p\<lparr>pr_status := status_or_pending s\<rparr>)
     \<and> proposals w' = proposals w @ [p\<lparr>pr_status := status_or_pending s\<rparr>]
     \<and> pr_status p = Pending \<and> pr_invoice_id p = invoice \<and> pr_payload p = demo_letter invoice \<and> pr_customer_email p = ''ap@acme.test''
     \<and> is_ascii (pr_id p) \<and> signed env secret w' token p c \<and> drawn env w' (cl_nonce c)
     \<and> (\<exists>j k. ticks w \<le> j \<and> ticks w \<le> k \<and> pr_expires_at p = time_at env j + 3600 * second_us \<and> cl_iat c = to_epoch (time_at env k))
     \<and> executions w' = executions w \<and> nonces w' = nonces w \<and> mails w' = mails w"

lemma signed_same:
  "approvals v = approvals w \<Longrightarrow> nonces v = nonces w \<Longrightarrow> signed env secret v token p c = signed env secret w token p c"
  by (simp add: signed_def latest_approval_def)

lemma staged_ok:
  assumes "good_uuids env" and "ints_accepted env" and "digests_nonempty env" and "secret \<noteq> []"
    and "sound env w0 w" and "\<And>p. p \<in> set (proposals w) \<Longrightarrow> \<not> pending_for invoice p" and "s \<noteq> Some Pending"
  obtains token p c w' where "session_scope (staged env secret invoice s) w = (Inr (token, p), w')" and "sound env w0 w'"
    and "staged_well env secret w w' invoice s token p c" and "ticks w \<le> ticks w'"
proof -
  from make_proposal_ok [OF assms(1,5,6)] obtain p v rid u where p: "make_proposal env invoice w = Inr (p, v)" "sound env w0 v"
    "p = demo_proposal env rid invoice u" "ticks w \<le> ticks u" "proposals v = proposals w @ [p]" "same_decisions w v"
    "pr_id p \<notin> pr_id ` set (proposals w)" "ticks u \<le> ticks v" .
  have ok: "hash_ok env p" "p \<in> set (proposals v)" "pr_id p = uuid_at env (ticks (tick u))"
    using p(3,5) by (simp_all add: demo_proposal_def hash_ok_def new_uuid_def)
  from sign_off_ok [OF assms(1-4) p(2) ok(2,1,3)] obtain token x c k where x: "sign_off env secret p v = Inr (token, x)"
    "sound env w0 x" "signed env secret x token p c" "ticks v \<le> k" "cl_iat c = to_epoch (time_at env k)"
    "proposals x = proposals v" "executions x = executions v" "nonces x = nonces v" "mails x = mails v" "ticks v \<le> ticks x"
    "drawn env x (cl_nonce c)" .
  define w' where "w' = (case s of None \<Rightarrow> x | Some st \<Rightarrow> set_proposal_status st (pr_id p) x)"
  have run: "session_scope (staged env secret invoice s) w = (Inr (token, p), w')"
    using p(1) x(1) by (simp add: session_scope_def staged_def w'_def)
  have "pr_status p = Pending" by (simp add: p(3) demo_proposal_def)
  then have same: "p\<lparr>pr_status := Pending\<rparr> = p" by simp
  have others: "update_by pr_id (pr_id p) f (proposals w) = proposals w" for f
    using p(7) unfolding update_by_def by (intro map_idI) (metis imageI)
  have rows: "proposals w' = proposals w @ [p\<lparr>pr_status := status_or_pending s\<rparr>]"
    using x(6) p(5) others same
    by (cases s) (simp_all add: w'_def status_or_pending_def set_proposal_status_def update_proposal_def update_by_def)
  have frame: "approvals w' = approvals x" "executions w' = executions x" "nonces w' = nonces x" "mails w' = mails x" "ticks w' = ticks x"
    "runs w' = runs x" "outbox w' = outbox x" "events w' = events x"
    by (simp_all add: w'_def set_proposal_status_def update_proposal_def split: option.split)
  have safe: "sound env w0 w'"
  proof -
    have "undrawn env w'"
      by (rule undrawn_new [OF assms(1), of x]) (use x(2,6) p(5) rows frame in \<open>auto simp: sound_def keys_of_def\<close>)
    moreover have "wf_world w' \<and> chain_intact env w'"
      using x(2) assms(7) wf.keeps_status chain.keeps_status by (cases s) (auto simp: w'_def sound_def)
    ultimately show ?thesis using x(2) frame by (simp add: sound_def)
  qed
  have found: "find_proposal (pr_id p) w' = Some (p\<lparr>pr_status := status_or_pending s\<rparr>)"
    using p(7) by (simp add: rows lookup_by_append lookup_by_None [THEN iffD2])
  have fields: "pr_status p = Pending" "pr_invoice_id p = invoice" "pr_payload p = demo_letter invoice"
    "pr_customer_email p = ''ap@acme.test''" "pr_expires_at p = time_at env (ticks u) + 3600 * second_us"
    by (simp_all add: p(3) demo_proposal_def seconds_from_def now_utc_def)
  have "staged_well env secret w w' invoice s token p c"
    unfolding staged_well_def
  proof (intro conjI)
    show "\<exists>j k. ticks w \<le> j \<and> ticks w \<le> k \<and> pr_expires_at p = time_at env j + 3600 * second_us
        \<and> cl_iat c = to_epoch (time_at env k)"
      using fields(5) x(4,5) p(4,8) by (intro exI [of _ "ticks u"] exI [of _ k]) simp_all
    show "signed env secret w' token p c" using x(3) signed_same [of w' x] frame by simp
    show "drawn env w' (cl_nonce c)" using x(11) frame by (simp add: drawn_def)
    show "executions w' = executions w" "nonces w' = nonces w" "mails w' = mails w"
      using frame x(7-9) p(6) by (simp_all add: same_decisions_def)
    show "is_ascii (pr_id p)" using ok(3) assms(1) by (simp add: good_uuids_def)
  qed (use found rows fields in simp_all)
  moreover have "ticks w \<le> ticks w'" using p(4,8) x(10) frame by simp
  ultimately show thesis using that run safe by blast
qed

section \<open>Refused requests\<close>

text \<open>The code in the envelope of a refusal.\<close>

definition says :: "exn \<Rightarrow> string \<Rightarrow> bool" where
  "says x code \<longleftrightarrow> (\<exists>e. x = ApiError e
     \<and> dict_get ''code'' (dict_update [(''code'', PStr (ae_code e)), (''message'', PStr (ae_message e))] (ae_extra e)) = PStr code)"

lemma map_of_dict_update_other: "k \<notin> fst ` set e \<Longrightarrow> map_of (dict_update d e) k = map_of d k"
proof (induction e arbitrary: d)
  case Nil
  then show ?case by (simp add: dict_update_def)
next
  case (Cons kv e)
  obtain k' v where kv: "kv = (k', v)" by (cases kv)
  have "map_of (dict_update (dict_set k' v d) e) k = map_of (dict_set k' v d) k" using Cons by simp
  then show ?case using Cons.prems by (simp add: dict_update_def kv map_of_dict_set)
qed

lemma refuse_says:
  assumes "''code'' \<notin> fst ` set extra"
  shows "says (refuse n m st pid extra) (check_code n)"
proof -
  have "''code'' \<notin> fst ` set (drop_none (refusal_extra n passed pid extra))" for passed
    using assms by (auto simp: drop_none_def refusal_extra_def)
  then show ?thesis
    by (simp add: says_def refuse_def api_err_def dict_get_def map_of_dict_update_other)
qed

lemma record_refusal_log:
  "prefix (events w) (events (record_refusal env e w)) \<and> ticks w \<le> ticks (record_refusal env e w)"
  by (auto simp: record_refusal_def Let_def rolled_back_def tick_def append_event_Inr split: sum.split)

lemma refused_ok:
  assumes "good_uuids env" and "sound env w0 w" and "32 \<le> length (gs_signing_secret gs)" and "\<And>n. net n = Answered"
    and "verify_execution_request env (gs_signing_secret gs) \<lparr>rq_token = Some token, rq_key = Some key,
        rq_body_proposal_id = Some i, rq_body_payload_hash = Some h\<rparr> (new_uuid env w) (now_utc env w) w = Inl x"
    and "says x code" and "code \<noteq> []"
  obtains r w' where "post env io gs net token i h key w = (Inr r, w')" and "outcome code r w' = (Inr True, w')"
    and "sound env w0 w'" and "proposals w' = proposals w" and "same_decisions w w'" and "ticks w \<le> ticks w'"
proof -
  let ?rq = "\<lparr>rq_token = Some token, rq_key = Some key, rq_body_proposal_id = Some i, rq_body_payload_hash = Some h\<rparr>"
  from assms(6) obtain e where e: "x = ApiError e"
    "dict_get ''code'' (dict_update [(''code'', PStr (ae_code e)), (''message'', PStr (ae_message e))] (ae_extra e)) = PStr code"
    by (auto simp: says_def)
  define w' where "w' = record_refusal env e (tick w)"
  define r where "r = \<lparr>rs_status = ae_status e, rs_body = error_envelope e\<rparr>"
  have act: "handle_execute env io gs ?rq w = (r, w')"
    using assms(3,5) e(1) by (simp add: handle_execute_def execute_action_def require_signing_secret_def r_def w'_def)
  then have run: "post env io gs net token i h key w = (Inr r, w')" by (simp add: post_def assms(4))
  have "wf_world w'" "chain_intact env w'"
    using wf.keeps_handle [OF act] chain.keeps_handle [OF act] assms(2) by (simp_all add: sound_def)
  moreover have log: "prefix (events w) (events w')" "ticks w \<le> ticks w'"
    using record_refusal_log [of "tick w" env e] by (simp_all add: w'_def tick_def)
  moreover have "undrawn env w'"
    by (rule undrawn_new [OF assms(1), of w]) (use assms(2) log(2) in \<open>auto simp: sound_def w'_def tick_def keys_of_def\<close>)
  ultimately have "sound env w0 w'" using assms(2) by (auto simp: sound_def intro: prefix_order.trans)
  moreover have "outcome code r w' = (Inr True, w')"
    using e(2) assms(7) by (simp add: outcome_def r_def error_envelope_def dict_get_def py_or_def)
  moreover have "proposals w' = proposals w" "same_decisions w w'" by (simp_all add: w'_def same_decisions_def tick_def)
  ultimately show thesis using that run log(2) by blast
qed

section \<open>What each request is refused for\<close>

lemma codes: "check_code 1 = ''invalid_signature''" "check_code 2 = ''token_expired''" "check_code 3 = ''token_replayed''"
  "check_code 4 = ''not_approved''" "check_code 6 = ''payload_modified''"
  by (simp_all add: check_code_def checks_def)

abbreviation the_request :: "string \<Rightarrow> string \<Rightarrow> string \<Rightarrow> string \<Rightarrow> request" where
  "the_request token key i h \<equiv>
     \<lparr>rq_token = Some token, rq_key = Some key, rq_body_proposal_id = Some i, rq_body_payload_hash = Some h\<rparr>"

lemma forged_refused:
  assumes "strip key \<noteq> []" and "decode env fresh (Some token) secret = Inl (InvalidSignature m)"
  shows "\<exists>x. verify_execution_request env secret (the_request token key i h) fresh at w = Inl x \<and> says x ''invalid_signature''"
  using assms refuse_says [of "[]" 1 m 401 None] by (simp add: verify_run check_1_def codes [simplified])

lemma expired_refused:
  assumes "strip key \<noteq> []" and "decode env fresh (Some token) secret = Inr c" and "cl_exp c \<le> to_epoch at"
  shows "\<exists>x. verify_execution_request env secret (the_request token key i h) fresh at w = Inl x \<and> says x ''token_expired''"
  using assms refuse_says [of "[]" 2 _ 401 "Some (cl_proposal_id c)"] by (simp add: verify_run check_2_def is_expired_def codes)

lemma replay_refused:
  assumes "strip key \<noteq> []" and "decode env fresh (Some token) secret = Inr c" and "to_epoch at < cl_exp c"
    and "find_nonce (cl_nonce c) w = Some n" and "nc_key n \<noteq> strip key"
  shows "\<exists>x. verify_execution_request env secret (the_request token key i h) fresh at w = Inl x \<and> says x ''token_replayed''"
  using assms refuse_says [of "[]" 3 _ 409 "Some (cl_proposal_id c)"]
  by (simp add: verify_run check_2_def is_expired_def check_3_def codes)

lemma undecided_refused:
  assumes "strip key \<noteq> []" and "decode env fresh (Some token) secret = Inr c" and "to_epoch at < cl_exp c"
    and "find_nonce (cl_nonce c) w = None" and "find_proposal (cl_proposal_id c) w = Some p" and "pr_status p \<noteq> Approved"
    and "find_key (strip key) w = None"
  shows "\<exists>x. verify_execution_request env secret (the_request token key i h) fresh at w = Inl x \<and> says x ''not_approved''"
  using assms refuse_says [of "[(''proposal_status'', PStr (proposal_status_str (pr_status p)))]" 4 _ 403 "Some (pr_id p)"]
  by (simp add: verify_run check_2_def is_expired_def check_3_def check_4_def own_execution_fresh codes)

lemma altered_refused:
  assumes "strip key \<noteq> []" and "decode env fresh (Some token) secret = Inr c" and "to_epoch at < cl_exp c"
    and "find_nonce (cl_nonce c) w = None" and "find_proposal (cl_proposal_id c) w = Some p" and "pr_status p = Approved"
    and "at < pr_expires_at p" and "find_key (strip key) w = None"
    and "latest_approval (cl_proposal_id c) w = Some a" and "ap_actor a = cl_approver c" and "ap_token_nonce a = Some (cl_nonce c)"
    and "hash_payload env (PDict (pr_payload p)) \<noteq> cl_payload_hash c" and "is_ascii (cl_payload_hash c)" and "cl_payload_hash c \<noteq> []"
  shows "\<exists>x. verify_execution_request env secret (the_request token key i h) fresh at w = Inl x \<and> says x ''payload_modified''"
proof -
  have "pr_id p = cl_proposal_id c" using assms(5) by (rule find_proposal_id)
  then show ?thesis
    using assms refuse_says [of "[]" 6 _ 409 "Some (pr_id p)"] hash_payload_ascii [of env "PDict (pr_payload p)"]
      hash_payload_nonempty [of env "PDict (pr_payload p)"]
    by (simp add: verify_run check_2_def is_expired_def check_3_def check_4_def own_execution_fresh check_5_def check_6_def
        hashes_equal_Some codes)
qed

section \<open>One attempt\<close>

text \<open>What the steps of the script need of the gateway, the network and the tokens.\<close>

definition gateway_up :: "gateway_settings \<Rightarrow> (nat \<Rightarrow> transport) \<Rightarrow> string \<Rightarrow> bool" where
  "gateway_up gs net secret \<longleftrightarrow> gs_signing_secret gs = secret \<and> 32 \<le> length secret \<and> (\<forall>n. net n = Answered)
     \<and> gs_email_adapter gs = ''outbox'' \<and> \<not> gs_enable_stripe_invoice_send gs"

lemma sound_tick: "sound env w0 w \<Longrightarrow> sound env w0 (tick w)"
  unfolding sound_def by (simp add: chain.keeps_tick) (simp add: undrawn_def keys_of_def tick_def)

lemma fresh_key_ok:
  assumes "good_uuids env" and "undrawn env w"
  shows "fresh_key env w = (Inr (new_uuid env w), tick w)" and "strip (new_uuid env w) = new_uuid env w" and "new_uuid env w \<noteq> []"
    and "find_key (new_uuid env w) (tick w) = None" and "n \<in> set (nonces w) \<Longrightarrow> nc_key n \<noteq> new_uuid env w"
proof -
  show "n \<in> set (nonces w) \<Longrightarrow> nc_key n \<noteq> new_uuid env w"
    using assms(2) unfolding undrawn_def keys_of_def new_uuid_def by (metis UnCI imageI order_refl)
  have "new_uuid env w \<notin> ex_key ` set (executions w)" using assms(2) by (auto simp: undrawn_def keys_of_def new_uuid_def)
  then show "find_key (new_uuid env w) (tick w) = None" by (simp add: lookup_by_None tick_def)
qed (use assms(1) in \<open>simp_all add: fresh_key_def good_uuids_def new_uuid_def\<close>)

lemma attempt_ok:
  assumes "good_uuids env" and "sound env w0 w" and "gateway_up gs net secret" and "code \<noteq> []"
    and "\<And>key fresh. strip key \<noteq> [] \<Longrightarrow> find_key (strip key) (tick w) = None \<Longrightarrow> (\<And>n. n \<in> set (nonces w) \<Longrightarrow> nc_key n \<noteq> strip key) \<Longrightarrow>
      \<exists>x. verify_execution_request env secret (the_request token key i h) fresh (now_utc env (tick w)) (tick w) = Inl x \<and> says x code"
  obtains w' where "try_out env io gs net code token i h w = (Inr True, w')" and "sound env w0 w'"
    and "proposals w' = proposals w" and "same_decisions w w'" and "ticks w \<le> ticks w'"
proof -
  have "undrawn env w" using assms(2) by (simp add: sound_def)
  note key = fresh_key_ok [OF assms(1) this]
  obtain x where "verify_execution_request env secret (the_request token (new_uuid env w) i h) (new_uuid env (tick w))
      (now_utc env (tick w)) (tick w) = Inl x" "says x code"
    using assms(5) [of "new_uuid env w" "new_uuid env (tick w)"] key by auto
  then obtain r w' where "post env io gs net token i h (new_uuid env w) (tick w) = (Inr r, w')" "outcome code r w' = (Inr True, w')"
    "sound env w0 w'" "proposals w' = proposals (tick w)" "same_decisions (tick w) w'" "ticks (tick w) \<le> ticks w'"
    using refused_ok [OF assms(1) sound_tick [OF assms(2)], of gs net token "new_uuid env w" i h x code] assms(3,4)
    unfolding gateway_up_def by metis
  then show thesis using that [of w'] key(1)
    by (simp add: try_out_def then_with_def same_decisions_def tick_def)
qed

section \<open>The request that is executed\<close>

text \<open>No append to a log that continues this one is refused: only a collision of SHA-256 could (\<open>AuditLog\<close>).\<close>

definition log_accepts :: "env \<Rightarrow> world \<Rightarrow> bool" where
  "log_accepts env w0 \<longleftrightarrow> (\<forall>w a e st si d. chain_intact env w \<longrightarrow> prefix (events w0) (events w) \<longrightarrow>
     (\<exists>w'. append_event env a e st si d w = Inr w'))"

lemma accepted_append:
  assumes "log_accepts env w0" and "sound env w0 w" and "events v = events w"
  obtains w' where "append_event env a e st si d v = Inr w'"
  using assms verify_chain_events [of v w env] unfolding log_accepts_def sound_def chain_intact_def by metis

lemma claim_ok:
  assumes "good_uuids env" and "log_accepts env w0" and "sound env w0 w"
    and "vf_idempotency_key v \<notin> ex_key ` set (executions w)" and "drawn env w (vf_idempotency_key v)"
    and "cl_nonce (vf_claims v) \<notin> nc_nonce ` set (nonces w)" and "drawn env w (cl_nonce (vf_claims v))"
    and "pr_id (vf_proposal v) \<in> pr_id ` set (proposals w)"
  obtains e w' where "claim env v w = Inr (e, w')" and "sound env w0 w'" and "ticks w \<le> ticks w'"
proof -
  define e where "e = claim_row env v w"
  define w1 where "w1 = (tick (tick w))\<lparr>executions := executions w @ [e]\<rparr>"
  define n where "n = \<lparr>nc_nonce = cl_nonce (vf_claims v), nc_proposal_id = pr_id (vf_proposal v),
               nc_key = vf_idempotency_key v, nc_consumed_at = now_utc env (tick w)\<rparr>"
  define w2 where "w2 = w1\<lparr>nonces := nonces w @ [n]\<rparr>"
  have 1: "insert_execution e (tick (tick w)) = Inr w1"
    using assms(4,8) by (auto simp: insert_execution_def w1_def tick_def e_def claim_row_def)
  have 2: "insert_nonce n w1 = Inr w2" using assms(6) by (simp add: insert_nonce_def w2_def w1_def tick_def n_def)
  have "events w2 = events w" by (simp add: w2_def w1_def tick_def)
  from accepted_append [OF assms(2,3) this] obtain w3 where
    3: "append_event env Gateway ''action.execution.started'' ''proposal'' (pr_id (vf_proposal v)) (claim_detail v (ex_id e)) w2 = Inr w3" .
  have run: "claim env v w = Inr (e, w3)" using 1 2 3 by (simp add: claim_def e_def n_def Let_def)
  have ticks: "ticks w3 = Suc (Suc (Suc (ticks w)))"
    using append_event_frame(9) [OF 3] by (simp add: w2_def w1_def tick_def)
  have "undrawn env w3"
  proof (rule undrawn_new [OF assms(1), of w])
    fix k assume "k \<in> keys_of w3"
    then have "k \<in> keys_of w \<or> k = vf_idempotency_key v \<or> k = cl_nonce (vf_claims v)"
      using claim_Inr [OF run] by (auto simp: keys_of_def claim_row_def)
    then show "k \<in> keys_of w \<or> (\<exists>m < ticks w3. k = uuid_at env m)"
      using assms(5,7) ticks unfolding drawn_def by (metis less_Suc_eq)
  qed (use assms(3) ticks in \<open>simp_all add: sound_def\<close>)
  moreover have "prefix (events w0) (events w3)" using claim_event [OF run] assms(3) by (auto simp: sound_def)
  ultimately show thesis
    using that [OF run] assms(3) ticks wf.keeps_claim [OF run] chain.keeps_claim [OF run] by (simp add: sound_def)
qed

lemma deliver_ok:
  assumes "good_uuids env" and "sound env w0 w" and "letter v i = Inr m" and "\<not> gs_enable_stripe_invoice_send gs"
  obtains res w' where "deliver env io gs OutboxAdapter v i w = (Inr res, w')" and "sound env w0 w'" and "ticks w \<le> ticks w'"
proof -
  define row where "row = \<lparr>ob_id = new_uuid env (tick (log_mail m w)), ob_proposal_id = meta_proposal_id (ml_meta m),
     ob_to_email = ml_to m, ob_subject = ml_subject m, ob_body = ml_body m, ob_meta = ml_meta m, ob_adapter = ''outbox'',
     ob_file_path = write_file env io gs (meta_proposal_id (ml_meta m)) (log_mail m w),
     ob_created_at = now_utc env (tick (log_mail m w))\<rparr>"
  have row: "ob_id row = new_uuid env (tick (log_mail m w))" by (simp add: row_def)
  have send: "\<exists>d. adapter_send env io gs OutboxAdapter m w = (Inr d, w2)"
    if "insert_outbox row (tick (tick (log_mail m w))) = Inr w2" for w2
    using that by (simp add: adapter_send_def outbox_send_def row_def Let_def)
  have "ob_id row \<notin> ob_id ` set (outbox w)"
    using assms(2) by (auto simp: row sound_def undrawn_def keys_of_def new_uuid_def tick_def log_mail_def)
  then obtain w2 where ins: "insert_outbox row (tick (tick (log_mail m w))) = Inr w2"
    and w2: "w2 = (tick (tick (log_mail m w)))\<lparr>outbox := outbox w @ [row]\<rparr>"
    by (simp add: insert_outbox_def tick_def log_mail_def)
  from send [OF ins] obtain d where d: "adapter_send env io gs OutboxAdapter m w = (Inr d, w2)" by blast
  obtain res where run: "deliver env io gs OutboxAdapter v i w = (Inr res, tick w2)"
    using assms(3,4) d by (simp add: deliver_def stripe_step_def)
  have "undrawn env (tick w2)"
  proof (rule undrawn_new [OF assms(1), of w])
    fix k assume "k \<in> keys_of (tick w2)"
    then have "k \<in> keys_of w \<or> k = uuid_at env (Suc (ticks w))"
      by (auto simp: w2 tick_def log_mail_def keys_of_def row new_uuid_def)
    then show "k \<in> keys_of w \<or> (\<exists>m < ticks (tick w2). k = uuid_at env m)"
    proof
      assume "k = uuid_at env (Suc (ticks w))"
      then show ?thesis by (intro disjI2 exI [of _ "Suc (ticks w)"]) (simp add: w2 tick_def log_mail_def)
    qed simp
  qed (use assms(2) in \<open>simp_all add: sound_def w2 tick_def log_mail_def\<close>)
  moreover have "events (tick w2) = events w" "ticks w \<le> ticks (tick w2)" by (simp_all add: w2 tick_def log_mail_def)
  ultimately show thesis
    using that [OF run] assms(2) wf.keeps_deliver [OF run] chain.keeps_deliver [OF run] by (simp add: sound_def)
qed

lemma finish_ok:
  assumes "good_uuids env" and "log_accepts env w0" and "sound env w0 w"
    and "find_execution i w \<noteq> None" and "find_proposal p w \<noteq> None"
  obtains w' where "finish env i p True result None w = Inr ((), w')" and "sound env w0 w'" and "ticks w \<le> ticks w'"
proof -
  define w1 where "w1 = update_execution i
              (\<lambda>e. e\<lparr>ex_status := ExSucceeded, ex_result := Some result, ex_error := None, ex_executed_at := now_utc env w\<rparr>) w"
  define w2 where "w2 = tick (set_proposal_status Executed p w1)"
  have "events w2 = events w" by (simp add: w2_def w1_def tick_def set_proposal_status_def update_proposal_def update_execution_def)
  from accepted_append [OF assms(2,3) this] obtain w3 where
    3: "append_event env Gateway ''action.execution.succeeded'' ''proposal'' p
      [(''execution_id'', PInt (int i)), (''result'', PDict result), (''error'', str_or_none None)] w2 = Inr w3" .
  have run: "finish env i p True result None w = Inr ((), w3)"
    using assms(4,5) 3 by (simp add: finish_def w2_def w1_def Let_def)
  have ticks: "ticks w3 = Suc (Suc (ticks w))"
    using append_event_frame(9) [OF 3] by (simp add: w2_def w1_def tick_def set_proposal_status_def update_proposal_def update_execution_def)
  have "undrawn env w3"
  proof (rule undrawn_new [OF assms(1), of w])
    fix k assume "k \<in> keys_of w3"
    moreover obtain t where "executions w3 = update_by ex_id i (\<lambda>e. e\<lparr>ex_status := ExSucceeded, ex_result := Some result,
        ex_error := None, ex_executed_at := t\<rparr>) (executions w)"
      using finish_Inr(2) [OF run] by auto
    then have "pr_id ` set (proposals w3) = pr_id ` set (proposals w)" "ex_key ` set (executions w3) = ex_key ` set (executions w)"
      using finish_Inr(1) [OF run] by (simp_all add: update_by_image)
    ultimately have "k \<in> keys_of w" using finish_Inr(3,5,9) [OF run] by (simp add: keys_of_def)
    then show "k \<in> keys_of w \<or> (\<exists>m < ticks w3. k = uuid_at env m)" by simp
  qed (use assms(3) ticks in \<open>simp_all add: sound_def\<close>)
  moreover have "prefix (events w0) (events w3)" using finish_event [OF run] assms(3) by (auto simp: sound_def)
  ultimately show thesis
    using that [OF run] assms(3) ticks wf.keeps_finish [OF run] chain.keeps_finish [OF run] by (simp add: sound_def)
qed

text \<open>The token of a letter, whatever its nonce has been used for.\<close>

definition letter_token :: "env \<Rightarrow> string \<Rightarrow> world \<Rightarrow> string \<Rightarrow> proposal_row \<Rightarrow> claims \<Rightarrow> bool" where
  "letter_token env secret w token p c \<longleftrightarrow>
     (\<forall>fresh. decode env fresh (Some token) secret = Inr c) \<and> cl_proposal_id c = pr_id p
     \<and> hash_payload env (PDict (pr_payload p)) = cl_payload_hash c
     \<and> (\<exists>a. latest_approval (pr_id p) w = Some a \<and> ap_actor a = cl_approver c \<and> ap_token_nonce a = Some (cl_nonce c))"

lemma signed_token: "signed env secret w token p c \<Longrightarrow> letter_token env secret w token p c"
  by (auto simp: signed_def letter_token_def hash_ok_def)

lemma letter_token_same:
  "approvals v = approvals w \<Longrightarrow> letter_token env secret v token p c = letter_token env secret w token p c"
  by (simp add: letter_token_def latest_approval_def)

lemma verified_ok:
  assumes "wf_world w" and "letter_token env secret w token p c" and "strip key \<noteq> []" and "to_epoch at < cl_exp c"
    and "\<And>n. n \<in> set (nonces w) \<Longrightarrow> nc_nonce n = cl_nonce c \<Longrightarrow> nc_key n = strip key"
    and "find_proposal (pr_id p) w = Some q" and "pr_payload q = pr_payload p"
    and "pr_status q = Approved \<and> at < pr_expires_at q \<or> (\<exists>e \<in> set (executions w). ex_key e = strip key \<and> ex_proposal_id e = pr_id p)"
  obtains v where "verify_execution_request env secret (the_request token key i h) fresh at w = Inr v"
    and "vf_claims v = c" and "vf_proposal v = q" and "vf_idempotency_key v = strip key"
    and "vf_existing_execution v = check_7 (strip key) q w"
proof -
  have d: "distinct (map nc_nonce (nonces w))" using assms(1) by (simp add: wf_world_def)
  from assms(2) obtain a where t: "decode env fresh (Some token) secret = Inr c" "cl_proposal_id c = pr_id p"
    "hash_payload env (PDict (pr_payload p)) = cl_payload_hash c"
    and a: "latest_approval (pr_id p) w = Some a" "ap_actor a = cl_approver c" "ap_token_nonce a = Some (cl_nonce c)"
    unfolding letter_token_def by blast
  have "pr_id q = pr_id p" using assms(6) by (rule find_proposal_id)
  then have "check_passes env (strip key) at c w 4" using assms(6,8) t(2) unfolding check_passes_def by auto
  moreover have "check_passes env (strip key) at c w 2" using assms(4) by (simp add: check_passes_def)
  moreover have "check_passes env (strip key) at c w 3" using assms(5) by (simp add: check_passes_def)
  moreover have "check_passes env (strip key) at c w 5" using a t(2) by (simp add: check_passes_def)
  moreover have "check_passes env (strip key) at c w 6" using assms(6,7) t(2,3) by (simp add: check_passes_def)
  ultimately have all: "\<forall>n \<in> {2..6}. check_passes env (strip key) at c w n" by (simp only: check_cases)
  define v where "v = \<lparr>vf_claims = c, vf_proposal = q, vf_approval = a, vf_idempotency_key = strip key,
              vf_checks = checks, vf_existing_execution = check_7 (strip key) q w,
              vf_body_disagreed = body_disagrees c (Some i) (Some h)\<rparr>"
  have "verify_execution_request env secret (the_request token key i h) fresh at w = Inr v"
    by (rule verify_Inr [OF d, THEN iffD2], rule exI [of _ key], rule exI [of _ c], rule exI [of _ q], rule exI [of _ a])
      (use all t a assms(3,6) in \<open>simp add: v_def\<close>)
  then show thesis by (rule that) (simp_all add: v_def)
qed

lemma gateway_up_adapter: "gateway_up gs net secret \<Longrightarrow> build_adapter gs = Inr OutboxAdapter"
  by (simp add: gateway_up_def build_adapter_outbox)

lemma executed_ok:
  assumes "good_uuids env" and "log_accepts env w0" and "sound env w0 w" and "gateway_up gs net secret"
    and "letter_token env secret w token p c" and "strip key = key" and "key \<noteq> []" and "find_key key w = None"
    and "drawn env w key" and "drawn env w (cl_nonce c)" and "find_nonce (cl_nonce c) w = None"
    and "find_proposal (pr_id p) w = Some q" and "pr_payload q = demo_letter invoice" and "pr_payload p = demo_letter invoice"
    and "pr_status q = Approved" and "now_utc env w < pr_expires_at q" and "to_epoch (now_utc env w) < cl_exp c"
  obtains r w' m n e where "post env io gs net token i h key w = (Inr r, w')" and "outcome ''executed'' r w' = (Inr True, w')"
    and "sound env w0 w'" and "ticks w \<le> ticks w'" and "mails w' = mails w @ [m]" and "ml_to m = pr_customer_email q"
    and "proposals w' = update_by pr_id (pr_id p) (\<lambda>q. q\<lparr>pr_status := Executed\<rparr>) (proposals w)"
    and "approvals w' = approvals w" and "nonces w' = nonces w @ [n]" and "nc_nonce n = cl_nonce c" and "nc_key n = key"
    and "e \<in> set (executions w')" and "ex_key e = key" and "ex_proposal_id e = pr_id p" and "ex_status e = ExSucceeded"
proof -
  have wf: "wf_world w" using assms(3) by (simp add: sound_def)
  have fresh_nonce: "cl_nonce c \<notin> nc_nonce ` set (nonces w)" using assms(11) by (simp add: lookup_by_None)
  obtain v where v: "verify_execution_request env secret (the_request token key i h) (new_uuid env w) (now_utc env w) w = Inr v"
    "vf_claims v = c" "vf_proposal v = q" "vf_idempotency_key v = key" "vf_existing_execution v = check_7 key q w"
    by (rule verified_ok [OF wf assms(5) _ assms(17) _ assms(12), of key i h "new_uuid env w"])
      (use assms(6,7,13-16) fresh_nonce in \<open>auto simp: image_iff\<close>)
  have none: "vf_existing_execution v = None" using v(5) assms(8) by (simp add: check_7_def own_execution_fresh)
  have q: "pr_id q = pr_id p" "pr_id p \<in> pr_id ` set (proposals w)" using lookup_by_Some [OF assms(12)] by (auto intro: rev_image_eqI)
  have key: "key \<notin> ex_key ` set (executions w)" using assms(8) by (simp add: lookup_by_None)
  obtain x w1 where 1: "claim env v (tick w) = Inr (x, w1)" "sound env w0 w1" "ticks (tick w) \<le> ticks w1"
    by (rule claim_ok [OF assms(1,2) sound_tick [OF assms(3)], of v])
      (use assms(9,10) q key fresh_nonce v in \<open>auto simp: tick_def drawn_def intro: less_SucI\<close>)
  obtain m where m: "letter v (ex_id x) = Inr m" "ml_to m = pr_customer_email q"
    using assms(13) v(3) by (simp add: letter_def payload_text_def demo_letter_def)
  have send: "\<not> gs_enable_stripe_invoice_send gs" "gs_signing_secret gs = secret" "32 \<le> length secret" "net (ticks w) = Answered"
    using assms(4) by (simp_all add: gateway_up_def)
  obtain res w2 where 2: "deliver env io gs OutboxAdapter v (ex_id x) w1 = (Inr res, w2)" "sound env w0 w2" "ticks w1 \<le> ticks w2"
    by (rule deliver_ok [OF assms(1) 1(2) m(1) send(1)])
  have x: "x = claim_row env v (tick w)" by (rule claim_Inr(1) [OF 1(1)])
  have found: "find_execution (ex_id x) w2 = Some x"
    unfolding deliver_changes(3) [OF 2(1)] claim_Inr(2) [OF 1(1)]
    using next_rowid_fresh [of ex_id "executions (tick w)"] by (intro find_execution_snoc) (simp add: x claim_row_def)
  have "find_proposal (pr_id q) w2 \<noteq> None"
    using deliver_changes(1) [OF 2(1)] claim_Inr(6) [OF 1(1)] assms(12) q by (simp add: tick_def)
  then obtain w3 where 3: "finish env (ex_id x) (pr_id q) True res None w2 = Inr ((), w3)" "sound env w0 w3" "ticks w2 \<le> ticks w3"
    using finish_ok [OF assms(1,2) 2(2), of "ex_id x" "pr_id q" res] found by auto
  have done': "execute env io gs OutboxAdapter v (tick w) = (Inr (x, res, False), w3)"
    using none 1(1) 2(1) 3(1) v(3) by (simp add: execute_def session_scope_def finish_with_def)
  define r where "r = execute_response v (x, res, False)"
  have "post env io gs net token i h key w = (Inr r, w3)"
    using send v(1) gateway_up_adapter [OF assms(4)] done'
    by (simp add: post_def handle_execute_def execute_action_def require_signing_secret_def r_def)
  moreover have "outcome ''executed'' r w3 = (Inr True, w3)"
    by (simp add: outcome_def r_def execute_response_def dict_get_def py_or_def)
  moreover have "mails w3 = mails w @ [m]"
    using finish_Inr(6) [OF 3(1)] deliver_changes(7) [OF 2(1)] m(1) claim_Inr(9) [OF 1(1)] by (simp add: tick_def)
  moreover have "proposals w3 = update_by pr_id (pr_id p) (\<lambda>q. q\<lparr>pr_status := Executed\<rparr>) (proposals w)"
    using finish_Inr(1) [OF 3(1)] deliver_changes(1) [OF 2(1)] claim_Inr(6) [OF 1(1)] q by (simp add: tick_def)
  moreover have "approvals w3 = approvals w"
    using finish_Inr(4) [OF 3(1)] deliver_changes(2) [OF 2(1)] claim_Inr(7) [OF 1(1)] by (simp add: tick_def)
  moreover obtain n where "nonces w3 = nonces w @ [n]" "nc_nonce n = cl_nonce c" "nc_key n = key"
    using finish_Inr(3) [OF 3(1)] deliver_changes(4) [OF 2(1)] claim_Inr(3) [OF 1(1)] v by (auto simp: tick_def)
  moreover obtain t where "executions w3 = update_by ex_id (ex_id x) (\<lambda>e. e\<lparr>ex_status := ExSucceeded, ex_result := Some res,
      ex_error := None, ex_executed_at := t\<rparr>) (executions w2)"
    using finish_Inr(2) [OF 3(1)] by auto
  then have "find_execution (ex_id x) w3 = Some (x\<lparr>ex_status := ExSucceeded, ex_result := Some res,
      ex_error := None, ex_executed_at := t\<rparr>)" using found by (simp add: lookup_update_same)
  then have "x\<lparr>ex_status := ExSucceeded, ex_result := Some res, ex_error := None, ex_executed_at := t\<rparr> \<in> set (executions w3)"
    using lookup_by_Some by metis
  moreover have "ex_key x = key" "ex_proposal_id x = pr_id p" by (simp_all add: x claim_row_def v q)
  moreover have "ticks w \<le> ticks w3" using 1(3) 2(3) 3(3) by (simp add: tick_def)
  ultimately show thesis using that 3(2) m(2) by simp
qed

section \<open>The request that is repeated\<close>

lemma retried_ok:
  assumes "sound env w0 w" and "gateway_up gs net secret" and "letter_token env secret w token p c"
    and "strip key = key" and "key \<noteq> []" and "\<And>n. n \<in> set (nonces w) \<Longrightarrow> nc_nonce n = cl_nonce c \<Longrightarrow> nc_key n = key"
    and "find_proposal (pr_id p) w = Some q" and "pr_payload q = pr_payload p"
    and "e \<in> set (executions w)" and "ex_key e = key" and "ex_proposal_id e = pr_id p" and "ex_status e = ExSucceeded"
    and "to_epoch (now_utc env w) < cl_exp c"
  obtains r where "post env io gs net token i h key w = (Inr r, tick w)"
    and "\<forall>w'. outcome ''already_executed'' r w' = (Inr True, w')"
proof -
  have wf: "wf_world w" using assms(1) by (simp add: sound_def)
  obtain v where v: "verify_execution_request env secret (the_request token key i h) (new_uuid env w) (now_utc env w) w = Inr v"
    "vf_claims v = c" "vf_proposal v = q" "vf_idempotency_key v = key" "vf_existing_execution v = check_7 key q w"
    by (rule verified_ok [OF wf assms(3) _ assms(13) _ assms(7,8), of key i h "new_uuid env w"])
      (use assms(4-6,9-11) in auto)
  have q: "pr_id q = pr_id p" using assms(7) by (rule find_proposal_id)
  have "x = e" if "x \<in> set (executions w)" "ex_key x = key" for x
    using wf that assms(9,10) by (auto simp: wf_world_def distinct_map inj_on_def)
  moreover have "own_execution key q w \<noteq> None" using assms(9-11) q by (auto simp: own_execution_None)
  moreover have "x \<in> set (executions w) \<and> ex_key x = key" if "own_execution key q w = Some x" for x
    using that unfolding own_execution_def find_Some_iff by (metis nth_mem)
  ultimately have "own_execution key q w = Some e" by (metis not_None_eq)
  then have same: "vf_existing_execution v = Some e" by (simp add: v(5) check_7_def)
  have "post env io gs net token i h key w = (Inr (execute_response v (e, result_dict e, True)), tick w)"
    using assms(2,12) v(1) gateway_up_adapter [OF assms(2)] same
    by (simp add: gateway_up_def post_def handle_execute_def execute_action_def require_signing_secret_def execute_def
        replay_answer_def)
  then show thesis
    by (rule that) (simp add: outcome_def execute_response_def dict_get_def py_or_def)
qed

section \<open>The letters of the script\<close>

text \<open>The clock stays within ten minutes from the first reading on.\<close>

definition calm :: "env \<Rightarrow> world \<Rightarrow> int \<Rightarrow> bool" where
  "calm env w0 t0 \<longleftrightarrow> 0 \<le> t0 \<and> (\<forall>n \<ge> ticks w0. t0 \<le> time_at env n \<and> time_at env n < t0 + 600 * second_us)"

lemma calm_times:
  assumes "calm env w0 t0" and "ticks w0 \<le> n" and "ticks w0 \<le> k"
  shows "time_at env n < time_at env k + 3600 * second_us" "to_epoch (time_at env n) \<le> to_epoch (time_at env k) + 600"
proof -
  have t: "t0 \<le> time_at env n" "time_at env n < t0 + 600 * second_us" "t0 \<le> time_at env k" "0 \<le> t0"
    using assms by (simp_all add: calm_def)
  then show "time_at env n < time_at env k + 3600 * second_us" by (simp add: second_us_def)
  have "time_at env n div second_us \<le> (time_at env k + 600 * second_us) div second_us"
    using t by (intro zdiv_mono1) (simp_all add: second_us_def)
  also have "\<dots> = time_at env k div second_us + 600" by (simp add: second_us_def)
  finally show "to_epoch (time_at env n) \<le> to_epoch (time_at env k) + 600" using t by (simp add: to_epoch_def)
qed

definition setting :: "env \<Rightarrow> gateway_settings \<Rightarrow> (nat \<Rightarrow> transport) \<Rightarrow> string \<Rightarrow> world \<Rightarrow> int \<Rightarrow> bool" where
  "setting env gs net secret w0 t0 \<longleftrightarrow> good_uuids env \<and> ints_accepted env \<and> digests_nonempty env \<and> log_accepts env w0
     \<and> gateway_up gs net secret \<and> calm env w0 t0"

lemma drawn_mono: "drawn env w k \<Longrightarrow> ticks w \<le> ticks v \<Longrightarrow> drawn env v k"
  unfolding drawn_def by (elim exE conjE) (rule exI, erule conjI [rotated], simp)

text \<open>A letter of the script as it stands, in its status, with a valid token.\<close>

definition standing :: "env \<Rightarrow> string \<Rightarrow> world \<Rightarrow> world \<Rightarrow> string \<Rightarrow> string \<Rightarrow> proposal_row \<Rightarrow> claims \<Rightarrow> proposal_status \<Rightarrow> bool" where
  "standing env secret w0 w invoice token p c st \<longleftrightarrow>
     find_proposal (pr_id p) w = Some (p\<lparr>pr_status := st\<rparr>) \<and> signed env secret w token p c \<and> drawn env w (cl_nonce c)
     \<and> pr_payload p = demo_letter invoice \<and> pr_customer_email p = ''ap@acme.test'' \<and> pr_invoice_id p = invoice \<and> is_ascii (pr_id p)
     \<and> (\<forall>n \<ge> ticks w0. time_at env n < pr_expires_at p \<and> to_epoch (time_at env n) < cl_exp c)"

lemma standing_same:
  "standing env secret w0 w invoice token p c st \<Longrightarrow> proposals v = proposals w \<Longrightarrow> same_decisions w v \<Longrightarrow> ticks w \<le> ticks v \<Longrightarrow>
   standing env secret w0 v invoice token p c st"
  using signed_same [of v w] drawn_mono [of env w _ v] by (simp add: standing_def same_decisions_def)

lemma same_decisions_trans: "same_decisions u v \<Longrightarrow> same_decisions v w \<Longrightarrow> same_decisions u w"
  by (simp add: same_decisions_def)

lemma stage:
  assumes "setting env gs net secret w0 t0" and "sound env w0 w" and "s \<noteq> Some Pending"
    and "\<And>p. p \<in> set (proposals w) \<Longrightarrow> \<not> pending_for invoice p"
  obtains token p c w' where "session_scope (staged env secret invoice s) w = (Inr (token, p), w')" and "sound env w0 w'"
    and "standing env secret w0 w' invoice token p c (status_or_pending s)"
    and "proposals w' = proposals w @ [p\<lparr>pr_status := status_or_pending s\<rparr>]" and "mails w' = mails w" and "ticks w \<le> ticks w'"
proof -
  have a: "good_uuids env" "ints_accepted env" "digests_nonempty env" "secret \<noteq> []" "calm env w0 t0"
    using assms(1) by (auto simp: setting_def gateway_up_def)
  obtain token p c w' where s: "session_scope (staged env secret invoice s) w = (Inr (token, p), w')" "sound env w0 w'"
    "staged_well env secret w w' invoice s token p c" "ticks w \<le> ticks w'"
    by (rule staged_ok [OF a(1-4) assms(2,4,3)])
  have w: "ticks w0 \<le> ticks w" using assms(2) by (simp add: sound_def)
  from s(3) obtain j k where jk: "ticks w \<le> j" "ticks w \<le> k" "pr_expires_at p = time_at env j + 3600 * second_us"
    "cl_iat c = to_epoch (time_at env k)" unfolding staged_well_def by blast
  have "cl_exp c = cl_iat c + 900" using s(3) by (simp add: staged_well_def signed_def)
  then have "time_at env n < pr_expires_at p \<and> to_epoch (time_at env n) < cl_exp c" if "ticks w0 \<le> n" for n
    using calm_times [OF a(5) that, of j] calm_times [OF a(5) that, of k] jk w by simp
  then have "standing env secret w0 w' invoice token p c (status_or_pending s)"
    using s(3) unfolding standing_def staged_well_def by blast
  then show thesis using that [OF s(1,2) _ _ _ s(4)] s(3) by (simp add: staged_well_def)
qed

section \<open>The refused attempts of the script\<close>

lemma setting_parts:
  assumes "setting env gs net secret w0 t0"
  shows "good_uuids env" "gateway_up gs net secret" "ints_accepted env" "digests_nonempty env" "log_accepts env w0"
    "calm env w0 t0" "secret \<noteq> []"
  using assms by (auto simp: setting_def gateway_up_def)

lemma standing_in_time:
  assumes "standing env secret w0 w invoice token p c st" and "sound env w0 w"
  shows "to_epoch (now_utc env (tick w)) < cl_exp c" and "now_utc env (tick w) < pr_expires_at p"
    and "to_epoch (now_utc env w) < cl_exp c" and "now_utc env w < pr_expires_at p"
  using assms by (simp_all add: standing_def now_utc_def tick_def sound_def)

lemma standing_facts:
  assumes "standing env secret w0 w invoice token p c st"
  shows "\<And>fresh. decode env fresh (Some token) secret = Inr c" and "find_nonce (cl_nonce c) (tick w) = None"
    and "find_proposal (cl_proposal_id c) (tick w) = Some (p\<lparr>pr_status := st\<rparr>)" and "letter_token env secret (tick w) token p c"
    and "cl_proposal_id c = pr_id p" and "hash_payload env (PDict (pr_payload p)) = cl_payload_hash c"
    and "pr_payload p = demo_letter invoice"
  using assms signed_token [of env secret w token p c] letter_token_same [of "tick w" w]
  by (auto simp: standing_def signed_def hash_ok_def tick_def)

lemma undecided_attempt:
  assumes "setting env gs net secret w0 t0" and "sound env w0 w" and "standing env secret w0 w invoice token p c st" and "st \<noteq> Approved"
  obtains w' where "try_out env io gs net ''not_approved'' token (pr_id p) (pr_payload_hash p) w = (Inr True, w')"
    and "sound env w0 w'" and "proposals w' = proposals w" and "same_decisions w w'" and "ticks w \<le> ticks w'"
proof (rule attempt_ok [OF setting_parts(1) [OF assms(1)] assms(2) setting_parts(2) [OF assms(1)]])
  fix key fresh assume "strip key \<noteq> []" and "find_key (strip key) (tick w) = None"
  then show "\<exists>x. verify_execution_request env secret (the_request token key (pr_id p) (pr_payload_hash p)) fresh
      (now_utc env (tick w)) (tick w) = Inl x \<and> says x ''not_approved''"
    using assms(4) standing_facts [OF assms(3)] standing_in_time [OF assms(3,2)]
    by (intro undecided_refused [where p = "p\<lparr>pr_status := st\<rparr>" and c = c]) simp_all
qed (use that in simp_all)

lemma altered_attempt:
  assumes "setting env gs net secret w0 t0" and "sound env w0 w" and "standing env secret w0 v invoice token p c Approved"
    and "find_proposal (pr_id p) w = Some q" and "pr_status q = Approved" and "pr_expires_at q = pr_expires_at p"
    and "approvals w = approvals v" and "nonces w = nonces v" and "hash_payload env (PDict (pr_payload q)) \<noteq> pr_payload_hash p"
  obtains w' where "try_out env io gs net ''payload_modified'' token (pr_id p) h w = (Inr True, w')"
    and "sound env w0 w'" and "proposals w' = proposals w" and "same_decisions w w'" and "ticks w \<le> ticks w'"
proof (rule attempt_ok [OF setting_parts(1) [OF assms(1)] assms(2) setting_parts(2) [OF assms(1)]])
  fix key fresh assume key: "strip key \<noteq> []" "find_key (strip key) (tick w) = None"
  have s: "signed env secret w token p c" using assms(3,7,8) signed_same [of w v] by (simp add: standing_def)
  then obtain a where a: "latest_approval (pr_id p) w = Some a" "ap_actor a = cl_approver c" "ap_token_nonce a = Some (cl_nonce c)"
    by (auto simp: signed_def)
  have n: "ticks w0 \<le> ticks (tick w)" using assms(2) by (simp add: sound_def tick_def)
  have t: "to_epoch (now_utc env (tick w)) < cl_exp c" "now_utc env (tick w) < pr_expires_at q"
    using assms(3,6) n by (simp_all add: standing_def now_utc_def)
  have "cl_payload_hash c = hash_payload env (PDict (pr_payload p))" using s by (simp add: signed_def hash_ok_def)
  then have h: "is_ascii (cl_payload_hash c)" "cl_payload_hash c \<noteq> []"
    using hash_payload_ascii [of env "PDict (pr_payload p)"] hash_payload_nonempty [of env "PDict (pr_payload p)"] by simp_all
  show "\<exists>x. verify_execution_request env secret (the_request token key (pr_id p) h) fresh
      (now_utc env (tick w)) (tick w) = Inl x \<and> says x ''payload_modified''"
    using s a t h key assms(4,5,9)
    by (intro altered_refused [where p = q and c = c and a = a]) (simp_all add: signed_def latest_approval_def tick_def)
qed (use that in simp_all)

text \<open>The tokens of the script's own making.\<close>

definition handmade_claims :: "env \<Rightarrow> proposal_row \<Rightarrow> int \<Rightarrow> int \<Rightarrow> world \<Rightarrow> claims" where
  "handmade_claims env p since until w =
     \<lparr>cl_proposal_id = pr_id p, cl_payload_hash = pr_payload_hash p, cl_action_type = ''send_collection_letter'',
      cl_approver = demo_operator, cl_nonce = new_uuid env w, cl_iat = to_epoch (now_utc env w) + since,
      cl_exp = to_epoch (now_utc env (tick w)) + until\<rparr>"

lemma handmade_ok:
  assumes "good_uuids env" and "secret \<noteq> []" and "is_ascii (pr_id p)" and "is_ascii (pr_payload_hash p)"
  obtains token where "handmade env (pr_id p) (pr_payload_hash p) since until secret w = (Inr token, tick (tick w))"
    and "mint env (handmade_claims env p since until w) secret = Inr token" and "claims_ascii (handmade_claims env p since until w)"
proof -
  obtain token where t: "mint env (handmade_claims env p since until w) secret = Inr token"
    using mint_succeeds [OF assms(2)] by blast
  have "claims_ascii (handmade_claims env p since until w)"
    using assms by (simp add: claims_ascii_def handmade_claims_def demo_operator_def good_uuids_def new_uuid_def)
  then show thesis using that t by (simp add: handmade_def handmade_claims_def)
qed

text \<open>A token signed with another secret is recognised, where the two secrets give no message the same tag.\<close>

lemma decode_forged:
  assumes "digests_nonempty env" and "secret \<noteq> []" and "mint env c forger = Inr raw"
    and "\<And>m. hmac_sha256 env forger m \<noteq> hmac_sha256 env secret m"
  shows "\<exists>m. decode env fresh (Some raw) secret = Inl (InvalidSignature m)"
proof -
  let ?segment = "b64encode (ascii_json (PDict (claims_dump c)))"
  let ?sig = "b64encode (hmac_sha256 env forger ?segment)"
  from mint_shape [OF assms(3)] have raw: "raw = ?segment @ CHR ''.'' # ?sig" by simp
  have parts: "split_on (CHR ''.'') raw = [?segment, ?sig]" by (simp add: raw split_on_append split_on_none)
  have "?segment \<noteq> []" "?sig \<noteq> []"
    using assms(1) by (simp_all add: b64encode_nonempty ascii_json_def hmac_sha256_def digests_nonempty_def)
  moreover have "?sig \<noteq> b64encode (hmac_sha256 env secret ?segment)"
    using assms(4) b64decode_encode by (metis sum.inject(2))
  ultimately show ?thesis
    by (simp add: decode_parts [OF parts assms(2)] sign_ascii compare_digest_def)
qed

lemma standing_ascii:
  assumes "standing env secret w0 w invoice token p c st"
  shows "is_ascii (pr_id p)" and "is_ascii (pr_payload_hash p)"
  using assms hash_payload_ascii [of env "PDict (pr_payload p)"] by (simp_all add: standing_def signed_def hash_ok_def)

lemma forged_attempt:
  assumes "setting env gs net secret w0 t0" and "sound env w0 w" and "mint env c forger = Inr token"
    and "\<And>m. hmac_sha256 env forger m \<noteq> hmac_sha256 env secret m"
  obtains w' where "try_out env io gs net ''invalid_signature'' token i h w = (Inr True, w')"
    and "sound env w0 w'" and "proposals w' = proposals w" and "same_decisions w w'" and "ticks w \<le> ticks w'"
proof (rule attempt_ok [OF setting_parts(1) [OF assms(1)] assms(2) setting_parts(2) [OF assms(1)]])
  fix key fresh assume key: "strip key \<noteq> []"
  from decode_forged [OF setting_parts(4,7) [OF assms(1)] assms(3,4), of fresh]
  obtain m where "decode env fresh (Some token) secret = Inl (InvalidSignature m)" ..
  then show "\<exists>x. verify_execution_request env secret (the_request token key i h) fresh
      (now_utc env (tick w)) (tick w) = Inl x \<and> says x ''invalid_signature''"
    by (rule forged_refused [OF key])
qed (use that in simp_all)

lemma stale_attempt:
  assumes "setting env gs net secret w0 t0" and "sound env w0 w" and "mint env c secret = Inr token" and "claims_ascii c"
    and "cl_exp c = to_epoch (time_at env k) - 1800" and "ticks w0 \<le> k"
  obtains w' where "try_out env io gs net ''token_expired'' token i h w = (Inr True, w')"
    and "sound env w0 w'" and "proposals w' = proposals w" and "same_decisions w w'" and "ticks w \<le> ticks w'"
proof (rule attempt_ok [OF setting_parts(1) [OF assms(1)] assms(2) setting_parts(2) [OF assms(1)]])
  fix key fresh assume key: "strip key \<noteq> []"
  have "ticks w0 \<le> ticks (tick w)" using assms(2) by (simp add: sound_def tick_def)
  from calm_times(2) [OF setting_parts(6) [OF assms(1)] assms(6) this]
  have "cl_exp c \<le> to_epoch (now_utc env (tick w))" using assms(5) by (simp add: now_utc_def)
  moreover have "decode env fresh (Some token) secret = Inr c"
    using setting_parts(3,4) [OF assms(1)] assms(3,4) by (intro mint_then_decode)
  ultimately show "\<exists>x. verify_execution_request env secret (the_request token key i h) fresh
      (now_utc env (tick w)) (tick w) = Inl x \<and> says x ''token_expired''" using key by (intro expired_refused)
qed (use that in simp_all)

lemma replay_attempt:
  assumes "setting env gs net secret w0 t0" and "sound env w0 w" and "letter_token env secret w token p c"
    and "find_nonce (cl_nonce c) w \<noteq> None" and "\<And>n. ticks w0 \<le> n \<Longrightarrow> to_epoch (time_at env n) < cl_exp c"
  obtains w' where "try_out env io gs net ''token_replayed'' token i h w = (Inr True, w')"
    and "sound env w0 w'" and "proposals w' = proposals w" and "same_decisions w w'" and "ticks w \<le> ticks w'"
proof (rule attempt_ok [OF setting_parts(1) [OF assms(1)] assms(2) setting_parts(2) [OF assms(1)]])
  fix key fresh assume key: "strip key \<noteq> []" "\<And>n. n \<in> set (nonces w) \<Longrightarrow> nc_key n \<noteq> strip key"
  obtain n where n: "find_nonce (cl_nonce c) w = Some n" using assms(4) by auto
  then have "nc_key n \<noteq> strip key" using lookup_by_Some [OF n] key(2) by blast
  moreover have "to_epoch (now_utc env (tick w)) < cl_exp c"
    using assms(2,5) by (simp add: now_utc_def sound_def tick_def)
  ultimately show "\<exists>x. verify_execution_request env secret (the_request token key i h) fresh
      (now_utc env (tick w)) (tick w) = Inl x \<and> says x ''token_replayed''"
    using assms(3) key(1) n by (intro replay_refused [where c = c and n = n]) (simp_all add: letter_token_def tick_def)
qed (use that in simp_all)

section \<open>The four letters\<close>

lemma same_decisions_mails: "same_decisions w w' \<Longrightarrow> mails w' = mails w"
  by (simp add: same_decisions_def)

lemma staged_status: "None \<noteq> Some Pending" "Some Rejected \<noteq> Some Pending" "Some Approved \<noteq> Some Pending"
  by simp_all

lemma letter_a:
  assumes "setting env gs net secret w0 t0" and "sound env w0 w"
    and "\<And>p. p \<in> set (proposals w) \<Longrightarrow> \<not> pending_for invoice p"
    and "\<And>m. hmac_sha256 env ''an-attackers-secret'' m \<noteq> hmac_sha256 env secret m"
  obtains token p forged stale q w1 w2 w3 w4 w5 w' where
    "session_scope (staged env secret invoice None) w = (Inr (token, p), w1)"
    "try_out env io gs net ''not_approved'' token (pr_id p) (pr_payload_hash p) w1 = (Inr True, w2)"
    "handmade env (pr_id p) (pr_payload_hash p) 0 900 ''an-attackers-secret'' w2 = (Inr forged, w3)"
    "try_out env io gs net ''invalid_signature'' forged (pr_id p) (pr_payload_hash p) w3 = (Inr True, w4)"
    "handmade env (pr_id p) (pr_payload_hash p) (- 3600) (- 1800) secret w4 = (Inr stale, w5)"
    "try_out env io gs net ''token_expired'' stale (pr_id p) (pr_payload_hash p) w5 = (Inr True, w')"
    and "sound env w0 w'" and "proposals w' = proposals w @ [q]" and "pr_status q = Pending" and "pr_invoice_id q = invoice"
    and "mails w' = mails w"
proof -
  note u = setting_parts(1) [OF assms(1)]
  obtain token p c w1 where 1: "session_scope (staged env secret invoice None) w = (Inr (token, p), w1)" "sound env w0 w1"
    "standing env secret w0 w1 invoice token p c (status_or_pending None)"
    "proposals w1 = proposals w @ [p\<lparr>pr_status := status_or_pending None\<rparr>]" "mails w1 = mails w"
    by (rule stage [OF assms(1,2) staged_status(1) assms(3)])
  note ascii = standing_ascii [OF 1(3)]
  obtain w2 where 2: "try_out env io gs net ''not_approved'' token (pr_id p) (pr_payload_hash p) w1 = (Inr True, w2)"
    "sound env w0 w2" "proposals w2 = proposals w1" "same_decisions w1 w2"
    by (rule undecided_attempt [OF assms(1) 1(2,3)]) (simp add: status_or_pending_def)
  obtain forged where 3: "handmade env (pr_id p) (pr_payload_hash p) 0 900 ''an-attackers-secret'' w2 = (Inr forged, tick (tick w2))"
    "mint env (handmade_claims env p 0 900 w2) ''an-attackers-secret'' = Inr forged" "claims_ascii (handmade_claims env p 0 900 w2)"
    by (rule handmade_ok [OF u list.distinct(2) ascii])
  obtain w4 where 4: "try_out env io gs net ''invalid_signature'' forged (pr_id p) (pr_payload_hash p) (tick (tick w2)) = (Inr True, w4)"
    "sound env w0 w4" "proposals w4 = proposals (tick (tick w2))" "same_decisions (tick (tick w2)) w4"
    by (rule forged_attempt [OF assms(1) sound_tick [OF sound_tick [OF 2(2)]] 3(2) assms(4)])
  obtain stale where 5: "handmade env (pr_id p) (pr_payload_hash p) (- 3600) (- 1800) secret w4 = (Inr stale, tick (tick w4))"
    "mint env (handmade_claims env p (- 3600) (- 1800) w4) secret = Inr stale" "claims_ascii (handmade_claims env p (- 3600) (- 1800) w4)"
    by (rule handmade_ok [OF u setting_parts(7) [OF assms(1)] ascii])
  have "ticks w0 \<le> ticks (tick w4)" using sound_tick [OF 4(2)] by (simp add: sound_def)
  moreover have "cl_exp (handmade_claims env p (- 3600) (- 1800) w4) = to_epoch (time_at env (ticks (tick w4))) - 1800"
    by (simp add: handmade_claims_def now_utc_def)
  ultimately obtain w' where 6: "try_out env io gs net ''token_expired'' stale (pr_id p) (pr_payload_hash p) (tick (tick w4)) = (Inr True, w')"
    "sound env w0 w'" "proposals w' = proposals (tick (tick w4))" "same_decisions (tick (tick w4)) w'"
    using stale_attempt [OF assms(1) sound_tick [OF sound_tick [OF 4(2)]] 5(2,3)] by metis
  have "proposals w' = proposals w @ [p\<lparr>pr_status := status_or_pending None\<rparr>]"
    using 1(4) 2(3) 4(3) 6(3) by (simp add: tick_def)
  moreover have "pr_invoice_id p = invoice" using 1(3) by (simp add: standing_def)
  moreover have "mails w' = mails w"
    using 1(5) same_decisions_mails [OF 2(4)] same_decisions_mails [OF 4(4)] same_decisions_mails [OF 6(4)] by (simp add: tick_def)
  ultimately show thesis
    using that [OF 1(1) 2(1) 3(1) 4(1) 5(1) 6(1,2)] by (simp add: status_or_pending_def)
qed

lemma letter_b:
  assumes "setting env gs net secret w0 t0" and "sound env w0 w"
    and "\<And>p. p \<in> set (proposals w) \<Longrightarrow> \<not> pending_for invoice p"
  obtains token p q w1 w' where
    "session_scope (staged env secret invoice (Some Rejected)) w = (Inr (token, p), w1)"
    "try_out env io gs net ''not_approved'' token (pr_id p) (pr_payload_hash p) w1 = (Inr True, w')"
    and "sound env w0 w'" and "proposals w' = proposals w @ [q]" and "pr_status q = Rejected" and "mails w' = mails w"
proof -
  obtain token p c w1 where 1: "session_scope (staged env secret invoice (Some Rejected)) w = (Inr (token, p), w1)" "sound env w0 w1"
    "standing env secret w0 w1 invoice token p c (status_or_pending (Some Rejected))"
    "proposals w1 = proposals w @ [p\<lparr>pr_status := status_or_pending (Some Rejected)\<rparr>]" "mails w1 = mails w"
    by (rule stage [OF assms(1,2) staged_status(2) assms(3)])
  obtain w2 where 2: "try_out env io gs net ''not_approved'' token (pr_id p) (pr_payload_hash p) w1 = (Inr True, w2)"
    "sound env w0 w2" "proposals w2 = proposals w1" "same_decisions w1 w2"
    by (rule undecided_attempt [OF assms(1) 1(2,3)]) (simp add: status_or_pending_def)
  have "proposals w2 = proposals w @ [p\<lparr>pr_status := Rejected\<rparr>]" using 1(4) 2(3) by (simp add: status_or_pending_def)
  from that [OF 1(1) 2(1,2) this] show thesis using 1(5) same_decisions_mails [OF 2(4)] by simp
qed

lemma update_by_last:
  assumes "key q \<notin> key ` set rows"
  shows "update_by key (key q) f (rows @ [q]) = rows @ [f q]"
proof -
  have "update_by key (key q) f rows = rows" using assms unfolding update_by_def by (intro map_idI) (metis imageI)
  then show ?thesis by (simp add: update_by_def)
qed

lemma last_is_new:
  assumes "sound env w0 w" and "proposals w = ps @ [q]"
  shows "pr_id q \<notin> pr_id ` set ps"
  using assms by (simp add: sound_def wf_world_def)

lemma alter_ok:
  assumes "good_uuids env" and "sound env w0 w" and "proposals w = ps @ [q]" and "pr_payload q = demo_letter invoice"
  obtains q' w' where "session_scope (alter env (pr_id q)) w = (Inr (pr_payload_hash q'), w')" and "sound env w0 w'"
    and "q' = q\<lparr>pr_payload := altered_letter (demo_letter invoice),
      pr_payload_hash := hash_payload env (PDict (altered_letter (demo_letter invoice)))\<rparr>"
    and "proposals w' = ps @ [q']" and "same_decisions w w'" and "ticks w' = ticks w"
proof -
  let ?f = "\<lambda>p. p\<lparr>pr_payload := altered_letter (pr_payload p), pr_payload_hash := hash_payload env (PDict (altered_letter (pr_payload p)))\<rparr>"
  define w' where "w' = update_proposal (pr_id q) ?f w"
  have new: "pr_id q \<notin> pr_id ` set ps" by (rule last_is_new [OF assms(2,3)])
  have rows: "proposals w' = ps @ [?f q]"
    using update_by_last [where key = pr_id and f = ?f, OF new] by (simp add: w'_def update_proposal_def assms(3))
  have found: "find_proposal (pr_id q) w = Some q"
    using new by (simp add: assms(3) lookup_by_append lookup_by_None [THEN iffD2])
  have run: "session_scope (alter env (pr_id q)) w = (Inr (pr_payload_hash (?f q)), w')"
    using found by (simp add: session_scope_def alter_def w'_def)
  have "proposal_update_ok env ?f" by (simp add: proposal_update_ok_def hash_ok_def)
  then have "wf_world w' \<and> chain_intact env w'"
    using assms(2) wf.keeps_update_proposal [of w env ?f] chain.keeps_update_proposal [of env w ?f] by (simp add: sound_def w'_def)
  moreover have "keys_of w' = keys_of w" using rows assms(3) by (simp add: keys_of_def w'_def update_proposal_def)
  ultimately have "sound env w0 w'" using assms(2) by (simp add: sound_def undrawn_def w'_def update_proposal_def)
  moreover have "same_decisions w w'" "ticks w' = ticks w" by (simp_all add: w'_def update_proposal_def same_decisions_def)
  ultimately show thesis using that [OF run] rows assms(4) by simp
qed

lemma letter_c:
  assumes "setting env gs net secret w0 t0" and "sound env w0 w"
    and "\<And>p. p \<in> set (proposals w) \<Longrightarrow> \<not> pending_for invoice p"
    and "hash_payload env (PDict (altered_letter (demo_letter invoice))) \<noteq> hash_payload env (PDict (demo_letter invoice))"
  obtains token p h q w1 w2 w' where
    "session_scope (staged env secret invoice (Some Approved)) w = (Inr (token, p), w1)"
    "session_scope (alter env (pr_id p)) w1 = (Inr h, w2)"
    "try_out env io gs net ''payload_modified'' token (pr_id p) h w2 = (Inr True, w')"
    and "sound env w0 w'" and "proposals w' = proposals w @ [q]" and "pr_status q = Approved" and "mails w' = mails w"
proof -
  obtain token p c w1 where 1: "session_scope (staged env secret invoice (Some Approved)) w = (Inr (token, p), w1)" "sound env w0 w1"
    "standing env secret w0 w1 invoice token p c (status_or_pending (Some Approved))"
    "proposals w1 = proposals w @ [p\<lparr>pr_status := status_or_pending (Some Approved)\<rparr>]" "mails w1 = mails w"
    by (rule stage [OF assms(1,2) staged_status(3) assms(3)])
  let ?q = "p\<lparr>pr_status := Approved\<rparr>"
  have s: "standing env secret w0 w1 invoice token p c Approved" and rows: "proposals w1 = proposals w @ [?q]"
    using 1(3,4) by (simp_all add: status_or_pending_def)
  have p: "pr_payload ?q = demo_letter invoice" "pr_id ?q = pr_id p" using s by (simp_all add: standing_def)
  obtain q w2 where 2: "session_scope (alter env (pr_id ?q)) w1 = (Inr (pr_payload_hash q), w2)" "sound env w0 w2"
    "q = ?q\<lparr>pr_payload := altered_letter (demo_letter invoice),
      pr_payload_hash := hash_payload env (PDict (altered_letter (demo_letter invoice)))\<rparr>"
    "proposals w2 = proposals w @ [q]" "same_decisions w1 w2" "ticks w2 = ticks w1"
    by (rule alter_ok [OF setting_parts(1) [OF assms(1)] 1(2) rows p(1)])
  have q: "pr_id q = pr_id p" "pr_status q = Approved" "pr_expires_at q = pr_expires_at p"
    "pr_payload q = altered_letter (demo_letter invoice)" using 2(3) by simp_all
  have found: "find_proposal (pr_id p) w2 = Some q"
    using last_is_new [OF 2(2,4)] q(1) by (simp add: 2(4) lookup_by_append lookup_by_None [THEN iffD2])
  have "pr_payload_hash p = hash_payload env (PDict (demo_letter invoice))"
    using s by (simp add: standing_def signed_def hash_ok_def)
  then have differ: "hash_payload env (PDict (pr_payload q)) \<noteq> pr_payload_hash p" using assms(4) q(4) by simp
  have same: "approvals w2 = approvals w1" "nonces w2 = nonces w1" using 2(5) by (simp_all add: same_decisions_def)
  obtain w' where 3: "try_out env io gs net ''payload_modified'' token (pr_id p) (pr_payload_hash q) w2 = (Inr True, w')"
    "sound env w0 w'" "proposals w' = proposals w2" "same_decisions w2 w'" "ticks w2 \<le> ticks w'"
    by (rule altered_attempt [OF assms(1) 2(2) s found q(2,3) same differ])
  have "proposals w' = proposals w @ [q]" using 3(3) 2(4) by simp
  from that [OF 1(1) 2(1) [unfolded p(2)] 3(1,2) this q(2)] show thesis
    using 1(5) same_decisions_mails [OF 2(5)] same_decisions_mails [OF 3(4)] by simp
qed

lemma letter_sent:
  assumes "setting env gs net secret w0 t0" and "sound env w0 w"
    and "\<And>p. p \<in> set (proposals w) \<Longrightarrow> \<not> pending_for invoice p"
  obtains token p c key r m e w1 w2 w' where
    "session_scope (staged env secret invoice (Some Approved)) w = (Inr (token, p), w1)"
    "fresh_key env w1 = (Inr key, w2)"
    "post env io gs net token (pr_id p) (pr_payload_hash p) key w2 = (Inr r, w')"
    "outcome ''executed'' r w' = (Inr True, w')"
    and "sound env w0 w'" and "proposals w' = proposals w @ [p\<lparr>pr_status := Executed\<rparr>]"
    and "mails w' = mails w @ [m]" and "ml_to m = ''ap@acme.test''"
    and "letter_token env secret w' token p c" and "strip key = key" and "key \<noteq> []" and "find_nonce (cl_nonce c) w' \<noteq> None"
    and "\<forall>n \<in> set (nonces w'). nc_nonce n = cl_nonce c \<longrightarrow> nc_key n = key"
    and "e \<in> set (executions w')" and "ex_key e = key" and "ex_proposal_id e = pr_id p" and "ex_status e = ExSucceeded"
    and "\<forall>n \<ge> ticks w0. to_epoch (time_at env n) < cl_exp c"
proof -
  note u = setting_parts(1) [OF assms(1)] and up = setting_parts(2) [OF assms(1)]
  obtain token p c w1 where 1: "session_scope (staged env secret invoice (Some Approved)) w = (Inr (token, p), w1)" "sound env w0 w1"
    "standing env secret w0 w1 invoice token p c (status_or_pending (Some Approved))"
    "proposals w1 = proposals w @ [p\<lparr>pr_status := status_or_pending (Some Approved)\<rparr>]" "mails w1 = mails w"
    by (rule stage [OF assms(1,2) staged_status(3) assms(3)])
  let ?q = "p\<lparr>pr_status := Approved\<rparr>" and ?key = "new_uuid env w1"
  have s: "standing env secret w0 w1 invoice token p c Approved" and rows: "proposals w1 = proposals w @ [?q]"
    using 1(3,4) by (simp_all add: status_or_pending_def)
  have und: "undrawn env w1" using 1(2) by (simp add: sound_def)
  note key = fresh_key_ok [OF u und]
  note f = standing_facts [OF s] and t = standing_in_time [OF s 1(2)]
  have drawn: "drawn env (tick w1) ?key" "drawn env (tick w1) (cl_nonce c)"
    using s drawn_mono [of env w1 "cl_nonce c" "tick w1"]
    by (auto simp: drawn_def new_uuid_def tick_def standing_def)
  have q: "pr_payload ?q = demo_letter invoice" "pr_status ?q = Approved" "pr_expires_at ?q = pr_expires_at p" using f(7) by simp_all
  obtain r w3 m n e where 3: "post env io gs net token (pr_id p) (pr_payload_hash p) ?key (tick w1) = (Inr r, w3)"
    "outcome ''executed'' r w3 = (Inr True, w3)" "sound env w0 w3" "ticks (tick w1) \<le> ticks w3"
    "mails w3 = mails (tick w1) @ [m]" "ml_to m = pr_customer_email ?q"
    "proposals w3 = update_by pr_id (pr_id p) (\<lambda>q. q\<lparr>pr_status := Executed\<rparr>) (proposals (tick w1))"
    "approvals w3 = approvals (tick w1)" "nonces w3 = nonces (tick w1) @ [n]" "nc_nonce n = cl_nonce c" "nc_key n = ?key"
    "e \<in> set (executions w3)" "ex_key e = ?key" "ex_proposal_id e = pr_id p" "ex_status e = ExSucceeded"
    by (rule executed_ok [OF u setting_parts(5) [OF assms(1)] sound_tick [OF 1(2)] up f(4) key(2,3,4) drawn f(2)
          f(3) [unfolded f(5)] q(1) f(7) q(2) t(2) [folded q(3)] t(1)])
  have new: "pr_id ?q \<notin> pr_id ` set (proposals w)" by (rule last_is_new [OF 1(2) rows])
  have "proposals w3 = proposals w @ [p\<lparr>pr_status := Executed\<rparr>]"
    using 3(7) rows update_by_last [where key = pr_id and f = "\<lambda>q. q\<lparr>pr_status := Executed\<rparr>", OF new] by (simp add: tick_def)
  moreover have "mails w3 = mails w @ [m]" using 3(5) 1(5) by (simp add: tick_def)
  moreover have "ml_to m = ''ap@acme.test''" using 3(6) s by (simp add: standing_def)
  moreover have "letter_token env secret w3 token p c" using letter_token_same [OF 3(8)] f(4) by simp
  moreover have "cl_nonce c \<notin> nc_nonce ` set (nonces (tick w1))" using f(2) by (simp add: lookup_by_None)
  then have "find_nonce (cl_nonce c) w3 \<noteq> None" "\<forall>n \<in> set (nonces w3). nc_nonce n = cl_nonce c \<longrightarrow> nc_key n = ?key"
    using 3(9-11) by (auto simp: lookup_by_None image_iff)
  moreover have "\<forall>n \<ge> ticks w0. to_epoch (time_at env n) < cl_exp c" using s by (simp add: standing_def)
  ultimately show thesis using that [OF 1(1) key(1) 3(1-3)] key(2,3) 3(12-15) by blast
qed

lemma letter_d:
  assumes "setting env gs net secret w0 t0" and "sound env w0 w"
    and "\<And>p. p \<in> set (proposals w) \<Longrightarrow> \<not> pending_for invoice p"
  obtains token p key r r' q m w1 w2 w3 w4 w' where
    "session_scope (staged env secret invoice (Some Approved)) w = (Inr (token, p), w1)"
    "fresh_key env w1 = (Inr key, w2)"
    "post env io gs net token (pr_id p) (pr_payload_hash p) key w2 = (Inr r, w3)"
    "outcome ''executed'' r w3 = (Inr True, w3)"
    "try_out env io gs net ''token_replayed'' token (pr_id p) (pr_payload_hash p) w3 = (Inr True, w4)"
    "post env io gs net token (pr_id p) (pr_payload_hash p) key w4 = (Inr r', w')"
    "outcome ''already_executed'' r' w' = (Inr True, w')"
    and "sound env w0 w'" and "proposals w' = proposals w @ [q]" and "pr_status q = Executed"
    and "mails w' = mails w @ [m]" and "ml_to m = ''ap@acme.test''"
proof -
  obtain token p c key r m e w1 w2 w3 where 1: "session_scope (staged env secret invoice (Some Approved)) w = (Inr (token, p), w1)"
    "fresh_key env w1 = (Inr key, w2)" "post env io gs net token (pr_id p) (pr_payload_hash p) key w2 = (Inr r, w3)"
    "outcome ''executed'' r w3 = (Inr True, w3)"
    and sound: "sound env w0 w3" and rows: "proposals w3 = proposals w @ [p\<lparr>pr_status := Executed\<rparr>]"
    and m: "mails w3 = mails w @ [m]" "ml_to m = ''ap@acme.test''"
    and token: "letter_token env secret w3 token p c" and key: "strip key = key" "key \<noteq> []"
    and used: "find_nonce (cl_nonce c) w3 \<noteq> None" "\<forall>n \<in> set (nonces w3). nc_nonce n = cl_nonce c \<longrightarrow> nc_key n = key"
    and e: "e \<in> set (executions w3)" "ex_key e = key" "ex_proposal_id e = pr_id p" "ex_status e = ExSucceeded"
    and time: "\<forall>n \<ge> ticks w0. to_epoch (time_at env n) < cl_exp c"
    by (rule letter_sent [OF assms, where io = io]) blast
  obtain w4 where 2: "try_out env io gs net ''token_replayed'' token (pr_id p) (pr_payload_hash p) w3 = (Inr True, w4)"
    "sound env w0 w4" "proposals w4 = proposals w3" "same_decisions w3 w4"
    by (rule replay_attempt [OF assms(1) sound token used(1) time [rule_format]])
  let ?q = "p\<lparr>pr_status := Executed\<rparr>"
  have same: "approvals w4 = approvals w3" "executions w4 = executions w3" "nonces w4 = nonces w3" "mails w4 = mails w3"
    using 2(4) by (simp_all add: same_decisions_def)
  have rows4: "proposals w4 = proposals w @ [?q]" using 2(3) rows by simp
  have found: "find_proposal (pr_id p) w4 = Some ?q"
    using last_is_new [OF 2(2) rows4] by (simp add: rows4 lookup_by_append lookup_by_None [THEN iffD2])
  have time4: "to_epoch (now_utc env w4) < cl_exp c" using time 2(2) by (simp add: now_utc_def sound_def)
  have pay: "pr_payload ?q = pr_payload p" by simp
  obtain r' where 3: "post env io gs net token (pr_id p) (pr_payload_hash p) key w4 = (Inr r', tick w4)"
    "\<forall>w'. outcome ''already_executed'' r' w' = (Inr True, w')"
    by (rule retried_ok [OF 2(2) setting_parts(2) [OF assms(1)] letter_token_same [OF same(1), THEN iffD2, OF token] key
          used(2) [folded same(3), rule_format] found pay e(1) [folded same(2)] e(2-4) time4,
          where io = io and i = "pr_id p" and h = "pr_payload_hash p"]) blast
  have "proposals (tick w4) = proposals w @ [?q]" "mails (tick w4) = mails w @ [m]" using rows4 m same(4) by (simp_all add: tick_def)
  from that [OF 1 2(1) 3(1) 3(2) [rule_format] sound_tick [OF 2(2)] this(1) _ this(2) m(2)] show thesis by simp
qed

section \<open>The whole demonstration\<close>

lemma demo_invoice_eq [simp]: "demo_invoice a ending = demo_invoice b ending \<longleftrightarrow> a = b"
  by (simp add: demo_invoice_def)

lemma pending_append:
  assumes "rows = ps @ [q]" and "\<And>p. p \<in> set ps \<Longrightarrow> \<not> pending_for i p" and "pr_status q \<noteq> Pending \<or> pr_invoice_id q \<noteq> i"
    and "p \<in> set rows"
  shows "\<not> pending_for i p"
  using assms by (auto simp: pending_for_def)


end
