(* ===== verification/DemoWitness.thy ===== *)
theory DemoWitness
  imports DemoFacts Scenario
begin

text \<open>The demonstration on the empty database of \<open>Scenario\<close>, whose digest is injective and whose clock stands still.\<close>

lemma env0_uuids: "good_uuids env0"
proof -
  have "strip (uuid0 n) = uuid0 n" for n by (rule strip_id) (simp_all add: uuid0_def printable_def)
  then show ?thesis by (simp add: good_uuids_def inj_def env0_def uuid0_def is_ascii_def list_all_iff)
qed

lemma setting0: "setting env0 gs0 (\<lambda>_. Answered) secret0 empty_world 0"
  using env0_uuids append_ok [OF env0_laws(1)]
  by (simp add: setting_def log_accepts_def gateway_up_def calm_def second_us_def gs0_def secret0_def) (simp add: env0_def)

text \<open>The two secrets begin with different letters, so their padded keys differ.\<close>

lemma tags0: "hmac_sha256 env0 ''an-attackers-secret'' m \<noteq> hmac_sha256 env0 secret0 m"
proof -
  have "replicate 32 a = a # replicate 31 a" for a :: char by (simp add: numeral_eq_Suc)
  from this [of "char_of (47 :: nat)"] show ?thesis
    by (simp add: hmac_sha256_def hmac_key_def secret0_def env0_def xor_pad_def)
qed

text \<open>The body of the script's letter, which the altering changes.\<close>

definition demo_body :: string where
  "demo_body = ''Dear Acme Industries,'' @ [CHR 0x0A, CHR 0x0A] @ ''Invoice INV-1001 for $250.00 is 9 days past due.'' @ [CHR 0x0A]"

lemma body_changes: "replace_text ''$250.00'' ''$25,000.00'' demo_body \<noteq> demo_body"
  by code_simp

lemma demo_letter_body: "map_of (demo_letter i) ''body'' = Some (PStr demo_body)"
  by (simp add: demo_letter_def demo_body_def)

lemma altered_letter_eq:
  "altered_letter (demo_letter i) = dict_set ''body'' (PStr (replace_text ''$250.00'' ''$25,000.00'' demo_body)) (demo_letter i)"
  by (simp add: altered_letter_def dict_get_def demo_letter_body)

lemma hashes0: "hash_payload env0 (PDict (altered_letter (demo_letter i))) \<noteq> hash_payload env0 (PDict (demo_letter i))"
proof
  let ?d = "demo_letter i" and ?e = "altered_letter (demo_letter i)"
  assume "hash_payload env0 (PDict ?e) = hash_payload env0 (PDict ?d)"
  then have same: "canonical_json (PDict ?e) = canonical_json (PDict ?d)" by (simp add: hash_payload_eq_iff env0_def)
  have wf: "wf_pyval (PDict ?d)" by (simp add: demo_letter_def)
  have wf': "wf_pyval (PDict ?e)" unfolding altered_letter_eq using wf by (intro wf_dict_set) simp_all
  from canonical_json_inj [OF wf' wf same] have "sort_keys (PDict ?e) = sort_keys (PDict ?d)" by (simp add: same_value_def)
  then have "map_option sort_keys (map_of ?e ''body'') = map_option sort_keys (map_of ?d ''body'')"
    using wf wf' by (metis map_of_sort_keys wf_pyval.simps(2))
  then show False using body_changes by (simp add: altered_letter_eq map_of_dict_set demo_letter_body)
qed


end
