(* ===== verification/Settings.thy ===== *)
theory Settings
  imports Approval
begin

text \<open>
  \<^verbatim>\<open>shared/config.py\<close>, \<^verbatim>\<open>app/config.py\<close> and \<^verbatim>\<open>gateway/config.py\<close>: the settings of the two services, read from
  the environment and a \<^verbatim>\<open>.env\<close> file. How pydantic reads a number, a truth value or a duration from a text is a
  parameter; of several invalid variables, which pydantic lists together, the first is reported. The file states the split of the credentials: what the one service alone may read has no
  influence on the other's settings.
\<close>

section \<open>Reading a variable\<close>

text \<open>
  \<^verbatim>\<open>case_sensitive=False\<close>: names are compared in lower case, and of two spellings the later one counts. The
  environment goes before the file, the file before the default.
\<close>

record sources =
  so_environ :: "(string \<times> string) list"
  so_dotenv :: "(string \<times> string) list"

definition lower_names :: "(string \<times> string) list \<Rightarrow> (string \<times> string) list" where
  "lower_names vars = map (\<lambda>(name, value). (map ascii_lower name, value)) vars"

definition variable :: "sources \<Rightarrow> string \<Rightarrow> string option" where
  "variable so name =
     (case map_of (rev (lower_names (so_environ so))) name of
        Some v \<Rightarrow> Some v
      | None \<Rightarrow> map_of (rev (lower_names (so_dotenv so))) name)"

record coercions =
  co_int :: "string \<Rightarrow> int option"
  co_bool :: "string \<Rightarrow> bool option"
  co_micros :: "string \<Rightarrow> int option"

definition field :: "(string \<Rightarrow> 'a option) \<Rightarrow> sources \<Rightarrow> string \<Rightarrow> 'a \<Rightarrow> exn + 'a" where
  "field coerce so name dflt =
     (case variable so name of
        None \<Rightarrow> Inr dflt
      | Some s \<Rightarrow> (case coerce s of Some x \<Rightarrow> Inr x | None \<Rightarrow> Inl (OtherError ''ValidationError'' name)))"

abbreviation text_field :: "sources \<Rightarrow> string \<Rightarrow> string \<Rightarrow> exn + string" where
  "text_field \<equiv> field Some"

section \<open>What both services share\<close>

record common_settings =
  cs_database_url :: string
  cs_signing_secret :: string
  cs_proposal_ttl_hours :: int
  cs_token_ttl_seconds :: int
  cs_operator_id :: string
  cs_log_level :: string

definition read_common :: "coercions \<Rightarrow> sources \<Rightarrow> exn + common_settings" where
  "read_common co so =
     and_then (text_field so ''database_url'' ''sqlite:////data/collections.db'') (\<lambda>url.
     and_then (text_field so ''approval_signing_secret'' []) (\<lambda>secret.
     and_then (field (co_int co) so ''proposal_ttl_hours'' 72) (\<lambda>hours.
     and_then (field (co_int co) so ''approval_token_ttl_seconds'' 900) (\<lambda>seconds.
     and_then (text_field so ''operator_id'' ''operator@servicia.ai'') (\<lambda>operator.
     and_then (text_field so ''log_level'' ''INFO'') (\<lambda>level.
     Inr \<lparr>cs_database_url = url, cs_signing_secret = secret, cs_proposal_ttl_hours = hours,
          cs_token_ttl_seconds = seconds, cs_operator_id = operator, cs_log_level = level\<rparr>))))))"

section \<open>The agent service\<close>

text \<open>
  The fields the rest of the model reads are those of \<open>app_settings\<close>; the others extend it. A negative limit
  acts like zero, and is zero here.
\<close>

record app_config = app_settings +
  ac_database_url :: string
  ac_log_level :: string
  ac_stripe_api_key_read :: string
  ac_include_test_clocks :: bool
  ac_gateway_timeout_us :: int
  ac_max_concurrent_runs :: int

definition read_app_settings :: "coercions \<Rightarrow> sources \<Rightarrow> exn + app_config" where
  "read_app_settings co so =
     and_then (read_common co so) (\<lambda>c.
     and_then (text_field so ''stripe_api_key_read'' []) (\<lambda>stripe_key.
     and_then (text_field so ''anthropic_api_key'' []) (\<lambda>anthropic_key.
     and_then (text_field so ''anthropic_model'' ''claude-sonnet-5'') (\<lambda>model_name.
     and_then (text_field so ''gateway_url'' ''http://gateway:9000'') (\<lambda>url.
     and_then (field (co_int co) so ''max_tool_calls_per_run'' 25) (\<lambda>calls.
     and_then (field (co_int co) so ''max_proposals_per_run'' 10) (\<lambda>cap.
     and_then (field (co_bool co) so ''stripe_include_test_clock_invoices'' True) (\<lambda>clocks.
     and_then (field (co_micros co) so ''run_timeout_seconds'' (600 * second_us)) (\<lambda>run_limit.
     and_then (field (co_micros co) so ''gateway_timeout_seconds'' (30 * second_us)) (\<lambda>gateway_limit.
     and_then (field (co_int co) so ''max_concurrent_runs'' 2) (\<lambda>at_once.
     and_then (field (co_bool co) so ''enable_unapproved_attempt_demo'' True) (\<lambda>demo.
     Inr \<lparr>as_signing_secret = cs_signing_secret c, as_token_ttl_seconds = cs_token_ttl_seconds c,
          as_proposal_ttl_hours = cs_proposal_ttl_hours c, as_operator_id = cs_operator_id c, as_gateway_url = url,
          as_max_tool_calls = nat calls, as_max_proposals = nat cap, as_run_timeout_us = run_limit,
          as_enable_unapproved_demo = demo, as_anthropic_api_key = anthropic_key, as_model = model_name,
          ac_database_url = cs_database_url c, ac_log_level = cs_log_level c, ac_stripe_api_key_read = stripe_key,
          ac_include_test_clocks = clocks, ac_gateway_timeout_us = gateway_limit, ac_max_concurrent_runs = at_once\<rparr>))))))))))))"

section \<open>The gateway\<close>

definition one_of :: "string list \<Rightarrow> string \<Rightarrow> string option" where
  "one_of choices s = (if s \<in> set choices then Some s else None)"

record gateway_config = gateway_settings +
  gc_database_url :: string
  gc_proposal_ttl_hours :: int
  gc_token_ttl_seconds :: int
  gc_operator_id :: string
  gc_log_level :: string

definition read_gateway_settings :: "coercions \<Rightarrow> sources \<Rightarrow> exn + gateway_config" where
  "read_gateway_settings co so =
     and_then (read_common co so) (\<lambda>c.
     and_then (text_field so ''stripe_api_key_write'' []) (\<lambda>stripe_key.
     and_then (field (co_bool co) so ''enable_stripe_invoice_send'' False) (\<lambda>stripe_send.
     and_then (field (one_of [''outbox'', ''smtp'', ''resend'']) so ''email_adapter'' ''outbox'') (\<lambda>kind.
     and_then (text_field so ''outbox_dir'' ''/data/outbox'') (\<lambda>dir.
     and_then (text_field so ''smtp_host'' ''mailpit'') (\<lambda>host.
     and_then (field (co_int co) so ''smtp_port'' 1025) (\<lambda>port.
     and_then (text_field so ''smtp_username'' []) (\<lambda>user.
     and_then (text_field so ''smtp_password'' []) (\<lambda>password.
     and_then (field (co_bool co) so ''smtp_starttls'' False) (\<lambda>tls.
     and_then (text_field so ''resend_api_key'' []) (\<lambda>resend_key.
     and_then (text_field so ''mail_from'' ''collections@servicia.ai'') (\<lambda>sender.
     and_then (text_field so ''mail_from_name'' ''Servicia Collections'') (\<lambda>sender_name.
     Inr \<lparr>gs_signing_secret = cs_signing_secret c, gs_stripe_api_key_write = stripe_key,
          gs_enable_stripe_invoice_send = stripe_send, gs_email_adapter = kind, gs_outbox_dir = dir,
          gs_smtp_host = host, gs_smtp_port = port, gs_smtp_username = user, gs_smtp_password = password,
          gs_smtp_starttls = tls, gs_resend_api_key = resend_key, gs_mail_from = sender, gs_mail_from_name = sender_name,
          gc_database_url = cs_database_url c, gc_proposal_ttl_hours = cs_proposal_ttl_hours c,
          gc_token_ttl_seconds = cs_token_ttl_seconds c, gc_operator_id = cs_operator_id c,
          gc_log_level = cs_log_level c\<rparr>)))))))))))))"

section \<open>The split of the credentials\<close>

text \<open>Sources with the variables of some names taken out, whatever their spelling.\<close>

definition hide :: "string set \<Rightarrow> sources \<Rightarrow> sources" where
  "hide secrets so =
     (let keep = filter (\<lambda>(name, value). map ascii_lower name \<notin> secrets)
      in \<lparr>so_environ = keep (so_environ so), so_dotenv = keep (so_dotenv so)\<rparr>)"

lemma lower_names_filter:
  "lower_names (filter (\<lambda>(name, value). map ascii_lower name \<notin> secrets) vars)
    = filter (\<lambda>(name, value). name \<notin> secrets) (lower_names vars)"
  by (induction vars) (auto simp: lower_names_def)

lemma map_of_filter_other: "name \<notin> secrets \<Longrightarrow> map_of (filter (\<lambda>(n, v). n \<notin> secrets) xs) name = map_of xs name"
  by (induction xs) auto

lemma variable_hide: "name \<notin> secrets \<Longrightarrow> variable (hide secrets so) name = variable so name"
  by (simp add: variable_def hide_def Let_def lower_names_filter rev_filter map_of_filter_other cong: option.case_cong)

lemma field_hide: "name \<notin> secrets \<Longrightarrow> field coerce (hide secrets so) name dflt = field coerce so name dflt"
  by (simp add: field_def variable_hide)

definition gateway_only :: "string set" where
  "gateway_only = {''stripe_api_key_write'', ''enable_stripe_invoice_send'', ''email_adapter'', ''outbox_dir'', ''smtp_host'',
     ''smtp_port'', ''smtp_username'', ''smtp_password'', ''smtp_starttls'', ''resend_api_key'', ''mail_from'', ''mail_from_name''}"

definition app_only :: "string set" where
  "app_only = {''stripe_api_key_read'', ''anthropic_api_key'', ''anthropic_model'', ''gateway_url'', ''max_tool_calls_per_run'',
     ''max_proposals_per_run'', ''stripe_include_test_clock_invoices'', ''run_timeout_seconds'', ''gateway_timeout_seconds'',
     ''max_concurrent_runs'', ''enable_unapproved_attempt_demo''}"

text \<open>
  C37: Nothing of what is the gateway's alone, the key that writes to Stripe and the means to send mail among
  it, has any influence on the settings of the agent service, and nothing of what is the agent service's alone
  on those of the gateway: with these variables taken out of the environment and the file, the settings are
  the same, and so are the errors.
\<close>

theorem credentials_are_split:
  "read_app_settings co (hide gateway_only so) = read_app_settings co so
   \<and> read_gateway_settings co (hide app_only so) = read_gateway_settings co so"
proof
  have "read_common co (hide gateway_only so) = read_common co so" by (simp add: read_common_def field_hide gateway_only_def)
  then show "read_app_settings co (hide gateway_only so) = read_app_settings co so"
    by (simp add: read_app_settings_def field_hide gateway_only_def)
  have "read_common co (hide app_only so) = read_common co so" by (simp add: read_common_def field_hide app_only_def)
  then show "read_gateway_settings co (hide app_only so) = read_gateway_settings co so"
    by (simp add: read_gateway_settings_def field_hide app_only_def)
qed

text \<open>With no variable set, nothing can be mailed: the adapter is the outbox, and Stripe is not asked to.\<close>

lemma defaults_send_nothing:
  assumes "so_environ so = []" and "so_dotenv so = []"
  shows "\<exists>g. read_gateway_settings co so = Inr g \<and> build_adapter (gateway_settings.truncate g) = Inr OutboxAdapter
    \<and> \<not> gs_enable_stripe_invoice_send g \<and> (\<exists>e. require_signing_secret (gs_signing_secret g) = Inl e)"
  using assms
  by (simp add: read_gateway_settings_def read_common_def field_def variable_def lower_names_def build_adapter_outbox
      gateway_settings.defs require_signing_secret_def)

end
