(* ===== verification/Workers.thy ===== *)
theory Workers
  imports AgentRuns Settings
begin

text \<open>
  The thread pool of \<^verbatim>\<open>app/runner.py\<close>: a run is a future of an executor that \<^verbatim>\<open>pool\<close> makes when it is first
  needed, \<^verbatim>\<open>_in_flight\<close> maps the run to its future, and \<^verbatim>\<open>shutdown\<close> cancels what waits and lets go of what works.
  The executor is the standard library's: jobs are taken in their order, and at most \<^verbatim>\<open>max_workers\<close> are worked on
  at a time. What a working run does to the database is a sequence of the units of work of \<open>app_step\<close>
  (\<open>run_refines_units_of_work\<close>), which interleave with those of everything else; a future is done some time
  after the last of them.
\<close>

section \<open>The state of the module\<close>

record executor =
  xc_max :: nat
  xc_queue :: "job list"
  xc_working :: "job list"

text \<open>\<open>wk_left\<close> are the executors that were shut down; their threads finish what they hold.\<close>

record workers =
  wk_pool :: "executor option"
  wk_left :: "executor list"
  wk_in_flight :: "string list"
  wk_finished :: "string list"
  wk_cancelled :: "string list"

definition no_workers :: workers where
  "no_workers = \<lparr>wk_pool = None, wk_left = [], wk_in_flight = [], wk_finished = [], wk_cancelled = []\<rparr>"

section \<open>The functions\<close>

definition new_pool :: "app_config \<Rightarrow> executor" where
  "new_pool s = \<lparr>xc_max = nat (max 1 (ac_max_concurrent_runs s)), xc_queue = [], xc_working = []\<rparr>"

definition pool_of :: "app_config \<Rightarrow> workers \<Rightarrow> executor" where
  "pool_of s k = (case wk_pool k of Some x \<Rightarrow> x | None \<Rightarrow> new_pool s)"

text \<open>\<^verbatim>\<open>pool(settings).submit(...)\<close> and \<^verbatim>\<open>_in_flight[run_id] = future\<close>.\<close>

definition submit :: "app_config \<Rightarrow> job \<Rightarrow> workers \<Rightarrow> workers" where
  "submit s j k =
     k\<lparr>wk_pool := Some ((pool_of s k)\<lparr>xc_queue := xc_queue (pool_of s k) @ [j]\<rparr>),
       wk_in_flight := (if jb_run_id j \<in> set (wk_in_flight k) then wk_in_flight k else wk_in_flight k @ [jb_run_id j])\<rparr>"

definition start_run_async ::
  "env \<Rightarrow> app_config \<Rightarrow> string option \<Rightarrow> int \<Rightarrow> int option \<Rightarrow> string option \<Rightarrow> world \<times> workers \<Rightarrow>
     (exn + pydict) \<times> world \<times> workers" where
  "start_run_async env s goal min_days max_proposals operator_id x =
     (case start_run env (app_settings.truncate s) goal min_days max_proposals operator_id (fst x) of
        (Inl e, w') \<Rightarrow> (Inl e, w', snd x)
      | (Inr (started, j), w') \<Rightarrow> (Inr started, w', submit s j (snd x)))"

definition shutdown :: "workers \<Rightarrow> workers" where
  "shutdown k =
     (case wk_pool k of
        None \<Rightarrow> k\<lparr>wk_in_flight := []\<rparr>
      | Some x \<Rightarrow>
          k\<lparr>wk_pool := None, wk_left := wk_left k @ [x\<lparr>xc_queue := []\<rparr>],
            wk_cancelled := wk_cancelled k @ map jb_run_id (xc_queue x), wk_in_flight := []\<rparr>)"

definition future_done :: "workers \<Rightarrow> string \<Rightarrow> bool" where
  "future_done k i = (i \<in> set (wk_finished k) \<or> i \<in> set (wk_cancelled k))"

definition active_run_ids :: "workers \<Rightarrow> string list" where
  "active_run_ids k = filter (\<lambda>i. \<not> future_done k i) (wk_in_flight k)"

section \<open>The threads\<close>

text \<open>A free thread takes the first job that waits; a thread is done with the job it holds.\<close>

definition take_job :: "executor \<Rightarrow> executor option" where
  "take_job x =
     (case xc_queue x of
        [] \<Rightarrow> None
      | j # js \<Rightarrow>
          if length (xc_working x) < xc_max x then Some (x\<lparr>xc_queue := js, xc_working := xc_working x @ [j]\<rparr>) else None)"

definition drop_job :: "job \<Rightarrow> executor \<Rightarrow> executor" where
  "drop_job j x = x\<lparr>xc_working := remove1 j (xc_working x)\<rparr>"

inductive pool_step :: "workers \<Rightarrow> workers \<Rightarrow> bool" where
  taken: "wk_pool k = Some x \<Longrightarrow> take_job x = Some y \<Longrightarrow> pool_step k (k\<lparr>wk_pool := Some y\<rparr>)"
| finished: "wk_pool k = Some x \<Longrightarrow> j \<in> set (xc_working x) \<Longrightarrow>
    pool_step k (k\<lparr>wk_pool := Some (drop_job j x), wk_finished := wk_finished k @ [jb_run_id j]\<rparr>)"
| finished_late: "wk_left k = as @ x # bs \<Longrightarrow> j \<in> set (xc_working x) \<Longrightarrow>
    pool_step k (k\<lparr>wk_left := as @ drop_job j x # bs, wk_finished := wk_finished k @ [jb_run_id j]\<rparr>)"

text \<open>The process: requests that start runs, units of work of anything, the threads, and the end of the service.\<close>

inductive service_step :: "env \<Rightarrow> app_config \<Rightarrow> world \<times> workers \<Rightarrow> world \<times> workers \<Rightarrow> bool" for env s where
  launched: "start_run_async env s goal min_days max_proposals operator_id x = (r, y) \<Longrightarrow> service_step env s x y"
| worked: "app_step env (app_settings.truncate s) w w' \<Longrightarrow> service_step env s (w, k) (w', k)"
| threaded: "pool_step k k' \<Longrightarrow> service_step env s (w, k) (w, k')"
| stopped: "service_step env s (w, k) (w, shutdown k)"

inductive_simps pool_step_iff: "pool_step k k'"

lemma idle_pool: "\<not> pool_step no_workers k"
  by (simp add: pool_step_iff no_workers_def)

section \<open>The accounts of the pool\<close>

definition jobs_of :: "executor option \<Rightarrow> job list" where
  "jobs_of p = (case p of None \<Rightarrow> [] | Some x \<Rightarrow> xc_queue x @ xc_working x)"

definition all_ids :: "workers \<Rightarrow> string list" where
  "all_ids k = map jb_run_id (jobs_of (wk_pool k)) @ concat (map (\<lambda>x. map jb_run_id (xc_working x)) (wk_left k))
     @ wk_finished k @ wk_cancelled k"

definition sized :: "app_config \<Rightarrow> executor \<Rightarrow> bool" where
  "sized s x \<longleftrightarrow> xc_max x = nat (max 1 (ac_max_concurrent_runs s)) \<and> length (xc_working x) \<le> xc_max x"

text \<open>
  Every run that was handed over is in one place; of those in \<^verbatim>\<open>_in_flight\<close>, the ones that are not done are those of
  the pool; and no executor works on more runs than it has threads.
\<close>

definition accounted :: "app_config \<Rightarrow> world \<Rightarrow> workers \<Rightarrow> bool" where
  "accounted s w k \<longleftrightarrow>
     distinct (all_ids k) \<and> set (all_ids k) \<subseteq> rn_id ` set (runs w)
     \<and> set (map jb_run_id (jobs_of (wk_pool k))) \<subseteq> set (wk_in_flight k)
     \<and> set (wk_in_flight k) \<subseteq> set (map jb_run_id (jobs_of (wk_pool k))) \<union> set (wk_finished k) \<union> set (wk_cancelled k)
     \<and> pred_option (sized s) (wk_pool k) \<and> list_all (\<lambda>x. sized s x \<and> xc_queue x = []) (wk_left k)"

section \<open>Each step keeps the accounts\<close>

lemma jobs_of_simps [simp]: "jobs_of None = []" "jobs_of (Some x) = xc_queue x @ xc_working x"
  by (simp_all add: jobs_of_def)

lemma mset_drop:
  assumes "j \<in> set (xc_working x)"
  shows "mset (map jb_run_id (xc_working x)) = add_mset (jb_run_id j) (mset (map jb_run_id (xc_working (drop_job j x))))"
proof -
  have "mset (xc_working x) = add_mset j (mset (remove1 j (xc_working x)))" using assms by simp
  then have "image_mset jb_run_id (mset (xc_working x)) = add_mset (jb_run_id j) (image_mset jb_run_id (mset (remove1 j (xc_working x))))"
    by (metis image_mset_add_mset)
  then show ?thesis by (simp add: drop_job_def)
qed

lemma take_job_Some:
  assumes "take_job x = Some y"
  obtains j where "xc_queue x = j # xc_queue y" and "xc_working y = xc_working x @ [j]" and "length (xc_working x) < xc_max x"
    and "xc_max y = xc_max x"
  using assms by (auto simp: take_job_def split: list.splits if_splits)

lemma pool_step_ids: "pool_step k k' \<Longrightarrow> mset (all_ids k') = mset (all_ids k)"
proof (induction rule: pool_step.induct)
  case (taken k x y)
  from taken(2) obtain j where "xc_queue x = j # xc_queue y" "xc_working y = xc_working x @ [j]" by (rule take_job_Some)
  with taken(1) show ?case by (simp add: all_ids_def)
next
  case (finished k x j)
  with mset_drop [OF finished(2)] show ?case by (simp add: all_ids_def) (simp add: drop_job_def)
next
  case (finished_late k as x bs j)
  with mset_drop [OF finished_late(2)] show ?case by (simp add: all_ids_def)
qed

lemma shutdown_ids: "mset (all_ids (shutdown k)) = mset (all_ids k)"
  by (cases "wk_pool k") (simp_all add: shutdown_def all_ids_def)

lemma submit_ids: "mset (all_ids (submit s j k)) = add_mset (jb_run_id j) (mset (all_ids k))"
  by (cases "wk_pool k") (simp_all add: submit_def pool_of_def new_pool_def all_ids_def)

lemma accounts_from_ids:
  assumes "mset xs = mset ys"
  shows "distinct xs = distinct ys" and "set xs = set ys"
  using assms mset_eq_imp_distinct_iff mset_eq_setD by blast+

lemma drop_sized: "sized s x \<Longrightarrow> sized s (drop_job j x)" "xc_queue (drop_job j x) = xc_queue x"
  by (auto simp: sized_def drop_job_def length_remove1)

lemma step_accounted:
  assumes "pool_step k k'" and "accounted s w k"
  shows "accounted s w k'"
proof -
  have ids: "distinct (all_ids k')" "set (all_ids k') \<subseteq> rn_id ` set (runs w)"
    using accounts_from_ids [OF pool_step_ids [OF assms(1)]] assms(2) by (simp_all add: accounted_def)
  show ?thesis
    using assms(1,2) ids
  proof (induction rule: pool_step.induct)
    case (taken k x y)
    from taken(2) obtain j where y: "xc_queue x = j # xc_queue y" "xc_working y = xc_working x @ [j]"
      "length (xc_working x) < xc_max x" "xc_max y = xc_max x" by (rule take_job_Some)
    show ?case using taken(1,3,4,5) y by (simp add: accounted_def sized_def)
  next
    case (finished k x j)
    have "set (map jb_run_id (xc_working x)) = insert (jb_run_id j) (set (map jb_run_id (xc_working (drop_job j x))))"
      using mset_drop [OF finished(2)] by (metis set_mset_add_mset_insert set_mset_mset)
    then show ?case using finished(1,3,4,5) drop_sized(1) [of s x j] drop_sized(2) [of j x] by (simp add: accounted_def)
  next
    case (finished_late k as x bs j)
    then show ?case using drop_sized(1) [of s x j] drop_sized(2) [of j x] by (auto simp: accounted_def)
  qed
qed

lemma shutdown_accounted:
  assumes "accounted s w k"
  shows "accounted s w (shutdown k)"
proof -
  have "distinct (all_ids (shutdown k))" "set (all_ids (shutdown k)) \<subseteq> rn_id ` set (runs w)"
    using accounts_from_ids [OF shutdown_ids, of k] assms by (simp_all add: accounted_def)
  then show ?thesis using assms by (cases "wk_pool k") (auto simp: accounted_def shutdown_def sized_def)
qed

lemma submit_accounted:
  assumes "accounted s w k" and "jb_run_id j \<notin> rn_id ` set (runs w)" and "insert (jb_run_id j) (rn_id ` set (runs w)) \<subseteq> rn_id ` set (runs w')"
  shows "accounted s w' (submit s j k)"
proof -
  have ids: "set (all_ids (submit s j k)) = insert (jb_run_id j) (set (all_ids k))"
    using submit_ids [of s j k] by (metis set_mset_add_mset_insert set_mset_mset)
  have "distinct (all_ids (submit s j k)) = distinct (jb_run_id j # all_ids k)"
    by (rule accounts_from_ids(1)) (simp add: submit_ids)
  moreover have "jb_run_id j \<notin> set (all_ids k)" using assms(1,2) by (auto simp: accounted_def)
  ultimately have "distinct (all_ids (submit s j k))" "set (all_ids (submit s j k)) \<subseteq> rn_id ` set (runs w')"
    using assms(1,3) ids by (auto simp: accounted_def)
  then show ?thesis using assms(1)
    by (cases "wk_pool k") (auto simp: accounted_def submit_def pool_of_def new_pool_def sized_def)
qed

text \<open>No operation of the program deletes a run.\<close>

lemma insert_keeps_runs:
  "insert_step t w = Inr w' \<Longrightarrow> runs w' = runs w"
  "insert_proposal p w = Inr w' \<Longrightarrow> runs w' = runs w"
  "insert_approval b w = Inr w' \<Longrightarrow> runs w' = runs w"
  "insert_execution x w = Inr w' \<Longrightarrow> runs w' = runs w"
  "insert_nonce n w = Inr w' \<Longrightarrow> runs w' = runs w"
  "insert_outbox m w = Inr w' \<Longrightarrow> runs w' = runs w"
  "insert_run r w = Inr w' \<Longrightarrow> runs w' = runs w @ [r]"
  by (auto simp: insert_run_def insert_step_def insert_proposal_def insert_approval_def
      insert_execution_def insert_nonce_def insert_outbox_def result_simps)

interpretation lasting: world_invariant env "\<lambda>w. I \<subseteq> rn_id ` set (runs w)" for env I
proof unfold_locales
  show "I \<subseteq> rn_id ` set (runs (update_run i g w))" if "I \<subseteq> rn_id ` set (runs w)" "\<And>r. rn_id (g r) = rn_id r" for w i g
    using that by (simp add: update_run_def update_by_image)
  show "I \<subseteq> rn_id ` set (runs w')" if "I \<subseteq> rn_id ` set (runs w)" "append_event env a e st si d w = Inr w'" for w w' a e st si d
    using that append_event_frame [OF that(2)] by simp
  show "I \<subseteq> rn_id ` set (runs w')" if "I \<subseteq> rn_id ` set (runs w)" "insert_run r w = Inr w'" for w w' r
    using that by (simp add: insert_keeps_runs subset_insertI2)
qed (simp_all add: insert_keeps_runs tick_def update_proposal_def update_execution_def)

section \<open>The service\<close>

lemma created_run:
  assumes "start_run env s goal md mp op w = (Inr (d, j), w')"
  shows "jb_run_id j \<notin> rn_id ` set (runs w)" and "insert (jb_run_id j) (rn_id ` set (runs w)) \<subseteq> rn_id ` set (runs w')"
proof -
  from assms obtain g o' ps where c: "create_run env g o' ps w = Inr (jb_run_id j, w')"
    by (auto simp: start_run_def Let_def session_scope_def split: sum.splits)
  then obtain r w1 where r: "insert_run r (tick (tick w)) = Inr w1" "rn_id r = jb_run_id j"
    and e: "append_event env Operator RUN_STARTED ''run'' (jb_run_id j) [(''goal'', PStr g), (''params'', PDict ps)] w1 = Inr w'"
    by (auto simp: create_run_def Let_def result_simps)
  have "runs w' = runs w @ [r]" using insert_keeps_runs(7) [OF r(1)] append_event_frame [OF e] by (simp add: tick_def)
  then show "insert (jb_run_id j) (rn_id ` set (runs w)) \<subseteq> rn_id ` set (runs w')" using r(2) by auto
  show "jb_run_id j \<notin> rn_id ` set (runs w)"
    using r by (auto simp: insert_run_def result_simps tick_def)
qed

lemma start_run_fails:
  "start_run env s goal md mp op w = (Inl e, w') \<Longrightarrow> runs w' = runs w"
  by (auto simp: start_run_def Let_def session_scope_def rolled_back_def tick_def split: sum.splits)

lemma app_step_lasting:
  assumes "app_step env s w w'" and "I \<subseteq> rn_id ` set (runs w)"
  shows "I \<subseteq> rn_id ` set (runs w')"
  using assms
proof (induction rule: app_step.induct)
  case run_created
  then show ?case by (rule lasting.keeps_create_run)
next
  case status_set
  then show ?case by (rule lasting.keeps_set_status)
next
  case step_appended
  then show ?case by (rule lasting.keeps_append_step)
next
  case proposed
  then show ?case by (rule lasting.keeps_create_proposal)
next
  case edited
  then show ?case by (rule lasting.keeps_save_edit)
next
  case rejected
  then show ?case by (rule lasting.keeps_reject_work)
next
  case approved
  then show ?case by (rule lasting.keeps_approve_work)
next
  case expired
  then show ?case by (rule lasting.keeps_expire)
next
  case settled
  then show ?case by (rule lasting.keeps_settle_decided)
next
  case abandoned
  then show ?case by (rule lasting.keeps_abandon)
next
  case time_passed
  then show ?case by (rule lasting.keeps_tick)
qed

lemma service_accounted:
  assumes "service_step env s x y" and "accounted s (fst x) (snd x)"
  shows "accounted s (fst y) (snd y)"
  using assms
proof (induction rule: service_step.induct)
  case (launched goal md mp op x r y)
  obtain a w' where a: "start_run env (app_settings.truncate s) goal md mp op (fst x) = (a, w')" by force
  show ?case
  proof (cases a)
    case (Inl e)
    then have "y = (w', snd x)" "runs w' = runs (fst x)"
      using launched(1) a start_run_fails [of env "app_settings.truncate s" goal md mp op "fst x" e w']
      by (simp_all add: start_run_async_def)
    then show ?thesis using launched(2) by (simp add: accounted_def)
  next
    case (Inr dj)
    obtain d j where dj: "dj = (d, j)" by (cases dj)
    have "y = (w', submit s j (snd x))" using launched(1) a Inr dj by (simp add: start_run_async_def)
    then show ?thesis
      using submit_accounted [OF launched(2)] created_run [of env "app_settings.truncate s" goal md mp op "fst x" d j w'] a Inr dj
      by simp
  qed
next
  case (worked w w' k)
  then have "set (all_ids k) \<subseteq> rn_id ` set (runs w')" using app_step_lasting by (simp add: accounted_def)
  then show ?case using worked(2) by (simp add: accounted_def)
next
  case (threaded k k' w)
  then show ?case using step_accounted by simp
next
  case (stopped w k)
  then show ?case using shutdown_accounted by simp
qed

lemma reachable_accounted:
  assumes "rtranclp (service_step env s) (w, no_workers) x"
  shows "accounted s (fst x) (snd x)"
  using assms
proof (induction rule: rtranclp_induct)
  case base
  then show ?case by (simp add: accounted_def no_workers_def all_ids_def)
next
  case (step y z)
  show ?case by (rule service_accounted [OF step(2,3)])
qed

lemma active_are_jobs:
  assumes "accounted s w k"
  shows "set (active_run_ids k) = set (map jb_run_id (jobs_of (wk_pool k)))"
proof -
  have "set (map jb_run_id (jobs_of (wk_pool k))) \<inter> (set (wk_finished k) \<union> set (wk_cancelled k)) = {}"
    using assms by (auto simp: accounted_def all_ids_def)
  then show ?thesis using assms by (auto simp: accounted_def active_run_ids_def future_done_def)
qed


section \<open>The pool does not jam\<close>

definition load :: "workers \<Rightarrow> nat" where
  "load k = (case wk_pool k of None \<Rightarrow> 0 | Some x \<Rightarrow> 2 * length (xc_queue x) + length (xc_working x))"

lemma step_when_loaded:
  assumes "accounted s w k" and "load k \<noteq> 0"
  shows "\<exists>k'. pool_step k k' \<and> load k' < load k \<and> wk_cancelled k' = wk_cancelled k"
proof -
  obtain x where x: "wk_pool k = Some x" using assms(2) by (auto simp: load_def split: option.splits)
  show ?thesis
  proof (cases "xc_working x")
    case (Cons j js)
    then have "j \<in> set (xc_working x)" by simp
    then have "pool_step k (k\<lparr>wk_pool := Some (drop_job j x), wk_finished := wk_finished k @ [jb_run_id j]\<rparr>)" (is "pool_step k ?k")
      by (rule pool_step.finished [OF x])
    moreover have "load ?k < load k" "wk_cancelled ?k = wk_cancelled k" using x Cons by (simp_all add: load_def drop_job_def)
    ultimately show ?thesis by blast
  next
    case Nil
    with assms(2) x obtain j js where q: "xc_queue x = j # js" by (cases "xc_queue x") (auto simp: load_def)
    have "0 < xc_max x" using assms(1) x by (simp add: accounted_def sized_def)
    with q Nil have "take_job x = Some (x\<lparr>xc_queue := js, xc_working := [j]\<rparr>)" by (simp add: take_job_def)
    then have "pool_step k (k\<lparr>wk_pool := Some (x\<lparr>xc_queue := js, xc_working := [j]\<rparr>)\<rparr>)" (is "pool_step k ?k")
      by (rule pool_step.taken [OF x])
    moreover have "load ?k < load k" "wk_cancelled ?k = wk_cancelled k" using x q Nil by (simp_all add: load_def)
    ultimately show ?thesis by blast
  qed
qed

lemma pool_drains:
  assumes "accounted s w k"
  shows "\<exists>k'. rtranclp pool_step k k' \<and> active_run_ids k' = [] \<and> wk_cancelled k' = wk_cancelled k"
  using assms
proof (induction "load k" arbitrary: k rule: less_induct)
  case less
  show ?case
  proof (cases "load k = 0")
    case True
    then have "jobs_of (wk_pool k) = []" by (auto simp: load_def split: option.splits)
    then have "active_run_ids k = []" using active_are_jobs [OF less.prems] by simp
    then show ?thesis by blast
  next
    case False
    from step_when_loaded [OF less.prems this] obtain v where v: "pool_step k v" "load v < load k" "wk_cancelled v = wk_cancelled k"
      by blast
    from less.hyps [OF v(2) step_accounted [OF v(1) less.prems]] v show ?thesis
      by (metis converse_rtranclp_into_rtranclp)
  qed
qed


end
