(* ===== verification/WorkerWitness.thy ===== *)
theory WorkerWitness
  imports Workers Scenario
begin

text \<open>One request to the service of \<open>Scenario\<close> starts a run, and a thread of the pool takes it up.\<close>

definition config0 :: app_config where
  "config0 = app_settings.extend as0
     \<lparr>ac_database_url = ''sqlite:////data/collections.db'', ac_log_level = ''INFO'', ac_stripe_api_key_read = ''rk'',
      ac_include_test_clocks = True, ac_gateway_timeout_us = 0, ac_max_concurrent_runs = 2\<rparr>"

definition launched0 :: "(exn + pydict) \<times> world \<times> workers" where
  "launched0 = start_run_async env0 config0 (Some ''collect'') 1 None None (empty_world, no_workers)"

definition job0 :: job where
  "job0 = \<lparr>jb_run_id = uuid0 1, jb_goal = ''collect'', jb_min_days = 1, jb_max_proposals = 5\<rparr>"

definition busy0 :: workers where
  "busy0 = \<lparr>wk_pool = Some \<lparr>xc_max = 2, xc_queue = [], xc_working = [job0]\<rparr>, wk_left = [], wk_in_flight = [uuid0 1],
     wk_finished = [], wk_cancelled = []\<rparr>"

lemma config0_sel:
  "app_settings.truncate config0 = as0" "ac_max_concurrent_runs config0 = 2"
  by (simp_all add: config0_def as0_def app_settings.defs)

lemma launched0:
  "snd (snd launched0) =
     \<lparr>wk_pool = Some \<lparr>xc_max = 2, xc_queue = [job0], xc_working = []\<rparr>, wk_left = [], wk_in_flight = [uuid0 1],
      wk_finished = [], wk_cancelled = []\<rparr>"
proof -
  have g: "resolved_goal (Some ''collect'') = ''collect''" by code_simp
  show ?thesis
    by (simp add: launched0_def start_run_async_def config0_sel start_run_def g Let_def session_scope_def create_run_def
        insert_run_def empty_world_def tick_def submit_def pool_of_def new_pool_def no_workers_def job0_def
        nonzero_or_def operator_or_def as0_def)
qed

lemma busy0: "rtranclp (service_step env0 config0) (empty_world, no_workers) (fst (snd launched0), busy0)"
proof -
  have "start_run_async env0 config0 (Some ''collect'') 1 None None (empty_world, no_workers) = (fst launched0, snd launched0)"
    by (simp only: launched0_def prod.collapse)
  then have first: "service_step env0 config0 (empty_world, no_workers) (snd launched0)"
    by (rule service_step.launched)
  have "pool_step (snd (snd launched0)) busy0"
    using pool_step.taken [of "snd (snd launched0)" "\<lparr>xc_max = 2, xc_queue = [job0], xc_working = []\<rparr>"]
    by (simp add: launched0 busy0_def take_job_def)
  then have second: "service_step env0 config0 (snd launched0) (fst (snd launched0), busy0)"
    using service_step.threaded [of "snd (snd launched0)" busy0 env0 config0 "fst (snd launched0)"] by (simp only: prod.collapse)
  show ?thesis by (rule rtranclp.rtrancl_into_rtrancl [OF r_into_rtranclp [of "service_step env0 config0", OF first] second])
qed



end
