(* ===== verification/Schemas.thy ===== *)
theory Schemas
  imports Api
begin

text \<open>
  The response models of \<^verbatim>\<open>shared/schemas.py\<close> and \<^verbatim>\<open>app/api/schemas.py\<close> for the answers that are built as dicts.
  FastAPI validates what a handler returns against its model: a body that does not fit is answered with a bare
  500, after everything the handler did. \<open>fits\<close> is what pydantic takes as it is; it also converts some values,
  such as a numeric text for an int, which no answer relies on. An answer that fits is published with the
  fields of the model alone, a missing one by its default.
\<close>

section \<open>Models and what fits them\<close>

datatype field_type =
    FStr | FInt | FBool | FDict
  | FLiteral "string list"
  | FOptional field_type
  | FListOf field_type
  | FModel "schema_field list"
and schema_field = Field string "pyval option" field_type

fun fits :: "field_type \<Rightarrow> pyval \<Rightarrow> bool" and fits_in :: "schema_field \<Rightarrow> pydict \<Rightarrow> bool" where
  "fits FStr v = is_pstr v"
| "fits FInt v = (case v of PInt _ \<Rightarrow> True | _ \<Rightarrow> False)"
| "fits FBool v = (case v of PBool _ \<Rightarrow> True | _ \<Rightarrow> False)"
| "fits FDict v = (case v of PDict _ \<Rightarrow> True | _ \<Rightarrow> False)"
| "fits (FLiteral choices) v = (case v of PStr s \<Rightarrow> s \<in> set choices | _ \<Rightarrow> False)"
| "fits (FOptional t) v = (v = PNone \<or> fits t v)"
| "fits (FListOf t) v = (case v of PList vs \<Rightarrow> \<forall>x \<in> set vs. fits t x | _ \<Rightarrow> False)"
| "fits (FModel model) v = (case v of PDict d \<Rightarrow> \<forall>f \<in> set model. fits_in f d | _ \<Rightarrow> False)"
| "fits_in (Field name dflt t) d = (case map_of d name of None \<Rightarrow> dflt \<noteq> None | Some v \<Rightarrow> fits t v)"

fun publish :: "field_type \<Rightarrow> pyval \<Rightarrow> pyval" and publish_field :: "schema_field \<Rightarrow> pydict \<Rightarrow> string \<times> pyval" where
  "publish (FModel model) v = (case v of PDict d \<Rightarrow> PDict (map (\<lambda>f. publish_field f d) model) | _ \<Rightarrow> v)"
| "publish (FListOf t) v = (case v of PList vs \<Rightarrow> PList (map (publish t) vs) | _ \<Rightarrow> v)"
| "publish (FOptional t) v = (if v = PNone then PNone else publish t v)"
| "publish t v = v"
| "publish_field (Field name dflt t) d =
     (name, case map_of d name of Some v \<Rightarrow> publish t v | None \<Rightarrow> (case dflt of Some v \<Rightarrow> v | None \<Rightarrow> PNone))"

section \<open>The models\<close>

definition check_report :: "schema_field list" where
  "check_report = [Field ''number'' None FInt, Field ''name'' None FStr, Field ''passed'' None FBool, Field ''question'' None FStr]"

definition execute_action_response :: "schema_field list" where
  "execute_action_response =
     [Field ''status'' None (FLiteral [''executed'', ''already_executed'']), Field ''proposal_id'' None FStr,
      Field ''execution_id'' None FInt, Field ''idempotency_key'' None FStr,
      Field ''idempotent_replay'' (Some (PBool False)) FBool, Field ''result'' (Some (PDict [])) FDict,
      Field ''checks'' (Some (PList [])) (FListOf (FModel check_report))]"

definition start_run_response :: "schema_field list" where
  "start_run_response = [Field ''run_id'' None FStr, Field ''status'' None FStr, Field ''goal'' None FStr]"

definition gateway_report :: "schema_field list" where
  "gateway_report =
     [Field ''executed'' None FBool, Field ''http_status'' None FInt, Field ''idempotency_key'' None FStr,
      Field ''error_code'' (Some PNone) (FOptional FStr), Field ''error_message'' (Some PNone) (FOptional FStr),
      Field ''failed_check'' (Some PNone) (FOptional FInt), Field ''checks_passed'' (Some (PList [])) (FListOf FStr),
      Field ''checks'' (Some (PList [])) (FListOf FDict), Field ''gateway_response'' (Some (PDict [])) FDict]"

definition decision_response :: "schema_field list" where
  "decision_response =
     [Field ''proposal_id'' None FStr, Field ''decision'' None FStr, Field ''status'' None FStr,
      Field ''gateway'' (Some PNone) (FOptional (FModel gateway_report))]"

definition chain_report :: "schema_field list" where
  "chain_report =
     [Field ''intact'' None FBool, Field ''length'' None FInt, Field ''head_hash'' (Some PNone) (FOptional FStr),
      Field ''broken_at_id'' (Some PNone) (FOptional FInt), Field ''reason'' (Some PNone) (FOptional FStr)]"

section \<open>The published answers\<close>

definition validated :: "schema_field list \<Rightarrow> pydict \<Rightarrow> exn + pydict" where
  "validated model d =
     raise_if (\<not> fits (FModel model) (PDict d)) (OtherError ''ValidationError'' [])
       (Inr (items_of (publish (FModel model) (PDict d))))"

definition publish_answer :: "schema_field list \<Rightarrow> pydict answer \<Rightarrow> pydict answer" where
  "publish_answer model a =
     (case a of Answer st d \<Rightarrow> (case validated model d of Inr body \<Rightarrow> Answer st body | Inl e \<Rightarrow> ServerError e) | _ \<Rightarrow> a)"

definition published_start_run :: "env \<Rightarrow> app_settings \<Rightarrow> start_request \<Rightarrow> world \<Rightarrow> pydict answer \<times> job option \<times> world" where
  "published_start_run env s q w =
     (case api_start_run env s q w of (a, j, w') \<Rightarrow> (publish_answer start_run_response a, j, w'))"

definition published_approve ::
  "env \<Rightarrow> io \<Rightarrow> gateway_settings \<Rightarrow> (nat \<Rightarrow> transport) \<Rightarrow> app_settings \<Rightarrow> string \<Rightarrow> approve_request \<Rightarrow> world \<Rightarrow>
     pydict answer \<times> world" where
  "published_approve env io gs net s proposal_id q w =
     (case api_approve env io gs net s proposal_id q w of (a, w') \<Rightarrow> (publish_answer decision_response a, w'))"

definition published_reject :: "env \<Rightarrow> app_settings \<Rightarrow> string \<Rightarrow> reject_request \<Rightarrow> world \<Rightarrow> pydict answer \<times> world" where
  "published_reject env s proposal_id q w =
     (case api_reject env s proposal_id q w of (a, w') \<Rightarrow> (publish_answer decision_response a, w'))"

definition published_attempt ::
  "env \<Rightarrow> io \<Rightarrow> gateway_settings \<Rightarrow> (nat \<Rightarrow> transport) \<Rightarrow> app_settings \<Rightarrow> string \<Rightarrow> world \<Rightarrow> pydict answer \<times> world" where
  "published_attempt env io gs net s proposal_id w =
     (case api_attempt_unapproved env io gs net s proposal_id w of (a, w') \<Rightarrow> (publish_answer decision_response a, w'))"

text \<open>The gateway's answer to an execute request, as it leaves the gateway.\<close>

definition published_execute :: "env \<Rightarrow> io \<Rightarrow> gateway_settings \<Rightarrow> request \<Rightarrow> world \<Rightarrow> (exn + pydict) \<times> world" where
  "published_execute env io gs rq w =
     (case execute_action env io gs rq w of
        (Inl e, w') \<Rightarrow> (Inl e, w')
      | (Inr r, w') \<Rightarrow> (validated execute_action_response (items_of (rs_body r)), w'))"

end
