(* ===== verification/SchemaFacts.thy ===== *)
theory SchemaFacts
  imports Schemas
begin

text \<open>
  No answer of the public API about a decision, and no answer of the gateway, is lost to the validation of
  responses: whatever the gateway says, a result, one of its refusals, a failure, or a body that is no JSON, the
  report of it fits \<^verbatim>\<open>DecisionResponse\<close>. What is shown of the gateway is a type of its error envelopes that every
  branch that raises keeps.
\<close>

section \<open>The type of an error envelope\<close>

definition error_typed :: "pydict \<Rightarrow> bool" where
  "error_typed d \<longleftrightarrow> fits (FOptional FStr) (dict_get ''code'' d) \<and> fits (FOptional FStr) (dict_get ''message'' d)
     \<and> fits (FOptional FInt) (dict_get ''failed_check'' d) \<and> (\<forall>v \<in> set (elems_of (dict_get ''checks_passed'' d)). is_pstr v)"

definition body_typed :: "pydict \<Rightarrow> bool" where
  "body_typed b \<longleftrightarrow> error_typed (items_of (dict_get ''error'' b))
     \<and> (\<forall>c \<in> set (elems_of (dict_get ''checks'' b)). \<exists>d. c = PDict d \<and> is_pstr (dict_get ''name'' d))"

definition raised_typed :: "exn \<Rightarrow> bool" where
  "raised_typed x =
     (case x of ApiError e \<Rightarrow> error_typed (dict_update [(''code'', PStr (ae_code e)), (''message'', PStr (ae_message e))] (ae_extra e))
      | _ \<Rightarrow> True)"

lemma map_of_dict_update: "map_of (dict_update d e) k = (case map_of (rev e) k of None \<Rightarrow> map_of d k | Some v \<Rightarrow> Some v)"
proof (induction e arbitrary: d)
  case Nil
  then show ?case by (simp add: dict_update_def)
next
  case (Cons kv e)
  obtain k' v where kv: "kv = (k', v)" by (cases kv)
  have "dict_update d (kv # e) = dict_update (dict_set k' v d) e" by (simp add: dict_update_def kv)
  then show ?case using Cons by (simp add: kv map_of_dict_set map_of_append map_add_def split: option.split)
qed

text \<open>An extra field that is none of the four that are read is never looked at.\<close>

definition plain_extra :: "pydict \<Rightarrow> bool" where
  "plain_extra extra = (set (map fst extra) \<inter> {''code'', ''message'', ''failed_check'', ''checks_passed''} = {})"

lemma plain_lookup:
  assumes "plain_extra extra" and "k \<in> {''code'', ''message'', ''failed_check'', ''checks_passed''}"
  shows "map_of (rev (drop_none extra)) k = None"
proof -
  have "k \<notin> set (map fst extra)" using assms unfolding plain_extra_def by blast
  then show ?thesis by (auto simp: map_of_eq_None_iff drop_none_def intro: rev_image_eqI)
qed

lemma plain_typed:
  assumes "plain_extra extra"
  shows "raised_typed (ApiError (api_err code msg status extra))"
  using plain_lookup [OF assms]
  by (simp add: raised_typed_def error_typed_def api_err_def dict_get_def map_of_dict_update is_pstr_def)

lemma refusal_extra_typed:
  assumes "plain_extra extra"
  shows "raised_typed (ApiError (api_err code msg status (refusal_extra n passed pid extra)))"
proof -
  have split: "drop_none (refusal_extra n passed pid extra) = drop_none (refusal_extra n passed pid []) @ drop_none extra"
    by (simp add: drop_none_def refusal_extra_def)
  show ?thesis
    unfolding raised_typed_def api_err_def exn.case api_error.simps error_typed_def
    using plain_lookup [OF assms]
    by (simp add: split dict_get_def map_of_dict_update map_of_append map_add_def is_pstr_def)
      (simp add: drop_none_def refusal_extra_def is_pstr_def)
qed

lemma refuse_typed: "plain_extra extra \<Longrightarrow> raised_typed (refuse n msg status pid extra)"
  unfolding refuse_def by (rule refusal_extra_typed)

section \<open>What the gateway raises\<close>

lemma raised_other [simp]: "(\<And>e. x \<noteq> ApiError e) \<Longrightarrow> raised_typed x"
  by (simp add: raised_typed_def split: exn.split)

lemma plain_extras [simp]:
  "plain_extra []" "plain_extra [(''reason'', v)]" "plain_extra [(''proposal_status'', v)]"
  "plain_extra [(''proposal_id'', v), (''execution_id'', v'), (''provider'', v'')]"
  by (simp_all add: plain_extra_def)

lemmas refusals_typed [simp] = refuse_typed [OF plain_extras(1)] refuse_typed [OF plain_extras(2)] refuse_typed [OF plain_extras(3)]
  plain_typed [OF plain_extras(1)] plain_typed [OF plain_extras(4)]

lemma malformed_typed [simp]:
  "raised_typed (ApiError (api_err code msg status [(''failed_check'', PInt 1), (''checks_passed'', PList [])]))"
  by (simp add: raised_typed_def error_typed_def api_err_def drop_none_def dict_update_def dict_get_def is_pstr_def)

lemma decode_raises: "decode env fresh raw secret = Inl x \<Longrightarrow> x \<noteq> ApiError e"
  using decode_errors [of env fresh raw secret x]
  by (cases "secret = []") (auto simp: decode_def token_error_def result_simps)

lemma check_1_typed: "check_1 env secret fresh raw = Inl x \<Longrightarrow> raised_typed x"
  by (auto simp: check_1_def split: sum.splits exn.splits dest: decode_raises)

lemma check_2_typed: "check_2 at c = Inl x \<Longrightarrow> raised_typed x"
  by (auto simp: check_2_def result_simps)

lemma check_3_typed: "check_3 key c w = Inl x \<Longrightarrow> raised_typed x"
  by (cases "find_nonce (cl_nonce c) w") (auto simp: check_3_def raise_if_def split: if_splits)

lemma check_4_typed: "check_4 at key c w = Inl x \<Longrightarrow> raised_typed x"
  by (cases "find_proposal (cl_proposal_id c) w") (auto simp: check_4_def raise_if_def split: if_splits)

lemma check_5_typed: "check_5 c p w = Inl x \<Longrightarrow> raised_typed x"
  by (cases "latest_approval (pr_id p) w") (auto simp: check_5_def raise_if_def split: if_splits)

lemma check_6_typed: "check_6 env c p = Inl x \<Longrightarrow> raised_typed x"
  by (cases "cl_payload_hash c = []") (auto simp: check_6_def result_simps hashes_equal_def compare_digest_def split: if_splits)

lemma request_key_typed: "request_key k = Inl x \<Longrightarrow> raised_typed x"
  by (cases k) (auto simp: request_key_def result_simps)

lemma verify_typed:
  assumes "verify_execution_request env secret rq fresh at w = Inl x"
  shows "raised_typed x"
  using assms unfolding verify_execution_request_def and_then_eq_Inl
  by (elim disjE exE conjE)
    (blast dest: request_key_typed check_1_typed check_2_typed check_3_typed check_4_typed check_5_typed check_6_typed | simp)+

lemma claim_raises: "claim env v w = Inl x \<Longrightarrow> x \<noteq> ApiError e"
  by (auto simp: claim_def Let_def result_simps insert_execution_def insert_nonce_def append_event_def append_after_def
      insert_event_def unique_failed_def foreign_key_failed_def)

lemma finish_raises: "finish env i p ok result err w = Inl x \<Longrightarrow> x \<noteq> ApiError e"
  by (auto simp: finish_def Let_def result_simps append_event_def append_after_def insert_event_def unique_failed_def
      split: if_splits)

lemma execution_failed_typed [simp]: "raised_typed (execution_failed msg pid i detail)"
  unfolding execution_failed_def by simp

lemma failure_raised_typed: "raised_typed (failure_raised x pid i)"
  by (cases x) simp_all

lemma winner_typed: "answer_from_the_winner v (IntegrityError m) text w = Inl x \<Longrightarrow> raised_typed x"
  using refusal_extra_typed [OF plain_extras(1)]
  by (auto simp: answer_from_the_winner_def raise_if_def split: option.splits if_splits)

lemma finish_with_typed:
  assumes "finish_with env v e outcome w = (Inl x, w')"
  shows "raised_typed x"
proof -
  have "raised_typed y" if "finish env i p ok result err w = Inl y" for i p ok result err y
    using finish_raises [OF that] by simp
  then show ?thesis using assms
    by (auto simp: finish_with_def failure_raised_typed session_scope_def split: sum.splits)
qed

lemma execute_typed:
  assumes "execute env io s a v w = (Inl x, w')"
  shows "raised_typed x"
proof (cases "vf_existing_execution v")
  case (Some e)
  with assms show ?thesis by (auto simp: execute_def replay_answer_def split: if_splits)
next
  case None
  show ?thesis
  proof (cases "claim env v w")
    case (Inl y)
    have "raised_typed y" using claim_raises [OF Inl] by simp
    then show ?thesis using assms None Inl
      by (auto simp: execute_def session_scope_def dest: winner_typed split: exn.splits)
  next
    case (Inr z)
    with assms None show ?thesis
      by (cases z) (auto simp: execute_def session_scope_def dest: finish_with_typed split: prod.splits)
  qed
qed

lemma execute_action_typed:
  assumes "execute_action env io s rq w = (Inl x, w')"
  shows "raised_typed x"
proof -
  have "raised_typed y" if "build_adapter s = Inl y" for y
    using that by (auto simp: build_adapter_def Let_def result_simps split: if_splits)
  moreover have "raised_typed y" if "require_signing_secret k = Inl y" for k y
    using that by (auto simp: require_signing_secret_def result_simps)
  ultimately show ?thesis using assms
    by (auto simp: execute_action_def dest: verify_typed execute_typed split: sum.splits prod.splits)
qed

section \<open>The answers fit\<close>

text \<open>A model is unfolded where it is wanted: at the top of an answer, and not inside it.\<close>

lemma model_simps:
  "fits (FModel model) (PDict d) = (\<forall>f \<in> set model. fits_in f d)"
  "publish (FModel model) (PDict d) = PDict (map (\<lambda>f. publish_field f d) model)"
  by simp_all

declare fits.simps(8) [simp del] publish.simps(1) [simp del]

lemma publish_plain [simp]:
  "publish (FOptional FStr) v = v" "publish (FOptional FInt) v = v"
  "publish (FListOf FStr) (PList vs) = PList vs" "publish (FListOf FDict) (PList vs) = PList vs"
proof -
  have "map (publish FStr) vs = vs" "map (publish FDict) vs = vs" by (simp_all add: map_idI)
  then show "publish (FListOf FStr) (PList vs) = PList vs" "publish (FListOf FDict) (PList vs) = PList vs" by simp_all
qed simp_all

lemma check_outcome_fits [simp]:
  "fits (FModel check_report) (check_outcome c)" "publish (FModel check_report) (check_outcome c) = check_outcome c"
  by (simp_all add: model_simps check_report_def check_outcome_def is_pstr_def)

lemma validated_execute: "validated execute_action_response (items_of (rs_body (execute_response v x))) = Inr (items_of (rs_body (execute_response v x)))"
proof -
  obtain e result replayed where x: "x = (e, result, replayed)" by (cases x)
  have "map (publish (FModel check_report)) (map check_outcome cs) = map check_outcome cs" for cs
    by (simp only: map_map o_def check_outcome_fits)
  then show ?thesis
    unfolding validated_def model_simps
    by (simp add: raise_if_def execute_action_response_def execute_response_def x is_pstr_def del: map_map)
qed

text \<open>
  The response model of the gateway neither refuses nor changes what the handler of an execute request
  returns: every result it computes, replayed ones included, leaves the gateway as it is.
\<close>

theorem execute_answer_is_published:
  "published_execute env io gs rq w =
     (case execute_action env io gs rq w of (Inl e, w') \<Rightarrow> (Inl e, w') | (Inr r, w') \<Rightarrow> (Inr (items_of (rs_body r)), w'))"
proof -
  have "\<exists>v x. r = execute_response v x" if "execute_action env io gs rq w = (Inr r, w')" for r w'
    using that by (auto simp: execute_action_def split: sum.splits prod.splits)
  then show ?thesis
    by (auto simp: published_execute_def validated_execute split: sum.splits prod.splits)
qed

lemma response_typed: "body_typed (response_dict (fst (handle_execute env io gs rq w)))"
proof (cases "execute_action env io gs rq w")
  case (Pair outcome w')
  show ?thesis
  proof (cases outcome)
    case (Inr r)
    then obtain v x where "r = execute_response v x"
      using Pair by (auto simp: execute_action_def split: sum.splits prod.splits)
    then show ?thesis using Pair Inr
      by (cases x) (auto simp: handle_execute_def response_dict_def execute_response_def body_typed_def error_typed_def
          dict_get_def check_outcome_def is_pstr_def)
  next
    case (Inl e)
    then have "raised_typed e" using Pair execute_action_typed by simp
    then show ?thesis using Pair Inl
      by (cases e) (simp_all add: handle_execute_def response_dict_def error_envelope_def raised_typed_def body_typed_def
          error_typed_def dict_get_def is_pstr_def)
  qed
qed

lemma report_fits:
  assumes "body_typed (go_body g)"
  shows "fits (FModel gateway_report) (PDict (gateway_outcome_dict g))"
proof -
  have "fits (FListOf FDict) (PList (go_checks g))"
    using assms by (auto simp: body_typed_def go_checks_def)
  moreover have "fits (FListOf FStr) (PList (go_checks_passed g))"
    using assms by (auto simp: body_typed_def error_typed_def go_checks_passed_def go_checks_def go_error_def)
  moreover have "fits (FOptional FStr) (go_error_code g)" "fits (FOptional FStr) (go_error_message g)"
    "fits (FOptional FInt) (go_failed_check g)"
    using assms by (simp_all add: body_typed_def error_typed_def go_error_code_def go_error_message_def go_failed_check_def
        go_error_def is_pstr_def split: option.split list.split)
  ultimately show ?thesis
    unfolding gateway_outcome_dict_def model_simps by (simp add: gateway_report_def is_pstr_def)
qed

lemma report_published: "publish (FModel gateway_report) (PDict (gateway_outcome_dict g)) = PDict (gateway_outcome_dict g)"
  unfolding gateway_outcome_dict_def model_simps by (simp add: gateway_report_def del: publish.simps(2,3))

lemma client_typed:
  assumes "client_execute env io gs net url token i h w = (g, w')"
  shows "body_typed (go_body g)"
proof -
  have "body_typed []" by (simp add: body_typed_def error_typed_def dict_get_def)
  then show ?thesis
    using assms by (auto simp: client_execute_def Let_def unreachable_def response_typed split: transport.splits)
qed

definition reported :: "decision_result \<Rightarrow> bool" where
  "reported d \<longleftrightarrow> (\<exists>g. dc_outcome d = Some g \<and> body_typed (go_body g))"

lemma validated_decision: "reported d \<Longrightarrow> validated decision_response (decision_dict d) = Inr (decision_dict d)"
proof -
  assume "reported d"
  then obtain g where g: "dc_outcome d = Some g" "body_typed (go_body g)" by (auto simp: reported_def)
  have "gateway_outcome_dict g \<noteq> []" by (simp add: gateway_outcome_dict_def)
  then show ?thesis
    by (simp only: validated_def model_simps)
      (simp add: raise_if_def decision_response_def decision_dict_def is_pstr_def g(1) report_fits [OF g(2)] report_published)
qed

lemma approve_reports: "approve env io gs net s i actor note b w = (Inr d, w') \<Longrightarrow> reported d"
  by (auto simp: approve_def reported_def dest!: client_typed split: sum.splits prod.splits)

lemma attempt_reports: "attempt_unapproved env io gs net s i actor w = (Inr d, w') \<Longrightarrow> reported d"
  by (auto simp: attempt_unapproved_def reported_def dest!: client_typed split: sum.splits option.splits prod.splits if_splits)

lemma publish_respond:
  assumes "\<And>d. r = Inr d \<Longrightarrow> reported d"
  shows "publish_answer decision_response (respond_decision r) = respond_decision r"
proof (cases r)
  case (Inl e)
  then show ?thesis by (cases e) (simp_all add: publish_answer_def respond_decision_def respond_def)
next
  case (Inr d)
  then show ?thesis using validated_decision [OF assms] by (simp add: publish_answer_def respond_decision_def respond_def)
qed

lemma reject_reports_nothing: "reject env i actor note w = (Inr d, w') \<Longrightarrow> dc_outcome d = None"
  by (auto simp: reject_def reject_work_def session_scope_def result_simps split: if_splits sum.splits)

lemma validated_rejection:
  "dc_outcome d = None \<Longrightarrow> validated decision_response (decision_dict d) = Inr (decision_dict d @ [(''gateway'', PNone)])"
  by (simp only: validated_def model_simps) (simp add: raise_if_def decision_response_def decision_dict_def is_pstr_def)

text \<open>
  C38: no decision is answered with a bare 500 because of its response model. Whatever the gateway answers, an
  outcome, any of its refusals, a failed execution or a body that is no JSON, or when it is not reached, the
  report of it fits and is published unchanged, so the operator sees what became of the letter; a rejection is
  published with an empty gateway field.
\<close>

theorem decision_answers_are_published:
  "published_approve env io gs net s i q w = api_approve env io gs net s i q w
   \<and> published_attempt env io gs net s i w = api_attempt_unapproved env io gs net s i w
   \<and> published_reject env s i r w =
       (case api_reject env s i r w of
          (Answer st d, w') \<Rightarrow> (Answer st (d @ [(''gateway'', PNone)]), w')
        | (a, w') \<Rightarrow> (a, w'))"
proof (intro conjI)
  show "published_approve env io gs net s i q w = api_approve env io gs net s i q w"
    by (auto simp: published_approve_def api_approve_def publish_answer_def [of _ Invalid]
        intro!: publish_respond dest: approve_reports split: prod.split)
  show "published_attempt env io gs net s i w = api_attempt_unapproved env io gs net s i w"
    by (auto simp: published_attempt_def api_attempt_unapproved_def intro!: publish_respond dest: attempt_reports split: prod.split)
  obtain x w' where x: "reject env i (operator_or (jq_actor r) (as_operator_id s)) (jq_note r) w = (x, w')" by force
  show "published_reject env s i r w =
       (case api_reject env s i r w of
          (Answer st d, w') \<Rightarrow> (Answer st (d @ [(''gateway'', PNone)]), w')
        | (a, w') \<Rightarrow> (a, w'))"
  proof (cases x)
    case (Inl e)
    then show ?thesis using x
      by (cases e) (simp_all add: published_reject_def api_reject_def publish_answer_def respond_def)
  next
    case (Inr d)
    then show ?thesis using x reject_reports_nothing
      by (simp add: published_reject_def api_reject_def publish_answer_def respond_def validated_rejection)
  qed
qed

text \<open>The answers about the chain and of a start are published as they are, too.\<close>

lemma chain_is_published: "publish_answer chain_report (verify_audit_chain env w) = verify_audit_chain env w"
proof -
  have "validated chain_report (chain_status_dict c) = Inr (chain_status_dict c)" for c
    by (simp add: validated_def model_simps chain_report_def chain_status_dict_def str_or_none_def is_pstr_def raise_if_def
        split: option.split)
  then show ?thesis by (simp add: publish_answer_def verify_audit_chain_def audit_page_def Let_def)
qed

lemma start_is_published: "published_start_run env s q w = api_start_run env s q w"
proof -
  have started: "validated start_run_response [(''run_id'', PStr i), (''status'', PStr st), (''goal'', PStr g)]
      = Inr [(''run_id'', PStr i), (''status'', PStr st), (''goal'', PStr g)]" for i st g
    by (simp add: validated_def model_simps start_run_response_def is_pstr_def raise_if_def)
  have "publish_answer start_run_response (respond n (Inl e)) = respond n (Inl e)" for n e
    by (cases e) (simp_all add: publish_answer_def respond_def)
  then show ?thesis
    by (simp add: published_start_run_def api_start_run_def start_run_def publish_answer_def [of _ Invalid]
        publish_answer_def [of _ "Answer _ _"] started Let_def split: prod.split sum.split)
qed

end
