(* ===== verification/Engine.thy ===== *)
theory Engine
  imports Settings
begin

text \<open>
  The column type of \<^verbatim>\<open>shared/types.py\<close>, and the engine of \<^verbatim>\<open>shared/db.py\<close>: one per process, made when it is first asked for, with the directory of the
  database file and the pragmas of every connection. The pragma \<^verbatim>\<open>foreign_keys\<close> is what makes SQLite check the
  foreign keys that the insertions of \<open>Models\<close> check.
\<close>

section \<open>A datetime in a column\<close>

text \<open>What is bound to a parameter of a statement: a datetime, or a value of another class, by the name of it. The text of
  the error for a column that holds something else is left out.\<close>

datatype bound_value = Instant int | OfClass string

definition process_bind_param :: "bound_value option \<Rightarrow> exn + string option" where
  "process_bind_param v =
     (case v of
        None \<Rightarrow> Inr None
      | Some (OfClass name) \<Rightarrow> Inl (TypeError (''expected datetime, got '' @ name))
      | Some (Instant t) \<Rightarrow> Inr (Some (format_utc t)))"

definition process_result_value :: "string option \<Rightarrow> exn + int option" where
  "process_result_value v =
     (case v of
        None \<Rightarrow> Inr None
      | Some s \<Rightarrow>
          (case parse_utc s of
             Some t \<Rightarrow> Inr (Some t)
           | None \<Rightarrow> Inl (ValueError [])))"

text \<open>The rows of \<open>Models\<close> hold the instants themselves: what is stored is read back as the same instant.\<close>

lemma column_roundtrip:
  assumes "pred_option instant_ok v"
  shows "and_then (process_bind_param (map_option Instant v)) process_result_value = Inr v"
  using assms by (cases v) (simp_all add: process_bind_param_def process_result_value_def parse_format_utc)

section \<open>The URL\<close>

text \<open>\<^verbatim>\<open>url.split(sep)\<close> for a separator that is not empty.\<close>

fun split_from :: "nat \<Rightarrow> string \<Rightarrow> string \<Rightarrow> string list" where
  "split_from n sep [] = [[]]"
| "split_from (Suc n) sep (c # s) = split_from n sep s"
| "split_from 0 sep (c # s) =
     (if prefix sep (c # s) then [] # split_from (length sep - 1) sep s
      else case split_from 0 sep s of [] \<Rightarrow> [[c]] | p # ps \<Rightarrow> (c # p) # ps)"

definition DEFAULT_URL :: string where "DEFAULT_URL = ''sqlite:////data/collections.db''"

definition database_url :: "(string \<times> string) list \<Rightarrow> string" where
  "database_url environ =
     (case map_of environ ''DATABASE_URL'' of None \<Rightarrow> DEFAULT_URL | Some u \<Rightarrow> if u = [] then DEFAULT_URL else u)"

definition is_sqlite :: "string \<Rightarrow> bool" where "is_sqlite url = prefix ''sqlite'' url"

text \<open>The file whose directory is made, if it is one.\<close>

definition database_file :: "string \<Rightarrow> string option" where
  "database_file url =
     (let path = last (split_from 0 ''sqlite:///'' url)
      in if is_sqlite url \<and> path \<noteq> [] \<and> path \<noteq> '':memory:'' then Some path else None)"

section \<open>The engine and its sessions\<close>

record db_engine =
  en_url :: string
  en_check_same_thread :: bool
  en_pragmas :: "string list"

record db_module =
  dm_engine :: "db_engine option"
  dm_factory :: "db_engine option"

text \<open>What making the directory and SQLAlchemy's \<^verbatim>\<open>create_engine\<close> come to.\<close>

record db_host =
  dh_mkdir :: "string \<Rightarrow> exn + unit"
  dh_create :: "string \<Rightarrow> exn + unit"

definition sqlite_pragmas :: "string list" where
  "sqlite_pragmas =
     [''PRAGMA journal_mode=WAL'', ''PRAGMA busy_timeout=5000'', ''PRAGMA foreign_keys=ON'', ''PRAGMA synchronous=NORMAL'']"

definition make_engine :: "string \<Rightarrow> db_engine" where
  "make_engine url =
     \<lparr>en_url = url, en_check_same_thread = (\<not> is_sqlite url), en_pragmas = (if is_sqlite url then sqlite_pragmas else [])\<rparr>"

definition get_engine :: "db_host \<Rightarrow> (string \<times> string) list \<Rightarrow> db_module \<Rightarrow> (exn + db_engine) \<times> db_module" where
  "get_engine h environ m =
     (case dm_engine m of
        Some e \<Rightarrow> (Inr e, m)
      | None \<Rightarrow>
          let url = database_url environ in
          (case (case database_file url of None \<Rightarrow> Inr () | Some path \<Rightarrow> dh_mkdir h path) of
             Inl e \<Rightarrow> (Inl e, m)
           | Inr _ \<Rightarrow>
               (case dh_create h url of
                  Inl e \<Rightarrow> (Inl e, m)
                | Inr _ \<Rightarrow> (Inr (make_engine url), m\<lparr>dm_engine := Some (make_engine url), dm_factory := Some (make_engine url)\<rparr>))))"

definition get_session_factory :: "db_host \<Rightarrow> (string \<times> string) list \<Rightarrow> db_module \<Rightarrow> (exn + db_engine) \<times> db_module" where
  "get_session_factory h environ m =
     (case get_engine h environ m of
        (Inl e, m') \<Rightarrow> (Inl e, m')
      | (Inr _, m') \<Rightarrow> (case dm_factory m' of None \<Rightarrow> (Inl AssertionError, m') | Some f \<Rightarrow> (Inr f, m')))"

text \<open>A session is one of its engine: its connection has run the engine's pragmas.\<close>

definition new_session :: "db_host \<Rightarrow> (string \<times> string) list \<Rightarrow> db_module \<Rightarrow> (exn + db_engine) \<times> db_module" where
  "new_session h environ m = get_session_factory h environ m"

definition reset_engine_for_tests :: "db_module \<Rightarrow> db_module" where
  "reset_engine_for_tests m = m\<lparr>dm_engine := None, dm_factory := None\<rparr>"

section \<open>One engine, with foreign keys\<close>

text \<open>The module from its import on, under any calls in any environments.\<close>

inductive module_state :: "db_module \<Rightarrow> bool" where
  imported: "module_state \<lparr>dm_engine = None, dm_factory = None\<rparr>"
| asked: "module_state m \<Longrightarrow> new_session h environ m = (r, m') \<Longrightarrow> module_state m'"
| reset: "module_state m \<Longrightarrow> module_state (reset_engine_for_tests m)"

lemma get_engine_cases:
  "(\<exists>e. get_engine h environ m = (Inr e, m) \<and> dm_engine m = Some e) \<or> (\<exists>x. get_engine h environ m = (Inl x, m))
   \<or> (\<exists>url. get_engine h environ m =
        (Inr (make_engine url), m\<lparr>dm_engine := Some (make_engine url), dm_factory := Some (make_engine url)\<rparr>))"
  by (auto simp: get_engine_def Let_def split: option.splits sum.splits)

lemma module_state_engine:
  assumes "module_state m"
  shows "dm_factory m = dm_engine m \<and> (\<forall>e. dm_engine m = Some e \<longrightarrow> e = make_engine (en_url e))"
  using assms
proof (induction rule: module_state.induct)
  case (asked m h environ r m')
  have "m' = snd (get_engine h environ m)"
    using asked(2) by (auto simp: new_session_def get_session_factory_def split: prod.splits sum.splits option.splits)
  then show ?case
    using asked(3) get_engine_cases [of h environ m] by (elim disjE exE conjE) (simp_all add: make_engine_def)
qed (simp_all add: reset_engine_for_tests_def)

text \<open>
  Every session of a module in use is one of the module's engine, whatever the environment says by then, and on
  SQLite its connection has switched foreign keys on; the assertion of \<^verbatim>\<open>get_session_factory\<close> cannot fail.
\<close>

lemma sessions_enforce_foreign_keys:
  assumes "module_state m" and "dm_engine m = Some e"
  shows "new_session h environ m = (Inr e, m) \<and> (is_sqlite (en_url e) \<longrightarrow> ''PRAGMA foreign_keys=ON'' \<in> set (en_pragmas e))"
proof -
  note engine = module_state_engine [OF assms(1)]
  have "new_session h environ m = (Inr e, m)"
    using engine assms(2) by (simp add: new_session_def get_session_factory_def get_engine_def)
  moreover have "e = make_engine (en_url e)" using engine assms(2) by simp
  then have "is_sqlite (en_url e) \<Longrightarrow> en_pragmas e = sqlite_pragmas" by (metis db_engine.select_convs(3) make_engine_def)
  then have "is_sqlite (en_url e) \<longrightarrow> ''PRAGMA foreign_keys=ON'' \<in> set (en_pragmas e)" by (simp add: sqlite_pragmas_def)
  ultimately show ?thesis by blast
qed

lemma default_database: "database_url [] = DEFAULT_URL" "database_file DEFAULT_URL = Some ''/data/collections.db''"
  by (simp add: database_url_def) code_simp

end
