(* ===== verification/Inspect.thy ===== *)
theory Inspect
  imports AgentLoop AgentTools
begin

text \<open>
  \<^verbatim>\<open>scripts/show_agent_tools.py\<close>: the toolset as the model receives it, and the five checks on it that decide
  the exit status. The stub in the reader's place is not called, so any client stands for it; what is printed
  is left out.
\<close>

section \<open>The inspection\<close>

definition SEND_WORDS :: "string list" where
  "SEND_WORDS = [''send'', ''email'', ''deliver'', ''dispatch'', ''execute'', ''transmit'', ''mail'', ''notify'']"

definition inspection_toolset :: "stripe_client \<Rightarrow> unicode \<Rightarrow> string \<Rightarrow> toolset" where
  "inspection_toolset c u run_id =
     \<lparr>ts_client = c, ts_unicode = u, ts_run_id = run_id, ts_floor = 1, ts_max_proposals = 10, ts_ttl_hours = 72\<rparr>"

text \<open>\<^verbatim>\<open>build\<close>: a run in a database of its own, and its registry.\<close>

definition inspected :: "env \<Rightarrow> stripe_client \<Rightarrow> unicode \<Rightarrow> world \<Rightarrow> (exn + registry) \<times> world" where
  "inspected env c u w =
     (case session_scope (create_run env ''tool schema inspection'' ''inspector'' []) w of
        (Inl e, w1) \<Rightarrow> (Inl e, w1)
      | (Inr run_id, w1) \<Rightarrow> (build_registry env (inspection_toolset c u run_id), w1))"

definition wire :: "registry \<Rightarrow> string" where
  "wire reg = spaced escape_ascii (PList (anthropic_schemas reg))"

definition suspicious :: "registry \<Rightarrow> string list" where
  "suspicious reg =
     filter (\<lambda>name. list_ex (\<lambda>word. contains word (map ascii_lower name)) SEND_WORDS) (map fst (classification reg))"

definition inspection_checks :: "registry \<Rightarrow> bool list" where
  "inspection_checks reg =
     (let classes = map snd (classification reg) in
      [length (classification reg) = 5,
       sort (remdups classes) = [''DRAFT'', ''READ''],
       filter (\<lambda>k. k = ''ACTION'') classes = [],
       suspicious reg = [],
       \<not> contains ''send_collection_letter'' (wire reg)])"

definition inspection_status :: "registry \<Rightarrow> nat" where
  "inspection_status reg = (if list_all (\<lambda>ok. ok) (inspection_checks reg) then 0 else 1)"

definition inspection_main :: "env \<Rightarrow> stripe_client \<Rightarrow> unicode \<Rightarrow> bool \<Rightarrow> world \<Rightarrow> exn + nat" where
  "inspection_main env c u json w =
     and_then (fst (inspected env c u w)) (\<lambda>reg. Inr (if json then 0 else inspection_status reg))"

section \<open>It passes\<close>

text \<open>The schemas do not depend on the client, the texts or the run.\<close>

definition all_schemas :: "pyval list" where
  "all_schemas =
     map (\<lambda>(name, d, s). PDict [(''name'', PStr name), (''description'', PStr d), (''input_schema'', PDict s), (''strict'', PBool True)])
       [(''list_overdue_invoices'', list_overdue_invoices_description, list_overdue_invoices_schema),
        (''get_invoice'', get_invoice_description, get_invoice_schema),
        (''get_customer'', get_customer_description, get_customer_schema),
        (''get_payment_history'', get_payment_history_description, get_payment_history_schema),
        (''propose_collection_letter'', propose_collection_letter_description, propose_collection_letter_schema)]"

lemma schemas_of:
  "build_registry env ts = Inr reg \<Longrightarrow> anthropic_schemas reg = all_schemas"
  unfolding build_registry_eq
  by (auto simp: anthropic_schemas_def read_tools_def draft_tool_def to_anthropic_def all_schemas_def)

text \<open>A text of printable characters without quotes and backslashes is written as it is.\<close>

definition plain_char :: "char \<Rightarrow> bool" where
  "plain_char c = (32 \<le> byte_of c \<and> byte_of c < 127 \<and> byte_of c \<noteq> 34 \<and> byte_of c \<noteq> 92)"

definition plain :: "string \<Rightarrow> bool" where
  "plain s = list_all plain_char s"

lemma escape_plain: "plain s \<Longrightarrow> escape_ascii s = s"
proof -
  assume p: "plain s"
  have "is_ascii s" using p by (induction s) (simp_all add: plain_def is_ascii_def plain_char_def)
  moreover have "escape_codepoint (byte_of c) = [c]" if "plain_char c" for c
    using that by (simp add: plain_char_def escape_codepoint_def escape_control_def Let_def)
  then have "concat (map (\<lambda>c. escape_codepoint (byte_of c)) s) = s"
    using p by (induction s) (simp_all add: plain_def)
  ultimately show ?thesis by (simp add: escape_ascii_def codepoints_ascii comp_def)
qed

lemma json_plain: "plain s \<Longrightarrow> json_string escape_ascii s = quote_char # s @ [quote_char]"
  by (simp add: json_string_def escape_plain)

lemmas written = json_plain plain_def plain_char_def schema_def parameter_def nullable_def

text \<open>No tool names the action, and none can where two tools meet.\<close>

definition schema_of :: "string \<Rightarrow> string \<Rightarrow> pydict \<Rightarrow> pyval" where
  "schema_of name d s =
     PDict [(''name'', PStr name), (''description'', PStr d), (''input_schema'', PDict s), (''strict'', PBool True)]"

abbreviation names_the_action :: "string \<Rightarrow> bool" where
  "names_the_action s \<equiv> contains ''send_collection_letter'' s"

lemma list_overdue_silent:
  "\<not> names_the_action (spaced escape_ascii
     (schema_of ''list_overdue_invoices'' list_overdue_invoices_description list_overdue_invoices_schema))"
  by (simp add: schema_of_def list_overdue_invoices_description_def list_overdue_invoices_schema_def written)

lemma get_invoice_silent:
  "\<not> names_the_action (spaced escape_ascii (schema_of ''get_invoice'' get_invoice_description get_invoice_schema))"
  by (simp add: schema_of_def get_invoice_description_def get_invoice_schema_def written)

lemma get_customer_silent:
  "\<not> names_the_action (spaced escape_ascii (schema_of ''get_customer'' get_customer_description get_customer_schema))"
  by (simp add: schema_of_def get_customer_description_def get_customer_schema_def written)

lemma get_payment_history_silent:
  "\<not> names_the_action (spaced escape_ascii
     (schema_of ''get_payment_history'' get_payment_history_description get_payment_history_schema))"
  by (simp add: schema_of_def get_payment_history_description_def get_payment_history_schema_def written)

lemma propose_silent:
  "\<not> names_the_action (spaced escape_ascii
     (schema_of ''propose_collection_letter'' propose_collection_letter_description propose_collection_letter_schema))"
  by (simp add: schema_of_def propose_collection_letter_description_def propose_collection_letter_schema_def tones_def written)

lemma prefix_before: "c \<notin> set n \<Longrightarrow> prefix n (a @ c # b) \<Longrightarrow> prefix n a"
proof (induction n arbitrary: a)
  case Nil
  then show ?case by simp
next
  case (Cons x n)
  show ?case
  proof (cases a)
    case Nil
    then show ?thesis using Cons.prems by simp
  next
    case (Cons y a')
    then show ?thesis using Cons.prems Cons.IH [of a'] by simp
  qed
qed

lemma contains_apart: "c \<notin> set n \<Longrightarrow> contains n (a @ c # b) \<Longrightarrow> contains n a \<or> contains n b"
proof (induction a)
  case Nil
  then have "prefix n (c # b) \<Longrightarrow> n = []" by (cases n) simp_all
  moreover have "contains [] b" by (cases b) simp_all
  ultimately show ?case using Nil(2) by auto
next
  case (Cons x a)
  then show ?case using prefix_before [of c n "x # a" b] by auto
qed

lemma action_in_list:
  "names_the_action (join '', '' xs) \<Longrightarrow> \<exists>x \<in> set xs. names_the_action x"
proof (induction "'', ''" xs rule: join.induct)
  case (3 x y zs)
  then have "names_the_action (x @ CHR '','' # CHR '' '' # join '', '' (y # zs))" by simp
  from contains_apart [OF _ this] have "names_the_action x \<or> names_the_action (CHR '' '' # join '', '' (y # zs))" by simp
  moreover have "names_the_action (CHR '' '' # s) \<Longrightarrow> names_the_action s" for s by simp
  ultimately show ?case using 3(1) by auto
qed simp_all

lemma wire_is_silent: "\<not> names_the_action (spaced escape_ascii (PList all_schemas))"
proof
  let ?wires = "map (spaced escape_ascii) all_schemas"
  assume "names_the_action (spaced escape_ascii (PList all_schemas))"
  then have "names_the_action (CHR ''['' # join '', '' ?wires @ [CHR '']''])" by simp
  then have "names_the_action (join '', '' ?wires @ [CHR '']''])" by simp
  from contains_apart [OF _ this] have "names_the_action (join '', '' ?wires)" by simp
  then obtain v where "v \<in> set all_schemas" "names_the_action (spaced escape_ascii v)" using action_in_list by fastforce
  then show False
    using list_overdue_silent get_invoice_silent get_customer_silent get_payment_history_silent propose_silent
    unfolding all_schemas_def schema_of_def [symmetric] by (auto simp del: spaced.simps)
qed

lemma no_name_suggests_acting:
  "build_registry env ts = Inr reg \<Longrightarrow> suspicious reg = []"
  unfolding build_registry_eq
  by (auto simp: suspicious_def classification_def read_tools_def draft_tool_def SEND_WORDS_def ascii_lower_def)

text \<open>
  The inspection of the toolset passes, whatever the run: five tools of the classes READ and DRAFT and
  none of the class ACTION, no name with a word for acting in it, and no mention of the action that sends a
  letter in all the JSON that the model receives about its tools.
\<close>

theorem inspection_passes: "\<exists>reg. build_registry env ts = Inr reg \<and> inspection_status reg = 0"
proof -
  obtain reg where reg: "build_registry env ts = Inr reg" using build_registry_eq by blast
  have classes: "classification reg = [(''list_overdue_invoices'', ''READ''), (''get_invoice'', ''READ''),
      (''get_customer'', ''READ''), (''get_payment_history'', ''READ''), (''propose_collection_letter'', ''DRAFT'')]"
    using reg unfolding build_registry_eq by (auto simp: classification_def read_tools_def draft_tool_def)
  have "sort (remdups (map snd (classification reg))) = [''DRAFT'', ''READ'']" unfolding classes by code_simp
  moreover have "\<not> names_the_action (wire reg)" using wire_is_silent by (simp add: wire_def schemas_of [OF reg] del: spaced.simps)
  ultimately have "inspection_status reg = 0"
    by (simp add: inspection_status_def inspection_checks_def Let_def no_name_suggests_acting [OF reg] classes)
  then show ?thesis using reg by blast
qed

end
