(* ===== verification/Spec2Isabelle.thy ===== *)
theory Spec2Isabelle
  imports Money Witnesses AgentWitnesses PageWitnesses ScriptWitnesses DemoWitness WorkerWitness SchemaFacts Engine Inspect Settings
begin

text \<open>
  The verification of the Stripe collections agent: an agent service that reads overdue invoices and
  drafts letters, an operator who decides on them, and a gateway that sends what was approved. The two
  services share one SQLite database; the agent service holds a read key for Stripe and the secret that
  signs approvals, the gateway the credentials that act.

  The program's parts and the theories that model them, in the order they build on each other:

  \<^item> Foundations. \<open>Prelude\<close> has results as sums and Python strings as UTF-8 bytes; \<open>PyValues\<close> the
    dynamically typed values; \<open>Clock\<close> models \<^verbatim>\<open>shared/clock.py\<close> and \<^verbatim>\<open>shared/types.py\<close>; \<open>Errors\<close> models
    \<^verbatim>\<open>shared/errors.py\<close> and everything a function raises; \<open>Json\<close>, \<open>JsonRoundtrip\<close> and \<open>Hashing\<close> model
    \<^verbatim>\<open>shared/hashing.py\<close> and the JSON it stands on, with the round trip of writer and reader; \<open>Regex\<close> what
    is used of Python's \<^verbatim>\<open>re\<close>; \<open>Money\<close> models \<^verbatim>\<open>shared/money.py\<close>.
  \<^item> The approval token. \<open>Token\<close> models \<^verbatim>\<open>shared/approval_token.py\<close>: minting and decoding are inverse, only
    what carries the HMAC decodes, and which exceptions leave the decoder.
  \<^item> The database. \<open>Models\<close> models \<^verbatim>\<open>shared/models.py\<close>: rows, the constraints of an INSERT and their
    invariant \<open>wf_world\<close>. \<open>AuditLog\<close> models \<^verbatim>\<open>shared/audit.py\<close> and the transactions of \<^verbatim>\<open>shared/db.py\<close>, over the
    locale \<open>commitment\<close>. \<open>Store\<close> models \<^verbatim>\<open>app/store/repositories.py\<close>; its locales \<open>table_invariant\<close> and
    \<open>world_invariant\<close> are the contract between an invariant of the database and the primitive changes, and
    are interpreted on the constraints, the chain and the payload hashes.
  \<^item> The gateway. \<open>Email\<close> models the adapters, the settings and the Stripe write of \<^verbatim>\<open>gateway/\<close>; \<open>Verify\<close> the
    seven checks of \<^verbatim>\<open>gateway/verify.py\<close>; \<open>Executor\<close> models \<^verbatim>\<open>gateway/executor.py\<close> and \<^verbatim>\<open>gateway/api.py\<close>: claim, delivery,
    finish, idempotent replay and refusals.
  \<^item> The operator. \<open>Approval\<close> models \<^verbatim>\<open>app/services/proposals.py\<close>, \<^verbatim>\<open>app/approval/\<close> and \<^verbatim>\<open>app/gateway_client.py\<close>.
  \<^item> The boundary. \<open>Boundary\<close> interleaves the units of work of the agent service with any number of
    requests in flight in the gateway and with crashes, as the step relation \<open>step\<close>; its invariant gives
    that no proposal is mailed twice and that every mail was approved.
  \<^item> The letter. \<open>Guardrails\<close> models \<^verbatim>\<open>app/agent/guardrails.py\<close>; \<open>LetterReview\<close> states of the letter's text what
    an accepted letter says and does not say.
  \<^item> Reading Stripe. \<open>StripeRead\<close> models \<^verbatim>\<open>app/stripe_client/read.py\<close>; \<open>InvoiceReading\<close> has its retries, the
    overdue query, the days overdue and the address a letter may go to.
  \<^item> The agent. \<open>Tools\<close> models \<^verbatim>\<open>app/agent/tools/\<close>, \<open>Prompts\<close> the prompt and \<^verbatim>\<open>app/guards.py\<close>, \<open>AgentLoop\<close>
    \<^verbatim>\<open>app/agent/llm.py\<close>, \<^verbatim>\<open>app/agent/loop.py\<close> and \<^verbatim>\<open>app/runner.py\<close>. \<open>AgentTools\<close> and \<open>AgentRuns\<close> prove what a
    call and a whole run can do. The locale \<open>database_relation\<close> is the contract of a relation between
    databases that every call stays within, and \<open>run_relation\<close> extends it to the loop; they are interpreted
    on "no row changed", on sequences of the steps of \<open>Boundary\<close>, on the changes that decide and send
    nothing, and on the cap of proposals. \<open>Workers\<close> models the thread pool of \<^verbatim>\<open>app/runner.py\<close> as the step
    relation \<open>service_step\<close>, and shows that the pool stays within its size and never jams.
  \<^item> What is shown. \<open>Queries\<close> models \<^verbatim>\<open>app/api/queries.py\<close>, \<open>Api\<close> \<^verbatim>\<open>app/api/v1.py\<close> and \<^verbatim>\<open>app/api/schemas.py\<close> with
    the event stream, \<open>Web\<close> the pages and forms of \<^verbatim>\<open>app/web/routes.py\<close>, \<open>Markdown\<close> \<^verbatim>\<open>app/web/markdown.py\<close>.
    \<open>QueryFacts\<close> shows that the queue, the list of runs and the audit pages show what the database holds;
    \<open>AgentTranscript\<close> that the history beside a letter is the one a run of the agent read; \<open>ApiFacts\<close> that the
    event stream is the transcript, where it ends too early and which transcripts cannot be shown; \<open>WebFacts\<close>
    has the folding of answers into calls and the numbers of the form. \<open>Schemas\<close> models the response models
    of \<^verbatim>\<open>shared/schemas.py\<close> and \<^verbatim>\<open>app/api/schemas.py\<close> that validate answers built as dicts; \<open>SchemaFacts\<close> shows
    that they refuse none of them and leave nothing out, whatever the gateway answered.
  \<^item> The start. \<open>Startup\<close> models \<^verbatim>\<open>shared/schema.py\<close>, \<^verbatim>\<open>app/main.py\<close> and \<^verbatim>\<open>gateway/main.py\<close>; \<open>StartupFacts\<close> shows
    what a start leaves: the schema of the models, no run that nothing executes, none that waits in vain.
    \<open>Settings\<close> models \<^verbatim>\<open>shared/config.py\<close>, \<^verbatim>\<open>app/config.py\<close> and \<^verbatim>\<open>gateway/config.py\<close>: neither service's settings
    depend on the other's credentials. \<open>Engine\<close> models the column type of \<^verbatim>\<open>shared/types.py\<close> and the engine of
    \<^verbatim>\<open>shared/db.py\<close>: every session enforces foreign keys.
  \<^item> The scripts. \<open>Seed\<close> models \<^verbatim>\<open>scripts/seed_stripe_test_data.py\<close> as the sequence of its calls; \<open>SeedFacts\<close> has
    the rules of Stripe's test mode that the script's comments name, as a function that accepts a call or
    refuses it, and shows that the whole sequence is accepted and what it leaves. \<open>Fixture\<close> models
    \<^verbatim>\<open>scripts/dev_seed_run.py\<close>, which runs the real loop on a scripted model; \<open>FixtureFacts\<close> shows which invoices
    it picks and that its letters state what the review asks for. \<open>Inspect\<close> models
    \<^verbatim>\<open>scripts/show_agent_tools.py\<close> and shows that its checks pass. \<open>Demo\<close> models \<^verbatim>\<open>scripts/demo_boundary.py\<close>, which
    sends the gateway forged, stale, undecided, altered, replayed and proper requests; \<open>DemoFacts\<close> shows step by
    step how each is answered, and that the whole script returns 0 with one letter sent.
  \<^item> \<open>Scenario\<close>, \<open>AgentScenario\<close>, \<open>Witnesses\<close>, \<open>AgentWitnesses\<close>, \<open>PageWitnesses\<close>, \<open>ScriptWitnesses\<close>, \<open>DemoWitness\<close> and
    \<open>WorkerWitness\<close> run the model on concrete data and apply each property that has hypotheses there.

  Parameters, as fields of records: SHA-256, the clock, uuids, pydantic's coercion of integers and its
  error text (\<open>env\<close>); the mail servers, the disk and the Stripe write API (\<open>io\<close>); the replies of Stripe, one
  per call (\<open>stripe_client\<close>); the replies of the model, one per request (\<open>model\<close>); the Unicode tables, NFKC,
  the check of bracketed hosts and \<^verbatim>\<open>repr\<close> (\<open>unicode\<close>); SQLAlchemy's \<^verbatim>\<open>create_all\<close> and what the database
  answers to a statement of the migration (\<open>ddl\<close>); markupsafe's \<^verbatim>\<open>escape\<close>; what a reading of the event stream
  finds in the database (\<open>poll\<close>); what Stripe's test mode answers to a call of the seeding script
  (\<open>stripe_write\<close>); how pydantic reads a setting from its text (\<open>coercions\<close>); whether the
  directory of the database can be made and SQLAlchemy makes an engine (\<open>db_host\<close>). Collision freedom of SHA-256 is
  not assumed, and such properties end in "or here is a collision", with one exception: the run of the
  demonstration script is shown for an ideal SHA-256, as its hypotheses say.

  Fuel and bounds. The JSON reader and \<open>find_all\<close> recurse on fuel that the length of the text covers. The
  loop's fuel is its own bound of 40 turns, and running out of it is the source's own branch; the attempts
  of a Stripe call are the range of its loop; the wait for a test clock, which sleeps a second in each
  turn, has 121 turns for its two minutes; \<open>walk_result\<close> has fuel five because the source stops below
  depth four. Every function is total, so that each run, request and decision ends.

  Limits. Strings are UTF-8 bytes and \<^verbatim>\<open>lower\<close>, \<^verbatim>\<open>upper\<close> and \<^verbatim>\<open>isalpha\<close> are those of ASCII; floats are left
  out but for the numbers of a form, and so are the pauses' jitter and JSON in UTF-16 or UTF-32; \<^verbatim>\<open>int\<close> of a string reads ASCII digits; the
  order of a \<^verbatim>\<open>GROUP BY\<close> is that of first appearance; the index of a clock reading may skip when an operation
  raises; logging is left out. \<open>mails\<close> and \<open>sy_sent\<close> are logs that no code reads.

  Not modelled: FastAPI's routing and the parsing of requests, which come as records; the response models of
  the answers that are built from such records (rows of a list, a page of the audit log); the templates;
  the making of the FastAPI applications; logging; and what the scripts print.
\<close>

end
